(* ===== verification/Prelude.thy ===== *)
theory Prelude
  imports Main "HOL-Library.Sublist"
begin

section \<open>Shared vocabulary of the development\<close>

text \<open>
  What every component uses: the byte view of source text (a Go string is a sequence of
  bytes, here a list of \<open>char\<close>, which in HOL are eight-bit), source positions counted the
  way an editor counts them, and the collections of facts the component proofs draw on.

  \<open>lineAt src n\<close> and \<open>colAt src n\<close> are the specification of a position: the line and
  the column of byte number \<open>n\<close>, computed from the text before it. The lexer keeps the
  two numbers incrementally; its invariant says they are these.
\<close>

named_theorems moves_intros \<open>introduction rules: a lexer operation only moves forward\<close>
named_theorems wp_rules \<open>weakest-precondition rules of the parser operations\<close>
named_theorems peek_simps \<open>what the parser sees after a step\<close>

type_synonym bytes = "char list"

definition byte :: "char \<Rightarrow> nat" where
  "byte c = of_char c"

definition newline :: char where
  "newline = CHR 0x0A"

definition nul :: char where
  "nul = CHR 0x00"

subsection \<open>Positions in a text\<close>

definition lineAt :: "bytes \<Rightarrow> nat \<Rightarrow> nat" where
  "lineAt src n = Suc (length (filter (\<lambda>c. c = newline) (take n src)))"

definition colAt :: "bytes \<Rightarrow> nat \<Rightarrow> nat" where
  "colAt src n = Suc (length (takeWhile (\<lambda>c. c \<noteq> newline) (rev (take n src))))"

lemma lineAt_0 [simp]: "lineAt src 0 = 1"
  by (simp add: lineAt_def)

lemma colAt_0 [simp]: "colAt src 0 = 1"
  by (simp add: colAt_def)

lemma lineAt_Suc:
  "n < length src \<Longrightarrow> lineAt src (Suc n) = (if src ! n = newline then Suc (lineAt src n) else lineAt src n)"
  by (simp add: lineAt_def take_Suc_conv_app_nth)

lemma colAt_Suc:
  "n < length src \<Longrightarrow> colAt src (Suc n) = (if src ! n = newline then 1 else Suc (colAt src n))"
  by (simp add: colAt_def take_Suc_conv_app_nth)

lemma lineAt_mono: "m \<le> n \<Longrightarrow> lineAt src m \<le> lineAt src n"
  by (metis lineAt_def le_Suc_ex Suc_le_mono take_add filter_append length_append le_add1)

subsection \<open>Segments of a text\<close>

text \<open>\<open>slice src i j\<close> is Go's \<open>src[i:j]\<close> for \<open>i \<le> j \<le> len(src)\<close>.\<close>

definition slice :: "'a list \<Rightarrow> nat \<Rightarrow> nat \<Rightarrow> 'a list" where
  "slice xs i j = take (j - i) (drop i xs)"

lemma slice_empty [simp]: "slice xs i i = []"
  by (simp add: slice_def)

lemma length_slice [simp]: "j \<le> length xs \<Longrightarrow> length (slice xs i j) = j - i"
  by (simp add: slice_def)

lemma slice_append:
  assumes "i \<le> j" "j \<le> k"
  shows "slice xs i j @ slice xs j k = slice xs i k"
proof -
  have "slice xs i k = take ((j - i) + (k - j)) (drop i xs)"
    using assms by (simp add: slice_def)
  also have "\<dots> = take (j - i) (drop i xs) @ take (k - j) (drop (j - i) (drop i xs))"
    by (rule take_add)
  also have "drop (j - i) (drop i xs) = drop j xs"
    using assms(1) by simp
  finally show ?thesis by (simp add: slice_def)
qed

lemma slice_Suc:
  "i < length xs \<Longrightarrow> slice xs i (Suc i) = [xs ! i]"
  by (simp add: slice_def take_Suc_conv_app_nth)

lemma slice_snoc:
  assumes "i \<le> j" "j < length xs"
  shows "slice xs i (Suc j) = slice xs i j @ [xs ! j]"
  using slice_append [of i j "Suc j" xs] slice_Suc [of j xs] assms by simp

lemma slice_whole [simp]: "slice xs 0 (length xs) = xs"
  by (simp add: slice_def)

lemma drop_nth_Cons: "i < length xs \<Longrightarrow> drop i xs = xs ! i # drop (Suc i) xs"
  by (rule Cons_nth_drop_Suc [symmetric])

subsection \<open>Sums of weights\<close>

definition sumw :: "('a \<Rightarrow> nat) \<Rightarrow> 'a list \<Rightarrow> nat" where
  "sumw w xs = sum_list (map w xs)"

lemma sumw_Nil [simp]: "sumw w [] = 0"
  by (simp add: sumw_def)

lemma sumw_Cons [simp]: "sumw w (x # xs) = w x + sumw w xs"
  by (simp add: sumw_def)

lemma sumw_append [simp]: "sumw w (xs @ ys) = sumw w xs + sumw w ys"
  by (simp add: sumw_def)

lemma sumw_drop_le: "i \<le> j \<Longrightarrow> sumw w (drop j xs) \<le> sumw w (drop i xs)"
proof -
  assume "i \<le> j"
  then have "drop i xs = take (j - i) (drop i xs) @ drop j xs"
    by (metis append_take_drop_id drop_drop le_add_diff_inverse2)
  then have "sumw w (drop i xs) = sumw w (take (j - i) (drop i xs)) + sumw w (drop j xs)"
    by (metis sumw_append)
  then show ?thesis by simp
qed

lemma sumw_drop_Suc:
  "i < length xs \<Longrightarrow> sumw w (drop i xs) = w (xs ! i) + sumw w (drop (Suc i) xs)"
  by (simp add: drop_nth_Cons)

end
