(* ===== verification/GoStrings.thy ===== *)
theory GoStrings
  imports Prelude
begin

section \<open>The part of Go's standard library the front end calls\<close>

text \<open>
  Byte-level models of the functions of \<open>strings\<close>, \<open>strconv\<close> and \<open>unicode/utf8\<close> that
  \<open>internal/lexer\<close> and \<open>internal/parser\<close> use, on byte lists. The separators and cut sets
  in these sources are ASCII, so working byte by byte agrees with Go's rune loops; the
  Unicode spaces that \<open>strings.TrimSpace\<close> also strips are listed by their UTF-8 bytes.
\<close>

subsection \<open>Byte classes\<close>

definition inRange :: "char \<Rightarrow> char \<Rightarrow> char \<Rightarrow> bool" where
  "inRange lo hi c \<longleftrightarrow> byte lo \<le> byte c \<and> byte c \<le> byte hi"

subsection \<open>Searching\<close>

fun hasPrefix :: "bytes \<Rightarrow> bytes \<Rightarrow> bool" where
  "hasPrefix s [] = True"
| "hasPrefix [] (p # ps) = False"
| "hasPrefix (c # cs) (p # ps) = (c = p \<and> hasPrefix cs ps)"

text \<open>\<open>strings.Index\<close>: the first offset, \<open>None\<close> for Go's -1.\<close>

fun indexOf :: "bytes \<Rightarrow> bytes \<Rightarrow> nat option" where
  "indexOf s p = (if hasPrefix s p then Some 0
     else case s of [] \<Rightarrow> None | c # cs \<Rightarrow> map_option Suc (indexOf cs p))"

declare indexOf.simps [simp del]

fun indexFunc :: "(char \<Rightarrow> bool) \<Rightarrow> bytes \<Rightarrow> nat option" where
  "indexFunc f [] = None"
| "indexFunc f (c # cs) = (if f c then Some 0 else map_option Suc (indexFunc f cs))"

text \<open>\<open>strings.LastIndex\<close> for a one-byte separator.\<close>

definition lastIndexByte :: "bytes \<Rightarrow> char \<Rightarrow> nat option" where
  "lastIndexByte s c = map_option (\<lambda>k. length s - Suc k) (indexFunc (\<lambda>d. d = c) (rev s))"

definition contains :: "bytes \<Rightarrow> bytes \<Rightarrow> bool" where
  "contains s p \<longleftrightarrow> indexOf s p \<noteq> None"

definition containsAny :: "bytes \<Rightarrow> bytes \<Rightarrow> bool" where
  "containsAny s cs \<longleftrightarrow> indexFunc (\<lambda>c. c \<in> set cs) s \<noteq> None"

subsection \<open>Trimming\<close>

definition asciiSpace :: "char \<Rightarrow> bool" where
  "asciiSpace c \<longleftrightarrow> c = CHR '' '' \<or> inRange (CHR 0x09) (CHR 0x0D) c"

text \<open>The multi-byte spaces of \<open>unicode.IsSpace\<close>, in UTF-8.\<close>

definition wideSpaces :: "bytes list" where
  "wideSpaces =
     [[CHR 0xC2, CHR 0x85], [CHR 0xC2, CHR 0xA0], [CHR 0xE1, CHR 0x9A, CHR 0x80]]
     @ map (\<lambda>n. [CHR 0xE2, CHR 0x80, char_of n]) ([0x80..<0x8B] @ [0xA8, 0xA9, 0xAF])
     @ [[CHR 0xE2, CHR 0x81, CHR 0x9F], [CHR 0xE3, CHR 0x80, CHR 0x80]]"

fun spacePrefix :: "bytes list \<Rightarrow> bytes \<Rightarrow> nat" where
  "spacePrefix ws [] = 0"
| "spacePrefix ws (c # cs) = (if asciiSpace c then 1
     else case filter (hasPrefix (c # cs)) ws of [] \<Rightarrow> 0 | w # _ \<Rightarrow> length w)"

fun trimLeftSpaces :: "nat \<Rightarrow> bytes list \<Rightarrow> bytes \<Rightarrow> bytes" where
  "trimLeftSpaces 0 ws s = s"
| "trimLeftSpaces (Suc n) ws s = (case spacePrefix ws s of 0 \<Rightarrow> s | Suc k \<Rightarrow> trimLeftSpaces n ws (drop (Suc k) s))"

text \<open>At most \<open>length s\<close> spaces can be stripped from either end.\<close>

definition trimSpace :: "bytes \<Rightarrow> bytes" where
  "trimSpace s =
     (let l = trimLeftSpaces (length s) wideSpaces s
      in rev (trimLeftSpaces (length l) (map rev wideSpaces) (rev l)))"

definition trimPrefix :: "bytes \<Rightarrow> bytes \<Rightarrow> bytes" where
  "trimPrefix s p = (if hasPrefix s p then drop (length p) s else s)"

definition trimSuffix :: "bytes \<Rightarrow> bytes \<Rightarrow> bytes" where
  "trimSuffix s p = (if hasPrefix (rev s) (rev p) then take (length s - length p) s else s)"

definition trimLeft :: "bytes \<Rightarrow> bytes \<Rightarrow> bytes" where
  "trimLeft s cutset = dropWhile (\<lambda>c. c \<in> set cutset) s"

definition replaceByte :: "char \<Rightarrow> bytes \<Rightarrow> bytes \<Rightarrow> bytes" where
  "replaceByte c new s = concat (map (\<lambda>d. if d = c then new else [d]) s)"

text \<open>\<open>strings.FieldsFunc\<close>: the maximal runs of bytes that are not separators.\<close>

fun fieldsFunc :: "(char \<Rightarrow> bool) \<Rightarrow> bytes \<Rightarrow> bytes \<Rightarrow> bytes list" where
  "fieldsFunc f cur [] = (if cur = [] then [] else [rev cur])"
| "fieldsFunc f cur (c # cs) =
     (if f c then (if cur = [] then [] else [rev cur]) @ fieldsFunc f [] cs
      else fieldsFunc f (c # cur) cs)"

subsection \<open>Numbers and text\<close>

definition hexValue :: "char \<Rightarrow> nat" where
  "hexValue c =
     (if inRange (CHR ''0'') (CHR ''9'') c then byte c - 48
      else if inRange (CHR ''a'') (CHR ''f'') c then byte c - 87
      else byte c - 55)"

definition digitsValue :: "nat \<Rightarrow> bytes \<Rightarrow> nat" where
  "digitsValue base s = foldl (\<lambda>n c. base * n + hexValue c) 0 s"

text \<open>
  \<open>strconv.ParseInt(s, base, bits)\<close> on a non-empty string of digits of the base, the only
  way the lexer calls it: \<open>None\<close> is the range error.
\<close>

definition parseUintBits :: "nat \<Rightarrow> nat \<Rightarrow> bytes \<Rightarrow> nat option" where
  "parseUintBits base bits s =
     (let v = digitsValue base s in if v < 2 ^ (bits - 1) then Some v else None)"

text \<open>
  \<open>strconv.Atoi\<close>: an optional sign and at least one decimal digit, within the 64-bit range.
\<close>

definition atoi :: "bytes \<Rightarrow> int option" where
  "atoi s =
     (let neg = hasPrefix s ''-'';
          ds = (if neg \<or> hasPrefix s ''+'' then drop 1 s else s)
      in if ds = [] \<or> \<not> list_all (inRange (CHR ''0'') (CHR ''9'')) ds then None
         else let v = (if neg then - int (digitsValue 10 ds) else int (digitsValue 10 ds))
              in if - (2 ^ 63) \<le> v \<and> v < 2 ^ 63 then Some v else None)"

text \<open>\<open>utf8.ValidRune\<close> and the UTF-8 encoding of a rune (\<open>string(rune(r))\<close>).\<close>

definition validRune :: "nat \<Rightarrow> bool" where
  "validRune r \<longleftrightarrow> r < 0xD800 \<or> (0xDFFF < r \<and> r \<le> 0x10FFFF)"

definition utf8Encode :: "nat \<Rightarrow> bytes" where
  "utf8Encode r =
     (if r < 0x80 then [char_of r]
      else if r < 0x800 then [char_of (0xC0 + r div 64), char_of (0x80 + r mod 64)]
      else if r < 0x10000 then
        [char_of (0xE0 + r div 4096), char_of (0x80 + r div 64 mod 64), char_of (0x80 + r mod 64)]
      else [char_of (0xF0 + r div 262144), char_of (0x80 + r div 4096 mod 64),
            char_of (0x80 + r div 64 mod 64), char_of (0x80 + r mod 64)])"

text \<open>Decimal rendering, as \<open>fmt\<close>'s \<open>%d\<close> prints a non-negative number.\<close>

fun showNat :: "nat \<Rightarrow> bytes" where
  "showNat n = (if n < 10 then [char_of (48 + n)] else showNat (n div 10) @ [char_of (48 + n mod 10)])"

declare showNat.simps [simp del]

definition hexDigitChar :: "nat \<Rightarrow> char" where
  "hexDigitChar n = char_of (if n < 10 then 48 + n else 87 + n)"

text \<open>
  \<open>%q\<close> of \<open>string(ch)\<close> for a byte \<open>ch\<close>: the rune with that number, quoted. Runes 0x80 to
  0xA0 and the soft hyphen 0xAD are not printable.
\<close>

definition quoteByteRune :: "char \<Rightarrow> bytes" where
  "quoteByteRune ch =
     (let b = byte ch;
          hex2 = [hexDigitChar (b div 16), hexDigitChar (b mod 16)];
          body =
            (if b = 7 then [CHR 0x5C, CHR ''a''] else if b = 8 then [CHR 0x5C, CHR ''b'']
             else if b = 12 then [CHR 0x5C, CHR ''f''] else if b = 10 then [CHR 0x5C, CHR ''n'']
             else if b = 13 then [CHR 0x5C, CHR ''r''] else if b = 9 then [CHR 0x5C, CHR ''t'']
             else if b = 11 then [CHR 0x5C, CHR ''v'']
             else if b = 34 \<or> b = 92 then [CHR 0x5C, ch]
             else if b < 32 \<or> b = 127 then [CHR 0x5C, CHR ''x''] @ hex2
             else if (128 \<le> b \<and> b \<le> 160) \<or> b = 173 then [CHR 0x5C, CHR ''u'', CHR ''0'', CHR ''0''] @ hex2
             else utf8Encode b)
      in [CHR 0x22] @ body @ [CHR 0x22])"

subsection \<open>Facts\<close>

lemma hasPrefix_iff: "hasPrefix s p \<longleftrightarrow> prefix p s"
  by (induction s p rule: hasPrefix.induct) auto

lemma indexOf_bound: "indexOf s p = Some k \<Longrightarrow> k + length p \<le> length s"
proof (induction s p arbitrary: k rule: indexOf.induct)
  case (1 s p)
  show ?case
  proof (cases "hasPrefix s p")
    case True
    with 1 have "k = 0" by (simp add: indexOf.simps)
    with True show ?thesis by (simp add: hasPrefix_iff prefix_length_le)
  next
    case False
    with 1 show ?thesis
      by (auto simp: indexOf.simps [of s p] split: list.splits)
  qed
qed

lemma length_trimLeftSpaces: "length (trimLeftSpaces n ws s) \<le> length s"
proof (induction n arbitrary: s)
  case (Suc n)
  have "length (trimLeftSpaces n ws (drop (Suc k) s)) \<le> length s" for k
    using Suc.IH [of "drop (Suc k) s"] by simp
  then show ?case by (simp split: nat.splits)
qed simp

lemma length_trimSpace: "length (trimSpace s) \<le> length s"
  unfolding trimSpace_def Let_def length_rev
  by (rule le_trans [OF length_trimLeftSpaces]) (simp add: length_trimLeftSpaces)

lemma length_utf8Encode: "length (utf8Encode r) \<le> 4"
  by (simp add: utf8Encode_def)

lemma hexValue_bound:
  "inRange (CHR ''0'') (CHR ''9'') c \<or> inRange (CHR ''a'') (CHR ''f'') c \<or> inRange (CHR ''A'') (CHR ''F'') c
   \<Longrightarrow> hexValue c < 16"
  by (auto simp: hexValue_def inRange_def byte_def)

end
