(* ===== verification/Ast.thy ===== *)
theory Ast
  imports GoStrings
begin

section \<open>The syntax tree (internal/ast/ast.go)\<close>

text \<open>
  One constructor per node type of the source, with the fields in the source's order. A field
  that may be Go's nil is an \<open>option\<close>: the condition of an endless loop, the key of a
  positional table field, the value of a receive case, an absent else or default block, the
  body or raw source of a tagged block, the size of an unbuffered channel.
\<close>

record Pos =
  pLine :: nat
  pColumn :: nat

definition mkPos :: "nat \<Rightarrow> nat \<Rightarrow> Pos" where
  "mkPos l c = \<lparr>pLine = l, pColumn = c\<rparr>"

record FuncParam =
  fpName :: bytes
  fpIsVarArg :: bool

record FileDirective =
  fdP :: Pos
  fdKind :: bytes
  fdArgs :: "bytes list"
  fdText :: bytes

datatype (plugins only: size code) Expr =
    NumberLit Pos bytes
  | StringLit Pos bytes
  | InterpolatedStringExpr Pos "InterpolatedStringPart list"
  | BoolLit Pos bool
  | NilLit Pos
  | VarArgExpr Pos
  | IdentExpr Pos bytes
  | TaggedStringExpr Pos bytes Expr bool
  | TaggedBlockExpr Pos bytes "ConfigField list" "BlockStmt option" bytes "Expr option" bool bool
  | BinaryExpr Pos Expr bytes Expr
  | UnaryExpr Pos bytes Expr
  | ParenExpr Pos Expr
  | IndexExpr Pos Expr Expr
  | FieldExpr Pos Expr bytes
  | CallExpr Pos Expr "Expr list"
  | MethodCallExpr Pos Expr bytes "Expr list"
  | FuncLitExpr Pos "FuncParam list" BlockStmt
  | ListLitExpr Pos "Expr list"
  | TableLitExpr Pos "TableField list"
  | DenseLitExpr Pos bytes nat "Expr list"
  | RecvExpr Pos Expr
  | MakeChanExpr Pos "Expr option"
and InterpolatedStringPart = InterpolatedStringPart bytes "Expr option"
and ConfigField = ConfigField Pos Expr Expr
and TableField = TableField "Expr option" Expr
and Stmt =
    AssignStmt Pos "Expr list" "Expr list"
  | DeclareStmt Pos "bytes list" "Expr list" bool
  | CompoundAssignStmt Pos Expr bytes Expr
  | IncDecStmt Pos Expr bytes
  | CallStmt Pos Expr
  | GoStmt Pos Expr
  | DeferStmt Pos Expr
  | SendStmt Pos Expr "Expr option"
  | SelectStmt Pos "SelectCase list" "BlockStmt option"
  | IfStmt Pos Expr BlockStmt "ElseIfClause list" "BlockStmt option"
  | ForNumStmt Pos Stmt Expr Stmt BlockStmt
  | ForRangeStmt Pos bytes bytes Expr BlockStmt
  | ForStmt Pos "Expr option" BlockStmt
  | ReturnStmt Pos "Expr list"
  | BreakStmt Pos
  | ContinueStmt Pos
  | LabelStmt Pos bytes
  | GotoStmt Pos bytes
  | EvaluateStmt Pos bytes BlockStmt
  | FuncDeclStmt Pos bytes "FuncParam list" BlockStmt
  | NestedBlock BlockStmt
and SelectCase = SelectCase Pos bytes bytes Expr "Expr option" BlockStmt
and ElseIfClause = ElseIfClause Pos Expr BlockStmt
and BlockStmt = BlockStmt Pos "Stmt list"

record Program =
  prStmts :: "Stmt list"
  prFileDirectives :: "FileDirective list"

text \<open>The \<open>GetPos\<close> methods.\<close>

fun blockPos :: "BlockStmt \<Rightarrow> Pos" where
  "blockPos (BlockStmt p ss) = p"

fun blockStmts :: "BlockStmt \<Rightarrow> Stmt list" where
  "blockStmts (BlockStmt p ss) = ss"

fun exprPos :: "Expr \<Rightarrow> Pos" where
  "exprPos (NumberLit p v) = p"
| "exprPos (StringLit p v) = p"
| "exprPos (InterpolatedStringExpr p ps) = p"
| "exprPos (BoolLit p b) = p"
| "exprPos (NilLit p) = p"
| "exprPos (VarArgExpr p) = p"
| "exprPos (IdentExpr p n) = p"
| "exprPos (TaggedStringExpr p t b f) = p"
| "exprPos (TaggedBlockExpr p t c b r e h f) = p"
| "exprPos (BinaryExpr p l op r) = p"
| "exprPos (UnaryExpr p op e) = p"
| "exprPos (ParenExpr p e) = p"
| "exprPos (IndexExpr p t i) = p"
| "exprPos (FieldExpr p t f) = p"
| "exprPos (CallExpr p f a) = p"
| "exprPos (MethodCallExpr p ob m a) = p"
| "exprPos (FuncLitExpr p ps b) = p"
| "exprPos (ListLitExpr p vs) = p"
| "exprPos (TableLitExpr p fs) = p"
| "exprPos (DenseLitExpr p d n vs) = p"
| "exprPos (RecvExpr p c) = p"
| "exprPos (MakeChanExpr p sz) = p"

fun stmtPos :: "Stmt \<Rightarrow> Pos" where
  "stmtPos (AssignStmt p ts vs) = p"
| "stmtPos (DeclareStmt p ns vs r) = p"
| "stmtPos (CompoundAssignStmt p t op v) = p"
| "stmtPos (IncDecStmt p t op) = p"
| "stmtPos (CallStmt p c) = p"
| "stmtPos (GoStmt p c) = p"
| "stmtPos (DeferStmt p c) = p"
| "stmtPos (SendStmt p c v) = p"
| "stmtPos (SelectStmt p cs d) = p"
| "stmtPos (IfStmt p c b es e) = p"
| "stmtPos (ForNumStmt p i c q b) = p"
| "stmtPos (ForRangeStmt p k v i b) = p"
| "stmtPos (ForStmt p c b) = p"
| "stmtPos (ReturnStmt p vs) = p"
| "stmtPos (BreakStmt p) = p"
| "stmtPos (ContinueStmt p) = p"
| "stmtPos (LabelStmt p n) = p"
| "stmtPos (GotoStmt p n) = p"
| "stmtPos (EvaluateStmt p n b) = p"
| "stmtPos (FuncDeclStmt p n ps b) = p"
| "stmtPos (NestedBlock b) = blockPos b"

definition programPos :: "Program \<Rightarrow> Pos" where
  "programPos prog = (case prStmts prog of [] \<Rightarrow> mkPos 1 1 | st # sts \<Rightarrow> stmtPos st)"

end
