(* ===== verification/Token.thy ===== *)
theory Token
  imports GoStrings
begin

section \<open>Tokens (internal/lexer/token.go)\<close>

text \<open>
  The token kinds in the order of the source's \<open>iota\<close> block, their printed names, the
  token and comment structures and the keyword table with \<open>LookupIdent\<close>.
\<close>

datatype (plugins only: size code) TokenType =
    TOKEN_EOF | TOKEN_ILLEGAL | TOKEN_NUMBER | TOKEN_STRING | TOKEN_RAW_BLOCK | TOKEN_TRUE
    | TOKEN_FALSE | TOKEN_NIL | TOKEN_IDENT | TOKEN_FUNC | TOKEN_RETURN | TOKEN_IF | TOKEN_ELSE
    | TOKEN_ELSEIF | TOKEN_FOR | TOKEN_RANGE | TOKEN_BREAK | TOKEN_CONTINUE | TOKEN_IN | TOKEN_VAR
    | TOKEN_GO | TOKEN_CHAN | TOKEN_DEFER | TOKEN_CONST | TOKEN_GOTO | TOKEN_ARROW | TOKEN_ASSIGN
    | TOKEN_DECLARE | TOKEN_PLUS_ASSIGN | TOKEN_MINUS_ASSIGN | TOKEN_STAR_ASSIGN
    | TOKEN_SLASH_ASSIGN | TOKEN_EQ | TOKEN_NEQ | TOKEN_LT | TOKEN_LE | TOKEN_GT | TOKEN_GE
    | TOKEN_PLUS | TOKEN_MINUS | TOKEN_STAR | TOKEN_SLASH | TOKEN_PERCENT | TOKEN_POW | TOKEN_AND
    | TOKEN_OR | TOKEN_NOT | TOKEN_BIT_AND | TOKEN_BIT_OR | TOKEN_BIT_XOR | TOKEN_BIT_AND_NOT
    | TOKEN_SHL | TOKEN_SHR | TOKEN_CONCAT | TOKEN_LEN | TOKEN_ELLIPSIS | TOKEN_INC | TOKEN_DEC
    | TOKEN_LPAREN | TOKEN_RPAREN | TOKEN_LBRACE | TOKEN_RBRACE | TOKEN_LBRACKET | TOKEN_RBRACKET
    | TOKEN_COMMA | TOKEN_SEMICOLON | TOKEN_DOT | TOKEN_COLON | TOKEN_DOLLAR

definition tokenNames :: "(TokenType \<times> string) list" where
  "tokenNames = [
    (TOKEN_EOF, ''EOF''), (TOKEN_ILLEGAL, ''ILLEGAL''), (TOKEN_NUMBER, ''NUMBER''),
    (TOKEN_STRING, ''STRING''), (TOKEN_RAW_BLOCK, ''RAW_BLOCK''), (TOKEN_TRUE, ''TRUE''),
    (TOKEN_FALSE, ''FALSE''), (TOKEN_NIL, ''NIL''), (TOKEN_IDENT, ''IDENT''),
    (TOKEN_FUNC, ''FUNC''), (TOKEN_RETURN, ''RETURN''), (TOKEN_IF, ''IF''),
    (TOKEN_ELSE, ''ELSE''), (TOKEN_ELSEIF, ''ELSEIF''), (TOKEN_FOR, ''FOR''),
    (TOKEN_RANGE, ''RANGE''), (TOKEN_BREAK, ''BREAK''), (TOKEN_CONTINUE, ''CONTINUE''),
    (TOKEN_IN, ''IN''), (TOKEN_VAR, ''VAR''), (TOKEN_GO, ''GO''), (TOKEN_CHAN, ''CHAN''),
    (TOKEN_DEFER, ''DEFER''), (TOKEN_CONST, ''CONST''), (TOKEN_GOTO, ''GOTO''),
    (TOKEN_ARROW, ''ARROW''), (TOKEN_ASSIGN, ''ASSIGN''), (TOKEN_DECLARE, ''DECLARE''),
    (TOKEN_PLUS_ASSIGN, ''PLUS_ASSIGN''), (TOKEN_MINUS_ASSIGN, ''MINUS_ASSIGN''),
    (TOKEN_STAR_ASSIGN, ''STAR_ASSIGN''), (TOKEN_SLASH_ASSIGN, ''SLASH_ASSIGN''),
    (TOKEN_EQ, ''EQ''), (TOKEN_NEQ, ''NEQ''), (TOKEN_LT, ''LT''), (TOKEN_LE, ''LE''),
    (TOKEN_GT, ''GT''), (TOKEN_GE, ''GE''), (TOKEN_PLUS, ''PLUS''), (TOKEN_MINUS, ''MINUS''),
    (TOKEN_STAR, ''STAR''), (TOKEN_SLASH, ''SLASH''), (TOKEN_PERCENT, ''PERCENT''),
    (TOKEN_POW, ''POW''), (TOKEN_AND, ''AND''), (TOKEN_OR, ''OR''), (TOKEN_NOT, ''NOT''),
    (TOKEN_BIT_AND, ''BIT_AND''), (TOKEN_BIT_OR, ''BIT_OR''), (TOKEN_BIT_XOR, ''BIT_XOR''),
    (TOKEN_BIT_AND_NOT, ''BIT_AND_NOT''), (TOKEN_SHL, ''SHL''), (TOKEN_SHR, ''SHR''),
    (TOKEN_CONCAT, ''CONCAT''), (TOKEN_LEN, ''LEN''), (TOKEN_ELLIPSIS, ''ELLIPSIS''),
    (TOKEN_INC, ''INC''), (TOKEN_DEC, ''DEC''), (TOKEN_LPAREN, ''LPAREN''),
    (TOKEN_RPAREN, ''RPAREN''), (TOKEN_LBRACE, ''LBRACE''), (TOKEN_RBRACE, ''RBRACE''),
    (TOKEN_LBRACKET, ''LBRACKET''), (TOKEN_RBRACKET, ''RBRACKET''), (TOKEN_COMMA, ''COMMA''),
    (TOKEN_SEMICOLON, ''SEMICOLON''), (TOKEN_DOT, ''DOT''), (TOKEN_COLON, ''COLON''),
    (TOKEN_DOLLAR, ''DOLLAR'')]"

text \<open>\<open>TokenType.String\<close>; every kind has an entry, so the \<open>TOKEN(%d)\<close> fallback is not reached.\<close>

definition tokenName :: "TokenType \<Rightarrow> string" where
  "tokenName t = (case map_of tokenNames t of Some name \<Rightarrow> name | None \<Rightarrow> ''TOKEN'')"

text \<open>A source comment kept as metadata of the token that follows it.\<close>

record Comment =
  cText :: bytes
  cLine :: nat
  cColumn :: nat

record Token =
  tType :: TokenType
  tValue :: bytes
  tIsRawString :: bool
  tIsSingleQuoted :: bool
  tLine :: nat
  tColumn :: nat
  tLeadingComments :: "Comment list"

text \<open>Go's zero value and the composite literal \<open>Token{Type, Value, Line, Column}\<close>.\<close>

definition mkToken :: "TokenType \<Rightarrow> bytes \<Rightarrow> nat \<Rightarrow> nat \<Rightarrow> Token" where
  "mkToken ty v ln cl = \<lparr>tType = ty, tValue = v, tIsRawString = False, tIsSingleQuoted = False,
     tLine = ln, tColumn = cl, tLeadingComments = []\<rparr>"

definition keywordTable :: "(bytes \<times> TokenType) list" where
  "keywordTable = [
    (''func'', TOKEN_FUNC), (''return'', TOKEN_RETURN), (''if'', TOKEN_IF),
    (''else'', TOKEN_ELSE), (''elseif'', TOKEN_ELSEIF), (''for'', TOKEN_FOR),
    (''range'', TOKEN_RANGE), (''break'', TOKEN_BREAK), (''continue'', TOKEN_CONTINUE),
    (''in'', TOKEN_IN), (''var'', TOKEN_VAR), (''true'', TOKEN_TRUE), (''false'', TOKEN_FALSE),
    (''nil'', TOKEN_NIL), (''go'', TOKEN_GO), (''chan'', TOKEN_CHAN), (''defer'', TOKEN_DEFER),
    (''const'', TOKEN_CONST), (''goto'', TOKEN_GOTO)]"

definition LookupIdent :: "bytes \<Rightarrow> TokenType" where
  "LookupIdent ident = (case map_of keywordTable ident of Some tok \<Rightarrow> tok | None \<Rightarrow> TOKEN_IDENT)"

subsection \<open>Facts\<close>

lemma mkToken_simps [simp]:
  "tType (mkToken ty v ln cl) = ty" "tValue (mkToken ty v ln cl) = v"
  "tLine (mkToken ty v ln cl) = ln" "tColumn (mkToken ty v ln cl) = cl"
  "tIsRawString (mkToken ty v ln cl) = False" "tIsSingleQuoted (mkToken ty v ln cl) = False"
  "tLeadingComments (mkToken ty v ln cl) = []"
  by (simp_all add: mkToken_def)

lemma LookupIdent_range: "LookupIdent w = TOKEN_IDENT \<or> LookupIdent w \<in> snd ` set keywordTable"
  by (auto simp: LookupIdent_def split: option.splits dest: map_of_SomeD intro: rev_image_eqI)

text \<open>The token types a word can have: never one that the lexer reads another way.\<close>

definition wordTypes :: "TokenType set" where
  "wordTypes = insert TOKEN_IDENT (snd ` set keywordTable)"

lemma LookupIdent_wordTypes: "LookupIdent w \<in> wordTypes"
  using LookupIdent_range [of w] by (auto simp: wordTypes_def)

lemma wordTypes_not:
  "TOKEN_EOF \<notin> wordTypes" "TOKEN_ILLEGAL \<notin> wordTypes" "TOKEN_RAW_BLOCK \<notin> wordTypes"
  "TOKEN_STRING \<notin> wordTypes" "TOKEN_NUMBER \<notin> wordTypes"
  by (simp_all add: wordTypes_def keywordTable_def)


end
