(* ===== verification/Lexer.thy ===== *)
theory Lexer
  imports Token
begin

section \<open>The lexer (internal/lexer/lexer.go)\<close>

text \<open>
  The lexer's state and every method of it, in the order of the source. A method that
  changes the receiver returns the new state; one that can fail returns
  \<open>(lex_error + 'a) \<times> lexer\<close>, the state included on failure too, because \<open>NextToken\<close>
  reads the position after an error. The scanning loops are total functions; what gets
  smaller is the number of unread bytes.
\<close>

datatype lex_error =
    UnterminatedRawBlock bytes nat nat
  | UnterminatedRawBlockString nat nat
  | UnterminatedBlockComment nat nat
  | UnterminatedStringNewline nat nat
  | UnterminatedStringEscape nat nat
  | UnterminatedString nat nat
  | InvalidUnicodeEscape nat nat
  | InvalidHexEscape nat nat
  | InvalidDecimalByteEscape nat nat
  | UnterminatedRawString nat nat
  | UnexpectedCharacter char nat nat

record lexer =
  lx_source :: bytes
  lx_pos :: nat
  lx_line :: nat
  lx_col :: nat
  lx_pendingComments :: "Comment list"
  lx_lastTokenLine :: nat
  lx_lastTokenType :: TokenType
  lx_hasLastToken :: bool
  lx_rawBlockTag :: bytes
  lx_rawBlockBang :: bool

type_synonym 'a lres = "(lex_error + 'a) \<times> lexer"

definition lok :: "'a \<Rightarrow> lexer \<Rightarrow> 'a lres" where
  "lok a l = (Inr a, l)"

definition lerr :: "lex_error \<Rightarrow> lexer \<Rightarrow> 'a lres" where
  "lerr e l = (Inl e, l)"

definition lbind :: "'a lres \<Rightarrow> ('a \<Rightarrow> lexer \<Rightarrow> 'b lres) \<Rightarrow> 'b lres" where
  "lbind r f = (case r of (Inl e, l) \<Rightarrow> (Inl e, l) | (Inr a, l) \<Rightarrow> f a l)"

subsection \<open>Reading and advancing\<close>

definition newLexer :: "bytes \<Rightarrow> lexer" where
  "newLexer src = \<lparr>lx_source = src, lx_pos = 0, lx_line = 1, lx_col = 1, lx_pendingComments = [],
     lx_lastTokenLine = 0, lx_lastTokenType = TOKEN_EOF, lx_hasLastToken = False,
     lx_rawBlockTag = [], lx_rawBlockBang = False\<rparr>"

definition atEnd :: "lexer \<Rightarrow> bool" where
  "atEnd l \<longleftrightarrow> length (lx_source l) \<le> lx_pos l"

definition lexPeekAt :: "nat \<Rightarrow> lexer \<Rightarrow> char" where
  "lexPeekAt k l = (if length (lx_source l) \<le> lx_pos l + k then nul else lx_source l ! (lx_pos l + k))"

definition lexPeek :: "lexer \<Rightarrow> char" where
  "lexPeek l = (if atEnd l then nul else lx_source l ! lx_pos l)"

definition lexAdvance :: "lexer \<Rightarrow> lexer" where
  "lexAdvance l =
     (if atEnd l then l
      else if lx_source l ! lx_pos l = newline
        then l\<lparr>lx_pos := Suc (lx_pos l), lx_line := Suc (lx_line l), lx_col := 1\<rparr>
        else l\<lparr>lx_pos := Suc (lx_pos l), lx_col := Suc (lx_col l)\<rparr>)"

text \<open>The byte that \<open>advance\<close> returns is what \<open>peek\<close> showed.\<close>

definition unread :: "lexer \<Rightarrow> nat" where
  "unread l = length (lx_source l) - lx_pos l"

lemma lexAdvance_fields [simp]:
  "lx_source (lexAdvance l) = lx_source l"
  "lx_pendingComments (lexAdvance l) = lx_pendingComments l"
  "lx_lastTokenLine (lexAdvance l) = lx_lastTokenLine l"
  "lx_lastTokenType (lexAdvance l) = lx_lastTokenType l"
  "lx_hasLastToken (lexAdvance l) = lx_hasLastToken l"
  "lx_rawBlockTag (lexAdvance l) = lx_rawBlockTag l"
  "lx_rawBlockBang (lexAdvance l) = lx_rawBlockBang l"
  "lx_pos (lexAdvance l) = (if atEnd l then lx_pos l else Suc (lx_pos l))"
  by (simp_all add: lexAdvance_def)

lemma unread_lexAdvance: "\<not> atEnd l \<Longrightarrow> unread (lexAdvance l) < unread l"
  by (simp add: unread_def atEnd_def)

lemma unread_lexAdvance_le: "unread (lexAdvance l) \<le> unread l"
  by (simp add: unread_def atEnd_def diff_le_mono2)

subsection \<open>Byte classes\<close>

definition isDigit :: "char \<Rightarrow> bool" where
  "isDigit ch = inRange (CHR ''0'') (CHR ''9'') ch"

definition isDigitOrUnderscore :: "char \<Rightarrow> bool" where
  "isDigitOrUnderscore ch \<longleftrightarrow> isDigit ch \<or> ch = CHR ''_''"

definition isHexDigit :: "char \<Rightarrow> bool" where
  "isHexDigit ch \<longleftrightarrow> isDigit ch \<or> inRange (CHR ''a'') (CHR ''f'') ch \<or> inRange (CHR ''A'') (CHR ''F'') ch"

definition isIntBasePrefix :: "char \<Rightarrow> bool" where
  "isIntBasePrefix ch \<longleftrightarrow> ch \<in> {CHR ''x'', CHR ''X'', CHR ''b'', CHR ''B'', CHR ''o'', CHR ''O''}"

definition isLetter :: "char \<Rightarrow> bool" where
  "isLetter ch \<longleftrightarrow> inRange (CHR ''a'') (CHR ''z'') ch \<or> inRange (CHR ''A'') (CHR ''Z'') ch \<or> ch = CHR ''_''"

definition isLetterOrDigit :: "char \<Rightarrow> bool" where
  "isLetterOrDigit ch \<longleftrightarrow> isLetter ch \<or> isDigit ch"

definition isBaseLiteralChar :: "char \<Rightarrow> bool" where
  "isBaseLiteralChar ch \<longleftrightarrow> isLetterOrDigit ch \<or> ch = CHR ''_''"

definition isSpaceByte :: "char \<Rightarrow> bool" where
  "isSpaceByte ch \<longleftrightarrow> ch = CHR '' '' \<or> ch = CHR 0x09 \<or> ch = CHR 0x0D \<or> ch = newline"

subsection \<open>Loops\<close>

text \<open>\<open>for l.pos < len(l.source) && p(l.peek()) { l.advance() }\<close>\<close>

function advanceWhile :: "(char \<Rightarrow> bool) \<Rightarrow> lexer \<Rightarrow> lexer" where
  "advanceWhile p l = (if \<not> atEnd l \<and> p (lexPeek l) then advanceWhile p (lexAdvance l) else l)"
  by pat_completeness auto
termination
  by (relation "measure (\<lambda>(p, l). unread l)") (simp_all add: unread_lexAdvance)

declare advanceWhile.simps [simp del]

text \<open>\<open>for i := 0; i < n; i++ { l.advance() }\<close>\<close>

fun advanceN :: "nat \<Rightarrow> lexer \<Rightarrow> lexer" where
  "advanceN 0 l = l"
| "advanceN (Suc n) l = advanceN n (lexAdvance l)"

definition skipWhitespace :: "lexer \<Rightarrow> lexer" where
  "skipWhitespace l = advanceWhile isSpaceByte l"

subsection \<open>Comments\<close>

definition readLineComment :: "lexer \<Rightarrow> Comment \<times> lexer" where
  "readLineComment l =
     (let l1 = lexAdvance (lexAdvance l);
          l2 = advanceWhile (\<lambda>c. c \<noteq> newline) l1
      in (\<lparr>cText = slice (lx_source l2) (lx_pos l1) (lx_pos l2), cLine = lx_line l, cColumn = lx_col l\<rparr>, l2))"

function skipBlockCommentLoop :: "nat \<Rightarrow> nat \<Rightarrow> lexer \<Rightarrow> unit lres" where
  "skipBlockCommentLoop startLine startCol l =
     (if atEnd l then lerr (UnterminatedBlockComment startLine startCol) l
      else if lexPeek l = CHR ''*'' \<and> lexPeekAt 1 l = CHR ''/'' then lok () (lexAdvance (lexAdvance l))
      else skipBlockCommentLoop startLine startCol (lexAdvance l))"
  by pat_completeness auto
termination
  by (relation "measure (\<lambda>(a, b, l). unread l)") (simp_all add: unread_lexAdvance)

declare skipBlockCommentLoop.simps [simp del]

definition skipBlockComment :: "lexer \<Rightarrow> unit lres" where
  "skipBlockComment l = skipBlockCommentLoop (lx_line l) (lx_col l) (lexAdvance (lexAdvance l))"


subsection \<open>Forward movement\<close>

text \<open>
  The position invariant: the incremental line and column are those of the text before the
  position. \<open>moves l l'\<close> is what every reading method promises: the same source, no step
  back, the invariant kept, the raw-block mode untouched.
\<close>

definition lex_wf :: "lexer \<Rightarrow> bool" where
  "lex_wf l \<longleftrightarrow> lx_pos l \<le> length (lx_source l) \<and>
     lx_line l = lineAt (lx_source l) (lx_pos l) \<and> lx_col l = colAt (lx_source l) (lx_pos l)"

definition moves :: "lexer \<Rightarrow> lexer \<Rightarrow> bool" where
  "moves l l' \<longleftrightarrow> lx_source l' = lx_source l \<and> lx_pos l \<le> lx_pos l' \<and> (lex_wf l \<longrightarrow> lex_wf l') \<and>
     lx_rawBlockTag l' = lx_rawBlockTag l \<and> lx_rawBlockBang l' = lx_rawBlockBang l"

lemma moves_refl [simp, moves_intros]: "moves l l"
  by (simp add: moves_def)

lemma moves_trans [trans]: "moves a b \<Longrightarrow> moves b c \<Longrightarrow> moves a c"
  by (auto simp: moves_def)

lemma moves_advance [moves_intros]: "moves l (lexAdvance l)"
  by (auto simp: moves_def lex_wf_def lexAdvance_def atEnd_def lineAt_Suc colAt_Suc)

lemma moves_advance_r [moves_intros]: "moves a l \<Longrightarrow> moves a (lexAdvance l)"
  by (rule moves_trans [OF _ moves_advance])

lemma moves_advanceWhile: "moves l (advanceWhile p l)"
proof (induction p l rule: advanceWhile.induct)
  case (1 p l)
  show ?case
  proof (cases "\<not> atEnd l \<and> p (lexPeek l)")
    case True
    with 1 show ?thesis
      by (metis advanceWhile.simps moves_advance moves_trans)
  next
    case False
    then show ?thesis by (subst advanceWhile.simps) auto
  qed
qed

lemma moves_advanceWhile_r [moves_intros]: "moves a l \<Longrightarrow> moves a (advanceWhile p l)"
  by (rule moves_trans [OF _ moves_advanceWhile])

lemma moves_advanceN_r [moves_intros]: "moves a l \<Longrightarrow> moves a (advanceN n l)"
  by (induction n arbitrary: l) (auto intro: moves_intros)

lemma moves_source: "moves l l' \<Longrightarrow> lx_source l' = lx_source l"
  and moves_pos: "moves l l' \<Longrightarrow> lx_pos l \<le> lx_pos l'"
  and moves_wf: "moves l l' \<Longrightarrow> lex_wf l \<Longrightarrow> lex_wf l'"
  and moves_tag: "moves l l' \<Longrightarrow> lx_rawBlockTag l' = lx_rawBlockTag l"
  by (simp_all add: moves_def)

lemma moves_unread: "moves l l' \<Longrightarrow> unread l' \<le> unread l"
  by (simp add: moves_def unread_def diff_le_mono2)

text \<open>A lexer result whose state, on success and on failure, lies ahead of \<open>l\<close>.\<close>

definition ahead :: "lexer \<Rightarrow> 'a lres \<Rightarrow> bool" where
  "ahead l r \<longleftrightarrow> moves l (snd r)"

lemma ahead_lok [simp]: "ahead l (lok a l') = moves l l'"
  and ahead_lerr [simp]: "ahead l (lerr e l') = moves l l'"
  by (simp_all add: ahead_def lok_def lerr_def)

lemma ahead_lbind [moves_intros]:
  "ahead l r \<Longrightarrow> (\<And>a l'. r = (Inr a, l') \<Longrightarrow> moves l l' \<Longrightarrow> ahead l (f a l')) \<Longrightarrow> ahead l (lbind r f)"
  by (auto simp: ahead_def lbind_def split: sum.splits prod.splits)

lemma ahead_trans: "moves a l \<Longrightarrow> ahead l r \<Longrightarrow> ahead a r"
  by (auto simp: ahead_def intro: moves_trans)

lemma ahead_Inr: "ahead l r \<Longrightarrow> r = (x, l') \<Longrightarrow> moves l l'"
  by (simp add: ahead_def)

lemma lbind_cong [fundef_cong]:
  "r = r' \<Longrightarrow> (\<And>a l. r' = (Inr a, l) \<Longrightarrow> f a l = f' a l) \<Longrightarrow> lbind r f = lbind r' f'"
  by (auto simp: lbind_def split: sum.splits prod.splits)

lemma lbind_Inr: "lbind r f = (Inr b, l'') \<longleftrightarrow> (\<exists>a l'. r = (Inr a, l') \<and> f a l' = (Inr b, l''))"
  by (auto simp: lbind_def split: sum.splits prod.splits)

lemma lok_Inr [simp]: "lok a l = (Inr b, l') \<longleftrightarrow> a = b \<and> l = l'"
  and lerr_Inr [simp]: "lerr e l \<noteq> (Inr b, l')"
  by (auto simp: lok_def lerr_def)

lemma atEnd_iff_unread: "atEnd l \<longleftrightarrow> unread l = 0"
  by (simp add: atEnd_def unread_def)

lemma ahead_skipBlockCommentLoop: "ahead l (skipBlockCommentLoop sl sc l)"
proof (induction sl sc l rule: skipBlockCommentLoop.induct)
  case (1 sl sc l)
  then show ?case
    by (subst skipBlockCommentLoop.simps)
      (auto intro: moves_intros ahead_trans [OF moves_advance])
qed

lemma ahead_skipBlockComment: "ahead (lexAdvance l) (skipBlockComment l)"
  by (auto simp: skipBlockComment_def intro: ahead_trans [OF moves_advance ahead_skipBlockCommentLoop])

lemma moves_readLineComment: "readLineComment l = (c, l') \<Longrightarrow> moves (lexAdvance l) l'"
  by (auto simp: readLineComment_def Let_def intro: moves_intros)

lemma lexPeek_not_nul: "lexPeek l = c \<Longrightarrow> c \<noteq> nul \<Longrightarrow> \<not> atEnd l"
  by (auto simp: lexPeek_def)

lemma slash_not_nul [simp]: "CHR ''/'' \<noteq> nul" and star_not_nul [simp]: "CHR ''*'' \<noteq> nul"
  by (simp_all add: nul_def)

subsection \<open>White space and comments before a token\<close>

function skipWhitespaceAndComments :: "lexer \<Rightarrow> unit lres" where
  "skipWhitespaceAndComments l0 =
     (let l = skipWhitespace l0 in
      if lexPeek l = CHR ''/'' \<and> lexPeekAt 1 l = CHR ''/'' then
        (let r = readLineComment l in
         skipWhitespaceAndComments
           (if cLine (fst r) \<noteq> lx_lastTokenLine (snd r)
            then (snd r)\<lparr>lx_pendingComments := lx_pendingComments (snd r) @ [fst r]\<rparr> else snd r))
      else if lexPeek l = CHR ''/'' \<and> lexPeekAt 1 l = CHR ''*'' then
        lbind (skipBlockComment (l\<lparr>lx_pendingComments := []\<rparr>)) (\<lambda>_ l'. skipWhitespaceAndComments l')
      else lok () l)"
  by pat_completeness auto
termination
proof (relation "measure unread")
  show "wf (measure unread)" by simp
next
  fix l0 l r
  assume l: "l = skipWhitespace l0" and c: "lexPeek l = CHR ''/'' \<and> lexPeekAt 1 l = CHR ''/''"
    and r: "r = readLineComment l"
  have "moves (lexAdvance l) (snd r)"
    using moves_readLineComment [of l "fst r" "snd r"] r by simp
  then have "unread (snd r) \<le> unread (lexAdvance l)" by (rule moves_unread)
  also have "\<dots> < unread l" using c lexPeek_not_nul [of l] by (intro unread_lexAdvance) auto
  also have "\<dots> \<le> unread l0"
    unfolding l skipWhitespace_def by (rule moves_unread [OF moves_advanceWhile])
  finally show "((if cLine (fst r) \<noteq> lx_lastTokenLine (snd r)
      then (snd r)\<lparr>lx_pendingComments := lx_pendingComments (snd r) @ [fst r]\<rparr> else snd r), l0) \<in> measure unread"
    by (simp add: unread_def)
next
  fix l0 l a l'
  assume l: "l = skipWhitespace l0" and c: "lexPeek l = CHR ''/'' \<and> lexPeekAt 1 l = CHR ''*''"
    and r: "skipBlockComment (l\<lparr>lx_pendingComments := []\<rparr>) = (Inr a, l')"
  let ?l = "l\<lparr>lx_pendingComments := []\<rparr>"
  have nl: "\<not> atEnd ?l" using c lexPeek_not_nul [of l] by (auto simp: atEnd_def)
  have "unread l' \<le> unread (lexAdvance ?l)"
    by (rule moves_unread [OF ahead_Inr [OF ahead_skipBlockComment r]])
  also have "\<dots> < unread ?l" using nl by (rule unread_lexAdvance)
  also have "\<dots> = unread l" by (simp add: unread_def)
  also have "\<dots> \<le> unread l0"
    unfolding l skipWhitespace_def by (rule moves_unread [OF moves_advanceWhile])
  finally show "(l', l0) \<in> measure unread" by simp
qed

declare skipWhitespaceAndComments.simps [simp del]


subsection \<open>Raw source blocks\<close>

definition isRawSourceBlockTag :: "bytes \<Rightarrow> bool" where
  "isRawSourceBlockTag tag = False"

definition rawSourceBlockAllowedHere :: "lexer \<Rightarrow> bool" where
  "rawSourceBlockAllowedHere l \<longleftrightarrow> \<not> lx_hasLastToken l \<or> lx_lastTokenType l \<in>
     {TOKEN_SEMICOLON, TOKEN_ASSIGN, TOKEN_DECLARE, TOKEN_PLUS_ASSIGN, TOKEN_MINUS_ASSIGN,
      TOKEN_STAR_ASSIGN, TOKEN_SLASH_ASSIGN, TOKEN_RETURN, TOKEN_COMMA, TOKEN_LPAREN,
      TOKEN_LBRACKET, TOKEN_LBRACE, TOKEN_COLON}"

text \<open>The backward scan of the current line from byte \<open>i - 1\<close>.\<close>

fun rawSlashScan :: "lexer \<Rightarrow> nat \<Rightarrow> bool" where
  "rawSlashScan l 0 = True"
| "rawSlashScan l (Suc i) =
     (let c = lx_source l ! i in
      if c = newline then True
      else if c \<noteq> CHR '' '' \<and> c \<noteq> CHR 0x09 \<and> c \<noteq> CHR 0x0D then lexPeekAt 1 l = CHR ''/''
      else rawSlashScan l i)"

definition rawSourceLineCommentAtSlash :: "lexer \<Rightarrow> bool" where
  "rawSourceLineCommentAtSlash l \<longleftrightarrow> lexPeek l = CHR ''/'' \<and> rawSlashScan l (lx_pos l)"

function skipQuotedRawBlockLoop :: "char \<Rightarrow> nat \<Rightarrow> nat \<Rightarrow> lexer \<Rightarrow> unit lres" where
  "skipQuotedRawBlockLoop q startLine startCol l =
     (if atEnd l then lerr (UnterminatedRawBlockString startLine startCol) l
      else if lexPeek l = q then lok () (lexAdvance l)
      else if lexPeek l = CHR 0x5C then skipQuotedRawBlockLoop q startLine startCol (lexAdvance (lexAdvance l))
      else skipQuotedRawBlockLoop q startLine startCol (lexAdvance l))"
  by pat_completeness auto
termination
  by (relation "measure (\<lambda>(q, a, b, l). unread l)")
    (simp_all add: unread_lexAdvance le_less_trans [OF unread_lexAdvance_le unread_lexAdvance])

declare skipQuotedRawBlockLoop.simps [simp del]

definition skipQuotedRawBlockString :: "char \<Rightarrow> lexer \<Rightarrow> unit lres" where
  "skipQuotedRawBlockString q l = skipQuotedRawBlockLoop q (lx_line l) (lx_col l) (lexAdvance l)"

definition trimRawSourceBlock :: "bytes \<Rightarrow> bytes" where
  "trimRawSourceBlock v = (if v \<noteq> [] \<and> last v = newline then butlast v else v)"

lemma ahead_skipQuotedRawBlockLoop: "ahead l (skipQuotedRawBlockLoop q sl sc l)"
proof (induction q sl sc l rule: skipQuotedRawBlockLoop.induct)
  case (1 q sl sc l)
  then show ?case
    by (subst skipQuotedRawBlockLoop.simps)
      (auto intro: moves_intros ahead_trans [OF moves_advance] ahead_trans [OF moves_advance_r [OF moves_advance]])
qed

lemma ahead_skipQuotedRawBlockString: "ahead (lexAdvance l) (skipQuotedRawBlockString q l)"
  by (simp add: skipQuotedRawBlockString_def ahead_skipQuotedRawBlockLoop)

text \<open>The block's loop; \<open>depth\<close> counts the open braces, one when the loop starts.\<close>

function rawBlockLoop :: "bytes \<Rightarrow> nat \<Rightarrow> nat \<Rightarrow> nat \<Rightarrow> nat \<Rightarrow> lexer \<Rightarrow> Token lres" where
  "rawBlockLoop tag startLine startCol startPos depth l =
     (if atEnd l then lerr (UnterminatedRawBlock tag startLine startCol) l
      else let ch = lexPeek l in
      if ch = CHR 0x22 \<or> ch = CHR 0x27 then
        lbind (skipQuotedRawBlockString ch l) (\<lambda>_ l'. rawBlockLoop tag startLine startCol startPos depth l')
      else if rawSourceLineCommentAtSlash l then
        rawBlockLoop tag startLine startCol startPos depth (advanceWhile (\<lambda>c. c \<noteq> newline) l)
      else if ch = CHR ''/'' \<and> lexPeekAt 1 l = CHR ''*'' then
        lbind (skipBlockComment l) (\<lambda>_ l'. rawBlockLoop tag startLine startCol startPos depth l')
      else if ch = CHR ''{'' then rawBlockLoop tag startLine startCol startPos (Suc depth) (lexAdvance l)
      else if ch = CHR ''}'' then
        (if depth - 1 = 0
         then lok (mkToken TOKEN_RAW_BLOCK (trimRawSourceBlock (slice (lx_source l) startPos (lx_pos l)))
                    startLine startCol) (lexAdvance l)
         else rawBlockLoop tag startLine startCol startPos (depth - 1) (lexAdvance l))
      else rawBlockLoop tag startLine startCol startPos depth (lexAdvance l))"
  by pat_completeness auto
termination
proof (relation "measure (\<lambda>(t, a, b, c, d, l). unread l)", goal_cases)
  case (2 tag startLine startCol startPos depth l ch a l')
  have "unread l' \<le> unread (lexAdvance l)"
    by (rule moves_unread [OF ahead_Inr [OF ahead_skipQuotedRawBlockString 2(4)]])
  then show ?case using unread_lexAdvance [OF 2(1)] by simp
next
  case (3 tag startLine startCol startPos depth l ch)
  from 3(4) have "lexPeek l \<noteq> newline" by (auto simp: rawSourceLineCommentAtSlash_def newline_def)
  with 3(1) have "advanceWhile (\<lambda>c. c \<noteq> newline) l = advanceWhile (\<lambda>c. c \<noteq> newline) (lexAdvance l)"
    by (subst advanceWhile.simps) simp
  then have "unread (advanceWhile (\<lambda>c. c \<noteq> newline) l) \<le> unread (lexAdvance l)"
    by (simp add: moves_unread [OF moves_advanceWhile])
  then show ?case using unread_lexAdvance [OF 3(1)] by simp
next
  case (4 tag startLine startCol startPos depth l ch a l')
  have "unread l' \<le> unread (lexAdvance l)"
    by (rule moves_unread [OF ahead_Inr [OF ahead_skipBlockComment 4(6)]])
  then show ?case using unread_lexAdvance [OF 4(1)] by simp
qed (simp_all add: unread_lexAdvance)

declare rawBlockLoop.simps [simp del]

definition readRawSourceBlock :: "bytes \<Rightarrow> nat \<Rightarrow> nat \<Rightarrow> lexer \<Rightarrow> Token lres" where
  "readRawSourceBlock tag startLine startCol l =
     (let l1 = lexAdvance l;
          l2 = (if lexPeek l1 = newline then lexAdvance l1 else l1)
      in rawBlockLoop tag startLine startCol (lx_pos l2) 1 l2)"

subsection \<open>Escapes in quoted strings\<close>

definition readFixedHexEscape :: "nat \<Rightarrow> nat \<Rightarrow> nat \<Rightarrow> lexer \<Rightarrow> nat lres" where
  "readFixedHexEscape width startLine startCol l =
     (if list_all (\<lambda>i. isHexDigit (lexPeekAt i l)) [0..<width]
      then let l' = advanceN width l in
           (case parseUintBits 16 32 (slice (lx_source l') (lx_pos l) (lx_pos l')) of
              None \<Rightarrow> lerr (InvalidHexEscape startLine startCol) l'
            | Some v \<Rightarrow> lok v l')
      else lerr (InvalidHexEscape startLine startCol) l)"

text \<open>Up to two more digits after the first.\<close>

definition readDecimalByteEscape :: "char \<Rightarrow> nat \<Rightarrow> nat \<Rightarrow> lexer \<Rightarrow> nat lres" where
  "readDecimalByteEscape d0 startLine startCol l =
     (let (ds1, l1) = (if isDigit (lexPeek l) then ([d0, lexPeek l], lexAdvance l) else ([d0], l));
          (ds2, l2) = (if length ds1 = 2 \<and> isDigit (lexPeek l1) then (ds1 @ [lexPeek l1], lexAdvance l1) else (ds1, l1))
      in case parseUintBits 10 16 ds2 of
           None \<Rightarrow> lerr (InvalidDecimalByteEscape startLine startCol) l2
         | Some v \<Rightarrow> if 255 < v then lerr (InvalidDecimalByteEscape startLine startCol) l2 else lok v l2)"

definition unicodeEscape :: "nat \<Rightarrow> nat \<Rightarrow> nat \<Rightarrow> lexer \<Rightarrow> bytes lres" where
  "unicodeEscape width startLine startCol l =
     lbind (readFixedHexEscape width startLine startCol l) (\<lambda>r l'.
       if validRune r then lok (utf8Encode r) l' else lerr (InvalidUnicodeEscape startLine startCol) l')"

text \<open>The switch on the byte \<open>esc\<close> after a backslash: the bytes it stands for.\<close>

definition readEscape :: "char \<Rightarrow> nat \<Rightarrow> nat \<Rightarrow> lexer \<Rightarrow> bytes lres" where
  "readEscape esc startLine startCol l =
     (if esc = CHR ''a'' then lok [CHR 0x07] l
      else if esc = CHR ''b'' then lok [CHR 0x08] l
      else if esc = CHR ''f'' then lok [CHR 0x0C] l
      else if esc = CHR ''n'' then lok [newline] l
      else if esc = CHR ''t'' then lok [CHR 0x09] l
      else if esc = CHR ''r'' then lok [CHR 0x0D] l
      else if esc = CHR ''v'' then lok [CHR 0x0B] l
      else if esc = CHR 0x5C then lok [CHR 0x5C] l
      else if esc = CHR 0x22 then lok [CHR 0x22] l
      else if esc = CHR 0x27 then lok [CHR 0x27] l
      else if esc = CHR ''x'' then
        lbind (readFixedHexEscape 2 startLine startCol l) (\<lambda>b l'. lok [char_of b] l')
      else if esc = CHR ''u'' then unicodeEscape 4 startLine startCol l
      else if esc = CHR ''U'' then unicodeEscape 8 startLine startCol l
      else if isDigit esc then
        lbind (readDecimalByteEscape esc startLine startCol l) (\<lambda>b l'. lok [char_of b] l')
      else lok [CHR 0x5C, esc] l)"

lemma ahead_readFixedHexEscape [moves_intros]:
  "moves a l \<Longrightarrow> ahead a (readFixedHexEscape w sl sc l)"
  by (auto simp: readFixedHexEscape_def Let_def intro: moves_intros split: option.splits)

lemma ahead_readDecimalByteEscape [moves_intros]:
  "moves a l \<Longrightarrow> ahead a (readDecimalByteEscape d sl sc l)"
  by (auto simp: readDecimalByteEscape_def Let_def intro: moves_intros split: option.splits)

lemma ahead_readEscape: "ahead l (readEscape e sl sc l)"
  unfolding readEscape_def unicodeEscape_def
  by (simp; intro conjI impI ahead_lbind ahead_readFixedHexEscape ahead_readDecimalByteEscape moves_refl)
    (auto intro: moves_intros)


subsection \<open>Literals, names and operators\<close>

definition stringToken :: "bytes \<Rightarrow> bool \<Rightarrow> bool \<Rightarrow> nat \<Rightarrow> nat \<Rightarrow> Token" where
  "stringToken v raw single ln cl =
     (mkToken TOKEN_STRING v ln cl)\<lparr>tIsRawString := raw, tIsSingleQuoted := single\<rparr>"

function readStringLoop :: "char \<Rightarrow> nat \<Rightarrow> nat \<Rightarrow> bytes \<Rightarrow> lexer \<Rightarrow> Token lres" where
  "readStringLoop q startLine startCol result l =
     (if atEnd l then lerr (UnterminatedString startLine startCol) l
      else let ch = lexPeek l in
      if ch = newline then lerr (UnterminatedStringNewline startLine startCol) l
      else if ch = q then lok (stringToken result False (q = CHR 0x27) startLine startCol) (lexAdvance l)
      else if ch = CHR 0x5C then
        (let l1 = lexAdvance l in
         if atEnd l1 then lerr (UnterminatedStringEscape startLine startCol) l1
         else lbind (readEscape (lexPeek l1) startLine startCol (lexAdvance l1)) (\<lambda>bs l2.
                readStringLoop q startLine startCol (result @ bs) l2))
      else readStringLoop q startLine startCol (result @ [ch]) (lexAdvance l))"
  by pat_completeness auto
termination
proof (relation "measure (\<lambda>(q, a, b, r, l). unread l)", goal_cases)
  case (2 q startLine startCol result l ch l1 bs l2)
  have "unread l2 \<le> unread (lexAdvance l1)"
    by (rule moves_unread [OF ahead_Inr [OF ahead_readEscape 2(8)]])
  also have "\<dots> \<le> unread l1" by (rule unread_lexAdvance_le)
  also have "\<dots> < unread l" unfolding 2(6) by (rule unread_lexAdvance [OF 2(1)])
  finally show ?case by simp
qed (simp_all add: unread_lexAdvance)

declare readStringLoop.simps [simp del]

definition readString :: "char \<Rightarrow> lexer \<Rightarrow> Token lres" where
  "readString q l = readStringLoop q (lx_line l) (lx_col l) [] (lexAdvance l)"

definition rawStringDelimiterAt :: "nat \<Rightarrow> lexer \<Rightarrow> bool" where
  "rawStringDelimiterAt n l \<longleftrightarrow> list_all (\<lambda>i. lexPeekAt i l = CHR 0x60) [0..<n]"

function rawStringLoop :: "nat \<Rightarrow> nat \<Rightarrow> nat \<Rightarrow> nat \<Rightarrow> lexer \<Rightarrow> Token lres" where
  "rawStringLoop delimLen startLine startCol startPos l =
     (if atEnd l then lerr (UnterminatedRawString startLine startCol) l
      else if rawStringDelimiterAt delimLen l then
        lok (stringToken (slice (lx_source l) startPos (lx_pos l)) True False startLine startCol) (advanceN delimLen l)
      else rawStringLoop delimLen startLine startCol startPos (lexAdvance l))"
  by pat_completeness auto
termination
  by (relation "measure (\<lambda>(d, a, b, c, l). unread l)") (simp_all add: unread_lexAdvance)

declare rawStringLoop.simps [simp del]

definition readRawString :: "lexer \<Rightarrow> Token lres" where
  "readRawString l =
     (let delimLen = (if lexPeekAt 1 l = CHR 0x60 \<and> lexPeekAt 2 l = CHR 0x60 then 3 else 1);
          l1 = advanceN delimLen l
      in rawStringLoop delimLen (lx_line l) (lx_col l) (lx_pos l1) l1)"

definition readNumber :: "lexer \<Rightarrow> Token lres" where
  "readNumber l =
     (let tok = (\<lambda>l'. lok (mkToken TOKEN_NUMBER (slice (lx_source l') (lx_pos l) (lx_pos l')) (lx_line l) (lx_col l)) l')
      in if lexPeek l = CHR ''0'' \<and> isIntBasePrefix (lexPeekAt 1 l)
         then tok (advanceWhile isBaseLiteralChar (lexAdvance (lexAdvance l)))
         else
           (let l1 = advanceWhile isDigitOrUnderscore l;
                l2 = (if \<not> atEnd l1 \<and> lexPeek l1 = CHR ''.'' \<and> lexPeekAt 1 l1 \<noteq> CHR ''.''
                      then advanceWhile isDigitOrUnderscore (lexAdvance l1) else l1);
                l3 = (if \<not> atEnd l2 \<and> (lexPeek l2 = CHR ''e'' \<or> lexPeek l2 = CHR ''E'')
                      then (let l4 = lexAdvance l2;
                                l5 = (if \<not> atEnd l4 \<and> (lexPeek l4 = CHR ''+'' \<or> lexPeek l4 = CHR ''-'')
                                      then lexAdvance l4 else l4)
                            in advanceWhile isDigitOrUnderscore l5)
                      else l2)
            in tok l3))"

definition readIdentifier :: "lexer \<Rightarrow> Token lres" where
  "readIdentifier l =
     (let l' = advanceWhile isLetterOrDigit l;
          v = slice (lx_source l') (lx_pos l) (lx_pos l')
      in lok (mkToken (LookupIdent v) v (lx_line l) (lx_col l)) l')"

definition readOperator :: "nat \<Rightarrow> nat \<Rightarrow> lexer \<Rightarrow> Token lres" where
  "readOperator startLine startCol l =
     (let ch = lexPeek l; l1 = lexAdvance l; nx = lexPeek l1; l2 = lexAdvance l1;
          mk = (\<lambda>ty v l'. lok (mkToken ty v startLine startCol) l')
      in if ch = CHR ''('' then mk TOKEN_LPAREN ''('' l1
      else if ch = CHR '')'' then mk TOKEN_RPAREN '')'' l1
      else if ch = CHR ''{'' then mk TOKEN_LBRACE ''{'' l1
      else if ch = CHR ''}'' then mk TOKEN_RBRACE ''}'' l1
      else if ch = CHR ''['' then mk TOKEN_LBRACKET ''['' l1
      else if ch = CHR '']'' then mk TOKEN_RBRACKET '']'' l1
      else if ch = CHR '','' then mk TOKEN_COMMA '','' l1
      else if ch = CHR '';'' then mk TOKEN_SEMICOLON '';'' l1
      else if ch = CHR ''#'' then mk TOKEN_LEN ''#'' l1
      else if ch = CHR ''%'' then mk TOKEN_PERCENT ''%'' l1
      else if ch = CHR ''$'' then mk TOKEN_DOLLAR ''$'' l1
      else if ch = CHR '':'' then
        (if nx = CHR ''='' then mk TOKEN_DECLARE '':='' l2 else mk TOKEN_COLON '':'' l1)
      else if ch = CHR ''='' then
        (if nx = CHR ''='' then mk TOKEN_EQ ''=='' l2 else mk TOKEN_ASSIGN ''='' l1)
      else if ch = CHR ''!'' then
        (if nx = CHR ''='' then mk TOKEN_NEQ ''!='' l2 else mk TOKEN_NOT ''!'' l1)
      else if ch = CHR ''<'' then
        (if nx = CHR ''='' then mk TOKEN_LE ''<='' l2 else if nx = CHR ''<'' then mk TOKEN_SHL ''<<'' l2 else if nx = CHR ''-'' then mk TOKEN_ARROW ''<-'' l2 else mk TOKEN_LT ''<'' l1)
      else if ch = CHR ''>'' then
        (if nx = CHR ''='' then mk TOKEN_GE ''>='' l2 else if nx = CHR ''>'' then mk TOKEN_SHR ''>>'' l2 else mk TOKEN_GT ''>'' l1)
      else if ch = CHR ''+'' then
        (if nx = CHR ''='' then mk TOKEN_PLUS_ASSIGN ''+='' l2 else if nx = CHR ''+'' then mk TOKEN_INC ''++'' l2 else mk TOKEN_PLUS ''+'' l1)
      else if ch = CHR ''-'' then
        (if nx = CHR ''='' then mk TOKEN_MINUS_ASSIGN ''-='' l2 else if nx = CHR ''-'' then mk TOKEN_DEC ''--'' l2 else mk TOKEN_MINUS ''-'' l1)
      else if ch = CHR ''*'' then
        (if nx = CHR ''*'' then mk TOKEN_POW ''**'' l2 else if nx = CHR ''='' then mk TOKEN_STAR_ASSIGN ''*='' l2 else mk TOKEN_STAR ''*'' l1)
      else if ch = CHR ''/'' then
        (if nx = CHR ''='' then mk TOKEN_SLASH_ASSIGN ''/='' l2 else mk TOKEN_SLASH ''/'' l1)
      else if ch = CHR ''&'' then
        (if nx = CHR ''&'' then mk TOKEN_AND ''&&'' l2 else if nx = CHR ''^'' then mk TOKEN_BIT_AND_NOT ''&^'' l2 else mk TOKEN_BIT_AND ''&'' l1)
      else if ch = CHR ''|'' then
        (if nx = CHR ''|'' then mk TOKEN_OR ''||'' l2 else mk TOKEN_BIT_OR ''|'' l1)
      else if ch = CHR ''^'' then mk TOKEN_BIT_XOR ''^'' l1
      else if ch = CHR ''.'' then
        (if nx = CHR ''.'' then
           (if lexPeek l2 = CHR ''.'' then mk TOKEN_ELLIPSIS ''...'' (lexAdvance l2) else mk TOKEN_CONCAT ''..'' l2)
         else mk TOKEN_DOT ''.'' l1)
      else lerr (UnexpectedCharacter ch startLine startCol) l1)"

subsection \<open>Tokens\<close>

definition finishToken :: "Token \<Rightarrow> lexer \<Rightarrow> Token \<times> lexer" where
  "finishToken tok l =
     (let tok' = (if tType tok \<noteq> TOKEN_EOF \<and> lx_pendingComments l \<noteq> []
                  then tok\<lparr>tLeadingComments := lx_pendingComments l\<rparr> else tok);
          l1 = l\<lparr>lx_pendingComments := []\<rparr>
      in if tType tok \<noteq> TOKEN_EOF
         then (tok', l1\<lparr>lx_lastTokenLine := tLine tok, lx_lastTokenType := tType tok, lx_hasLastToken := True\<rparr>)
         else (tok', l1))"

definition finished :: "Token lres \<Rightarrow> Token lres" where
  "finished r = lbind r (\<lambda>tok l. lok (fst (finishToken tok l)) (snd (finishToken tok l)))"

text \<open>The part of \<open>nextTokenInternal\<close> after the raw-block test.\<close>

definition nextOrdinaryToken :: "lexer \<Rightarrow> Token lres" where
  "nextOrdinaryToken l =
     (let ch = lexPeek l in
      if ch = CHR 0x22 \<or> ch = CHR 0x27 then finished (readString ch l)
      else if ch = CHR 0x60 then finished (readRawString l)
      else if isDigit ch then finished (readNumber l)
      else if isLetter ch then
        finished (lbind (readIdentifier l) (\<lambda>tok l'.
          lok tok (if tType tok = TOKEN_IDENT \<and> isRawSourceBlockTag (tValue tok) \<and> rawSourceBlockAllowedHere l'
                   then l'\<lparr>lx_rawBlockTag := tValue tok\<rparr> else l')))
      else finished (readOperator (lx_line l) (lx_col l) l))"

definition nextTokenInternal :: "lexer \<Rightarrow> Token lres" where
  "nextTokenInternal l0 =
     lbind (skipWhitespaceAndComments l0) (\<lambda>_ l.
       if atEnd l then lok (mkToken TOKEN_EOF [] (lx_line l) (lx_col l)) l
       else if lx_rawBlockTag l \<noteq> [] then
         (if lexPeek l = CHR ''!'' \<and> \<not> lx_rawBlockBang l then
            finished (lok (mkToken TOKEN_NOT ''!'' (lx_line l) (lx_col l)) (lexAdvance (l\<lparr>lx_rawBlockBang := True\<rparr>)))
          else if lexPeek l = CHR ''{'' then
            finished (readRawSourceBlock (lx_rawBlockTag l) (lx_line l) (lx_col l)
              (l\<lparr>lx_rawBlockTag := [], lx_rawBlockBang := False\<rparr>))
          else nextOrdinaryToken (l\<lparr>lx_rawBlockTag := [], lx_rawBlockBang := False\<rparr>))
       else nextOrdinaryToken l)"


subsection \<open>What the readers consume\<close>

text \<open>
  \<open>faithful tok txt\<close> relates a token to the source text it was read from: names, numbers and
  operators are that text; a string lies strictly inside its delimiters.
\<close>

definition faithful :: "Token \<Rightarrow> bytes \<Rightarrow> bool" where
  "faithful tok txt \<longleftrightarrow> tType tok \<noteq> TOKEN_EOF \<and> tType tok \<noteq> TOKEN_ILLEGAL \<and> tType tok \<noteq> TOKEN_RAW_BLOCK \<and>
     (if tType tok = TOKEN_STRING then length (tValue tok) + 2 \<le> length txt else tValue tok = txt)"

definition consumed :: "lexer \<Rightarrow> lexer \<Rightarrow> bytes" where
  "consumed l l' = slice (lx_source l) (lx_pos l) (lx_pos l')"

definition reader_ok :: "lexer \<Rightarrow> Token lres \<Rightarrow> bool" where
  "reader_ok l r \<longleftrightarrow> ahead l r \<and> (\<forall>tok l'. r = (Inr tok, l') \<longrightarrow>
     moves (lexAdvance l) l' \<and> tLine tok = lx_line l \<and> tColumn tok = lx_col l \<and>
     tLeadingComments tok = [] \<and> faithful tok (consumed l l'))"

lemma advanceWhile_step:
  "\<not> atEnd l \<Longrightarrow> p (lexPeek l) \<Longrightarrow> advanceWhile p l = advanceWhile p (lexAdvance l)"
  by (subst advanceWhile.simps) simp

lemma consumed_1: "\<not> atEnd l \<Longrightarrow> consumed l (lexAdvance l) = [lexPeek l]"
  by (simp add: consumed_def atEnd_def lexPeek_def slice_Suc)

lemma consumed_snoc:
  "moves l l' \<Longrightarrow> \<not> atEnd l' \<Longrightarrow> consumed l (lexAdvance l') = consumed l l' @ [lexPeek l']"
  by (simp add: consumed_def moves_def atEnd_def lexPeek_def slice_snoc)

lemma reader_ok_lok [simp]:
  "reader_ok l (lok tok l') \<longleftrightarrow> moves l l' \<and> moves (lexAdvance l) l' \<and> tLine tok = lx_line l \<and>
     tColumn tok = lx_col l \<and> tLeadingComments tok = [] \<and> faithful tok (consumed l l')"
  by (auto simp: reader_ok_def)

lemma reader_ok_lerr [simp]: "reader_ok l (lerr e l') \<longleftrightarrow> moves l l'"
  by (simp add: reader_ok_def)

lemma faithful_mkToken:
  "ty \<noteq> TOKEN_EOF \<Longrightarrow> ty \<noteq> TOKEN_ILLEGAL \<Longrightarrow> ty \<noteq> TOKEN_STRING \<Longrightarrow> ty \<noteq> TOKEN_RAW_BLOCK \<Longrightarrow>
   faithful (mkToken ty v ln cl) txt = (v = txt)"
  by (simp add: faithful_def)

lemma ordinary_word:
  "ty \<in> wordTypes \<Longrightarrow> faithful (mkToken ty v ln cl) txt = (v = txt)"
  using wordTypes_not by (intro faithful_mkToken) auto

lemma reader_ok_readIdentifier:
  assumes "\<not> atEnd l" "isLetter (lexPeek l)"
  shows "reader_ok l (readIdentifier l)"
proof -
  have "advanceWhile isLetterOrDigit l = advanceWhile isLetterOrDigit (lexAdvance l)"
    using assms by (intro advanceWhile_step) (simp_all add: isLetterOrDigit_def)
  then have "moves (lexAdvance l) (advanceWhile isLetterOrDigit l)"
    by (simp add: moves_advanceWhile)
  moreover have "lx_source (advanceWhile isLetterOrDigit l) = lx_source l"
    by (rule moves_source [OF moves_advanceWhile])
  ultimately show ?thesis
    by (simp add: readIdentifier_def Let_def ordinary_word LookupIdent_wordTypes consumed_def
        moves_advanceWhile)
qed

lemma reader_ok_readNumber:
  assumes ne: "\<not> atEnd l" and d: "isDigit (lexPeek l)"
  shows "reader_ok l (readNumber l)"
proof -
  define l1 where "l1 = advanceWhile isDigitOrUnderscore l"
  define l2 where "l2 = (if \<not> atEnd l1 \<and> lexPeek l1 = CHR ''.'' \<and> lexPeekAt 1 l1 \<noteq> CHR ''.''
                      then advanceWhile isDigitOrUnderscore (lexAdvance l1) else l1)"
  define l4 where "l4 = lexAdvance l2"
  define l5 where "l5 = (if \<not> atEnd l4 \<and> (lexPeek l4 = CHR ''+'' \<or> lexPeek l4 = CHR ''-'') then lexAdvance l4 else l4)"
  define l3 where "l3 = (if \<not> atEnd l2 \<and> (lexPeek l2 = CHR ''e'' \<or> lexPeek l2 = CHR ''E'')
                      then advanceWhile isDigitOrUnderscore l5 else l2)"
  have 1: "moves (lexAdvance l) l1"
    using advanceWhile_step [OF ne, of isDigitOrUnderscore] d
    by (simp add: l1_def isDigitOrUnderscore_def moves_advanceWhile)
  then have 2: "moves (lexAdvance l) l2"
    unfolding l2_def by (simp add: moves_advanceWhile_r moves_advance_r)
  then have "moves (lexAdvance l) l5"
    unfolding l5_def l4_def by (simp add: moves_advance_r)
  with 2 have 3: "moves (lexAdvance l) l3"
    unfolding l3_def by (simp add: moves_advanceWhile_r)
  have tok: "reader_ok l (lok (mkToken TOKEN_NUMBER (slice (lx_source l') (lx_pos l) (lx_pos l')) (lx_line l) (lx_col l)) l')"
    if "moves (lexAdvance l) l'" for l'
    using that by (auto simp: faithful_mkToken consumed_def dest: moves_source
        intro: moves_trans [OF moves_advance])
  have "reader_ok l (if lexPeek l = CHR ''0'' \<and> isIntBasePrefix (lexPeekAt 1 l)
     then lok (mkToken TOKEN_NUMBER (slice (lx_source (advanceWhile isBaseLiteralChar (lexAdvance (lexAdvance l))))
        (lx_pos l) (lx_pos (advanceWhile isBaseLiteralChar (lexAdvance (lexAdvance l))))) (lx_line l) (lx_col l))
        (advanceWhile isBaseLiteralChar (lexAdvance (lexAdvance l)))
     else lok (mkToken TOKEN_NUMBER (slice (lx_source l3) (lx_pos l) (lx_pos l3)) (lx_line l) (lx_col l)) l3)"
    by (rule if_split [THEN iffD2], intro conjI impI)
      (rule tok, rule moves_advanceWhile_r, rule moves_advance, rule tok, rule 3)
  then show ?thesis
    unfolding readNumber_def Let_def l1_def [symmetric] l2_def [symmetric] l4_def [symmetric]
      l5_def [symmetric] l3_def [symmetric] .
qed

lemma reader_ok_if:
  "(c \<Longrightarrow> reader_ok l a) \<Longrightarrow> reader_ok l b \<Longrightarrow> reader_ok l (if c then a else b)"
  by simp

lemma nul_not_op:
  "CHR ''='' \<noteq> nul" "CHR ''<'' \<noteq> nul" "CHR ''-'' \<noteq> nul" "CHR ''>'' \<noteq> nul" "CHR ''+'' \<noteq> nul"
  "CHR ''&'' \<noteq> nul" "CHR ''^'' \<noteq> nul" "CHR ''|'' \<noteq> nul" "CHR ''.'' \<noteq> nul" "CHR 0x60 \<noteq> nul"
  by (simp_all add: nul_def)

lemma op_token1:
  assumes "\<not> atEnd l" "lexPeek l = c" "ty \<notin> {TOKEN_EOF, TOKEN_ILLEGAL, TOKEN_STRING, TOKEN_RAW_BLOCK}"
  shows "reader_ok l (lok (mkToken ty [c] (lx_line l) (lx_col l)) (lexAdvance l))"
  using assms by (auto simp: faithful_mkToken consumed_1 intro: moves_intros)

lemma op_token2:
  assumes "\<not> atEnd l" "lexPeek l = c" "lexPeek (lexAdvance l) = d" "d \<noteq> nul"
    "ty \<notin> {TOKEN_EOF, TOKEN_ILLEGAL, TOKEN_STRING, TOKEN_RAW_BLOCK}"
  shows "reader_ok l (lok (mkToken ty [c, d] (lx_line l) (lx_col l)) (lexAdvance (lexAdvance l)))"
proof -
  have "\<not> atEnd (lexAdvance l)" using assms(3,4) by (auto simp: lexPeek_def)
  then show ?thesis
    using assms by (auto simp: faithful_mkToken consumed_1 consumed_snoc moves_advance intro: moves_intros)
qed

lemma op_token3:
  assumes "\<not> atEnd l" "lexPeek l = c" "lexPeek (lexAdvance l) = d" "d \<noteq> nul"
    "lexPeek (lexAdvance (lexAdvance l)) = e" "e \<noteq> nul"
    "ty \<notin> {TOKEN_EOF, TOKEN_ILLEGAL, TOKEN_STRING, TOKEN_RAW_BLOCK}"
  shows "reader_ok l (lok (mkToken ty [c, d, e] (lx_line l) (lx_col l)) (lexAdvance (lexAdvance (lexAdvance l))))"
proof -
  have e: "\<not> atEnd (lexAdvance l)" "\<not> atEnd (lexAdvance (lexAdvance l))"
    using assms(3-6) by (auto simp: lexPeek_def)
  have "consumed l (lexAdvance (lexAdvance (lexAdvance l))) = [c, d, e]"
    using assms e consumed_snoc [OF moves_advance_r [OF moves_advance]]
    by (simp add: consumed_1 consumed_snoc moves_advance)
  then show ?thesis
    using assms by (auto simp: faithful_mkToken intro!: moves_intros)
qed

lemma reader_ok_readOperator:
  assumes "\<not> atEnd l"
  shows "reader_ok l (readOperator (lx_line l) (lx_col l) l)"
  unfolding readOperator_def Let_def
  by (intro reader_ok_if op_token1 op_token2 op_token3 assms) (simp_all add: nul_not_op moves_advance)


text \<open>Strings, raw strings and raw blocks: the value is shorter than the text by the delimiters.\<close>

lemma lexPeekAt_within: "lexPeekAt k l \<noteq> nul \<Longrightarrow> lx_pos l + k < length (lx_source l)"
  by (auto simp: lexPeekAt_def split: if_splits)

lemma advanceN_pos: "lx_pos l + n \<le> length (lx_source l) \<Longrightarrow> lx_pos (advanceN n l) = lx_pos l + n"
  by (induction n arbitrary: l) (auto simp: atEnd_def)

lemma isHexDigit_not_nul: "isHexDigit c \<Longrightarrow> c \<noteq> nul"
  by (auto simp: isHexDigit_def isDigit_def inRange_def byte_def nul_def)

lemma list_all_upt_last:
  "list_all P [0..<n] \<Longrightarrow> 0 < n \<Longrightarrow> P (n - 1)"
  by (simp add: list_all_iff)

lemma readFixedHexEscape_pos:
  assumes "readFixedHexEscape w sl sc l = (Inr v, l')" "0 < w"
  shows "lx_pos l' = lx_pos l + w"
proof -
  from assms(1) have "list_all (\<lambda>i. isHexDigit (lexPeekAt i l)) [0..<w]" and l': "l' = advanceN w l"
    by (auto simp: readFixedHexEscape_def Let_def split: if_splits option.splits)
  then have "isHexDigit (lexPeekAt (w - 1) l)" using list_all_upt_last assms(2) by blast
  then have "lx_pos l + (w - 1) < length (lx_source l)"
    by (intro lexPeekAt_within isHexDigit_not_nul)
  with assms(2) show ?thesis by (simp add: l' advanceN_pos)
qed

lemma readEscape_length:
  assumes "readEscape e sl sc l = (Inr bs, l')"
  shows "length bs + lx_pos l \<le> lx_pos l' + 2"
proof -
  have mv: "lx_pos l \<le> lx_pos l'"
    by (rule moves_pos [OF ahead_Inr [OF ahead_readEscape assms]])
  have u: "length bs + lx_pos l \<le> lx_pos l' + 2" if "unicodeEscape w sl sc l = (Inr bs, l')" "2 \<le> w" for w
    using that readFixedHexEscape_pos [of w sl sc l]
    by (fastforce simp: unicodeEscape_def lbind_Inr split: if_splits intro: le_trans [OF length_utf8Encode])
  show ?thesis
  proof (cases "e = CHR ''u'' \<or> e = CHR ''U''")
    case True
    with assms u show ?thesis by (auto simp: readEscape_def split: if_splits)
  next
    case False
    then have "length bs \<le> 2"
      using assms by (auto simp: readEscape_def lbind_Inr split: if_splits)
    with mv show ?thesis by simp
  qed
qed

lemma readStringLoop_token:
  assumes "readStringLoop q sl sc result l = (Inr tok, l')"
  shows "\<exists>v. tok = stringToken v False (q = CHR 0x27) sl sc \<and>
           length v + lx_pos l + 1 \<le> length result + lx_pos l'"
  using assms
proof (induction q sl sc result l rule: readStringLoop.induct)
  case (1 q sl sc result l)
  let ?l1 = "lexAdvance l"
  from "1.prems" have ne: "\<not> atEnd l" "lexPeek l \<noteq> newline"
    by (auto simp: readStringLoop.simps [of q sl sc result l] Let_def split: if_splits)
  show ?case
  proof (cases "lexPeek l = q")
    case True
    with "1.prems" ne show ?thesis
      by (auto simp: readStringLoop.simps [of q sl sc result l] Let_def split: if_splits)
  next
    case nq: False
    show ?thesis
    proof (cases "lexPeek l = CHR 0x5C")
      case True
      with "1.prems" ne nq obtain bs l2 where
        ne1: "\<not> atEnd ?l1" and
        esc: "readEscape (lexPeek ?l1) sl sc (lexAdvance ?l1) = (Inr bs, l2)" and
        rest: "readStringLoop q sl sc (result @ bs) l2 = (Inr tok, l')"
        by (auto simp: readStringLoop.simps [of q sl sc result l] Let_def lbind_Inr split: if_splits)
      from "1.IH" (1) [OF ne(1) refl ne(2) nq True refl ne1 esc rest] obtain v where
        "tok = stringToken v False (q = CHR 0x27) sl sc"
        "length v + lx_pos l2 + 1 \<le> length (result @ bs) + lx_pos l'" by blast
      moreover have "length bs + (lx_pos l + 2) \<le> lx_pos l2 + 2"
        using readEscape_length [OF esc] ne(1) ne1 by simp
      ultimately show ?thesis by auto
    next
      case False
      with "1.prems" ne nq have "readStringLoop q sl sc (result @ [lexPeek l]) ?l1 = (Inr tok, l')"
        by (simp add: readStringLoop.simps [of q sl sc result l] Let_def)
      from "1.IH" (2) [OF ne(1) refl ne(2) nq False this] show ?thesis using ne(1) by auto
    qed
  qed
qed

lemma ahead_readStringLoop: "ahead l (readStringLoop q sl sc result l)"
proof (induction q sl sc result l rule: readStringLoop.induct)
  case (1 q sl sc result l)
  let ?l1 = "lexAdvance l" and ?esc = "readEscape (lexPeek (lexAdvance l)) sl sc (lexAdvance (lexAdvance l))"
  have esc: "ahead l (lbind ?esc (\<lambda>bs l2. readStringLoop q sl sc (result @ bs) l2))"
    if c: "\<not> atEnd l" "lexPeek l \<noteq> newline" "lexPeek l \<noteq> q" "lexPeek l = CHR 0x5C" "\<not> atEnd ?l1"
  proof (rule ahead_lbind)
    show "ahead l ?esc"
      by (rule ahead_trans [OF _ ahead_readEscape]) (intro moves_intros)
    fix bs l2
    assume "?esc = (Inr bs, l2)" and mv: "moves l l2"
    from "1.IH" (1) [OF c(1) refl c(2-4) refl c(5) this(1)]
    show "ahead l (readStringLoop q sl sc (result @ bs) l2)"
      by (rule ahead_trans [OF mv])
  qed
  have plain: "ahead l (readStringLoop q sl sc (result @ [lexPeek l]) ?l1)"
    if c: "\<not> atEnd l" "lexPeek l \<noteq> newline" "lexPeek l \<noteq> q" "lexPeek l \<noteq> CHR 0x5C"
    by (rule ahead_trans [OF moves_advance "1.IH" (2) [OF c(1) refl c(2-4)]])
  show ?case
    using esc plain by (subst readStringLoop.simps) (simp add: Let_def moves_advance)
qed

lemma stringToken_simps [simp]:
  "tType (stringToken v r s ln cl) = TOKEN_STRING" "tValue (stringToken v r s ln cl) = v"
  "tLine (stringToken v r s ln cl) = ln" "tColumn (stringToken v r s ln cl) = cl"
  "tIsRawString (stringToken v r s ln cl) = r" "tIsSingleQuoted (stringToken v r s ln cl) = s"
  "tLeadingComments (stringToken v r s ln cl) = []"
  by (simp_all add: stringToken_def mkToken_def)

lemma length_consumed:
  "moves l l' \<Longrightarrow> lx_pos l' \<le> length (lx_source l') \<Longrightarrow> length (consumed l l') = lx_pos l' - lx_pos l"
  by (simp add: consumed_def moves_def)

lemma pos_bounded_step: "moves l l' \<Longrightarrow> lex_wf l \<Longrightarrow> lx_pos l' \<le> length (lx_source l')"
  by (drule (1) moves_wf) (simp add: lex_wf_def)

lemma reader_ok_readString:
  assumes ne: "\<not> atEnd l" and wf: "lex_wf l"
  shows "reader_ok l (readString q l)"
proof -
  have ah: "ahead (lexAdvance l) (readString q l)"
    by (simp add: readString_def ahead_readStringLoop)
  have "tLine tok = lx_line l \<and> tColumn tok = lx_col l \<and> tLeadingComments tok = [] \<and> faithful tok (consumed l l')"
    if r: "readString q l = (Inr tok, l')" for tok l'
  proof -
    from r [unfolded readString_def, THEN readStringLoop_token] ne obtain v where
      v: "tok = stringToken v False (q = CHR 0x27) (lx_line l) (lx_col l)"
        "length v + lx_pos l + 2 \<le> lx_pos l'"
      by auto
    have mv: "moves l l'" by (rule moves_trans [OF moves_advance ahead_Inr [OF ah r]])
    from v show ?thesis
      using length_consumed [OF mv pos_bounded_step [OF mv wf]] by (simp add: faithful_def)
  qed
  then show ?thesis
    unfolding reader_ok_def
    by (auto intro: ahead_Inr [OF ah] ahead_trans [OF moves_advance ah])
qed


lemma rawStringDelimiterAt_within:
  assumes "rawStringDelimiterAt n l" "0 < n"
  shows "lx_pos l + n \<le> length (lx_source l)"
proof -
  from assms have "lexPeekAt (n - 1) l = CHR 0x60"
    unfolding rawStringDelimiterAt_def by (rule list_all_upt_last)
  then have "lx_pos l + (n - 1) < length (lx_source l)"
    by (intro lexPeekAt_within) (simp add: nul_def)
  with assms(2) show ?thesis by simp
qed

lemma ahead_rawStringLoop: "ahead l (rawStringLoop d sl sc sp l)"
proof (induction d sl sc sp l rule: rawStringLoop.induct)
  case (1 d sl sc sp l)
  then show ?case
    by (subst rawStringLoop.simps) (auto intro: moves_intros ahead_trans [OF moves_advance])
qed

lemma rawStringLoop_token:
  assumes "rawStringLoop d sl sc sp l = (Inr tok, l')" "0 < d" "sp \<le> lx_pos l"
  shows "\<exists>k. tok = stringToken (slice (lx_source l) sp k) True False sl sc \<and> sp \<le> k \<and>
           k + d = lx_pos l' \<and> lx_pos l' \<le> length (lx_source l)"
  using assms
proof (induction d sl sc sp l rule: rawStringLoop.induct)
  case (1 d sl sc sp l)
  show ?case
  proof (cases "rawStringDelimiterAt d l")
    case True
    with 1 show ?thesis
      using rawStringDelimiterAt_within [OF True "1.prems"(2)]
      by (auto simp: rawStringLoop.simps [of d sl sc sp l] advanceN_pos split: if_splits)
  next
    case False
    with 1 show ?thesis
      by (auto simp: rawStringLoop.simps [of d sl sc sp l] split: if_splits)
  qed
qed

lemma reader_ok_readRawString:
  assumes ne: "\<not> atEnd l" and wf: "lex_wf l" and q: "lexPeek l = CHR 0x60"
  shows "reader_ok l (readRawString l)"
proof -
  define d :: nat where "d = (if lexPeekAt 1 l = CHR 0x60 \<and> lexPeekAt 2 l = CHR 0x60 then 3 else 1)"
  let ?l1 = "advanceN d l"
  have d0: "0 < d" by (simp add: d_def)
  have "lexPeekAt 2 l \<noteq> nul" if "d = 3"
    using that by (simp add: d_def nul_def split: if_splits)
  then have room: "lx_pos l + d \<le> length (lx_source l)"
    using lexPeekAt_within [of 2 l] ne by (auto simp: d_def atEnd_def)
  have r: "readRawString l = rawStringLoop d (lx_line l) (lx_col l) (lx_pos ?l1) ?l1"
    by (simp add: readRawString_def d_def Let_def)
  have mv1: "moves (lexAdvance l) ?l1"
    using d0 by (cases d) (auto intro: moves_intros)
  have ah: "ahead (lexAdvance l) (readRawString l)"
    unfolding r by (rule ahead_trans [OF mv1 ahead_rawStringLoop])
  have "tLine tok = lx_line l \<and> tColumn tok = lx_col l \<and> tLeadingComments tok = [] \<and> faithful tok (consumed l l')"
    if t: "readRawString l = (Inr tok, l')" for tok l'
  proof -
    from t [unfolded r, THEN rawStringLoop_token, OF d0] obtain k where
      k: "tok = stringToken (slice (lx_source ?l1) (lx_pos ?l1) k) True False (lx_line l) (lx_col l)"
        "lx_pos ?l1 \<le> k" "k + d = lx_pos l'" "lx_pos l' \<le> length (lx_source ?l1)" by auto
    have mv: "moves l l'" by (rule moves_trans [OF moves_advance ahead_Inr [OF ah t]])
    have "length (slice (lx_source ?l1) (lx_pos ?l1) k) + 2 \<le> length (consumed l l')"
      using k length_consumed [OF mv pos_bounded_step [OF mv wf]] advanceN_pos [OF room] d0 by simp
    with k show ?thesis by (simp add: faithful_def)
  qed
  then show ?thesis
    unfolding reader_ok_def by (auto intro: ahead_Inr [OF ah] ahead_trans [OF moves_advance ah])
qed

text \<open>
  Raw blocks are switched off: no tag is ever a raw-block tag, so the mode is never entered
  and the invariant below is kept by every token.
\<close>

lemma moves_skipWhitespaceAndComments:
  assumes "skipWhitespaceAndComments l = (x, l')"
  shows "moves l l'"
  using assms
proof (induction l arbitrary: x l' rule: skipWhitespaceAndComments.induct)
  case (1 l0)
  let ?l = "skipWhitespace l0"
  let ?r = "readLineComment ?l"
  let ?n = "if cLine (fst ?r) \<noteq> lx_lastTokenLine (snd ?r)
            then (snd ?r)\<lparr>lx_pendingComments := lx_pendingComments (snd ?r) @ [fst ?r]\<rparr> else snd ?r"
  let ?b = "skipBlockComment (?l\<lparr>lx_pendingComments := []\<rparr>)"
  have ws: "moves l0 ?l" by (simp add: skipWhitespace_def moves_advanceWhile)
  note eq = "1.prems" [unfolded skipWhitespaceAndComments.simps [of l0] Let_def]
  show ?case
  proof (cases "lexPeek ?l = CHR ''/'' \<and> lexPeekAt 1 ?l = CHR ''/''")
    case True
    have "moves ?l (snd ?r)"
      by (rule moves_trans [OF moves_advance moves_readLineComment]) (rule prod.collapse [symmetric])
    then have "moves ?l ?n" by (auto simp: moves_def lex_wf_def)
    moreover have "moves ?n l'" using "1.IH" (1) [OF refl True refl] eq True by simp
    ultimately show ?thesis using ws moves_trans by blast
  next
    case nl: False
    show ?thesis
    proof (cases "lexPeek ?l = CHR ''/'' \<and> lexPeekAt 1 ?l = CHR ''*''")
      case True
      have b: "ahead (?l\<lparr>lx_pendingComments := []\<rparr>) ?b"
        by (rule ahead_trans [OF moves_advance ahead_skipBlockComment])
      have mb: "moves ?l l''" if "?b = (y, l'')" for y l''
        using ahead_Inr [OF b that] by (auto simp: moves_def lex_wf_def)
      show ?thesis
      proof (cases ?b)
        case (Pair y l'')
        show ?thesis
        proof (cases y)
          case (Inl e)
          with Pair eq nl True have "l' = l''" by (simp add: lbind_def)
          with mb [OF Pair] ws show ?thesis using moves_trans by blast
        next
          case (Inr u)
          with Pair eq nl True have "skipWhitespaceAndComments l'' = (x, l')" by (simp add: lbind_def)
          then have "moves l'' l'" using "1.IH" (2) [OF refl nl True] Pair Inr by blast
          with mb [OF Pair] ws show ?thesis using moves_trans by blast
        qed
      qed
    next
      case False
      with eq nl have "l' = ?l" by (auto simp: lok_def)
      with ws show ?thesis by simp
    qed
  qed
qed


lemma ahead_rawBlockLoop: "ahead l (rawBlockLoop tag sl sc sp d l)"
proof (induction tag sl sc sp d l rule: rawBlockLoop.induct)
  case (1 tag sl sc sp d l)
  have str: "ahead l (lbind (skipQuotedRawBlockString (lexPeek l) l) (\<lambda>_ l'. rawBlockLoop tag sl sc sp d l'))"
    if c: "\<not> atEnd l" "lexPeek l = CHR 0x22 \<or> lexPeek l = CHR 0x27"
  proof (rule ahead_lbind)
    show "ahead l (skipQuotedRawBlockString (lexPeek l) l)"
      by (rule ahead_trans [OF moves_advance ahead_skipQuotedRawBlockString])
    fix u l'
    assume "skipQuotedRawBlockString (lexPeek l) l = (Inr u, l')" and mv: "moves l l'"
    from "1.IH" (1) [OF c(1) refl c(2) this(1)] show "ahead l (rawBlockLoop tag sl sc sp d l')"
      by (rule ahead_trans [OF mv])
  qed
  have cmt: "ahead l (lbind (skipBlockComment l) (\<lambda>_ l'. rawBlockLoop tag sl sc sp d l'))"
    if c: "\<not> atEnd l" "\<not> (lexPeek l = CHR 0x22 \<or> lexPeek l = CHR 0x27)" "\<not> rawSourceLineCommentAtSlash l"
      "lexPeek l = CHR ''/'' \<and> lexPeekAt 1 l = CHR ''*''"
  proof (rule ahead_lbind)
    show "ahead l (skipBlockComment l)"
      by (rule ahead_trans [OF moves_advance ahead_skipBlockComment])
    fix u l'
    assume "skipBlockComment l = (Inr u, l')" and mv: "moves l l'"
    from "1.IH" (3) [OF c(1) refl c(2-4) this(1)] show "ahead l (rawBlockLoop tag sl sc sp d l')"
      by (rule ahead_trans [OF mv])
  qed
  show ?case
    using str cmt "1.IH" (2,4-6)
    by (subst rawBlockLoop.simps)
      (auto simp: Let_def intro: moves_intros ahead_trans [OF moves_advance] ahead_trans [OF moves_advanceWhile])
qed

lemma ahead_readRawSourceBlock: "ahead (lexAdvance l) (readRawSourceBlock tag sl sc l)"
  by (auto simp: readRawSourceBlock_def Let_def intro: ahead_rawBlockLoop ahead_trans [OF moves_advance])

subsection \<open>One token\<close>

lemma finished_Inr:
  "finished r = (Inr tok', l'') \<longleftrightarrow>
     (\<exists>tok l'. r = (Inr tok, l') \<and> tok' = fst (finishToken tok l') \<and> l'' = snd (finishToken tok l'))"
  by (auto simp: finished_def lbind_Inr)

lemma finishToken_token [simp]:
  "tType (fst (finishToken tok l)) = tType tok" "tValue (fst (finishToken tok l)) = tValue tok"
  "tLine (fst (finishToken tok l)) = tLine tok" "tColumn (fst (finishToken tok l)) = tColumn tok"
  "tIsRawString (fst (finishToken tok l)) = tIsRawString tok"
  "tIsSingleQuoted (fst (finishToken tok l)) = tIsSingleQuoted tok"
  by (simp_all add: finishToken_def Let_def)

lemma finishToken_state [simp]:
  "lx_source (snd (finishToken tok l)) = lx_source l" "lx_pos (snd (finishToken tok l)) = lx_pos l"
  "lx_line (snd (finishToken tok l)) = lx_line l" "lx_col (snd (finishToken tok l)) = lx_col l"
  "lx_rawBlockTag (snd (finishToken tok l)) = lx_rawBlockTag l"
  "lx_rawBlockBang (snd (finishToken tok l)) = lx_rawBlockBang l"
  "lx_pendingComments (snd (finishToken tok l)) = []"
  by (simp_all add: finishToken_def Let_def)

lemma moves_finish [simp]: "moves a (snd (finishToken tok l)) = moves a l"
  by (simp add: moves_def lex_wf_def)

lemma faithful_finish [simp]: "faithful (fst (finishToken tok l)) txt = faithful tok txt"
  by (simp add: faithful_def)

lemma consumed_finish [simp]: "consumed a (snd (finishToken tok l)) = consumed a l"
  by (simp add: consumed_def)

lemma readIdentifier_bind [simp]:
  "lbind (readIdentifier l) (\<lambda>tok l'. lok tok (if tType tok = TOKEN_IDENT \<and> isRawSourceBlockTag (tValue tok) \<and>
     rawSourceBlockAllowedHere l' then l'\<lparr>lx_rawBlockTag := tValue tok\<rparr> else l')) = readIdentifier l"
  by (simp add: isRawSourceBlockTag_def readIdentifier_def lbind_def lok_def Let_def)

lemma nextOrdinaryToken_moves:
  assumes ne: "\<not> atEnd l" and r: "nextOrdinaryToken l = (Inr tok, l')"
  shows "moves (lexAdvance l) l'"
proof -
  have str: "moves (lexAdvance l) l''" if "readString q l = (Inr t, l'')" for q t l''
    using that ahead_Inr [OF ahead_readStringLoop] by (auto simp: readString_def)
  have raw: "moves (lexAdvance l) l''" if "readRawString l = (Inr t, l'')" for t l''
  proof -
    have "moves (advanceN k l) l''" if "k = (if lexPeekAt 1 l = CHR 0x60 \<and> lexPeekAt 2 l = CHR 0x60 then 3 else 1)" for k
      using \<open>readRawString l = (Inr t, l'')\<close> that ahead_Inr [OF ahead_rawStringLoop]
      by (auto simp: readRawString_def Let_def)
    moreover have "moves (lexAdvance l) (advanceN (Suc k) l)" for k by (auto intro: moves_intros)
    ultimately show ?thesis
      by (metis moves_trans numeral_3_eq_3 One_nat_def)
  qed
  have ok: "moves (lexAdvance l) l''" if "reader_ok l x" "x = (Inr t, l'')" for x t l''
    using that by (auto simp: reader_ok_def)
  show ?thesis
    using r str raw ok [OF reader_ok_readNumber [OF ne]] ok [OF reader_ok_readIdentifier [OF ne]]
      ok [OF reader_ok_readOperator [OF ne]]
    by (auto simp: nextOrdinaryToken_def Let_def finished_Inr split: if_splits)
qed

lemma nextOrdinaryToken_ok:
  assumes ne: "\<not> atEnd l" and wf: "lex_wf l" and r: "nextOrdinaryToken l = (Inr tok, l')"
  shows "tLine tok = lx_line l \<and> tColumn tok = lx_col l \<and> faithful tok (consumed l l')"
proof -
  have ok: "tLine t = lx_line l \<and> tColumn t = lx_col l \<and> faithful t (consumed l l'')"
    if "reader_ok l x" "x = (Inr t, l'')" for x t l''
    using that by (auto simp: reader_ok_def)
  show ?thesis
    using r ok [OF reader_ok_readNumber [OF ne]] ok [OF reader_ok_readIdentifier [OF ne]]
      ok [OF reader_ok_readOperator [OF ne]] ok [OF reader_ok_readString [OF ne wf]]
      ok [OF reader_ok_readRawString [OF ne wf]]
    by (auto simp: nextOrdinaryToken_def Let_def finished_Inr split: if_splits)
qed

lemma unread_eqI: "lx_source a = lx_source b \<Longrightarrow> lx_pos a = lx_pos b \<Longrightarrow> unread a = unread b"
  by (simp add: unread_def)

lemma nextTokenInternal_progress:
  assumes "nextTokenInternal l0 = (Inr tok, l')" "tType tok \<noteq> TOKEN_EOF"
  shows "unread l' < unread l0"
proof -
  from assms(1) obtain u l where ws: "skipWhitespaceAndComments l0 = (Inr u, l)"
    by (auto simp: nextTokenInternal_def lbind_Inr)
  let ?c = "l\<lparr>lx_rawBlockTag := [], lx_rawBlockBang := False\<rparr>"
  have small: "unread l' < unread l" if "moves (lexAdvance k) l'" "lx_source k = lx_source l" "lx_pos k = lx_pos l" "\<not> atEnd l" for k
    using moves_unread [OF that(1)] unread_lexAdvance [of k] that(2-4) unread_eqI [OF that(2,3)]
    by (simp add: atEnd_def)
  have ne: "\<not> atEnd l" "\<not> atEnd ?c"
    using assms ws by (auto simp: nextTokenInternal_def lbind_Inr atEnd_def)
  have "unread l' < unread l"
  proof (cases "lx_rawBlockTag l = []")
    case True
    with assms(1) ws ne have "nextOrdinaryToken l = (Inr tok, l')"
      by (simp add: nextTokenInternal_def lbind_def)
    from small [OF nextOrdinaryToken_moves [OF ne(1) this] refl refl ne(1)] show ?thesis .
  next
    case False
    with assms(1) ws ne(1) consider
      (bang) "moves (lexAdvance (l\<lparr>lx_rawBlockBang := True\<rparr>)) l'"
    | (block) t l'' where "readRawSourceBlock (lx_rawBlockTag l) (lx_line l) (lx_col l) ?c = (Inr t, l'')"
        "l' = snd (finishToken t l'')"
    | (other) "nextOrdinaryToken ?c = (Inr tok, l')"
      by (auto simp: nextTokenInternal_def lbind_def finished_Inr split: if_splits)
    then show ?thesis
    proof cases
      case bang
      from small [OF this] ne(1) show ?thesis by simp
    next
      case block
      then have "moves (lexAdvance ?c) l'"
        using ahead_Inr [OF ahead_readRawSourceBlock block(1)] by simp
      from small [OF this] ne(1) show ?thesis by simp
    next
      case other
      from small [OF nextOrdinaryToken_moves [OF ne(2) other]] ne(1) show ?thesis by simp
    qed
  qed
  also have "\<dots> \<le> unread l0" by (rule moves_unread [OF moves_skipWhitespaceAndComments [OF ws]])
  finally show ?thesis .
qed


subsection \<open>The whole token stream\<close>

function tokenizeLoop :: "Token list \<Rightarrow> lexer \<Rightarrow> Token list lres" where
  "tokenizeLoop tokens l =
     lbind (nextTokenInternal l) (\<lambda>tok l'.
       if tType tok = TOKEN_EOF then lok (tokens @ [tok]) l' else tokenizeLoop (tokens @ [tok]) l')"
  by pat_completeness auto
termination
  by (relation "measure (\<lambda>(ts, l). unread l)") (auto dest: nextTokenInternal_progress)

declare tokenizeLoop.simps [simp del]

definition Tokenize :: "bytes \<Rightarrow> lex_error + Token list" where
  "Tokenize src = fst (tokenizeLoop [] (newLexer src))"

subsection \<open>Errors as text\<close>

definition atPos :: "bytes \<Rightarrow> nat \<Rightarrow> nat \<Rightarrow> bytes" where
  "atPos msg ln cl = msg @ '' at '' @ showNat ln @ '':'' @ showNat cl"

fun errorText :: "lex_error \<Rightarrow> bytes" where
  "errorText (UnterminatedRawBlock tag ln cl) = atPos (''unterminated raw '' @ tag @ '' block'') ln cl"
| "errorText (UnterminatedRawBlockString ln cl) = atPos ''unterminated raw block string'' ln cl"
| "errorText (UnterminatedBlockComment ln cl) = atPos ''unterminated block comment starting'' ln cl"
| "errorText (UnterminatedStringNewline ln cl) =
     atPos ''unterminated string'' ln cl @ '': newline in string literal''"
| "errorText (UnterminatedStringEscape ln cl) =
     atPos ''unterminated string'' ln cl @ '': unexpected end after escape''"
| "errorText (UnterminatedString ln cl) = atPos ''unterminated string'' ln cl"
| "errorText (InvalidUnicodeEscape ln cl) = atPos ''invalid unicode escape'' ln cl"
| "errorText (InvalidHexEscape ln cl) = atPos ''invalid hex escape'' ln cl"
| "errorText (InvalidDecimalByteEscape ln cl) = atPos ''invalid decimal byte escape'' ln cl"
| "errorText (UnterminatedRawString ln cl) = atPos ''unterminated raw string'' ln cl"
| "errorText (UnexpectedCharacter ch ln cl) = atPos (''unexpected character '' @ quoteByteRune ch) ln cl"

definition NextToken :: "lexer \<Rightarrow> Token \<times> lexer" where
  "NextToken l = (case nextTokenInternal l of
     (Inl e, l') \<Rightarrow> (mkToken TOKEN_ILLEGAL (errorText e) (lx_line l') (lx_col l'), l')
   | (Inr tok, l') \<Rightarrow> (tok, l'))"

end
