(* ===== verification/Parser_State.thy ===== *)
theory Parser_State
  imports Ast Lexer
begin

section \<open>Parser state, tokens and file directives (internal/parser/parser.go)\<close>

text \<open>
  The parser is spread over \<open>Parser_State\<close>, \<open>Parser_Expr\<close>, \<open>Parser_Stmt\<close> and \<open>Parser\<close>,
  one definition per method. A method takes the parser state and returns a value with the
  new state, a parse error, or \<open>PFuel\<close>. The mutual recursion of the methods goes through four of them: \<open>parseExpr\<close>,
  \<open>parseConcat\<close>, \<open>parseUnary\<close> and \<open>parseStmt\<close>. The others take these four as a record
  \<open>P\<close> of functions, and \<open>tie n\<close> closes the recursion with \<open>n\<close> levels of fuel. A loop
  of a method is a recursive function over a bound of its iterations that is one more than the
  number of unread tokens. \<open>Parser_Correct\<close> shows that neither bound is ever reached.
\<close>

datatype perror = ParseError nat nat pmsg
and pmsg =
    ExpectedToken TokenType TokenType bytes
  | UnexpectedToken TokenType bytes
  | ImportAlias bytes
  | InvalidDenseLength bytes
  | UnsupportedDenseDType bytes
  | InterpolationLexError lex_error
  | InterpolationParseError perror
  | Message bytes

record parser =
  ps_tokens :: "Token list"
  ps_pos :: nat
  ps_suppressTaggedBlock :: bool

datatype 'a pres = POk 'a parser | PErr perror | PFuel

definition pbind :: "'a pres \<Rightarrow> ('a \<Rightarrow> parser \<Rightarrow> 'b pres) \<Rightarrow> 'b pres" where
  "pbind r f = (case r of POk a s \<Rightarrow> f a s | PErr e \<Rightarrow> PErr e | PFuel \<Rightarrow> PFuel)"

record parsers =
  pExpr :: "parser \<Rightarrow> Expr pres"
  pConcat :: "parser \<Rightarrow> Expr pres"
  pUnary :: "parser \<Rightarrow> Expr pres"
  pStmt :: "parser \<Rightarrow> Stmt pres"

definition newParser :: "Token list \<Rightarrow> parser" where
  "newParser toks = \<lparr>ps_tokens = toks, ps_pos = 0, ps_suppressTaggedBlock = False\<rparr>"

subsection \<open>Token helpers\<close>

definition eofToken :: Token where
  "eofToken = mkToken TOKEN_EOF [] 0 0"

definition peekAt :: "nat \<Rightarrow> parser \<Rightarrow> Token" where
  "peekAt k s = (if length (ps_tokens s) \<le> ps_pos s + k then eofToken else ps_tokens s ! (ps_pos s + k))"

definition peek :: "parser \<Rightarrow> Token" where
  "peek s = (if length (ps_tokens s) \<le> ps_pos s then eofToken else ps_tokens s ! ps_pos s)"

definition advance :: "parser \<Rightarrow> parser" where
  "advance s = (if ps_pos s < length (ps_tokens s) then s\<lparr>ps_pos := Suc (ps_pos s)\<rparr> else s)"

definition isAtEnd :: "parser \<Rightarrow> bool" where
  "isAtEnd s \<longleftrightarrow> tType (peek s) = TOKEN_EOF"

definition check :: "TokenType \<Rightarrow> parser \<Rightarrow> bool" where
  "check t s \<longleftrightarrow> tType (peek s) = t"

definition checkIdent :: "bytes \<Rightarrow> parser \<Rightarrow> bool" where
  "checkIdent v s \<longleftrightarrow> tType (peek s) = TOKEN_IDENT \<and> tValue (peek s) = v"

definition checkIdentAt :: "nat \<Rightarrow> bytes \<Rightarrow> parser \<Rightarrow> bool" where
  "checkIdentAt k v s \<longleftrightarrow> tType (peekAt k s) = TOKEN_IDENT \<and> tValue (peekAt k s) = v"

definition matchAny :: "TokenType list \<Rightarrow> parser \<Rightarrow> bool" where
  "matchAny types s \<longleftrightarrow> tType (peek s) \<in> set types"

definition errorf :: "pmsg \<Rightarrow> parser \<Rightarrow> 'a pres" where
  "errorf msg s = PErr (ParseError (tLine (peek s)) (tColumn (peek s)) msg)"

definition posError :: "Pos \<Rightarrow> pmsg \<Rightarrow> 'a pres" where
  "posError p msg = PErr (ParseError (pLine p) (pColumn p) msg)"

definition expect :: "TokenType \<Rightarrow> parser \<Rightarrow> Token pres" where
  "expect t s = (let tok = peek s in
     if tType tok \<noteq> t then errorf (ExpectedToken t (tType tok) (tValue tok)) s else POk tok (advance s))"

definition tokenPos :: "Token \<Rightarrow> Pos" where
  "tokenPos tok = mkPos (tLine tok) (tColumn tok)"

definition currentPos :: "parser \<Rightarrow> Pos" where
  "currentPos s = tokenPos (peek s)"

definition remaining :: "parser \<Rightarrow> nat" where
  "remaining s = length (ps_tokens s) - ps_pos s"

definition loopFuel :: "parser \<Rightarrow> nat" where
  "loopFuel s = Suc (remaining s)"

lemma peek_not_eof: "tType (peek s) \<noteq> TOKEN_EOF \<Longrightarrow> ps_pos s < length (ps_tokens s)"
  by (auto simp: peek_def eofToken_def split: if_splits)

lemma remaining_advance: "tType (peek s) \<noteq> TOKEN_EOF \<Longrightarrow> remaining (advance s) < remaining s"
  by (drule peek_not_eof) (simp add: remaining_def advance_def)

function skipSemicolons :: "parser \<Rightarrow> parser" where
  "skipSemicolons s = (if check TOKEN_SEMICOLON s then skipSemicolons (advance s) else s)"
  by pat_completeness auto
termination
  by (relation "measure remaining") (simp_all add: check_def remaining_advance)

declare skipSemicolons.simps [simp del]

text \<open>Go's type assertions on an expression.\<close>

fun identName :: "Expr \<Rightarrow> bytes option" where
  "identName (IdentExpr p n) = Some n"
| "identName e = None"

fun isCallExpr :: "Expr \<Rightarrow> bool" where
  "isCallExpr (CallExpr p f a) = True"
| "isCallExpr e = False"

fun isMethodCallExpr :: "Expr \<Rightarrow> bool" where
  "isMethodCallExpr (MethodCallExpr p ob m a) = True"
| "isMethodCallExpr e = False"

fun isRecvExpr :: "Expr \<Rightarrow> bool" where
  "isRecvExpr (RecvExpr p c) = True"
| "isRecvExpr e = False"

subsection \<open>Import aliases and file directives\<close>

definition isIdentLike :: "bytes \<Rightarrow> bool" where
  "isIdentLike s \<longleftrightarrow> (case s of [] \<Rightarrow> False
     | c # cs \<Rightarrow> isLetter c \<and> list_all isLetterOrDigit cs)"

definition defaultImportAlias :: "bytes \<Rightarrow> bytes" where
  "defaultImportAlias path0 =
     (let path = trimSuffix (trimPrefix (trimSpace path0) ''go:'') ''/'' in
      if path = [] then []
      else let path = (case lastIndexByte path (CHR ''/'') of Some k \<Rightarrow> drop (Suc k) path | None \<Rightarrow> path);
               path = (case lastIndexByte path (CHR ''.'') of
                         Some k \<Rightarrow> (if Suc k < length path then drop (Suc k) path else path)
                       | None \<Rightarrow> path);
               path = replaceByte (CHR ''-'') ''_'' path
           in if isIdentLike path then path else [])"

definition directiveNameEnd :: "char \<Rightarrow> bool" where
  "directiveNameEnd r \<longleftrightarrow> r = CHR '':'' \<or> r = CHR '' '' \<or> r = CHR 0x09"

definition parseLeiaDirective :: "bytes \<Rightarrow> (bytes \<times> bytes) option" where
  "parseLeiaDirective text0 =
     (let text = trimSpace text0 in
      if \<not> hasPrefix text ''leia:'' then None
      else let rest = drop 5 text in
        if rest = [] then None
        else case indexFunc directiveNameEnd rest of
          None \<Rightarrow> Some (rest, [])
        | Some k \<Rightarrow> if take k rest = [] then None else Some (take k rest, trimSpace (drop k rest)))"

definition directiveRest :: "bytes \<Rightarrow> bytes \<Rightarrow> bytes option" where
  "directiveRest text directive =
     (case parseLeiaDirective text of
        None \<Rightarrow> None
      | Some (name, rest) \<Rightarrow> if name \<noteq> trimPrefix directive ''leia:'' then None else Some rest)"

definition isFileDirectiveKind :: "bytes \<Rightarrow> bool" where
  "isFileDirectiveKind name \<longleftrightarrow> name \<in> set [''build'', ''test'', ''cap'', ''feature'']"

definition directiveSep :: "char \<Rightarrow> bool" where
  "directiveSep r \<longleftrightarrow> r = CHR '','' \<or> r = CHR '' '' \<or> r = CHR 0x09"

definition parseDirectiveArgs :: "bytes \<Rightarrow> bytes list" where
  "parseDirectiveArgs rest =
     (if rest = [] then []
      else filter (\<lambda>field. field \<noteq> []) (map trimSpace (fieldsFunc directiveSep [] rest)))"

definition commentDirective :: "Comment \<Rightarrow> FileDirective list" where
  "commentDirective comment =
     (case parseLeiaDirective (cText comment) of
        None \<Rightarrow> []
      | Some (name, rest) \<Rightarrow>
          if \<not> isFileDirectiveKind name then []
          else let text = trimLeft rest ([CHR '':'', CHR '' '', CHR 0x09]) in
            [\<lparr>fdP = mkPos (cLine comment) (cColumn comment), fdKind = name,
              fdArgs = parseDirectiveArgs text, fdText = text\<rparr>])"

definition parseFileDirectives :: "parser \<Rightarrow> FileDirective list" where
  "parseFileDirectives s =
     (if tType (peek s) = TOKEN_EOF then []
      else concat (map commentDirective (tLeadingComments (peek s))))"

end
