(* ===== verification/Parser_Expr.thy ===== *)
theory Parser_Expr
  imports Parser_State
begin

section \<open>Parsing expressions (internal/parser/parser.go)\<close>

text \<open>
  Expression lists, parameters, blocks, function bodies, operators, postfix forms, primaries,
  tagged dialect forms, interpolated strings and literals.
\<close>

subsection \<open>Expression lists and parameters\<close>

text \<open>One or more expressions separated by commas: the loop that the source writes out in
  \<open>parseExprList\<close>, \<open>parseArgList\<close>, \<open>parseReturnStmt\<close> and \<open>parseMultiTargetStmt\<close>.\<close>

fun commaExprs :: "parsers \<Rightarrow> nat \<Rightarrow> Expr list \<Rightarrow> parser \<Rightarrow> Expr list pres" where
  "commaExprs P 0 acc s = PFuel"
| "commaExprs P (Suc n) acc s =
     pbind (pExpr P s) (\<lambda>e s.
       if check TOKEN_COMMA s then commaExprs P n (acc @ [e]) (advance s) else POk (acc @ [e]) s)"

definition parseExprList :: "parsers \<Rightarrow> parser \<Rightarrow> Expr list pres" where
  "parseExprList P s = commaExprs P (loopFuel s) [] s"

definition parseArgList :: "parsers \<Rightarrow> parser \<Rightarrow> Expr list pres" where
  "parseArgList P s = (if check TOKEN_RPAREN s then POk [] s else commaExprs P (loopFuel s) [] s)"

definition parseExprBeforeBlock :: "parsers \<Rightarrow> parser \<Rightarrow> Expr pres" where
  "parseExprBeforeBlock P s =
     pbind (pExpr P (s\<lparr>ps_suppressTaggedBlock := True\<rparr>)) (\<lambda>e s'.
       POk e (s'\<lparr>ps_suppressTaggedBlock := ps_suppressTaggedBlock s\<rparr>))"

fun funcParamsLoop :: "nat \<Rightarrow> FuncParam list \<Rightarrow> parser \<Rightarrow> FuncParam list pres" where
  "funcParamsLoop 0 ps s = PFuel"
| "funcParamsLoop (Suc n) ps s =
     (if check TOKEN_ELLIPSIS s
      then POk (ps @ [\<lparr>fpName = ''...'', fpIsVarArg = True\<rparr>]) (advance s)
      else pbind (expect TOKEN_IDENT s) (\<lambda>nameTok s.
        if check TOKEN_ELLIPSIS s
        then POk (ps @ [\<lparr>fpName = tValue nameTok, fpIsVarArg = True\<rparr>]) (advance s)
        else (let ps' = ps @ [\<lparr>fpName = tValue nameTok, fpIsVarArg = False\<rparr>] in
          if check TOKEN_COMMA s then funcParamsLoop n ps' (advance s) else POk ps' s)))"

definition parseFuncParams :: "parser \<Rightarrow> FuncParam list pres" where
  "parseFuncParams s =
     pbind (expect TOKEN_LPAREN s) (\<lambda>_ s.
     pbind (if check TOKEN_RPAREN s then POk [] s else funcParamsLoop (loopFuel s) [] s) (\<lambda>ps s.
     pbind (expect TOKEN_RPAREN s) (\<lambda>_ s. POk ps s)))"

subsection \<open>Blocks and function bodies\<close>

fun blockLoop :: "parsers \<Rightarrow> nat \<Rightarrow> Stmt list \<Rightarrow> parser \<Rightarrow> Stmt list pres" where
  "blockLoop P 0 acc s = PFuel"
| "blockLoop P (Suc n) acc s =
     (if check TOKEN_RBRACE s \<or> isAtEnd s then POk acc s
      else let s1 = skipSemicolons s in
        if check TOKEN_RBRACE s1 then POk acc s1
        else pbind (pStmt P s1) (\<lambda>st s2. blockLoop P n (acc @ [st]) s2))"

definition parseBlock :: "parsers \<Rightarrow> parser \<Rightarrow> BlockStmt pres" where
  "parseBlock P s =
     pbind (expect TOKEN_LBRACE s) (\<lambda>lbrace s.
     pbind (blockLoop P (loopFuel s) [] s) (\<lambda>stmts s.
     pbind (expect TOKEN_RBRACE s) (\<lambda>_ s. POk (BlockStmt (tokenPos lbrace) stmts) s)))"

definition parseFuncLitExpr :: "parsers \<Rightarrow> parser \<Rightarrow> Expr pres" where
  "parseFuncLitExpr P s0 =
     (let pos = tokenPos (peek s0) in
      pbind (parseFuncParams (advance s0)) (\<lambda>params s.
      pbind (parseBlock P s) (\<lambda>body s. POk (FuncLitExpr pos params body) s)))"

subsection \<open>Operators\<close>

definition orOps :: "TokenType list" where
  "orOps = [TOKEN_OR]"

definition andOps :: "TokenType list" where
  "andOps = [TOKEN_AND]"

definition comparisonOps :: "TokenType list" where
  "comparisonOps = [TOKEN_EQ, TOKEN_NEQ, TOKEN_LT, TOKEN_LE, TOKEN_GT, TOKEN_GE]"

definition additiveOps :: "TokenType list" where
  "additiveOps = [TOKEN_PLUS, TOKEN_MINUS, TOKEN_BIT_OR, TOKEN_BIT_XOR]"

definition multiplicativeOps :: "TokenType list" where
  "multiplicativeOps = [TOKEN_STAR, TOKEN_SLASH, TOKEN_PERCENT,
     TOKEN_SHL, TOKEN_SHR, TOKEN_BIT_AND, TOKEN_BIT_AND_NOT]"

definition unaryOps :: "TokenType list" where
  "unaryOps = [TOKEN_MINUS, TOKEN_NOT, TOKEN_LEN, TOKEN_BIT_XOR]"

text \<open>The loop that the left associative levels share: \<open>left op right op ...\<close>.\<close>

fun binaryLoop :: "TokenType list \<Rightarrow> (parser \<Rightarrow> Expr pres) \<Rightarrow> nat \<Rightarrow> Expr \<Rightarrow> parser \<Rightarrow> Expr pres" where
  "binaryLoop ops operand 0 left s = PFuel"
| "binaryLoop ops operand (Suc n) left s =
     (if matchAny ops s
      then let opTok = peek s in
        pbind (operand (advance s)) (\<lambda>right s.
          binaryLoop ops operand n (BinaryExpr (tokenPos opTok) left (tValue opTok) right) s)
      else POk left s)"

definition binaryLevel :: "TokenType list \<Rightarrow> (parser \<Rightarrow> Expr pres) \<Rightarrow> parser \<Rightarrow> Expr pres" where
  "binaryLevel ops operand s = pbind (operand s) (\<lambda>left s. binaryLoop ops operand (loopFuel s) left s)"

definition parseMultiplicative :: "parsers \<Rightarrow> parser \<Rightarrow> Expr pres" where
  "parseMultiplicative P = binaryLevel multiplicativeOps (pUnary P)"

definition parseAdditive :: "parsers \<Rightarrow> parser \<Rightarrow> Expr pres" where
  "parseAdditive P = binaryLevel additiveOps (parseMultiplicative P)"

definition parseConcat :: "parsers \<Rightarrow> parser \<Rightarrow> Expr pres" where
  "parseConcat P s0 =
     pbind (parseAdditive P s0) (\<lambda>left s.
       if check TOKEN_CONCAT s
       then let opTok = peek s in
         pbind (pConcat P (advance s)) (\<lambda>right s.
           POk (BinaryExpr (tokenPos opTok) left (tValue opTok) right) s)
       else POk left s)"

definition parseComparison :: "parsers \<Rightarrow> parser \<Rightarrow> Expr pres" where
  "parseComparison P = binaryLevel comparisonOps (pConcat P)"

definition parseAnd :: "parsers \<Rightarrow> parser \<Rightarrow> Expr pres" where
  "parseAnd P = binaryLevel andOps (parseComparison P)"

definition parseOr :: "parsers \<Rightarrow> parser \<Rightarrow> Expr pres" where
  "parseOr P = binaryLevel orOps (parseAnd P)"

definition parseExpr :: "parsers \<Rightarrow> parser \<Rightarrow> Expr pres" where
  "parseExpr P s = parseOr P s"

subsection \<open>Interpolated strings\<close>

definition backslash :: char where
  "backslash = CHR 0x5C"

function skipQuotedLoop :: "bytes \<Rightarrow> char \<Rightarrow> nat \<Rightarrow> nat option" where
  "skipQuotedLoop str quote i =
     (if length str \<le> i then None
      else if str ! i = backslash then skipQuotedLoop str quote (i + 2)
      else if str ! i = quote then Some i
      else skipQuotedLoop str quote (Suc i))"
  by pat_completeness auto
termination
  by (relation "measure (\<lambda>(str, quote, i). length str - i)") auto

declare skipQuotedLoop.simps [simp del]

definition skipQuotedString :: "bytes \<Rightarrow> nat \<Rightarrow> nat option" where
  "skipQuotedString str start =
     (if length str \<le> start then None
      else let quote = str ! start in
        if quote \<noteq> CHR 0x22 \<and> quote \<noteq> CHR 0x27 then None
        else skipQuotedLoop str quote (Suc start))"

definition skipRawString :: "bytes \<Rightarrow> nat \<Rightarrow> nat option" where
  "skipRawString str start =
     (if length str \<le> start \<or> str ! start \<noteq> CHR 0x60 then None
      else let delimLen = (if start + 2 < length str \<and> str ! (start + 1) = CHR 0x60
                             \<and> str ! (start + 2) = CHR 0x60 then 3 else 1)
           in map_option (\<lambda>k. start + delimLen + k + delimLen - 1)
                (indexOf (drop (start + delimLen) str) (replicate delimLen (CHR 0x60))))"

lemma skipQuotedLoop_bound: "skipQuotedLoop str quote i = Some k \<Longrightarrow> i \<le> k \<and> k < length str"
proof (induction str quote i rule: skipQuotedLoop.induct)
  case (1 str quote i)
  show ?case
    using 1 by (subst (asm) (3) skipQuotedLoop.simps) (fastforce split: if_splits)
qed

lemma skipQuotedString_bound: "skipQuotedString str i = Some k \<Longrightarrow> i \<le> k \<and> k < length str"
  by (auto simp: skipQuotedString_def Let_def split: if_splits dest: skipQuotedLoop_bound)

lemma skipRawString_bound: "skipRawString str i = Some k \<Longrightarrow> i \<le> k \<and> k < length str"
  by (auto simp: skipRawString_def Let_def split: if_splits dest!: indexOf_bound)

text \<open>The offset of the brace that closes an interpolation, skipping nested strings and comments.\<close>

function scanInterpolationLoop :: "bytes \<Rightarrow> nat \<Rightarrow> nat \<Rightarrow> nat option" where
  "scanInterpolationLoop str depth i =
     (if length str \<le> i then None
      else if str ! i = CHR 0x22 \<or> str ! i = CHR 0x27 then
        (case skipQuotedString str i of None \<Rightarrow> None
         | Some k \<Rightarrow> scanInterpolationLoop str depth (Suc k))
      else if str ! i = CHR 0x60 then
        (case skipRawString str i of None \<Rightarrow> None
         | Some k \<Rightarrow> scanInterpolationLoop str depth (Suc k))
      else if str ! i = CHR ''/'' \<and> Suc i < length str \<and> str ! Suc i = CHR ''/'' then
        (case indexFunc (\<lambda>c. c = newline) (drop (i + 2) str) of None \<Rightarrow> None
         | Some k \<Rightarrow> scanInterpolationLoop str depth (i + k + 2))
      else if str ! i = CHR ''/'' \<and> Suc i < length str \<and> str ! Suc i = CHR ''*'' then
        (case indexOf (drop (i + 2) str) ''*/'' of None \<Rightarrow> None
         | Some k \<Rightarrow> scanInterpolationLoop str depth (i + k + 4))
      else if str ! i = CHR 0x7B then scanInterpolationLoop str (Suc depth) (Suc i)
      else if str ! i = CHR 0x7D then
        (if depth - 1 = 0 then Some i else scanInterpolationLoop str (depth - 1) (Suc i))
      else scanInterpolationLoop str depth (Suc i))"
  by pat_completeness auto
termination
  by (relation "measure (\<lambda>(str, depth, i). length str - i)")
     (auto dest!: skipQuotedString_bound skipRawString_bound)

declare scanInterpolationLoop.simps [simp del]

definition scanInterpolationEnd :: "bytes \<Rightarrow> nat \<Rightarrow> nat option" where
  "scanInterpolationEnd str start = scanInterpolationLoop str 1 start"

lemma scanInterpolationLoop_bound:
  "scanInterpolationLoop str depth i = Some k \<Longrightarrow> i \<le> k \<and> k < length str"
proof (induction "length str - i" arbitrary: depth i rule: less_induct)
  case less
  from less.prems have "i < length str"
    by (subst (asm) scanInterpolationLoop.simps) (simp split: if_splits)
  then have IH: "j \<le> k \<and> k < length str" if "i < j" "scanInterpolationLoop str d j = Some k" for d j
    using less.hyps [of j d] that by simp
  from less.prems show ?case
    by (subst (asm) scanInterpolationLoop.simps)
       (fastforce split: if_splits option.splits dest!: skipQuotedString_bound skipRawString_bound
          dest: IH [rotated])
qed

lemma scanInterpolationEnd_bound:
  "scanInterpolationEnd str start = Some k \<Longrightarrow> start \<le> k \<and> k < length str"
  by (simp add: scanInterpolationEnd_def scanInterpolationLoop_bound)

fun onlySemicolonsOrEOF :: "Token list \<Rightarrow> bool" where
  "onlySemicolonsOrEOF [] = True"
| "onlySemicolonsOrEOF (t # ts) =
     (if tType t = TOKEN_SEMICOLON then onlySemicolonsOrEOF ts else tType t = TOKEN_EOF)"

definition onlySemicolonsOrEOFRemain :: "parser \<Rightarrow> bool" where
  "onlySemicolonsOrEOFRemain s = onlySemicolonsOrEOF (drop (ps_pos s) (ps_tokens s))"

text \<open>One \<open>${...}\<close>: its trimmed text is lexed and parsed as one expression.\<close>

definition parseInterpolation :: "parsers \<Rightarrow> Pos \<Rightarrow> bytes \<Rightarrow> parser \<Rightarrow> Expr pres" where
  "parseInterpolation P pos exprSrc s =
     (if exprSrc = [] then posError pos (Message ''empty interpolation'')
      else case Tokenize exprSrc of
        Inl e \<Rightarrow> posError pos (InterpolationLexError e)
      | Inr toks \<Rightarrow>
          (case pExpr P (newParser toks) of
             PFuel \<Rightarrow> PFuel
           | PErr e \<Rightarrow> posError pos (InterpolationParseError e)
           | POk e nested \<Rightarrow>
               if onlySemicolonsOrEOFRemain nested then POk e s
               else posError pos (Message ''trailing interpolation tokens'')))"

function interpolationLoop ::
  "parsers \<Rightarrow> Pos \<Rightarrow> InterpolatedStringPart list \<Rightarrow> bytes \<Rightarrow> parser \<Rightarrow> InterpolatedStringPart list pres" where
  "interpolationLoop P pos parts str s =
     (if str = [] then POk parts s
      else case indexOf str ''${'' of
        None \<Rightarrow> POk (parts @ [InterpolatedStringPart str None]) s
      | Some start \<Rightarrow>
          let parts = (if 0 < start then parts @ [InterpolatedStringPart (take start str) None] else parts) in
          case scanInterpolationEnd str (start + 2) of
            None \<Rightarrow> posError pos (Message ''unterminated interpolation'')
          | Some stop \<Rightarrow>
              pbind (parseInterpolation P pos (trimSpace (slice str (start + 2) stop)) s) (\<lambda>e s.
                interpolationLoop P pos (parts @ [InterpolatedStringPart [] (Some e)]) (drop (Suc stop) str) s))"
  by pat_completeness auto
termination
  by (relation "measure (\<lambda>(P, pos, parts, str, s). length str)") auto

declare interpolationLoop.simps [simp del]

definition parseInterpolatedStringParts ::
  "parsers \<Rightarrow> Pos \<Rightarrow> bytes \<Rightarrow> parser \<Rightarrow> InterpolatedStringPart list pres" where
  "parseInterpolatedStringParts P pos str s = interpolationLoop P pos [] str s"

definition interpolatedStringExpr :: "parsers \<Rightarrow> Pos \<Rightarrow> bytes \<Rightarrow> parser \<Rightarrow> Expr pres" where
  "interpolatedStringExpr P pos str s =
     (if \<not> contains str ''${'' then POk (StringLit pos str) s
      else pbind (parseInterpolatedStringParts P pos str s) (\<lambda>parts s.
        POk (InterpolatedStringExpr pos parts) s))"

subsection \<open>Tagged dialect forms\<close>

definition isRawStringToken :: "Token \<Rightarrow> bool" where
  "isRawStringToken tok \<longleftrightarrow> tType tok = TOKEN_STRING \<and> tIsRawString tok"

definition isTaggedStringStart :: "parser \<Rightarrow> bool" where
  "isTaggedStringStart s \<longleftrightarrow>
     (if tType (peek s) \<noteq> TOKEN_IDENT then False
      else if isRawStringToken (peekAt 1 s) then True
      else tType (peekAt 1 s) = TOKEN_NOT \<and> isRawStringToken (peekAt 2 s))"

definition isTaggedBlockStart :: "parser \<Rightarrow> bool" where
  "isTaggedBlockStart s \<longleftrightarrow>
     (if ps_suppressTaggedBlock s then False
      else if tType (peek s) \<noteq> TOKEN_IDENT then False
      else if tType (peekAt 1 s) = TOKEN_LBRACE \<or> tType (peekAt 1 s) = TOKEN_RAW_BLOCK then True
      else tType (peekAt 1 s) = TOKEN_NOT
        \<and> (tType (peekAt 2 s) = TOKEN_LBRACE \<or> tType (peekAt 2 s) = TOKEN_RAW_BLOCK))"

fun fieldBlockScan :: "nat \<Rightarrow> Token list \<Rightarrow> bool" where
  "fieldBlockScan depth [] = False"
| "fieldBlockScan depth (t # ts) =
     (if tType t = TOKEN_EOF then False
      else if tType t = TOKEN_LBRACKET then fieldBlockScan (Suc depth) ts
      else if tType t = TOKEN_RBRACKET then
        (if depth - 1 = 0 then (case ts of [] \<Rightarrow> False | u # us \<Rightarrow> tType u = TOKEN_COLON)
         else fieldBlockScan (depth - 1) ts)
      else fieldBlockScan depth ts)"

definition isDialectFieldBlockStart :: "parser \<Rightarrow> bool" where
  "isDialectFieldBlockStart s \<longleftrightarrow>
     (let nxt = tType (peekAt 1 s) in
      if tType (peek s) \<noteq> TOKEN_LBRACE then False
      else if nxt = TOKEN_RBRACE then True
      else if (nxt = TOKEN_IDENT \<or> nxt = TOKEN_STRING) \<and> tType (peekAt 2 s) = TOKEN_COLON then True
      else if nxt = TOKEN_LBRACKET then fieldBlockScan 1 (drop (ps_pos s + 2) (ps_tokens s))
      else False)"

definition parseConfigField :: "parsers \<Rightarrow> parser \<Rightarrow> ConfigField pres" where
  "parseConfigField P s =
     (if (check TOKEN_IDENT s \<or> check TOKEN_STRING s) \<and> tType (peekAt 1 s) = TOKEN_COLON then
        let keyTok = peek s; p = tokenPos keyTok in
        pbind (pExpr P (advance (advance s))) (\<lambda>v s.
          POk (ConfigField p (StringLit p (tValue keyTok)) v) s)
      else if check TOKEN_LBRACKET s then
        pbind (pExpr P (advance s)) (\<lambda>key s.
        pbind (expect TOKEN_RBRACKET s) (\<lambda>_ s.
        pbind (expect TOKEN_COLON s) (\<lambda>_ s.
        pbind (pExpr P s) (\<lambda>v s. POk (ConfigField (exprPos key) key v) s))))
      else errorf (Message ''expected config field'') s)"

definition skipSeparator :: "parser \<Rightarrow> parser" where
  "skipSeparator s = (if check TOKEN_COMMA s \<or> check TOKEN_SEMICOLON s then advance s else s)"

fun configLoop :: "parsers \<Rightarrow> nat \<Rightarrow> ConfigField list \<Rightarrow> parser \<Rightarrow> ConfigField list pres" where
  "configLoop P 0 acc s = PFuel"
| "configLoop P (Suc n) acc s =
     (if check TOKEN_RBRACE s \<or> isAtEnd s then POk acc s
      else let s = skipSemicolons s in
        if check TOKEN_RBRACE s then POk acc s
        else pbind (parseConfigField P s) (\<lambda>f s. configLoop P n (acc @ [f]) (skipSeparator s)))"

definition parseConfigBlock :: "parsers \<Rightarrow> parser \<Rightarrow> ConfigField list pres" where
  "parseConfigBlock P s =
     pbind (expect TOKEN_LBRACE s) (\<lambda>_ s.
     pbind (configLoop P (loopFuel s) [] s) (\<lambda>fields s.
     pbind (expect TOKEN_RBRACE s) (\<lambda>_ s. POk fields s)))"

definition parseOptionalFlowBlock :: "parsers \<Rightarrow> parser \<Rightarrow> BlockStmt option pres" where
  "parseOptionalFlowBlock P s =
     (if \<not> checkIdent ''flow'' s then POk None s
      else pbind (parseBlock P (advance s)) (\<lambda>b s. POk (Some b) s))"

definition parseTaggedDialectExpr :: "parsers \<Rightarrow> parser \<Rightarrow> Expr pres" where
  "parseTaggedDialectExpr P s0 =
     (let tagTok = peek s0; pos = tokenPos tagTok; tag = tValue tagTok; s1 = advance s0;
          failFast = check TOKEN_NOT s1;
          s = (if failFast then advance s1 else s1) in
      if isRawStringToken (peek s) then
        pbind (interpolatedStringExpr P (currentPos s) (tValue (peek s)) (advance s)) (\<lambda>body s.
          POk (TaggedStringExpr pos tag body failFast) s)
      else if check TOKEN_LBRACE s then
        (if isDialectFieldBlockStart s then
           pbind (parseConfigBlock P s) (\<lambda>config s.
             POk (TaggedBlockExpr pos tag config None [] None False failFast) s)
         else pbind (parseBlock P s) (\<lambda>body s.
           POk (TaggedBlockExpr pos tag [] (Some body) [] None False failFast) s))
      else if check TOKEN_RAW_BLOCK s then
        (let raw = tValue (peek s) in
         pbind (interpolatedStringExpr P (currentPos s) raw (advance s)) (\<lambda>body s.
           POk (TaggedBlockExpr pos tag [] None raw (Some body) True failFast) s))
      else errorf (Message ''expected tagged dialect literal or block'') s)"

definition parseShellShortcutExpr :: "parsers \<Rightarrow> parser \<Rightarrow> Expr pres" where
  "parseShellShortcutExpr P s0 =
     (let pos = currentPos s0; s1 = advance s0;
          failFast = check TOKEN_NOT s1;
          s = (if failFast then advance s1 else s1) in
      if \<not> isRawStringToken (peek s) then errorf (Message ''expected raw string after shell shortcut'') s
      else pbind (interpolatedStringExpr P (currentPos s) (tValue (peek s)) (advance s)) (\<lambda>body s.
        POk (TaggedStringExpr pos ''sh'' body failFast) s))"

subsection \<open>List, table and dense literals\<close>

definition isDenseDType :: "bytes \<Rightarrow> bool" where
  "isDenseDType dtype \<longleftrightarrow> dtype \<in> set [''f64'', ''f32'', ''i64'', ''i32'', ''bool'']"

definition parseDenseLiteralLen :: "bytes \<Rightarrow> nat option" where
  "parseDenseLiteralLen raw =
     (if containsAny raw ''.eE'' then None
      else case atoi (replaceByte (CHR ''_'') [] raw) of
        None \<Rightarrow> None
      | Some n \<Rightarrow> if n < 0 then None else Some (nat n))"

definition isTypedDenseLitStart :: "parser \<Rightarrow> bool" where
  "isTypedDenseLitStart s \<longleftrightarrow>
     (if tType (peek s) \<noteq> TOKEN_LBRACKET then False
      else let off = (if tType (peekAt 1 s) = TOKEN_NUMBER then 2 else 1) in
        if tType (peekAt off s) \<noteq> TOKEN_RBRACKET then False
        else if tType (peekAt (off + 1) s) \<noteq> TOKEN_IDENT
                \<or> \<not> isDenseDType (tValue (peekAt (off + 1) s)) then False
        else tType (peekAt (off + 2) s) = TOKEN_LBRACE)"

text \<open>Values separated by commas or semicolons, with an optional trailing separator.\<close>

fun literalValues :: "parsers \<Rightarrow> TokenType \<Rightarrow> nat \<Rightarrow> Expr list \<Rightarrow> parser \<Rightarrow> Expr list pres" where
  "literalValues P closing 0 acc s = PFuel"
| "literalValues P closing (Suc n) acc s =
     pbind (pExpr P s) (\<lambda>v s.
       if \<not> check TOKEN_COMMA s \<and> \<not> check TOKEN_SEMICOLON s then POk (acc @ [v]) s
       else let s = advance s in
         if check closing s then POk (acc @ [v]) s else literalValues P closing n (acc @ [v]) s)"

definition literalBody :: "parsers \<Rightarrow> TokenType \<Rightarrow> parser \<Rightarrow> Expr list pres" where
  "literalBody P closing s =
     pbind (if check closing s then POk [] s else literalValues P closing (loopFuel s) [] s) (\<lambda>vs s.
     pbind (expect closing s) (\<lambda>_ s. POk vs s))"

definition parseListLitExpr :: "parsers \<Rightarrow> parser \<Rightarrow> Expr pres" where
  "parseListLitExpr P s0 =
     pbind (literalBody P TOKEN_RBRACKET (advance s0)) (\<lambda>vs s. POk (ListLitExpr (currentPos s0) vs) s)"

definition denseLength :: "parser \<Rightarrow> nat pres" where
  "denseLength s =
     (if check TOKEN_NUMBER s
      then let lenTok = peek s in
        case parseDenseLiteralLen (tValue lenTok) of
          None \<Rightarrow> posError (tokenPos lenTok) (InvalidDenseLength (tValue lenTok))
        | Some n \<Rightarrow> POk n (advance s)
      else POk 0 s)"

definition parseDenseLitExpr :: "parsers \<Rightarrow> parser \<Rightarrow> Expr pres" where
  "parseDenseLitExpr P s0 =
     pbind (denseLength (advance s0)) (\<lambda>len s.
     pbind (expect TOKEN_RBRACKET s) (\<lambda>_ s.
     pbind (expect TOKEN_IDENT s) (\<lambda>dtypeTok s.
       if \<not> isDenseDType (tValue dtypeTok)
       then posError (tokenPos dtypeTok) (UnsupportedDenseDType (tValue dtypeTok))
       else pbind (expect TOKEN_LBRACE s) (\<lambda>_ s.
         pbind (literalBody P TOKEN_RBRACE s) (\<lambda>vs s.
           POk (DenseLitExpr (currentPos s0) (tValue dtypeTok) len vs) s)))))"

definition parseTableField :: "parsers \<Rightarrow> parser \<Rightarrow> TableField pres" where
  "parseTableField P s =
     (if check TOKEN_LBRACKET s \<and> \<not> isTypedDenseLitStart s then
        pbind (pExpr P (advance s)) (\<lambda>key s.
        pbind (expect TOKEN_RBRACKET s) (\<lambda>_ s.
        pbind (expect TOKEN_COLON s) (\<lambda>_ s.
        pbind (pExpr P s) (\<lambda>v s. POk (TableField (Some key) v) s))))
      else if check TOKEN_IDENT s \<and> tType (peekAt 1 s) = TOKEN_COLON then
        let keyTok = peek s in
        pbind (pExpr P (advance (advance s))) (\<lambda>v s.
          POk (TableField (Some (StringLit (tokenPos keyTok) (tValue keyTok))) v) s)
      else pbind (pExpr P s) (\<lambda>v s. POk (TableField None v) s))"

fun tableLoop :: "parsers \<Rightarrow> nat \<Rightarrow> TableField list \<Rightarrow> parser \<Rightarrow> TableField list pres" where
  "tableLoop P 0 acc s = PFuel"
| "tableLoop P (Suc n) acc s =
     (if check TOKEN_RBRACE s \<or> isAtEnd s then POk acc s
      else pbind (parseTableField P s) (\<lambda>f s. tableLoop P n (acc @ [f]) (skipSeparator s)))"

definition parseTableLitExpr :: "parsers \<Rightarrow> parser \<Rightarrow> Expr pres" where
  "parseTableLitExpr P s0 =
     (let s = advance s0 in
      pbind (tableLoop P (loopFuel s) [] s) (\<lambda>fields s.
      pbind (expect TOKEN_RBRACE s) (\<lambda>_ s. POk (TableLitExpr (currentPos s0) fields) s)))"

subsection \<open>Primary, postfix, power and unary expressions\<close>

definition parsePrimary :: "parsers \<Rightarrow> parser \<Rightarrow> Expr pres" where
  "parsePrimary P s =
     (let tok = peek s; ty = tType tok; pos = tokenPos tok in
      if ty = TOKEN_NUMBER then POk (NumberLit pos (tValue tok)) (advance s)
      else if ty = TOKEN_STRING then
        (if tIsRawString tok \<or> tIsSingleQuoted tok then POk (StringLit pos (tValue tok)) (advance s)
         else interpolatedStringExpr P pos (tValue tok) (advance s))
      else if ty = TOKEN_TRUE then POk (BoolLit pos True) (advance s)
      else if ty = TOKEN_FALSE then POk (BoolLit pos False) (advance s)
      else if ty = TOKEN_NIL then POk (NilLit pos) (advance s)
      else if ty = TOKEN_ELLIPSIS then POk (VarArgExpr pos) (advance s)
      else if ty = TOKEN_IDENT then
        (if isTaggedStringStart s \<or> isTaggedBlockStart s then parseTaggedDialectExpr P s
         else POk (IdentExpr pos (tValue tok)) (advance s))
      else if ty = TOKEN_DOLLAR then parseShellShortcutExpr P s
      else if ty = TOKEN_LPAREN then
        pbind (pExpr P (advance s)) (\<lambda>e s.
        pbind (expect TOKEN_RPAREN s) (\<lambda>_ s. POk (ParenExpr pos e) s))
      else if ty = TOKEN_FUNC then parseFuncLitExpr P s
      else if ty = TOKEN_LBRACE then parseTableLitExpr P s
      else if ty = TOKEN_LBRACKET then
        (if isTypedDenseLitStart s then parseDenseLitExpr P s else parseListLitExpr P s)
      else errorf (UnexpectedToken ty (tValue tok)) s)"

definition parseMakeChan :: "parsers \<Rightarrow> Pos \<Rightarrow> parser \<Rightarrow> Expr pres" where
  "parseMakeChan P pos s0 =
     (let s = advance (advance s0) in
      pbind (if check TOKEN_COMMA s then pbind (pExpr P (advance s)) (\<lambda>e s. POk (Some e) s) else POk None s) (\<lambda>size s.
      pbind (expect TOKEN_RPAREN s) (\<lambda>_ s. POk (MakeChanExpr pos size) s)))"

definition parseCallExpr :: "parsers \<Rightarrow> Expr \<Rightarrow> parser \<Rightarrow> Expr pres" where
  "parseCallExpr P fn s0 =
     pbind (parseArgList P (advance s0)) (\<lambda>args s.
     pbind (expect TOKEN_RPAREN s) (\<lambda>_ s. POk (CallExpr (exprPos fn) fn args) s))"

text \<open>One turn of the loop of \<open>parsePostfix\<close>: \<open>None\<close> when the expression ends here.\<close>

definition postfixStep :: "parsers \<Rightarrow> Expr \<Rightarrow> parser \<Rightarrow> Expr pres option" where
  "postfixStep P expr s =
     (let ty = tType (peek s); pos = exprPos expr in
      if ty = TOKEN_DOT then
        Some (pbind (expect TOKEN_IDENT (advance s)) (\<lambda>fieldTok s. POk (FieldExpr pos expr (tValue fieldTok)) s))
      else if ty = TOKEN_LBRACKET then
        Some (pbind (pExpr P (advance s)) (\<lambda>index s.
              pbind (expect TOKEN_RBRACKET s) (\<lambda>_ s. POk (IndexExpr pos expr index) s)))
      else if ty = TOKEN_LPAREN then
        Some (if identName expr = Some ''make'' \<and> tType (peekAt 1 s) = TOKEN_CHAN
              then parseMakeChan P pos s else parseCallExpr P expr s)
      else if ty = TOKEN_COLON then
        (if tType (peekAt 1 s) \<noteq> TOKEN_IDENT \<or> tType (peekAt 2 s) \<noteq> TOKEN_LPAREN
            \<or> tLine (peekAt 1 s) \<noteq> tLine (peek s) then None
         else Some (pbind (expect TOKEN_IDENT (advance s)) (\<lambda>methodTok s.
                    pbind (expect TOKEN_LPAREN s) (\<lambda>_ s.
                    pbind (parseArgList P s) (\<lambda>args s.
                    pbind (expect TOKEN_RPAREN s) (\<lambda>_ s.
                      POk (MethodCallExpr pos expr (tValue methodTok) args) s))))))
      else None)"

fun postfixLoop :: "parsers \<Rightarrow> nat \<Rightarrow> Expr \<Rightarrow> parser \<Rightarrow> Expr pres" where
  "postfixLoop P 0 expr s = PFuel"
| "postfixLoop P (Suc n) expr s =
     (case postfixStep P expr s of
        None \<Rightarrow> POk expr s
      | Some r \<Rightarrow> pbind r (\<lambda>expr s. postfixLoop P n expr s))"

definition parsePostfix :: "parsers \<Rightarrow> parser \<Rightarrow> Expr pres" where
  "parsePostfix P s = pbind (parsePrimary P s) (\<lambda>expr s. postfixLoop P (loopFuel s) expr s)"

definition parsePower :: "parsers \<Rightarrow> parser \<Rightarrow> Expr pres" where
  "parsePower P s0 =
     pbind (parsePostfix P s0) (\<lambda>base s.
       if check TOKEN_POW s
       then let opTok = peek s in
         pbind (pUnary P (advance s)) (\<lambda>exponent s.
           POk (BinaryExpr (tokenPos opTok) base (tValue opTok) exponent) s)
       else POk base s)"

definition parseUnary :: "parsers \<Rightarrow> parser \<Rightarrow> Expr pres" where
  "parseUnary P s0 =
     (let opTok = peek s0 in
      if matchAny unaryOps s0 then
        pbind (pUnary P (advance s0)) (\<lambda>operand s.
        pbind (if check TOKEN_POW s
               then let opPow = peek s in
                 pbind (pUnary P (advance s)) (\<lambda>exponent s.
                   POk (BinaryExpr (tokenPos opPow) operand (tValue opPow) exponent) s)
               else POk operand s) (\<lambda>operand s.
          POk (UnaryExpr (tokenPos opTok) (tValue opTok) operand) s))
      else if check TOKEN_ARROW s0 then
        pbind (pUnary P (advance s0)) (\<lambda>operand s. POk (RecvExpr (tokenPos opTok) operand) s)
      else parsePower P s0)"

end
