(* ===== verification/Parser_Stmt.thy ===== *)
theory Parser_Stmt
  imports Parser_Expr
begin

section \<open>Parsing statements (internal/parser/parser.go)\<close>

text \<open>
  Declarations, imports, control flow, concurrency statements and the statements that start
  with an expression.
\<close>

subsection \<open>Functions, evaluate blocks and imports\<close>

definition parseFuncDeclStmt :: "parsers \<Rightarrow> parser \<Rightarrow> Stmt pres" where
  "parseFuncDeclStmt P s0 =
     (let pos = tokenPos (peek s0) in
      pbind (expect TOKEN_IDENT (advance s0)) (\<lambda>nameTok s.
      pbind (parseFuncParams s) (\<lambda>params s.
      pbind (parseBlock P s) (\<lambda>body s. POk (FuncDeclStmt pos (tValue nameTok) params body) s))))"

definition parseEvaluateStmt :: "parsers \<Rightarrow> parser \<Rightarrow> Stmt pres" where
  "parseEvaluateStmt P s0 =
     (let pos = tokenPos (peek s0) in
      pbind (expect TOKEN_STRING (advance s0)) (\<lambda>nameTok s.
      pbind (parseBlock P s) (\<lambda>body s. POk (EvaluateStmt pos (tValue nameTok) body) s)))"

definition parseImportSpec :: "Pos \<Rightarrow> parser \<Rightarrow> Stmt pres" where
  "parseImportSpec pos s0 =
     pbind (if check TOKEN_STRING s0
            then let pathTok = peek s0; s = advance s0 in
              if checkIdent ''as'' s
              then pbind (expect TOKEN_IDENT (advance s)) (\<lambda>aliasTok s. POk (tValue aliasTok, pathTok) s)
              else POk (defaultImportAlias (tValue pathTok), pathTok) s
            else pbind (expect TOKEN_IDENT s0) (\<lambda>aliasTok s.
                 pbind (expect TOKEN_STRING s) (\<lambda>pathTok s. POk (tValue aliasTok, pathTok) s)))
       (\<lambda>(alias, pathTok) s.
         if alias = [] then errorf (ImportAlias (tValue pathTok)) s
         else POk (DeclareStmt pos [alias]
                [CallExpr pos (IdentExpr pos ''require'')
                   [StringLit (tokenPos pathTok) (tValue pathTok)]] False) s)"

fun importLoop :: "Pos \<Rightarrow> nat \<Rightarrow> Stmt list \<Rightarrow> parser \<Rightarrow> Stmt list pres" where
  "importLoop pos 0 acc s = PFuel"
| "importLoop pos (Suc n) acc s =
     (if check TOKEN_RPAREN s \<or> isAtEnd s then POk acc s
      else let s = skipSemicolons s in
        if check TOKEN_RPAREN s then POk acc s
        else pbind (parseImportSpec pos s) (\<lambda>st s. importLoop pos n (acc @ [st]) (skipSeparator s)))"

definition parseImportDeclStmt :: "parser \<Rightarrow> Stmt pres" where
  "parseImportDeclStmt s0 =
     (let pos = currentPos s0; s = advance s0 in
      if check TOKEN_LPAREN s then
        let s = advance s in
        pbind (importLoop pos (loopFuel s) [] s) (\<lambda>stmts s.
        pbind (expect TOKEN_RPAREN s) (\<lambda>_ s. POk (NestedBlock (BlockStmt pos stmts)) s))
      else parseImportSpec pos s)"

subsection \<open>Statements that start with an expression\<close>

definition configFieldsToTableFields :: "ConfigField list \<Rightarrow> TableField list" where
  "configFieldsToTableFields cfs =
     map (\<lambda>f. case f of ConfigField p key v \<Rightarrow> TableField (Some key) v) cfs"

definition parserDialectCall :: "Pos \<Rightarrow> bytes \<Rightarrow> bytes \<Rightarrow> Expr \<Rightarrow> bool \<Rightarrow> Expr" where
  "parserDialectCall pos methodName tag body failFast =
     CallExpr pos (FieldExpr pos (IdentExpr pos ''dialect'') methodName)
       [StringLit pos tag, body,
        TableLitExpr pos [TableField (Some (StringLit pos ''fail_fast'')) (BoolLit pos failFast)]]"

fun taggedExprStmtCall :: "Expr \<Rightarrow> Expr option" where
  "taggedExprStmtCall (TaggedStringExpr p tag body failFast) =
     Some (parserDialectCall p ''eval'' tag body failFast)"
| "taggedExprStmtCall (TaggedBlockExpr p tag config body raw rawExpr hasRaw failFast) =
     Some (if hasRaw then parserDialectCall p ''eval'' tag (StringLit p raw) failFast
           else case body of
             Some b \<Rightarrow> parserDialectCall p ''eval_raw'' tag (FuncLitExpr p [] b) failFast
           | None \<Rightarrow> parserDialectCall p ''eval_block'' tag
                       (TableLitExpr p (configFieldsToTableFields config)) failFast)"
| "taggedExprStmtCall e = None"

text \<open>\<open>exprListToNames\<close>: the names, or the position of the first expression that is not one.\<close>

fun exprListToNames :: "Expr list \<Rightarrow> Pos + bytes list" where
  "exprListToNames [] = Inr []"
| "exprListToNames (e # es) =
     (case identName e of
        None \<Rightarrow> Inl (exprPos e)
      | Some n \<Rightarrow> (case exprListToNames es of Inl p \<Rightarrow> Inl p | Inr ns \<Rightarrow> Inr (n # ns)))"

definition declareNames :: "parsers \<Rightarrow> Pos \<Rightarrow> Expr list \<Rightarrow> parser \<Rightarrow> Stmt pres" where
  "declareNames P pos targets s0 =
     (case exprListToNames targets of
        Inl p \<Rightarrow> posError p (Message ''expected identifier in declaration'')
      | Inr names \<Rightarrow>
          pbind (parseExprList P (advance s0)) (\<lambda>vals s. POk (DeclareStmt pos names vals False) s))"

definition parseDeclareStmt :: "parsers \<Rightarrow> Pos \<Rightarrow> Expr \<Rightarrow> parser \<Rightarrow> Stmt pres" where
  "parseDeclareStmt P pos firstExpr s = declareNames P pos [firstExpr] s"

definition parseAssignStmtFromExpr :: "parsers \<Rightarrow> Pos \<Rightarrow> Expr \<Rightarrow> parser \<Rightarrow> Stmt pres" where
  "parseAssignStmtFromExpr P pos target s0 =
     pbind (parseExprList P (advance s0)) (\<lambda>vals s. POk (AssignStmt pos [target] vals) s)"

definition parseCompoundAssignStmt :: "parsers \<Rightarrow> Pos \<Rightarrow> Expr \<Rightarrow> parser \<Rightarrow> Stmt pres" where
  "parseCompoundAssignStmt P pos target s0 =
     pbind (pExpr P (advance s0)) (\<lambda>v s. POk (CompoundAssignStmt pos target (tValue (peek s0)) v) s)"

definition parseMultiTargetStmt :: "parsers \<Rightarrow> Pos \<Rightarrow> Expr \<Rightarrow> parser \<Rightarrow> Stmt pres" where
  "parseMultiTargetStmt P pos firstExpr s0 =
     pbind (if check TOKEN_COMMA s0 then commaExprs P (loopFuel s0) [firstExpr] (advance s0)
            else POk [firstExpr] s0) (\<lambda>targets s.
       if check TOKEN_DECLARE s then declareNames P pos targets s
       else if check TOKEN_ASSIGN s then
         pbind (parseExprList P (advance s)) (\<lambda>vals s. POk (AssignStmt pos targets vals) s)
       else errorf (Message ''expected ':=' or '=' after expression list'') s)"

definition parseSendStmt :: "parsers \<Rightarrow> Pos \<Rightarrow> Expr \<Rightarrow> parser \<Rightarrow> Stmt pres" where
  "parseSendStmt P pos chExpr s0 =
     pbind (pExpr P (advance s0)) (\<lambda>v s. POk (SendStmt pos chExpr (Some v)) s)"

text \<open>What an expression is as a whole statement.\<close>

definition standaloneStmt :: "Pos \<Rightarrow> Expr \<Rightarrow> Stmt option" where
  "standaloneStmt pos expr =
     (if isCallExpr expr then Some (CallStmt pos expr)
      else case taggedExprStmtCall expr of
        Some c \<Rightarrow> Some (CallStmt pos c)
      | None \<Rightarrow> if isMethodCallExpr expr then Some (CallStmt pos expr)
                else if isRecvExpr expr then Some (SendStmt pos expr None)
                else None)"

definition compoundAssignOps :: "TokenType list" where
  "compoundAssignOps = [TOKEN_PLUS_ASSIGN, TOKEN_MINUS_ASSIGN, TOKEN_STAR_ASSIGN, TOKEN_SLASH_ASSIGN]"

definition parseExpressionStmt :: "parsers \<Rightarrow> parser \<Rightarrow> Stmt pres" where
  "parseExpressionStmt P s0 =
     (let pos = currentPos s0 in
      pbind (pExpr P s0) (\<lambda>expr s.
        if check TOKEN_DECLARE s then parseDeclareStmt P pos expr s
        else if check TOKEN_ASSIGN s then parseAssignStmtFromExpr P pos expr s
        else if matchAny compoundAssignOps s then parseCompoundAssignStmt P pos expr s
        else if check TOKEN_INC s \<or> check TOKEN_DEC s then
          POk (IncDecStmt pos expr (tValue (peek s))) (advance s)
        else if check TOKEN_COMMA s then parseMultiTargetStmt P pos expr s
        else if check TOKEN_ARROW s then parseSendStmt P pos expr s
        else case standaloneStmt pos expr of
          Some st \<Rightarrow> POk st s
        | None \<Rightarrow> posError pos (Message ''expression is not a statement'')))"

definition parseSimpleStmt :: "parsers \<Rightarrow> parser \<Rightarrow> Stmt pres" where
  "parseSimpleStmt P s = parseExpressionStmt P s"

definition parseSimpleStmtBeforeBlock :: "parsers \<Rightarrow> parser \<Rightarrow> Stmt pres" where
  "parseSimpleStmtBeforeBlock P s =
     pbind (parseExpressionStmt P (s\<lparr>ps_suppressTaggedBlock := True\<rparr>)) (\<lambda>st s'.
       POk st (s'\<lparr>ps_suppressTaggedBlock := ps_suppressTaggedBlock s\<rparr>))"

subsection \<open>If and for\<close>

fun elseIfLoop :: "parsers \<Rightarrow> nat \<Rightarrow> ElseIfClause list \<Rightarrow> parser \<Rightarrow> ElseIfClause list pres" where
  "elseIfLoop P 0 acc s = PFuel"
| "elseIfLoop P (Suc n) acc s =
     (if check TOKEN_ELSEIF s \<or> (check TOKEN_ELSE s \<and> tType (peekAt 1 s) = TOKEN_IF) then
        let s1 = (if check TOKEN_ELSE s then advance s else s); eiPos = currentPos s1 in
        pbind (parseExprBeforeBlock P (advance s1)) (\<lambda>eiCond s.
        pbind (parseBlock P s) (\<lambda>eiBody s.
          elseIfLoop P n (acc @ [ElseIfClause eiPos eiCond eiBody]) s))
      else POk acc s)"

definition optionalElse :: "parsers \<Rightarrow> parser \<Rightarrow> BlockStmt option pres" where
  "optionalElse P s =
     (if check TOKEN_ELSE s then pbind (parseBlock P (advance s)) (\<lambda>b s. POk (Some b) s) else POk None s)"

definition parseIfStmt :: "parsers \<Rightarrow> parser \<Rightarrow> Stmt pres" where
  "parseIfStmt P s0 =
     (let pos = currentPos s0 in
      pbind (parseExprBeforeBlock P (advance s0)) (\<lambda>cond s.
      pbind (parseBlock P s) (\<lambda>body s.
      pbind (elseIfLoop P (loopFuel s) [] s) (\<lambda>elseIfs s.
      pbind (optionalElse P s) (\<lambda>elseBody s.
        POk (IfStmt pos cond body elseIfs elseBody) s)))))"

definition isForRange :: "parser \<Rightarrow> bool" where
  "isForRange s \<longleftrightarrow>
     (if tType (peek s) \<noteq> TOKEN_IDENT then False
      else if tType (peekAt 1 s) = TOKEN_COMMA then
        (if tType (peekAt 2 s) \<noteq> TOKEN_IDENT then False
         else if tType (peekAt 3 s) \<noteq> TOKEN_DECLARE then False
         else tType (peekAt 4 s) = TOKEN_RANGE)
      else if tType (peekAt 1 s) \<noteq> TOKEN_DECLARE then False
      else tType (peekAt 2 s) = TOKEN_RANGE)"

text \<open>The scan of \<open>isForNum\<close> over the unread tokens; \<open>depth\<close> may become negative.\<close>

fun forNumScan :: "int \<Rightarrow> Token list \<Rightarrow> bool" where
  "forNumScan depth [] = False"
| "forNumScan depth (t # ts) =
     (let ty = tType t in
      if ty = TOKEN_EOF then False
      else if ty = TOKEN_LBRACE then (if depth = 0 then False else forNumScan (depth + 1) ts)
      else if ty = TOKEN_RBRACE \<or> ty = TOKEN_RPAREN \<or> ty = TOKEN_RBRACKET then forNumScan (depth - 1) ts
      else if ty = TOKEN_LPAREN \<or> ty = TOKEN_LBRACKET then forNumScan (depth + 1) ts
      else if ty = TOKEN_SEMICOLON \<and> depth = 0 then True
      else forNumScan depth ts)"

definition isForNum :: "parser \<Rightarrow> bool" where
  "isForNum s = forNumScan 0 (drop (ps_pos s) (ps_tokens s))"

definition parseForRangeBody :: "parsers \<Rightarrow> Pos \<Rightarrow> parser \<Rightarrow> Stmt pres" where
  "parseForRangeBody P pos s0 =
     (let key = tValue (peek s0); s = advance s0 in
      pbind (if check TOKEN_COMMA s
             then pbind (expect TOKEN_IDENT (advance s)) (\<lambda>valTok s. POk (tValue valTok) s)
             else POk [] s) (\<lambda>v s.
      pbind (expect TOKEN_DECLARE s) (\<lambda>_ s.
      pbind (expect TOKEN_RANGE s) (\<lambda>_ s.
      pbind (parseExprBeforeBlock P s) (\<lambda>iter s.
      pbind (parseBlock P s) (\<lambda>body s. POk (ForRangeStmt pos key v iter body) s))))))"

definition parseForNumBody :: "parsers \<Rightarrow> Pos \<Rightarrow> parser \<Rightarrow> Stmt pres" where
  "parseForNumBody P pos s =
     pbind (parseSimpleStmt P s) (\<lambda>init s.
     pbind (expect TOKEN_SEMICOLON s) (\<lambda>_ s.
     pbind (pExpr P s) (\<lambda>cond s.
     pbind (expect TOKEN_SEMICOLON s) (\<lambda>_ s.
     pbind (parseSimpleStmtBeforeBlock P s) (\<lambda>post s.
     pbind (parseBlock P s) (\<lambda>body s. POk (ForNumStmt pos init cond post body) s))))))"

definition parseForStmt :: "parsers \<Rightarrow> parser \<Rightarrow> Stmt pres" where
  "parseForStmt P s0 =
     (let pos = currentPos s0; s = advance s0 in
      if check TOKEN_LBRACE s then pbind (parseBlock P s) (\<lambda>body s. POk (ForStmt pos None body) s)
      else if isForRange s then parseForRangeBody P pos s
      else if isForNum s then parseForNumBody P pos s
      else pbind (parseExprBeforeBlock P s) (\<lambda>cond s.
           pbind (parseBlock P s) (\<lambda>body s. POk (ForStmt pos (Some cond) body) s)))"

subsection \<open>Jumps, labels, go and defer\<close>

definition exprStarts :: "TokenType list" where
  "exprStarts = [TOKEN_IDENT, TOKEN_NUMBER, TOKEN_STRING, TOKEN_TRUE, TOKEN_FALSE, TOKEN_NIL,
     TOKEN_LPAREN, TOKEN_LBRACE, TOKEN_LBRACKET, TOKEN_FUNC, TOKEN_MINUS, TOKEN_NOT, TOKEN_LEN,
     TOKEN_ELLIPSIS, TOKEN_DOLLAR]"

definition canStartExpr :: "parser \<Rightarrow> bool" where
  "canStartExpr s \<longleftrightarrow> matchAny exprStarts s"

definition parseReturnStmt :: "parsers \<Rightarrow> parser \<Rightarrow> Stmt pres" where
  "parseReturnStmt P s0 =
     (let pos = currentPos s0; s = advance s0 in
      if \<not> isAtEnd s \<and> \<not> check TOKEN_RBRACE s \<and> \<not> check TOKEN_SEMICOLON s \<and> canStartExpr s
      then pbind (commaExprs P (loopFuel s) [] s) (\<lambda>vals s. POk (ReturnStmt pos vals) s)
      else POk (ReturnStmt pos []) s)"

definition parseBreakStmt :: "parser \<Rightarrow> Stmt pres" where
  "parseBreakStmt s = POk (BreakStmt (currentPos s)) (advance s)"

definition parseContinueStmt :: "parser \<Rightarrow> Stmt pres" where
  "parseContinueStmt s = POk (ContinueStmt (currentPos s)) (advance s)"

definition parseLabelStmt :: "parser \<Rightarrow> Stmt pres" where
  "parseLabelStmt s =
     pbind (expect TOKEN_IDENT s) (\<lambda>nameTok s.
     pbind (expect TOKEN_COLON s) (\<lambda>_ s. POk (LabelStmt (tokenPos nameTok) (tValue nameTok)) s))"

definition parseGotoStmt :: "parser \<Rightarrow> Stmt pres" where
  "parseGotoStmt s0 =
     pbind (expect TOKEN_IDENT (advance s0)) (\<lambda>nameTok s. POk (GotoStmt (currentPos s0) (tValue nameTok)) s)"

definition parseGoStmt :: "parsers \<Rightarrow> parser \<Rightarrow> Stmt pres" where
  "parseGoStmt P s0 =
     pbind (pExpr P (advance s0)) (\<lambda>expr s.
       if isCallExpr expr \<or> isMethodCallExpr expr then POk (GoStmt (currentPos s0) expr) s
       else errorf (Message ''go statement requires a function call'') s)"

definition parseDeferStmt :: "parsers \<Rightarrow> parser \<Rightarrow> Stmt pres" where
  "parseDeferStmt P s0 =
     pbind (pExpr P (advance s0)) (\<lambda>expr s.
       if isCallExpr expr \<or> isMethodCallExpr expr then POk (DeferStmt (currentPos s0) expr) s
       else errorf (Message ''defer statement requires a function call'') s)"

subsection \<open>Select\<close>

fun clauseLoop :: "parsers \<Rightarrow> nat \<Rightarrow> Stmt list \<Rightarrow> parser \<Rightarrow> Stmt list pres" where
  "clauseLoop P 0 acc s = PFuel"
| "clauseLoop P (Suc n) acc s =
     (if isAtEnd s then POk acc s
      else let s = skipSemicolons s in
        if check TOKEN_RBRACE s \<or> checkIdent ''case'' s \<or> checkIdent ''default'' s then POk acc s
        else pbind (pStmt P s) (\<lambda>st s. clauseLoop P n (acc @ [st]) s))"

definition parseSelectClauseBody :: "parsers \<Rightarrow> Pos \<Rightarrow> parser \<Rightarrow> BlockStmt pres" where
  "parseSelectClauseBody P pos s =
     pbind (expect TOKEN_COLON s) (\<lambda>_ s.
     pbind (clauseLoop P (loopFuel s) [] s) (\<lambda>stmts s. POk (BlockStmt pos stmts) s))"

text \<open>The communication of a case: receive names, channel and the value sent, if any.\<close>

definition parseSelectComm :: "parsers \<Rightarrow> parser \<Rightarrow> (bytes \<times> bytes \<times> Expr \<times> Expr option) pres" where
  "parseSelectComm P s0 =
     (if check TOKEN_ARROW s0 then pbind (pExpr P (advance s0)) (\<lambda>ch s. POk ([], [], ch, None) s)
      else pbind (pExpr P s0) (\<lambda>first s.
        if check TOKEN_COMMA s then
          (case identName first of
             None \<Rightarrow> errorf (Message ''select receive declaration requires an identifier'') s
           | Some name \<Rightarrow>
               pbind (pExpr P (advance s)) (\<lambda>okExpr s.
                 case identName okExpr of
                   None \<Rightarrow> errorf (Message ''select receive ok declaration requires an identifier'') s
                 | Some okName \<Rightarrow>
                     pbind (expect TOKEN_DECLARE s) (\<lambda>_ s.
                     pbind (expect TOKEN_ARROW s) (\<lambda>_ s.
                     pbind (pExpr P s) (\<lambda>ch s. POk (name, okName, ch, None) s)))))
        else if check TOKEN_DECLARE s then
          (case identName first of
             None \<Rightarrow> errorf (Message ''select receive declaration requires an identifier'') s
           | Some name \<Rightarrow>
               pbind (expect TOKEN_ARROW (advance s)) (\<lambda>_ s.
               pbind (pExpr P s) (\<lambda>ch s. POk (name, [], ch, None) s)))
        else if check TOKEN_ARROW s then
          pbind (pExpr P (advance s)) (\<lambda>v s. POk ([], [], first, Some v) s)
        else errorf (Message ''select case must be receive or send'') s))"

definition parseSelectCase :: "parsers \<Rightarrow> parser \<Rightarrow> SelectCase pres" where
  "parseSelectCase P s0 =
     (let pos = currentPos s0 in
      pbind (parseSelectComm P (advance s0)) (\<lambda>(recvName, recvOkName, ch, sendValue) s.
      pbind (parseSelectClauseBody P pos s) (\<lambda>body s.
        POk (SelectCase pos recvName recvOkName ch sendValue body) s)))"

fun selectLoop :: "parsers \<Rightarrow> nat \<Rightarrow> SelectCase list \<Rightarrow> BlockStmt option \<Rightarrow> parser
    \<Rightarrow> (SelectCase list \<times> BlockStmt option) pres" where
  "selectLoop P 0 cases dflt s = PFuel"
| "selectLoop P (Suc n) cases dflt s =
     (if check TOKEN_RBRACE s \<or> isAtEnd s then POk (cases, dflt) s
      else let s = skipSemicolons s in
        if check TOKEN_RBRACE s then POk (cases, dflt) s
        else if checkIdent ''case'' s then
          pbind (parseSelectCase P s) (\<lambda>c s. selectLoop P n (cases @ [c]) dflt s)
        else if checkIdent ''default'' s then
          (if dflt \<noteq> None then errorf (Message ''duplicate default in select'') s
           else pbind (parseSelectClauseBody P (currentPos s) (advance s)) (\<lambda>body s.
             selectLoop P n cases (Some body) s))
        else errorf (Message ''expected case or default in select'') s)"

definition parseSelectStmt :: "parsers \<Rightarrow> parser \<Rightarrow> Stmt pres" where
  "parseSelectStmt P s0 =
     pbind (expect TOKEN_LBRACE (advance s0)) (\<lambda>_ s.
     pbind (selectLoop P (loopFuel s) [] None s) (\<lambda>(cases, dflt) s.
     pbind (expect TOKEN_RBRACE s) (\<lambda>_ s. POk (SelectStmt (currentPos s0) cases dflt) s)))"

subsection \<open>Constants and the statement dispatcher\<close>

fun constNames :: "nat \<Rightarrow> bytes list \<Rightarrow> parser \<Rightarrow> bytes list pres" where
  "constNames 0 acc s = PFuel"
| "constNames (Suc n) acc s =
     pbind (expect TOKEN_IDENT s) (\<lambda>nameTok s.
       if check TOKEN_COMMA s then constNames n (acc @ [tValue nameTok]) (advance s)
       else POk (acc @ [tValue nameTok]) s)"

definition parseConstDeclStmt :: "parsers \<Rightarrow> parser \<Rightarrow> Stmt pres" where
  "parseConstDeclStmt P s0 =
     (let s1 = advance s0 in
      pbind (constNames (loopFuel s1) [] s1) (\<lambda>names s.
        if \<not> check TOKEN_DECLARE s \<and> \<not> check TOKEN_ASSIGN s
        then errorf (Message ''expected ':=' or '=' after const declaration'') s
        else pbind (parseExprList P (advance s)) (\<lambda>vals s.
          POk (DeclareStmt (currentPos s0) names vals True) s)))"

definition isSelectStmt :: "parser \<Rightarrow> bool" where
  "isSelectStmt s \<longleftrightarrow> checkIdent ''select'' s \<and> tType (peekAt 1 s) = TOKEN_LBRACE"

definition isEvaluateStmt :: "parser \<Rightarrow> bool" where
  "isEvaluateStmt s \<longleftrightarrow> checkIdent ''evaluate'' s
     \<and> tType (peekAt 1 s) = TOKEN_STRING \<and> tType (peekAt 2 s) = TOKEN_LBRACE"

definition isImportDecl :: "parser \<Rightarrow> bool" where
  "isImportDecl s \<longleftrightarrow> tValue (peek s) = ''import''
     \<and> tType (peekAt 1 s) \<in> {TOKEN_STRING, TOKEN_IDENT, TOKEN_LPAREN}"

definition isLabelStmt :: "parser \<Rightarrow> bool" where
  "isLabelStmt s \<longleftrightarrow>
     (if tType (peek s) \<noteq> TOKEN_IDENT \<or> tType (peekAt 1 s) \<noteq> TOKEN_COLON then False
      else \<not> (tType (peekAt 2 s) = TOKEN_IDENT \<and> tType (peekAt 3 s) = TOKEN_LPAREN))"

definition parseFuncDeclOrExprStmt :: "parsers \<Rightarrow> parser \<Rightarrow> Stmt pres" where
  "parseFuncDeclOrExprStmt P s =
     (if tType (peekAt 1 s) = TOKEN_IDENT \<and> tType (peekAt 2 s) = TOKEN_LPAREN
      then parseFuncDeclStmt P s else parseExpressionStmt P s)"

definition parseStmt :: "parsers \<Rightarrow> parser \<Rightarrow> Stmt pres" where
  "parseStmt P s =
     (let ty = tType (peek s) in
      if isSelectStmt s then parseSelectStmt P s
      else if ty = TOKEN_FUNC then parseFuncDeclOrExprStmt P s
      else if ty = TOKEN_IDENT then
        (if isImportDecl s then parseImportDeclStmt s
         else if isEvaluateStmt s then parseEvaluateStmt P s
         else if isLabelStmt s then parseLabelStmt s
         else parseExpressionStmt P s)
      else if ty = TOKEN_IF then parseIfStmt P s
      else if ty = TOKEN_FOR then parseForStmt P s
      else if ty = TOKEN_RETURN then parseReturnStmt P s
      else if ty = TOKEN_BREAK then parseBreakStmt s
      else if ty = TOKEN_CONTINUE then parseContinueStmt s
      else if ty = TOKEN_GOTO then parseGotoStmt s
      else if ty = TOKEN_GO then parseGoStmt P s
      else if ty = TOKEN_DEFER then parseDeferStmt P s
      else if ty = TOKEN_CONST then parseConstDeclStmt P s
      else if isLabelStmt s then parseLabelStmt s
      else parseExpressionStmt P s)"

end
