(* ===== verification/Lexer_Correct.thy ===== *)
theory Lexer_Correct
  imports Lexer
begin

section \<open>Correctness of the lexer\<close>

text \<open>
  What a successful run of \<open>Tokenize\<close> says about the source: it is an alternation of trivia
  (white space and comments) and lexemes, each token standing for its lexeme and carrying
  the line and column where it starts. Then the longest-match rule of the operator scanner,
  the round trip of string literals, and the bound on the size of a token list that the
  parser's termination rests on.
\<close>

subsection \<open>Trivia\<close>

text \<open>\<open>blockTail s\<close>: \<open>s\<close> ends with its first star-slash.\<close>

inductive blockTail :: "bytes \<Rightarrow> bool" where
  close: "blockTail ''*/''"
| skip: "blockTail s \<Longrightarrow> \<not> prefix ''*/'' (c # s) \<Longrightarrow> blockTail (c # s)"

inductive trivia :: "bytes \<Rightarrow> bool" where
  empty: "trivia []"
| space: "isSpaceByte c \<Longrightarrow> trivia s \<Longrightarrow> trivia (c # s)"
| line: "newline \<notin> set cs \<Longrightarrow> s = [] \<or> hd s = newline \<Longrightarrow> trivia s \<Longrightarrow> trivia (''//'' @ cs @ s)"
| block: "blockTail b \<Longrightarrow> trivia s \<Longrightarrow> trivia (''/*'' @ b @ s)"

lemma trivia_spaces: "list_all isSpaceByte ws \<Longrightarrow> trivia s \<Longrightarrow> trivia (ws @ s)"
  by (induction ws) (auto intro: trivia.intros)

lemma consumed_append:
  "moves a b \<Longrightarrow> moves b c \<Longrightarrow> consumed a c = consumed a b @ consumed b c"
  by (simp add: consumed_def moves_def slice_append)

lemma consumed_refl [simp]: "consumed l l = []"
  by (simp add: consumed_def)

lemma consumed_advance:
  "\<not> atEnd l \<Longrightarrow> moves (lexAdvance l) l' \<Longrightarrow> consumed l l' = lexPeek l # consumed (lexAdvance l) l'"
  using consumed_append [OF moves_advance, of l l'] by (simp add: consumed_1)

lemma advanceWhile_consumed: "list_all p (consumed l (advanceWhile p l))"
proof (induction p l rule: advanceWhile.induct)
  case (1 p l)
  show ?case
  proof (cases "\<not> atEnd l \<and> p (lexPeek l)")
    case True
    with 1 show ?thesis
      by (simp add: advanceWhile_step consumed_advance moves_advanceWhile)
  next
    case False
    then have "advanceWhile p l = l" by (subst advanceWhile.simps) auto
    then show ?thesis by simp
  qed
qed

lemma advanceWhile_stops: "atEnd (advanceWhile p l) \<or> \<not> p (lexPeek (advanceWhile p l))"
proof (induction p l rule: advanceWhile.induct)
  case (1 p l)
  then show ?case
    by (cases "\<not> atEnd l \<and> p (lexPeek l)") (auto simp: advanceWhile_step advanceWhile.simps [of p l])
qed

lemma lexPeekAt_1: "\<not> atEnd l \<Longrightarrow> lexPeekAt (Suc 0) l = lexPeek (lexAdvance l)"
  by (auto simp: lexPeekAt_def lexPeek_def atEnd_def)

lemma two_chars:
  assumes "lexPeek l = c" "lexPeekAt 1 l = d" "c \<noteq> nul" "d \<noteq> nul" "moves (lexAdvance (lexAdvance l)) l'"
  shows "consumed l l' = c # d # consumed (lexAdvance (lexAdvance l)) l'"
proof -
  have 1: "\<not> atEnd l" using assms(1,3) by (rule lexPeek_not_nul)
  then have "lexPeek (lexAdvance l) = d" using assms(2) by (simp add: lexPeekAt_1)
  with assms(4) have 2: "\<not> atEnd (lexAdvance l)" by (auto simp: lexPeek_def)
  show ?thesis
    using 1 2 assms \<open>lexPeek (lexAdvance l) = d\<close>
    by (simp add: consumed_advance moves_trans [OF moves_advance])
qed

lemma blockTail_nonempty: "blockTail s \<Longrightarrow> s \<noteq> []"
  by (induction rule: blockTail.induct) auto

lemma blockTail_consumed:
  "skipBlockCommentLoop sl sc l = (Inr u, l') \<Longrightarrow> blockTail (consumed l l')"
proof (induction sl sc l rule: skipBlockCommentLoop.induct)
  case (1 sl sc l)
  show ?case
  proof (cases "lexPeek l = CHR ''*'' \<and> lexPeekAt 1 l = CHR ''/''")
    case True
    with "1.prems" have "l' = lexAdvance (lexAdvance l)"
      by (auto simp: skipBlockCommentLoop.simps [of sl sc l] split: if_splits)
    with True show ?thesis
      using two_chars [of l "CHR ''*''" "CHR ''/''" l'] blockTail.close by simp
  next
    case False
    with "1.prems" have ne: "\<not> atEnd l" and r: "skipBlockCommentLoop sl sc (lexAdvance l) = (Inr u, l')"
      by (auto simp: skipBlockCommentLoop.simps [of sl sc l] split: if_splits)
    have bt: "blockTail (consumed (lexAdvance l) l')" by (rule "1.IH" [OF ne False r])
    have mv: "moves (lexAdvance l) l'" by (rule ahead_Inr [OF ahead_skipBlockCommentLoop r])
    have "\<not> prefix ''*/'' (lexPeek l # consumed (lexAdvance l) l')"
    proof
      assume p: "prefix ''*/'' (lexPeek l # consumed (lexAdvance l) l')"
      then obtain z where z: "consumed (lexAdvance l) l' = CHR ''/'' # z" by (auto simp: prefix_def)
      then have ne2: "\<not> atEnd (lexAdvance l)"
        by (auto simp: consumed_def atEnd_def slice_def)
      have "lexPeek (lexAdvance l) = CHR ''/''"
        using z ne2 by (auto simp: consumed_def slice_def atEnd_def lexPeek_def drop_nth_Cons take_Cons' split: if_splits)
      with p False ne show False by (simp add: lexPeekAt_1)
    qed
    with bt show ?thesis
      using consumed_advance [OF ne mv] blockTail.skip by simp
  qed
qed


lemma lineComment_text:
  assumes "lexPeek l = CHR ''/''" "lexPeekAt 1 l = CHR ''/''" "readLineComment l = (c, l')"
  shows "consumed l l' = ''//'' @ cText c" "newline \<notin> set (cText c)"
    "atEnd l' \<or> lexPeek l' = newline" "cLine c = lx_line l" "cColumn c = lx_col l"
proof -
  let ?l2 = "lexAdvance (lexAdvance l)"
  have l': "l' = advanceWhile (\<lambda>c. c \<noteq> newline) ?l2" and c: "cText c = consumed ?l2 l'"
    using assms(3) moves_source [OF moves_advanceWhile]
    by (auto simp: readLineComment_def Let_def consumed_def)
  have "moves ?l2 l'" unfolding l' by (rule moves_advanceWhile)
  then show "consumed l l' = ''//'' @ cText c"
    using two_chars [OF assms(1,2)] c by simp
  show "newline \<notin> set (cText c)"
    using advanceWhile_consumed [of "\<lambda>c. c \<noteq> newline" ?l2] by (auto simp: c l' list_all_iff)
  show "atEnd l' \<or> lexPeek l' = newline"
    using advanceWhile_stops [of "\<lambda>c. c \<noteq> newline" ?l2] by (simp add: l')
  show "cLine c = lx_line l" "cColumn c = lx_col l"
    using assms(3) by (auto simp: readLineComment_def Let_def)
qed

lemma consumed_first:
  assumes "consumed l l' = c # cs"
  shows "\<not> atEnd l \<and> lexPeek l = c"
proof -
  from assms have "\<not> atEnd l" by (auto simp: consumed_def slice_def atEnd_def)
  with assms show ?thesis
    by (auto simp: consumed_def slice_def atEnd_def lexPeek_def drop_nth_Cons take_Cons' split: if_splits)
qed

lemma consumed_cong_l:
  "lx_source a = lx_source b \<Longrightarrow> lx_pos a = lx_pos b \<Longrightarrow> consumed a l = consumed b l"
  and consumed_cong_r: "lx_pos a = lx_pos b \<Longrightarrow> consumed l a = consumed l b"
  by (simp_all add: consumed_def)

lemma comments_peek [simp]:
  "lexPeek (l\<lparr>lx_pendingComments := cs\<rparr>) = lexPeek l"
  "lexPeekAt k (l\<lparr>lx_pendingComments := cs\<rparr>) = lexPeekAt k l"
  "atEnd (l\<lparr>lx_pendingComments := cs\<rparr>) = atEnd l"
  by (simp_all add: lexPeek_def lexPeekAt_def atEnd_def)

lemma skipWhitespaceAndComments_trivia:
  assumes "skipWhitespaceAndComments l = (Inr u, l')"
  shows "trivia (consumed l l')"
  using assms
proof (induction l arbitrary: l' rule: skipWhitespaceAndComments.induct)
  case (1 l0)
  let ?l = "skipWhitespace l0"
  let ?r = "readLineComment ?l"
  let ?n = "if cLine (fst ?r) \<noteq> lx_lastTokenLine (snd ?r)
            then (snd ?r)\<lparr>lx_pendingComments := lx_pendingComments (snd ?r) @ [fst ?r]\<rparr> else snd ?r"
  have mv: "moves l0 ?l" by (simp add: skipWhitespace_def moves_advanceWhile)
  have ws: "list_all isSpaceByte (consumed l0 ?l)"
    by (simp add: skipWhitespace_def advanceWhile_consumed)
  have mv': "moves l0 l'" by (rule moves_skipWhitespaceAndComments [OF "1.prems"])
  note eq = "1.prems" [unfolded skipWhitespaceAndComments.simps [of l0] Let_def]
  have main: "trivia (consumed ?l l') \<and> moves ?l l'"
  proof (cases "lexPeek ?l = CHR ''/'' \<and> lexPeekAt 1 ?l = CHR ''/''")
    case True
    have r: "readLineComment ?l = (fst ?r, snd ?r)" by simp
    note lc = lineComment_text [OF conjunct1 [OF True] conjunct2 [OF True] r]
    have rest: "skipWhitespaceAndComments ?n = (Inr u, l')" using eq True by simp
    have "trivia (consumed ?n l')" by (rule "1.IH" (1) [OF refl True refl rest])
    moreover have "consumed ?n l' = consumed (snd ?r) l'" by (rule consumed_cong_l) auto
    ultimately have t: "trivia (consumed (snd ?r) l')" by simp
    have m1: "moves ?l (snd ?r)" by (rule moves_trans [OF moves_advance moves_readLineComment [OF r]])
    have "moves ?n l'" by (rule moves_skipWhitespaceAndComments [OF rest])
    then have m2: "moves (snd ?r) l'" by (auto simp: moves_def lex_wf_def split: if_splits)
    have "consumed (snd ?r) l' = [] \<or> hd (consumed (snd ?r) l') = newline"
      using lc(3) consumed_first [of "snd ?r" l'] by (cases "consumed (snd ?r) l'") auto
    then have "trivia (''//'' @ cText (fst ?r) @ consumed (snd ?r) l')"
      by (rule trivia.line [OF lc(2) _ t])
    then show ?thesis
      using consumed_append [OF m1 m2] lc(1) moves_trans [OF m1 m2] by simp
  next
    case nl: False
    show ?thesis
    proof (cases "lexPeek ?l = CHR ''/'' \<and> lexPeekAt 1 ?l = CHR ''*''")
      case True
      let ?p = "?l\<lparr>lx_pendingComments := []\<rparr>"
      let ?p2 = "lexAdvance (lexAdvance ?p)"
      from eq nl True obtain v l'' where b: "skipBlockComment ?p = (Inr v, l'')"
        and rest: "skipWhitespaceAndComments l'' = (Inr u, l')" by (auto simp: lbind_Inr)
      have t: "trivia (consumed l'' l')" by (rule "1.IH" (2) [OF refl nl True b rest])
      have m1: "moves ?p2 l''"
        using b ahead_Inr [OF ahead_skipBlockCommentLoop] by (auto simp: skipBlockComment_def)
      have m2: "moves l'' l'" by (rule moves_skipWhitespaceAndComments [OF rest])
      have m0: "moves ?p l'" by (rule moves_trans [OF moves_trans [OF _ m1] m2]) (intro moves_intros)
      have "lexPeek ?p = CHR ''/''" "lexPeekAt 1 ?p = CHR ''*''"
        using True by simp_all
      then have c: "consumed ?p l' = ''/*'' @ consumed ?p2 l'"
        using two_chars [of ?p _ _ l'] moves_trans [OF m1 m2] by simp
      have "blockTail (consumed ?p2 l'')"
        using b by (auto simp: skipBlockComment_def intro: blockTail_consumed)
      then have "trivia (''/*'' @ consumed ?p2 l'' @ consumed l'' l')" using t by (rule trivia.block)
      moreover have "consumed ?l l' = consumed ?p l'" by (rule consumed_cong_l) simp_all
      moreover have "moves ?l l'" using m0 by (auto simp: moves_def lex_wf_def)
      ultimately show ?thesis using c consumed_append [OF m1 m2] by simp
    next
      case False
      with eq nl have "l' = ?l" by auto
      then show ?thesis by (simp add: trivia.empty)
    qed
  qed
  have "trivia (consumed l0 ?l @ consumed ?l l')"
    by (rule trivia_spaces [OF ws conjunct1 [OF main]])
  then show ?case
    unfolding consumed_append [OF mv conjunct2 [OF main]] .
qed

subsection \<open>A token list covers the source\<close>

text \<open>
  \<open>covers src p toks\<close>: from byte \<open>p\<close> on, the source is trivia, a lexeme, trivia, a lexeme, and
  so on to the end; each token is faithful to its lexeme and carries the position where the
  lexeme starts; the last token, and only it, is the end-of-file token.
\<close>

inductive covers :: "bytes \<Rightarrow> nat \<Rightarrow> Token list \<Rightarrow> bool" for src where
  eof: "p \<le> length src \<Longrightarrow> trivia (slice src p (length src)) \<Longrightarrow>
     covers src p [mkToken TOKEN_EOF [] (lineAt src (length src)) (colAt src (length src))]"
| lexeme: "p \<le> i \<Longrightarrow> i < j \<Longrightarrow> j \<le> length src \<Longrightarrow> trivia (slice src p i) \<Longrightarrow>
     faithful tok (slice src i j) \<Longrightarrow> tLine tok = lineAt src i \<Longrightarrow> tColumn tok = colAt src i \<Longrightarrow>
     covers src j toks \<Longrightarrow> covers src p (tok # toks)"

inductive_cases covers_ConsE: "covers src p (tok # toks)"

lemma nextTokenInternal_ok:
  assumes wf: "lex_wf l0" and off: "lx_rawBlockTag l0 = []" and r: "nextTokenInternal l0 = (Inr tok, l')"
  shows "\<exists>l. moves l0 l \<and> trivia (consumed l0 l) \<and> lex_wf l \<and> lex_wf l' \<and>
    lx_source l' = lx_source l0 \<and> lx_rawBlockTag l' = [] \<and>
    (tType tok = TOKEN_EOF \<longrightarrow> atEnd l \<and> tok = mkToken TOKEN_EOF [] (lx_line l) (lx_col l)) \<and>
    (tType tok \<noteq> TOKEN_EOF \<longrightarrow> \<not> atEnd l \<and> moves (lexAdvance l) l' \<and> tLine tok = lx_line l \<and>
       tColumn tok = lx_col l \<and> faithful tok (consumed l l'))"
proof -
  from r obtain u l where ws: "skipWhitespaceAndComments l0 = (Inr u, l)"
    by (auto simp: nextTokenInternal_def lbind_Inr)
  have m: "moves l0 l" by (rule moves_skipWhitespaceAndComments [OF ws])
  have wfl: "lex_wf l" by (rule moves_wf [OF m wf])
  have tag: "lx_rawBlockTag l = []" using moves_tag [OF m] off by simp
  have t: "trivia (consumed l0 l)" by (rule skipWhitespaceAndComments_trivia [OF ws])
  show ?thesis
  proof (cases "atEnd l")
    case True
    with r ws have "tok = mkToken TOKEN_EOF [] (lx_line l) (lx_col l)" "l' = l"
      by (auto simp: nextTokenInternal_def lbind_Inr)
    then show ?thesis using m t wfl tag moves_source [OF m] True by (intro exI [of _ l]) simp
  next
    case False
    with r ws tag have n: "nextOrdinaryToken l = (Inr tok, l')"
      by (simp add: nextTokenInternal_def lbind_def)
    have m': "moves (lexAdvance l) l'" by (rule nextOrdinaryToken_moves [OF False n])
    then have ml: "moves l l'" by (rule moves_trans [OF moves_advance])
    from nextOrdinaryToken_ok [OF False wfl n] have ok: "tLine tok = lx_line l \<and> tColumn tok = lx_col l \<and>
      faithful tok (consumed l l')" .
    then have "tType tok \<noteq> TOKEN_EOF" by (simp add: faithful_def)
    then show ?thesis
      using m t wfl moves_wf [OF ml wfl] ok m' False moves_source [OF ml] moves_source [OF m]
        moves_tag [OF ml] tag by (intro exI [of _ l]) simp
  qed
qed

lemma tokenizeLoop_covers:
  assumes "tokenizeLoop acc l = (Inr toks, l')" "lex_wf l" "lx_rawBlockTag l = []"
  shows "\<exists>new. toks = acc @ new \<and> covers (lx_source l) (lx_pos l) new"
  using assms
proof (induction acc l rule: tokenizeLoop.induct)
  case (1 acc l0)
  from "1.prems" (1) obtain tok l1 where n: "nextTokenInternal l0 = (Inr tok, l1)"
    and rest: "(if tType tok = TOKEN_EOF then lok (acc @ [tok]) l1 else tokenizeLoop (acc @ [tok]) l1) = (Inr toks, l')"
    by (auto simp: tokenizeLoop.simps [of acc l0] lbind_Inr)
  let ?src = "lx_source l0"
  from nextTokenInternal_ok [OF "1.prems" (2,3) n] obtain l where
    m: "moves l0 l" and t: "trivia (consumed l0 l)" and wf: "lex_wf l" "lex_wf l1" and src: "lx_source l1 = ?src"
    and tag: "lx_rawBlockTag l1 = []"
    and eof: "tType tok = TOKEN_EOF \<Longrightarrow> atEnd l \<and> tok = mkToken TOKEN_EOF [] (lx_line l) (lx_col l)"
    and lex: "tType tok \<noteq> TOKEN_EOF \<Longrightarrow> \<not> atEnd l \<and> moves (lexAdvance l) l1 \<and> tLine tok = lx_line l \<and>
       tColumn tok = lx_col l \<and> faithful tok (consumed l l1)" by blast
  have sl: "lx_source l = ?src" by (rule moves_source [OF m])
  have pos: "lx_line l = lineAt ?src (lx_pos l)" "lx_col l = colAt ?src (lx_pos l)" "lx_pos l \<le> length ?src"
    using wf(1) sl by (auto simp: lex_wf_def)
  have t': "trivia (slice ?src (lx_pos l0) (lx_pos l))" using t by (simp add: consumed_def)
  have le: "lx_pos l0 \<le> lx_pos l" by (rule moves_pos [OF m])
  show ?case
  proof (cases "tType tok = TOKEN_EOF")
    case True
    then have "lx_pos l = length ?src" using eof pos(3) sl by (auto simp: atEnd_def)
    with True eof pos t' le rest show ?thesis
      by (auto intro!: exI [of _ "[tok]"] covers.eof)
  next
    case False
    with rest have "tokenizeLoop (acc @ [tok]) l1 = (Inr toks, l')" by simp
    from "1.IH" [OF n False this wf(2) tag] obtain new where
      new: "toks = acc @ tok # new" "covers ?src (lx_pos l1) new" by (auto simp: src)
    have "lx_pos l < lx_pos l1"
      using lex [OF False] moves_pos [of "lexAdvance l" l1] by auto
    moreover have "lx_pos l1 \<le> length ?src" using wf(2) src by (simp add: lex_wf_def)
    ultimately have "covers ?src (lx_pos l0) (tok # new)"
      using lex [OF False] le t' pos new(2) sl by (intro covers.lexeme) (auto simp: consumed_def)
    with new(1) show ?thesis by blast
  qed
qed

lemma lex_wf_newLexer [simp]: "lex_wf (newLexer src)"
  by (simp add: lex_wf_def newLexer_def)

lemma newLexer_simps [simp]:
  "lx_source (newLexer src) = src" "lx_pos (newLexer src) = 0" "lx_rawBlockTag (newLexer src) = []"
  by (simp_all add: newLexer_def)

lemma Tokenize_covers: "Tokenize src = Inr toks \<Longrightarrow> covers src 0 toks"
  unfolding Tokenize_def
  by (cases "tokenizeLoop [] (newLexer src)") (auto dest: tokenizeLoop_covers)


subsection \<open>Shape and size of a token list\<close>

text \<open>
  The weight of a token bounds the work it can cause in the parser: one step, and for a
  string also its bytes, which an interpolation scans and tokenizes again.
\<close>

definition tokenWeight :: "Token \<Rightarrow> nat" where
  "tokenWeight tok = Suc (if tType tok = TOKEN_STRING \<or> tType tok = TOKEN_RAW_BLOCK then length (tValue tok) else 0)"

lemma covers_weight: "covers src p toks \<Longrightarrow> sumw tokenWeight toks \<le> Suc (length src - p)"
proof (induction rule: covers.induct)
  case (lexeme p i j tok toks)
  then have "tokenWeight tok \<le> j - i"
    by (auto simp: tokenWeight_def faithful_def split: if_splits)
  with lexeme show ?case by simp
qed (simp add: tokenWeight_def)

lemma covers_shape:
  "covers src p toks \<Longrightarrow> toks \<noteq> [] \<and> tType (last toks) = TOKEN_EOF \<and>
     (\<forall>t \<in> set (butlast toks). tType t \<noteq> TOKEN_EOF \<and> tType t \<noteq> TOKEN_ILLEGAL \<and> tType t \<noteq> TOKEN_RAW_BLOCK)"
  by (induction rule: covers.induct) (auto simp: faithful_def)

lemma covers_lines:
  "covers src p toks \<Longrightarrow> sorted (map tLine toks) \<and> (\<forall>t \<in> set toks. lineAt src p \<le> tLine t)"
proof (induction rule: covers.induct)
  case (lexeme p i j tok toks)
  have "lineAt src p \<le> lineAt src i" "lineAt src i \<le> lineAt src j"
    using lexeme by (auto intro: lineAt_mono)
  with lexeme show ?case by auto
qed (simp add: lineAt_mono)

subsection \<open>Longest match of operators\<close>

text \<open>The operators and separators of the language with their kinds.\<close>

definition operatorTable :: "(bytes \<times> TokenType) list" where
  "operatorTable =
     [(''('', TOKEN_LPAREN), ('')'', TOKEN_RPAREN), (''{'', TOKEN_LBRACE), (''}'', TOKEN_RBRACE),
      (''['', TOKEN_LBRACKET), ('']'', TOKEN_RBRACKET), ('','', TOKEN_COMMA), ('';'', TOKEN_SEMICOLON),
      (''#'', TOKEN_LEN), (''%'', TOKEN_PERCENT), (''$'', TOKEN_DOLLAR), ('':='', TOKEN_DECLARE),
      ('':'', TOKEN_COLON), (''=='', TOKEN_EQ), (''='', TOKEN_ASSIGN), (''!='', TOKEN_NEQ),
      (''!'', TOKEN_NOT), (''<='', TOKEN_LE), (''<<'', TOKEN_SHL), (''<-'', TOKEN_ARROW),
      (''<'', TOKEN_LT), (''>='', TOKEN_GE), (''>>'', TOKEN_SHR), (''>'', TOKEN_GT),
      (''+='', TOKEN_PLUS_ASSIGN), (''++'', TOKEN_INC), (''+'', TOKEN_PLUS), (''-='', TOKEN_MINUS_ASSIGN),
      (''--'', TOKEN_DEC), (''-'', TOKEN_MINUS), (''**'', TOKEN_POW), (''*='', TOKEN_STAR_ASSIGN),
      (''*'', TOKEN_STAR), (''/='', TOKEN_SLASH_ASSIGN), (''/'', TOKEN_SLASH), (''&&'', TOKEN_AND),
      (''&^'', TOKEN_BIT_AND_NOT), (''&'', TOKEN_BIT_AND), (''||'', TOKEN_OR), (''|'', TOKEN_BIT_OR),
      (''^'', TOKEN_BIT_XOR), (''...'', TOKEN_ELLIPSIS), (''..'', TOKEN_CONCAT), (''.'', TOKEN_DOT)]"

definition rest :: "lexer \<Rightarrow> bytes" where
  "rest l = drop (lx_pos l) (lx_source l)"

text \<open>The longest operator that the text starts with, read off the table.\<close>

definition longestOperator :: "bytes \<Rightarrow> (bytes \<times> TokenType) option" where
  "longestOperator txt =
     (case filter (\<lambda>(s, ty). prefix s txt) operatorTable of
        [] \<Rightarrow> None
      | e # es \<Rightarrow> Some (foldl (\<lambda>b e. if length (fst b) < length (fst e) then e else b) e es))"

lemma foldl_longest:
  "let m = foldl (\<lambda>b e. if length (fst b) < length (fst e) then e else b) e es
   in m \<in> set (e # es) \<and> (\<forall>x \<in> set (e # es). length (fst x) \<le> length (fst m))"
proof (induction es arbitrary: e)
  case (Cons a es)
  show ?case
    using Cons [of "if length (fst e) < length (fst a) then a else e"]
    by (auto simp: Let_def split: if_splits)
qed simp

lemma longestOperator_Some:
  assumes "longestOperator txt = Some (s, ty)"
  shows "(s, ty) \<in> set operatorTable" "prefix s txt"
    "\<And>s' ty'. (s', ty') \<in> set operatorTable \<Longrightarrow> prefix s' txt \<Longrightarrow> length s' \<le> length s"
proof -
  from assms obtain e es where f: "filter (\<lambda>(s, ty). prefix s txt) operatorTable = e # es"
    and m: "(s, ty) = foldl (\<lambda>b e. if length (fst b) < length (fst e) then e else b) e es"
    by (auto simp: longestOperator_def split: list.splits)
  have in_f: "x \<in> set (e # es) \<longleftrightarrow> x \<in> set operatorTable \<and> prefix (fst x) txt" for x
    unfolding f [symmetric] by (auto split: prod.splits)
  note l = foldl_longest [of e es, folded m, unfolded Let_def]
  show "(s, ty) \<in> set operatorTable" "prefix s txt"
    using conjunct1 [OF l] in_f [of "(s, ty)"] by simp_all
  show "length s' \<le> length s" if "(s', ty') \<in> set operatorTable" "prefix s' txt" for s' ty'
    using conjunct2 [OF l] in_f [of "(s', ty')"] that by fastforce
qed

lemma rest_cases:
  obtains (stop) "atEnd l" "rest l = []"
  | (more) "\<not> atEnd l" "rest l = lexPeek l # rest (lexAdvance l)"
  by (cases "atEnd l") (simp_all add: rest_def atEnd_def lexPeek_def drop_nth_Cons)

lemma prefix_rest: "c \<noteq> nul \<Longrightarrow> prefix (c # cs) (rest l) \<longleftrightarrow> lexPeek l = c \<and> prefix cs (rest (lexAdvance l))"
  by (cases l rule: rest_cases) (auto simp: lexPeek_def)

text \<open>The switch of \<open>readOperator\<close> is the table-driven longest match.\<close>

lemma if_eqI: "(c \<Longrightarrow> a = x) \<Longrightarrow> (\<not> c \<Longrightarrow> b = x) \<Longrightarrow> (if c then a else b) = x" by simp

lemma readOperator_longest_match:
  "readOperator sl sc l =
     (case longestOperator (rest l) of
        Some (s, ty) \<Rightarrow> lok (mkToken ty s sl sc) (advanceN (length s) l)
      | None \<Rightarrow> lerr (UnexpectedCharacter (lexPeek l) sl sc) (lexAdvance l))"
  unfolding readOperator_def Let_def longestOperator_def operatorTable_def
  by (intro if_eqI) (simp_all add: prefix_rest nul_def numeral_2_eq_2 numeral_3_eq_3)

subsection \<open>Round trip of quoted strings\<close>

text \<open>Reading, seen from the text that is left.\<close>

lemma atEnd_rest: "atEnd l \<longleftrightarrow> rest l = []"
  by (simp add: atEnd_def rest_def)

lemma lexPeek_rest: "lexPeek l = (case rest l of [] \<Rightarrow> nul | c # cs \<Rightarrow> c)"
  by (cases l rule: rest_cases) (simp_all add: lexPeek_def)

lemma rest_lexAdvance [simp]: "rest (lexAdvance l) = tl (rest l)"
  by (cases l rule: rest_cases) (simp_all add: lexAdvance_def)

lemma rest_advanceN [simp]: "rest (advanceN n l) = drop n (rest l)"
  by (induction n arbitrary: l) (auto simp: drop_Suc)

lemma lexPeekAt_rest: "lexPeekAt k l = (if k < length (rest l) then rest l ! k else nul)"
  by (auto simp: lexPeekAt_def rest_def add.commute)

lemma slice_rest:
  "n \<le> length (rest l) \<Longrightarrow> slice (lx_source (advanceN n l)) (lx_pos l) (lx_pos (advanceN n l)) = take n (rest l)"
  by (cases "n = 0") (simp_all add: slice_def rest_def advanceN_pos
      moves_source [OF moves_advanceN_r [OF moves_refl]])

text \<open>
  A quoting function in the source notation: every byte but newline, the quotes and the
  backslash stands for itself, those are written in hexadecimal.
\<close>

definition quoteByte :: "char \<Rightarrow> bytes" where
  "quoteByte c =
     (if c \<in> {newline, CHR 0x22, CHR 0x27, CHR 0x5C}
      then [CHR 0x5C, CHR ''x'', hexDigitChar (byte c div 16), hexDigitChar (byte c mod 16)] else [c])"

definition quoteLit :: "char \<Rightarrow> bytes \<Rightarrow> bytes" where
  "quoteLit q s = q # concat (map quoteByte s) @ [q]"

lemma byte_bound: "byte c < 256"
  by (simp add: byte_def)

lemma byte_char_of [simp]: "n < 256 \<Longrightarrow> byte (char_of n) = n"
  by (simp add: byte_def)

lemma char_of_byte [simp]: "char_of (byte c) = c"
  by (simp add: byte_def)

lemma hexDigitChar_ok:
  assumes "n < 16"
  shows "isHexDigit (hexDigitChar n)" "hexValue (hexDigitChar n) = n"
  using assms
  by (auto simp: hexDigitChar_def isHexDigit_def isDigit_def inRange_def hexValue_def byte_def
      split: if_splits)

lemma readFixedHexEscape_2:
  assumes "rest l = hexDigitChar a # hexDigitChar b # zs" "a < 16" "b < 16"
  shows "readFixedHexEscape 2 sl sc l = lok (16 * a + b) (advanceN 2 l)"
proof -
  have "16 * a + b < 2 ^ 31" using assms by simp
  moreover have "slice (lx_source (advanceN 2 l)) (lx_pos l) (lx_pos (advanceN 2 l)) = [hexDigitChar a, hexDigitChar b]"
    using assms by (subst slice_rest) simp_all
  ultimately show ?thesis
    using assms hexDigitChar_ok
    by (simp add: readFixedHexEscape_def Let_def lexPeekAt_rest parseUintBits_def digitsValue_def
        numeral_2_eq_2 del: advanceN.simps)
qed

lemma pending_advanceN [simp]: "lx_pendingComments (advanceN n l) = lx_pendingComments l"
  by (induction n arbitrary: l) simp_all

lemma readStringLoop_byte:
  assumes q: "q = CHR 0x22 \<or> q = CHR 0x27" and r: "rest l = quoteByte c @ zs"
  shows "\<exists>l'. readStringLoop q sl sc acc l = readStringLoop q sl sc (acc @ [c]) l' \<and> rest l' = zs \<and> moves l l' \<and>
           lx_pendingComments l' = lx_pendingComments l"
proof (cases "c \<in> {newline, CHR 0x22, CHR 0x27, CHR 0x5C}")
  case True
  let ?a = "byte c div 16" and ?b = "byte c mod 16"
  let ?l2 = "lexAdvance (lexAdvance l)"
  have ab: "?a < 16" "?b < 16" using byte_bound [of c] by auto
  from r True have r': "rest l = [CHR 0x5C, CHR ''x'', hexDigitChar ?a, hexDigitChar ?b] @ zs"
    by (simp add: quoteByte_def)
  then have "readFixedHexEscape 2 sl sc ?l2 = lok (byte c) (advanceN 2 ?l2)"
    using readFixedHexEscape_2 [of ?l2 ?a ?b zs sl sc] ab by simp
  then have "readEscape (CHR ''x'') sl sc ?l2 = lok [c] (advanceN 2 ?l2)"
    by (simp add: readEscape_def lbind_def lok_def)
  then have "readStringLoop q sl sc acc l = readStringLoop q sl sc (acc @ [c]) (advanceN 2 ?l2)"
    using q r' by (subst readStringLoop.simps)
      (auto simp: Let_def atEnd_rest lexPeek_rest newline_def lbind_def lok_def)
  then show ?thesis
    using r' by (intro exI [of _ "advanceN 2 ?l2"]) (auto simp: numeral_2_eq_2 intro!: moves_intros)
next
  case False
  then have "readStringLoop q sl sc acc l = readStringLoop q sl sc (acc @ [c]) (lexAdvance l)"
    using q r by (subst readStringLoop.simps) (auto simp: quoteByte_def Let_def atEnd_rest lexPeek_rest)
  with False r show ?thesis
    by (intro exI [of _ "lexAdvance l"]) (auto simp: quoteByte_def intro!: moves_intros)
qed

lemma readStringLoop_quoted:
  assumes q: "q = CHR 0x22 \<or> q = CHR 0x27" and "rest l = concat (map quoteByte s) @ q # zs"
  shows "\<exists>l'. readStringLoop q sl sc acc l = lok (stringToken (acc @ s) False (q = CHR 0x27) sl sc) l' \<and>
           rest l' = zs \<and> moves l l' \<and>
           lx_pendingComments l' = lx_pendingComments l"
  using assms(2)
proof (induction s arbitrary: acc l)
  case Nil
  with q have "readStringLoop q sl sc acc l = lok (stringToken acc False (q = CHR 0x27) sl sc) (lexAdvance l)"
    by (subst readStringLoop.simps) (auto simp: Let_def atEnd_rest lexPeek_rest newline_def)
  with Nil show ?case by (intro exI [of _ "lexAdvance l"]) (auto intro: moves_intros)
next
  case (Cons c s)
  then have "rest l = quoteByte c @ (concat (map quoteByte s) @ q # zs)" by simp
  from readStringLoop_byte [OF q this] obtain l1 where
    1: "readStringLoop q sl sc acc l = readStringLoop q sl sc (acc @ [c]) l1"
      "rest l1 = concat (map quoteByte s) @ q # zs" "moves l l1"
    "lx_pendingComments l1 = lx_pendingComments l" by blast
  from Cons.IH [OF 1(2), of "acc @ [c]"] 1(1,3,4) show ?case by (auto intro: moves_trans)
qed

lemma skip_nothing:
  assumes "rest l = [] \<or> (\<not> isSpaceByte (hd (rest l)) \<and> hd (rest l) \<noteq> CHR ''/'')"
  shows "skipWhitespaceAndComments l = lok () l"
proof -
  have "skipWhitespace l = l"
    using assms by (auto simp: skipWhitespace_def advanceWhile.simps [of _ l] atEnd_rest lexPeek_rest
        split: list.splits)
  then show ?thesis
    using assms by (subst skipWhitespaceAndComments.simps)
      (auto simp: Let_def lexPeek_rest nul_def split: list.splits)
qed

lemma no_newline_position:
  "newline \<notin> set src \<Longrightarrow> lineAt src (length src) = 1 \<and> colAt src (length src) = Suc (length src)"
proof -
  assume "newline \<notin> set src"
  then have "filter (\<lambda>c. c = newline) src = []" "takeWhile (\<lambda>c. c \<noteq> newline) (rev src) = rev src"
    by (auto simp: filter_empty_conv takeWhile_eq_all_conv)
  then show ?thesis unfolding lineAt_def colAt_def by (simp only: take_all order_refl length_rev) simp
qed

lemma newline_notin_quoteByte: "newline \<notin> set (quoteByte c)"
proof -
  have "hexDigitChar n \<noteq> newline" if "n < 16" for n
    using hexDigitChar_ok(1) [OF that] by (auto simp: newline_def isHexDigit_def isDigit_def inRange_def byte_def)
  moreover have "byte c div 16 < 16" "byte c mod 16 < 16" using byte_bound [of c] by auto
  ultimately have "hexDigitChar (byte c div 16) \<noteq> newline" "hexDigitChar (byte c mod 16) \<noteq> newline" by blast+
  then show ?thesis unfolding quoteByte_def by (auto simp: newline_def)
qed

lemma Tokenize_quoteLit:
  assumes q: "q = CHR 0x22 \<or> q = CHR 0x27"
  shows "Tokenize (quoteLit q s) = Inr [stringToken s False (q = CHR 0x27) 1 1,
           mkToken TOKEN_EOF [] 1 (length (quoteLit q s) + 1)]"
proof -
  let ?src = "quoteLit q s" and ?l0 = "newLexer (quoteLit q s)"
  have r0: "rest ?l0 = q # concat (map quoteByte s) @ [q]" by (simp add: rest_def quoteLit_def)
  have "rest (lexAdvance ?l0) = concat (map quoteByte s) @ [q]" by (simp add: r0)
  from readStringLoop_quoted [OF q this, of 1 1 "[]"] obtain l1 where
    l1: "readStringLoop q 1 1 [] (lexAdvance ?l0) = lok (stringToken s False (q = CHR 0x27) 1 1) l1"
      "rest l1 = []" "moves (lexAdvance ?l0) l1" "lx_pendingComments l1 = lx_pendingComments ?l0" by auto
  let ?tok = "stringToken s False (q = CHR 0x27) 1 1"
  let ?l2 = "snd (finishToken ?tok l1)"
  have m: "moves ?l0 l1" by (rule moves_trans [OF moves_advance l1(3)])
  have tok: "fst (finishToken ?tok l1) = ?tok"
    using l1(4) by (simp add: finishToken_def newLexer_def)
  have skip0: "skipWhitespaceAndComments ?l0 = lok () ?l0"
    by (rule skip_nothing) (use q in \<open>auto simp: r0 isSpaceByte_def newline_def\<close>)
  have "readString q ?l0 = lok ?tok l1"
    using l1(1) by (simp add: readString_def newLexer_def)
  then have "nextOrdinaryToken ?l0 = finished (lok ?tok l1)"
    using q r0 by (auto simp: nextOrdinaryToken_def lexPeek_rest)
  then have n0: "nextTokenInternal ?l0 = finished (lok ?tok l1)"
    using skip0 r0 by (simp add: nextTokenInternal_def lbind_def lok_def atEnd_rest)
  have r2: "rest ?l2 = []" using l1(2) by (simp add: rest_def)
  have skip2: "skipWhitespaceAndComments ?l2 = lok () ?l2" by (rule skip_nothing, rule disjI1, rule r2)
  then have n2: "nextTokenInternal ?l2 = lok (mkToken TOKEN_EOF [] (lx_line ?l2) (lx_col ?l2)) ?l2"
    using r2 by (simp add: nextTokenInternal_def lbind_def lok_def atEnd_rest)
  have "newline \<notin> set ?src"
    using q newline_notin_quoteByte by (auto simp: quoteLit_def newline_def)
  moreover have "lex_wf l1" by (rule moves_wf [OF m]) simp
  moreover have "lx_source l1 = ?src" using moves_source [OF m] by simp
  moreover have "lx_pos l1 = length ?src"
    using l1(2) calculation by (auto simp: rest_def lex_wf_def)
  ultimately have pos: "lx_line l1 = 1" "lx_col l1 = length ?src + 1"
    using no_newline_position [of ?src] by (auto simp: lex_wf_def)
  have "tokenizeLoop [] ?l0 = tokenizeLoop [?tok] ?l2"
    using n0 tok by (subst tokenizeLoop.simps) (simp add: lbind_def lok_def finished_def)
  moreover have "tokenizeLoop [?tok] ?l2 = lok [?tok, mkToken TOKEN_EOF [] 1 (length ?src + 1)] ?l2"
    using n2 pos by (subst tokenizeLoop.simps) (simp add: lbind_def lok_def)
  ultimately show ?thesis by (simp add: Tokenize_def lok_def)
qed

subsection \<open>Spelling\<close>

text \<open>A token of an operator type is written as that operator.\<close>

definition spelled :: "Token \<Rightarrow> bool" where
  "spelled tok \<longleftrightarrow> (\<forall>(s, ty) \<in> set operatorTable. tType tok = ty \<longrightarrow> tValue tok = s)"

lemma operatorTable_types: "(s, ty) \<in> set operatorTable \<Longrightarrow> (s', ty) \<in> set operatorTable \<Longrightarrow> s = s'"
proof -
  have "distinct (map snd operatorTable)" by (simp add: operatorTable_def)
  then show "(s, ty) \<in> set operatorTable \<Longrightarrow> (s', ty) \<in> set operatorTable \<Longrightarrow> s = s'"
    by (metis eq_key_imp_eq_value map_snd_zip_take inj_on_contraD distinct_map snd_conv prod.inject)
qed

lemma not_operators:
  "ty \<in> insert TOKEN_STRING (insert TOKEN_NUMBER (insert TOKEN_EOF (insert TOKEN_RAW_BLOCK wordTypes))) \<Longrightarrow>
   ty \<notin> snd ` set operatorTable"
  by (auto simp: operatorTable_def wordTypes_def keywordTable_def)

lemma spelled_other: "tType tok \<notin> snd ` set operatorTable \<Longrightarrow> spelled tok"
  by (force simp: spelled_def)

lemma readString_spelled: "readString q l = (Inr tok, l') \<Longrightarrow> spelled tok"
  unfolding readString_def by (drule readStringLoop_token) (auto intro!: spelled_other not_operators)

lemma readRawString_spelled: "readRawString l = (Inr tok, l') \<Longrightarrow> spelled tok"
  unfolding readRawString_def Let_def
  by (drule rawStringLoop_token) (auto intro!: spelled_other not_operators)

lemma readNumber_spelled: "readNumber l = (Inr tok, l') \<Longrightarrow> spelled tok"
  by (auto simp: readNumber_def Let_def intro!: spelled_other not_operators split: if_splits)

lemma readIdentifier_spelled: "readIdentifier l = (Inr tok, l') \<Longrightarrow> spelled tok"
  using LookupIdent_wordTypes by (auto simp: readIdentifier_def Let_def intro!: spelled_other not_operators)

lemma readOperator_spelled: "readOperator sl sc l = (Inr tok, l') \<Longrightarrow> spelled tok"
  using operatorTable_types
  by (fastforce simp: readOperator_longest_match spelled_def dest: longestOperator_Some(1) split: option.splits)

lemma finished_spelled: "finished r = (Inr tok, l') \<Longrightarrow> (\<And>t l''. r = (Inr t, l'') \<Longrightarrow> spelled t) \<Longrightarrow> spelled tok"
  by (fastforce simp: finished_Inr spelled_def)

lemma nextOrdinaryToken_spelled: "nextOrdinaryToken l = (Inr tok, l') \<Longrightarrow> spelled tok"
  unfolding nextOrdinaryToken_def Let_def readIdentifier_bind
  by (auto split: if_splits elim!: finished_spelled
        dest: readString_spelled readRawString_spelled readNumber_spelled readIdentifier_spelled readOperator_spelled)

lemma nextTokenInternal_spelled:
  assumes "lx_rawBlockTag l0 = []" "nextTokenInternal l0 = (Inr tok, l')"
  shows "spelled tok"
proof -
  from assms(2) obtain u l where ws: "skipWhitespaceAndComments l0 = (Inr u, l)"
    by (auto simp: nextTokenInternal_def lbind_Inr)
  then have "lx_rawBlockTag l = []"
    using moves_tag [OF moves_skipWhitespaceAndComments [OF ws]] assms(1) by simp
  with ws assms(2) have "tok = mkToken TOKEN_EOF [] (lx_line l) (lx_col l) \<or> nextOrdinaryToken l = (Inr tok, l')"
    by (auto simp: nextTokenInternal_def lbind_def split: if_splits)
  moreover have "spelled (mkToken TOKEN_EOF [] ln cl)" for ln cl
    by (rule spelled_other, rule not_operators) simp
  ultimately show ?thesis by (auto intro: nextOrdinaryToken_spelled)
qed

lemma tokenizeLoop_spelled:
  "tokenizeLoop acc l = (Inr toks, l') \<Longrightarrow> lex_wf l \<Longrightarrow> lx_rawBlockTag l = [] \<Longrightarrow> list_all spelled acc \<Longrightarrow>
   list_all spelled toks"
proof (induction acc l rule: tokenizeLoop.induct)
  case (1 acc l)
  from "1.prems"(1) obtain tok l1 where n: "nextTokenInternal l = (Inr tok, l1)"
    and r: "(if tType tok = TOKEN_EOF then lok (acc @ [tok]) l1 else tokenizeLoop (acc @ [tok]) l1) = (Inr toks, l')"
    by (auto simp: tokenizeLoop.simps [of acc l] lbind_Inr)
  have sp: "list_all spelled (acc @ [tok])"
    using nextTokenInternal_spelled [OF "1.prems"(3) n] "1.prems"(4) by simp
  from nextTokenInternal_ok [OF "1.prems"(2,3) n] have inv: "lex_wf l1" "lx_rawBlockTag l1 = []" by auto
  show ?case
  proof (cases "tType tok = TOKEN_EOF")
    case True
    with r sp show ?thesis by auto
  next
    case False
    with r "1.IH" [OF n False _ inv sp] show ?thesis by simp
  qed
qed

lemma Tokenize_spelled: "Tokenize src = Inr toks \<Longrightarrow> list_all spelled toks"
  unfolding Tokenize_def
  by (cases "tokenizeLoop [] (newLexer src)") (auto dest: tokenizeLoop_spelled)
end
