(* ===== verification/Parser.thy ===== *)
theory Parser
  imports Parser_Stmt Lexer_Correct
begin

section \<open>The whole parser (internal/parser/parser.go)\<close>

text \<open>
  The recursion is closed here: \<open>tie n\<close> is the parser with \<open>n\<close> levels of calls through
  the four methods of the record. \<open>parseFuel\<close> computes a number of levels from the tokens
  that are still unread; string tokens count with their length because an interpolated
  string holds source text that is lexed and parsed in turn.
\<close>

definition parserStep :: "parsers \<Rightarrow> parsers" where
  "parserStep P = \<lparr>pExpr = parseExpr P, pConcat = parseConcat P, pUnary = parseUnary P, pStmt = parseStmt P\<rparr>"

primrec tie :: "nat \<Rightarrow> parsers" where
  "tie 0 = \<lparr>pExpr = (\<lambda>s. PFuel), pConcat = (\<lambda>s. PFuel), pUnary = (\<lambda>s. PFuel), pStmt = (\<lambda>s. PFuel)\<rparr>"
| "tie (Suc n) = parserStep (tie n)"

text \<open>
  The methods at a level of calls, as functions of their own, so that evaluating \<open>tie n\<close>
  does not unfold the levels below before they are called.
\<close>

definition exprAt :: "nat \<Rightarrow> parser \<Rightarrow> Expr pres" where
  "exprAt n = pExpr (tie n)"

definition concatAt :: "nat \<Rightarrow> parser \<Rightarrow> Expr pres" where
  "concatAt n = pConcat (tie n)"

definition unaryAt :: "nat \<Rightarrow> parser \<Rightarrow> Expr pres" where
  "unaryAt n = pUnary (tie n)"

definition stmtAt :: "nat \<Rightarrow> parser \<Rightarrow> Stmt pres" where
  "stmtAt n = pStmt (tie n)"

lemma tie_code: "tie n = \<lparr>pExpr = exprAt n, pConcat = concatAt n, pUnary = unaryAt n, pStmt = stmtAt n\<rparr>"
  by (simp add: exprAt_def concatAt_def unaryAt_def stmtAt_def)

lemma methodAt_code:
  "exprAt 0 s = PFuel" "exprAt (Suc n) s = parseExpr (tie n) s"
  "concatAt 0 s = PFuel" "concatAt (Suc n) s = parseConcat (tie n) s"
  "unaryAt 0 s = PFuel" "unaryAt (Suc n) s = parseUnary (tie n) s"
  "stmtAt 0 s = PFuel" "stmtAt (Suc n) s = parseStmt (tie n) s"
  by (simp_all add: exprAt_def concatAt_def unaryAt_def stmtAt_def parserStep_def)

declare tie.simps [code del] tie_code [code] methodAt_code [code]

definition mu :: "parser \<Rightarrow> nat" where
  "mu s = sumw tokenWeight (drop (ps_pos s) (ps_tokens s))"

definition parseFuel :: "parser \<Rightarrow> nat" where
  "parseFuel s = 4 * mu s + 4"

fun programLoop :: "parsers \<Rightarrow> nat \<Rightarrow> Stmt list \<Rightarrow> parser \<Rightarrow> Stmt list pres" where
  "programLoop P 0 acc s = PFuel"
| "programLoop P (Suc n) acc s =
     (if isAtEnd s then POk acc s
      else let s = skipSemicolons s in
        if isAtEnd s then POk acc s
        else pbind (pStmt P s) (\<lambda>st s. programLoop P n (acc @ [st]) s))"

definition parseWith :: "parsers \<Rightarrow> Token list \<Rightarrow> Program pres" where
  "parseWith P toks =
     (let s = newParser toks in
      pbind (programLoop P (loopFuel s) [] s) (\<lambda>stmts s'.
        POk \<lparr>prStmts = stmts, prFileDirectives = parseFileDirectives s\<rparr> s'))"

definition Parse :: "Token list \<Rightarrow> Program pres" where
  "Parse toks = parseWith (tie (parseFuel (newParser toks))) toks"

text \<open>Source text to syntax tree, the way every caller composes lexer and parser.\<close>

datatype front_error = LexFailure lex_error | ParseFailure perror | OutOfFuel

definition parseSource :: "bytes \<Rightarrow> front_error + Program" where
  "parseSource src =
     (case Tokenize src of
        Inl e \<Rightarrow> Inl (LexFailure e)
      | Inr toks \<Rightarrow> (case Parse toks of
          POk prog s \<Rightarrow> Inr prog
        | PErr e \<Rightarrow> Inl (ParseFailure e)
        | PFuel \<Rightarrow> Inl OutOfFuel))"

end
