(* ===== verification/Grammar.thy ===== *)
theory Grammar
  imports Parser
begin

section \<open>The grammar of Leia, as derivations of syntax trees\<close>

text \<open>
  The specification the parser is held to: the productions of \<open>docs/spec/grammar.ebnf\<close>,
  each with the tree and the source positions it stands for. A judgement
  \<open>derives ph xs ys\<close> says that the tokens between the list \<open>xs\<close> and its tail \<open>ys\<close> are
  a sentence of the non-terminal named in the phrase \<open>ph\<close>, with the tree held there. Expressions carry the precedence level of their non-terminal:
  0 any expression, 1 or, 2 and, 3 comparison, 4 concatenation, 5 additive, 6 multiplicative, 7 unary, 8 power,
  9 postfix, 10 primary.

  Where the code accepts more than the published grammar the productions follow the code: the
  separator between two fields of a table or of a config block may be missing, \<open>const\<close> takes
  lists, \<open>else if\<close> is a spelling of \<open>elseif\<close>, an import group may be separated by commas,
  a tagged block may hold statements, and \<open>evaluate\<close> blocks are statements. Where it accepts
  less they follow the code too: an expression that is not a call, a receive or a dialect
  form is no statement.
\<close>

fun levelOps :: "nat \<Rightarrow> TokenType list" where
  "levelOps k = (if k = 1 then orOps else if k = 2 then andOps else if k = 3 then comparisonOps
     else if k = 5 then additiveOps else if k = 6 then multiplicativeOps else [])"

declare levelOps.simps [simp del]

text \<open>An optional separator between fields.\<close>

definition gSep :: "Token list \<Rightarrow> Token list \<Rightarrow> bool" where
  "gSep xs ys \<longleftrightarrow> ys = xs \<or> (\<exists>t. xs = t # ys \<and> tType t \<in> {TOKEN_COMMA, TOKEN_SEMICOLON})"

subsection \<open>Parameters and imports\<close>

inductive gParamList :: "FuncParam list \<Rightarrow> Token list \<Rightarrow> Token list \<Rightarrow> bool" where
  bare: "tType t = TOKEN_ELLIPSIS \<Longrightarrow> gParamList [\<lparr>fpName = ''...'', fpIsVarArg = True\<rparr>] (t # xs) xs"
| vararg: "tType n = TOKEN_IDENT \<Longrightarrow> tType t = TOKEN_ELLIPSIS \<Longrightarrow>
    gParamList [\<lparr>fpName = tValue n, fpIsVarArg = True\<rparr>] (n # t # xs) xs"
| single: "tType n = TOKEN_IDENT \<Longrightarrow> gParamList [\<lparr>fpName = tValue n, fpIsVarArg = False\<rparr>] (n # xs) xs"
| further: "tType n = TOKEN_IDENT \<Longrightarrow> tType c = TOKEN_COMMA \<Longrightarrow> gParamList ps xs ys \<Longrightarrow>
    gParamList (\<lparr>fpName = tValue n, fpIsVarArg = False\<rparr> # ps) (n # c # xs) ys"

inductive gParams :: "FuncParam list \<Rightarrow> Token list \<Rightarrow> Token list \<Rightarrow> bool" where
  none: "tType l = TOKEN_LPAREN \<Longrightarrow> tType r = TOKEN_RPAREN \<Longrightarrow> gParams [] (l # r # xs) xs"
| some: "tType l = TOKEN_LPAREN \<Longrightarrow> gParamList ps xs (r # ys) \<Longrightarrow> tType r = TOKEN_RPAREN \<Longrightarrow>
    gParams ps (l # xs) ys"

definition importStmt :: "Pos \<Rightarrow> bytes \<Rightarrow> Token \<Rightarrow> Stmt" where
  "importStmt pos alias pathTok =
     DeclareStmt pos [alias]
       [CallExpr pos (IdentExpr pos ''require'') [StringLit (tokenPos pathTok) (tValue pathTok)]] False"

inductive gImportSpec :: "Pos \<Rightarrow> Stmt \<Rightarrow> Token list \<Rightarrow> Token list \<Rightarrow> bool" where
  inferred: "tType p = TOKEN_STRING \<Longrightarrow> defaultImportAlias (tValue p) = a \<Longrightarrow> a \<noteq> [] \<Longrightarrow>
    gImportSpec pos (importStmt pos a p) (p # xs) xs"
| renamed: "tType p = TOKEN_STRING \<Longrightarrow> tType k = TOKEN_IDENT \<Longrightarrow> tValue k = ''as'' \<Longrightarrow>
    tType a = TOKEN_IDENT \<Longrightarrow> tValue a \<noteq> [] \<Longrightarrow>
    gImportSpec pos (importStmt pos (tValue a) p) (p # k # a # xs) xs"
| named: "tType a = TOKEN_IDENT \<Longrightarrow> tValue a \<noteq> [] \<Longrightarrow> tType p = TOKEN_STRING \<Longrightarrow>
    gImportSpec pos (importStmt pos (tValue a) p) (a # p # xs) xs"

inductive gImports :: "Pos \<Rightarrow> Stmt list \<Rightarrow> Token list \<Rightarrow> Token list \<Rightarrow> bool" where
  nil: "gImports pos [] xs xs"
| semicolon: "tType t = TOKEN_SEMICOLON \<Longrightarrow> gImports pos ss xs ys \<Longrightarrow> gImports pos ss (t # xs) ys"
| spec: "gImportSpec pos s xs ys \<Longrightarrow> gSep ys zs \<Longrightarrow> gImports pos ss zs ws \<Longrightarrow> gImports pos (s # ss) xs ws"

inductive gNames :: "bytes list \<Rightarrow> Token list \<Rightarrow> Token list \<Rightarrow> bool" where
  single: "tType n = TOKEN_IDENT \<Longrightarrow> gNames [tValue n] (n # xs) xs"
| further: "tType n = TOKEN_IDENT \<Longrightarrow> tType c = TOKEN_COMMA \<Longrightarrow> gNames ns xs ys \<Longrightarrow>
    gNames (tValue n # ns) (n # c # xs) ys"

text \<open>An optional \<open>!\<close> after a tag.\<close>

inductive gBang :: "bool \<Rightarrow> Token list \<Rightarrow> Token list \<Rightarrow> bool" where
  plain: "gBang False xs xs"
| bang: "tType t = TOKEN_NOT \<Longrightarrow> gBang True (t # xs) xs"

inductive gDenseLen :: "nat \<Rightarrow> Token list \<Rightarrow> Token list \<Rightarrow> bool" where
  unsized: "gDenseLen 0 xs xs"
| sized: "tType t = TOKEN_NUMBER \<Longrightarrow> parseDenseLiteralLen (tValue t) = Some n \<Longrightarrow> gDenseLen n (t # xs) xs"

definition plainStringToken :: "Token \<Rightarrow> bool" where
  "plainStringToken t \<longleftrightarrow> tType t = TOKEN_STRING \<and> (tIsRawString t \<or> tIsSingleQuoted t)"

definition interpolatingToken :: "Token \<Rightarrow> bool" where
  "interpolatingToken t \<longleftrightarrow> tType t = TOKEN_STRING \<and> \<not> tIsRawString t \<and> \<not> tIsSingleQuoted t"

subsection \<open>Expressions and statements\<close>

text \<open>The non-terminals, each with the tree it derives.\<close>

datatype (plugins only: size) phrase =
    ExprPhrase nat Expr
  | ExprsPhrase "Expr list"
  | ArgsPhrase "Expr list"
  | ValuesPhrase TokenType "Expr list"
  | TablePhrase "TableField list"
  | FieldPhrase TableField
  | ConfigPhrase "ConfigField list"
  | ConfigFieldPhrase ConfigField
  | StringPhrase Pos bytes Expr
  | PartsPhrase bytes "InterpolatedStringPart list"
  | SimplePhrase Stmt
  | StmtPhrase Stmt
  | StmtsPhrase "Stmt list"
  | BlockPhrase BlockStmt
  | ElseIfsPhrase "ElseIfClause list"
  | ElsePhrase "BlockStmt option"
  | CommPhrase bytes bytes Expr "Expr option"
  | CasesPhrase "SelectCase list" "BlockStmt option"

inductive derives :: "phrase \<Rightarrow> Token list \<Rightarrow> Token list \<Rightarrow> bool" where
  \<comment> \<open>operators\<close>
  e_up: "derives (ExprPhrase (Suc k) e) xs ys \<Longrightarrow> derives (ExprPhrase k e) xs ys"
| e_binary: "derives (ExprPhrase k l) xs (t # ys) \<Longrightarrow> tType t \<in> set (levelOps k) \<Longrightarrow> derives (ExprPhrase (Suc k) r) ys zs \<Longrightarrow>
    derives (ExprPhrase k (BinaryExpr (tokenPos t) l (tValue t) r)) xs zs"
| e_concat: "derives (ExprPhrase 5 l) xs (t # ys) \<Longrightarrow> tType t = TOKEN_CONCAT \<Longrightarrow> derives (ExprPhrase 4 r) ys zs \<Longrightarrow>
    derives (ExprPhrase 4 (BinaryExpr (tokenPos t) l (tValue t) r)) xs zs"
| e_unary: "tType t \<in> set unaryOps \<Longrightarrow> derives (ExprPhrase 7 e) xs ys \<Longrightarrow>
    derives (ExprPhrase 7 (UnaryExpr (tokenPos t) (tValue t) e)) (t # xs) ys"
| e_recv: "tType t = TOKEN_ARROW \<Longrightarrow> derives (ExprPhrase 7 e) xs ys \<Longrightarrow> derives (ExprPhrase 7 (RecvExpr (tokenPos t) e)) (t # xs) ys"
| e_power: "derives (ExprPhrase 9 l) xs (t # ys) \<Longrightarrow> tType t = TOKEN_POW \<Longrightarrow> derives (ExprPhrase 7 r) ys zs \<Longrightarrow>
    derives (ExprPhrase 8 (BinaryExpr (tokenPos t) l (tValue t) r)) xs zs"
  \<comment> \<open>postfix forms\<close>
| e_field: "derives (ExprPhrase 9 e) xs (d # f # ys) \<Longrightarrow> tType d = TOKEN_DOT \<Longrightarrow> tType f = TOKEN_IDENT \<Longrightarrow>
    derives (ExprPhrase 9 (FieldExpr (exprPos e) e (tValue f))) xs ys"
| e_index: "derives (ExprPhrase 9 e) xs (l # ys) \<Longrightarrow> tType l = TOKEN_LBRACKET \<Longrightarrow> derives (ExprPhrase 0 i) ys (r # zs) \<Longrightarrow>
    tType r = TOKEN_RBRACKET \<Longrightarrow> derives (ExprPhrase 9 (IndexExpr (exprPos e) e i)) xs zs"
| e_call: "derives (ExprPhrase 9 e) xs (l # ys) \<Longrightarrow> tType l = TOKEN_LPAREN \<Longrightarrow> derives (ArgsPhrase as) ys (r # zs) \<Longrightarrow>
    tType r = TOKEN_RPAREN \<Longrightarrow> derives (ExprPhrase 9 (CallExpr (exprPos e) e as)) xs zs"
| e_method: "derives (ExprPhrase 9 e) xs (c # m # l # ys) \<Longrightarrow> tType c = TOKEN_COLON \<Longrightarrow> tType m = TOKEN_IDENT \<Longrightarrow>
    tLine m = tLine c \<Longrightarrow> tType l = TOKEN_LPAREN \<Longrightarrow> derives (ArgsPhrase as) ys (r # zs) \<Longrightarrow> tType r = TOKEN_RPAREN \<Longrightarrow>
    derives (ExprPhrase 9 (MethodCallExpr (exprPos e) e (tValue m) as)) xs zs"
| e_chan: "derives (ExprPhrase 9 e) xs (l # c # r # ys) \<Longrightarrow> identName e = Some ''make'' \<Longrightarrow> tType l = TOKEN_LPAREN \<Longrightarrow>
    tType c = TOKEN_CHAN \<Longrightarrow> tType r = TOKEN_RPAREN \<Longrightarrow> derives (ExprPhrase 9 (MakeChanExpr (exprPos e) None)) xs ys"
| e_chan_sized: "derives (ExprPhrase 9 e) xs (l # c # q # ys) \<Longrightarrow> identName e = Some ''make'' \<Longrightarrow> tType l = TOKEN_LPAREN \<Longrightarrow>
    tType c = TOKEN_CHAN \<Longrightarrow> tType q = TOKEN_COMMA \<Longrightarrow> derives (ExprPhrase 0 n) ys (r # zs) \<Longrightarrow> tType r = TOKEN_RPAREN \<Longrightarrow>
    derives (ExprPhrase 9 (MakeChanExpr (exprPos e) (Some n))) xs zs"
  \<comment> \<open>primaries\<close>
| e_number: "tType t = TOKEN_NUMBER \<Longrightarrow> derives (ExprPhrase 10 (NumberLit (tokenPos t) (tValue t))) (t # xs) xs"
| e_plain_string: "plainStringToken t \<Longrightarrow> derives (ExprPhrase 10 (StringLit (tokenPos t) (tValue t))) (t # xs) xs"
| e_string: "interpolatingToken t \<Longrightarrow> derives (StringPhrase (tokenPos t) (tValue t) e) [] [] \<Longrightarrow> derives (ExprPhrase 10 e) (t # xs) xs"
| e_true: "tType t = TOKEN_TRUE \<Longrightarrow> derives (ExprPhrase 10 (BoolLit (tokenPos t) True)) (t # xs) xs"
| e_false: "tType t = TOKEN_FALSE \<Longrightarrow> derives (ExprPhrase 10 (BoolLit (tokenPos t) False)) (t # xs) xs"
| e_nil: "tType t = TOKEN_NIL \<Longrightarrow> derives (ExprPhrase 10 (NilLit (tokenPos t))) (t # xs) xs"
| e_vararg: "tType t = TOKEN_ELLIPSIS \<Longrightarrow> derives (ExprPhrase 10 (VarArgExpr (tokenPos t))) (t # xs) xs"
| e_ident: "tType t = TOKEN_IDENT \<Longrightarrow> derives (ExprPhrase 10 (IdentExpr (tokenPos t) (tValue t))) (t # xs) xs"
| e_tagged_string: "tType t = TOKEN_IDENT \<Longrightarrow> gBang ff xs (b # ys) \<Longrightarrow> isRawStringToken b \<Longrightarrow>
    derives (StringPhrase (tokenPos b) (tValue b) e) [] [] \<Longrightarrow> derives (ExprPhrase 10 (TaggedStringExpr (tokenPos t) (tValue t) e ff)) (t # xs) ys"
| e_shell: "tType t = TOKEN_DOLLAR \<Longrightarrow> gBang ff xs (b # ys) \<Longrightarrow> isRawStringToken b \<Longrightarrow>
    derives (StringPhrase (tokenPos b) (tValue b) e) [] [] \<Longrightarrow> derives (ExprPhrase 10 (TaggedStringExpr (tokenPos t) ''sh'' e ff)) (t # xs) ys"
| e_tagged_config: "tType t = TOKEN_IDENT \<Longrightarrow> gBang ff xs (l # ys) \<Longrightarrow> tType l = TOKEN_LBRACE \<Longrightarrow>
    derives (ConfigPhrase cs) ys (r # zs) \<Longrightarrow> tType r = TOKEN_RBRACE \<Longrightarrow>
    derives (ExprPhrase 10 (TaggedBlockExpr (tokenPos t) (tValue t) cs None [] None False ff)) (t # xs) zs"
| e_tagged_body: "tType t = TOKEN_IDENT \<Longrightarrow> gBang ff xs ys \<Longrightarrow> derives (BlockPhrase b) ys zs \<Longrightarrow>
    derives (ExprPhrase 10 (TaggedBlockExpr (tokenPos t) (tValue t) [] (Some b) [] None False ff)) (t # xs) zs"
| e_tagged_raw: "tType t = TOKEN_IDENT \<Longrightarrow> gBang ff xs (b # ys) \<Longrightarrow> tType b = TOKEN_RAW_BLOCK \<Longrightarrow>
    derives (StringPhrase (tokenPos b) (tValue b) e) [] [] \<Longrightarrow>
    derives (ExprPhrase 10 (TaggedBlockExpr (tokenPos t) (tValue t) [] None (tValue b) (Some e) True ff)) (t # xs) ys"
| e_paren: "tType l = TOKEN_LPAREN \<Longrightarrow> derives (ExprPhrase 0 e) xs (r # ys) \<Longrightarrow> tType r = TOKEN_RPAREN \<Longrightarrow>
    derives (ExprPhrase 10 (ParenExpr (tokenPos l) e)) (l # xs) ys"
| e_func: "tType t = TOKEN_FUNC \<Longrightarrow> gParams ps xs ys \<Longrightarrow> derives (BlockPhrase b) ys zs \<Longrightarrow>
    derives (ExprPhrase 10 (FuncLitExpr (tokenPos t) ps b)) (t # xs) zs"
| e_table: "tType l = TOKEN_LBRACE \<Longrightarrow> derives (TablePhrase fs) xs (r # ys) \<Longrightarrow> tType r = TOKEN_RBRACE \<Longrightarrow>
    derives (ExprPhrase 10 (TableLitExpr (tokenPos l) fs)) (l # xs) ys"
| e_list: "tType l = TOKEN_LBRACKET \<Longrightarrow> derives (ValuesPhrase TOKEN_RBRACKET vs) xs ys \<Longrightarrow>
    derives (ExprPhrase 10 (ListLitExpr (tokenPos l) vs)) (l # xs) ys"
| e_dense: "tType l = TOKEN_LBRACKET \<Longrightarrow> gDenseLen n xs (r # d # b # ys) \<Longrightarrow> tType r = TOKEN_RBRACKET \<Longrightarrow>
    tType d = TOKEN_IDENT \<Longrightarrow> isDenseDType (tValue d) \<Longrightarrow> tType b = TOKEN_LBRACE \<Longrightarrow>
    derives (ValuesPhrase TOKEN_RBRACE vs) ys zs \<Longrightarrow> derives (ExprPhrase 10 (DenseLitExpr (tokenPos l) (tValue d) n vs)) (l # xs) zs"
  \<comment> \<open>lists of expressions\<close>
| es_one: "derives (ExprPhrase 0 e) xs ys \<Longrightarrow> derives (ExprsPhrase [e]) xs ys"
| es_more: "derives (ExprPhrase 0 e) xs (c # ys) \<Longrightarrow> tType c = TOKEN_COMMA \<Longrightarrow> derives (ExprsPhrase es) ys zs \<Longrightarrow> derives (ExprsPhrase (e # es)) xs zs"
| args_none: "derives (ArgsPhrase []) xs xs"
| args_some: "derives (ExprsPhrase es) xs ys \<Longrightarrow> derives (ArgsPhrase es) xs ys"
| vs_none: "tType c = q \<Longrightarrow> derives (ValuesPhrase q []) (c # xs) xs"
| vs_last: "derives (ExprPhrase 0 e) xs (c # ys) \<Longrightarrow> tType c = q \<Longrightarrow> derives (ValuesPhrase q [e]) xs ys"
| vs_more: "derives (ExprPhrase 0 e) xs (c # ys) \<Longrightarrow> tType c \<in> {TOKEN_COMMA, TOKEN_SEMICOLON} \<Longrightarrow> derives (ValuesPhrase q es) ys zs \<Longrightarrow>
    derives (ValuesPhrase q (e # es)) xs zs"
  \<comment> \<open>table and config fields\<close>
| t_none: "derives (TablePhrase []) xs xs"
| t_more: "derives (FieldPhrase f) xs ys \<Longrightarrow> gSep ys zs \<Longrightarrow> derives (TablePhrase fs) zs ws \<Longrightarrow> derives (TablePhrase (f # fs)) xs ws"
| f_computed: "tType l = TOKEN_LBRACKET \<Longrightarrow> derives (ExprPhrase 0 k) xs (r # c # ys) \<Longrightarrow> tType r = TOKEN_RBRACKET \<Longrightarrow>
    tType c = TOKEN_COLON \<Longrightarrow> derives (ExprPhrase 0 v) ys zs \<Longrightarrow> derives (FieldPhrase (TableField (Some k) v)) (l # xs) zs"
| f_named: "tType n = TOKEN_IDENT \<Longrightarrow> tType c = TOKEN_COLON \<Longrightarrow> derives (ExprPhrase 0 v) xs ys \<Longrightarrow>
    derives (FieldPhrase (TableField (Some (StringLit (tokenPos n) (tValue n))) v)) (n # c # xs) ys"
| f_value: "derives (ExprPhrase 0 v) xs ys \<Longrightarrow> derives (FieldPhrase (TableField None v)) xs ys"
| c_none: "derives (ConfigPhrase []) xs xs"
| c_semicolon: "tType t = TOKEN_SEMICOLON \<Longrightarrow> derives (ConfigPhrase cs) xs ys \<Longrightarrow> derives (ConfigPhrase cs) (t # xs) ys"
| c_more: "derives (ConfigFieldPhrase c) xs ys \<Longrightarrow> gSep ys zs \<Longrightarrow> derives (ConfigPhrase cs) zs ws \<Longrightarrow> derives (ConfigPhrase (c # cs)) xs ws"
| cf_named: "tType n \<in> {TOKEN_IDENT, TOKEN_STRING} \<Longrightarrow> tType c = TOKEN_COLON \<Longrightarrow> derives (ExprPhrase 0 v) xs ys \<Longrightarrow>
    derives (ConfigFieldPhrase (ConfigField (tokenPos n) (StringLit (tokenPos n) (tValue n)) v)) (n # c # xs) ys"
| cf_computed: "tType l = TOKEN_LBRACKET \<Longrightarrow> derives (ExprPhrase 0 k) xs (r # c # ys) \<Longrightarrow> tType r = TOKEN_RBRACKET \<Longrightarrow>
    tType c = TOKEN_COLON \<Longrightarrow> derives (ExprPhrase 0 v) ys zs \<Longrightarrow> derives (ConfigFieldPhrase (ConfigField (exprPos k) k v)) (l # xs) zs"
  \<comment> \<open>strings with interpolations\<close>
| s_plain: "\<not> contains v ''${'' \<Longrightarrow> derives (StringPhrase pos v (StringLit pos v)) [] []"
| s_parts: "contains v ''${'' \<Longrightarrow> derives (PartsPhrase v ps) [] [] \<Longrightarrow> derives (StringPhrase pos v (InterpolatedStringExpr pos ps)) [] []"
| p_none: "derives (PartsPhrase [] []) [] []"
| p_text: "v \<noteq> [] \<Longrightarrow> \<not> contains v ''${'' \<Longrightarrow> derives (PartsPhrase v [InterpolatedStringPart v None]) [] []"
| p_expr: "indexOf v ''${'' = Some a \<Longrightarrow> scanInterpolationEnd v (a + 2) = Some b \<Longrightarrow>
    Tokenize (trimSpace (slice v (a + 2) b)) = Inr toks \<Longrightarrow> derives (ExprPhrase 0 e) toks rst \<Longrightarrow>
    onlySemicolonsOrEOF rst \<Longrightarrow> derives (PartsPhrase (drop (Suc b) v) ps) [] [] \<Longrightarrow>
    derives (PartsPhrase v ((if a = 0 then [] else [InterpolatedStringPart (take a v) None])
              @ InterpolatedStringPart [] (Some e) # ps)) [] []"
  \<comment> \<open>statements that start with an expression\<close>
| s_standalone: "derives (ExprPhrase 0 e) (t # xs) ys \<Longrightarrow> standaloneStmt (tokenPos t) e = Some s \<Longrightarrow> derives (SimplePhrase s) (t # xs) ys"
| s_declare: "derives (ExprsPhrase es) (t # xs) (d # ys) \<Longrightarrow> tType d = TOKEN_DECLARE \<Longrightarrow> exprListToNames es = Inr ns \<Longrightarrow>
    derives (ExprsPhrase vs) ys zs \<Longrightarrow> derives (SimplePhrase (DeclareStmt (tokenPos t) ns vs False)) (t # xs) zs"
| s_assign: "derives (ExprsPhrase es) (t # xs) (d # ys) \<Longrightarrow> tType d = TOKEN_ASSIGN \<Longrightarrow>
    derives (ExprsPhrase vs) ys zs \<Longrightarrow> derives (SimplePhrase (AssignStmt (tokenPos t) es vs)) (t # xs) zs"
| s_compound: "derives (ExprPhrase 0 e) (t # xs) (d # ys) \<Longrightarrow> tType d \<in> set compoundAssignOps \<Longrightarrow> derives (ExprPhrase 0 v) ys zs \<Longrightarrow>
    derives (SimplePhrase (CompoundAssignStmt (tokenPos t) e (tValue d) v)) (t # xs) zs"
| s_incdec: "derives (ExprPhrase 0 e) (t # xs) (d # ys) \<Longrightarrow> tType d \<in> {TOKEN_INC, TOKEN_DEC} \<Longrightarrow>
    derives (SimplePhrase (IncDecStmt (tokenPos t) e (tValue d))) (t # xs) ys"
| s_send: "derives (ExprPhrase 0 c) (t # xs) (d # ys) \<Longrightarrow> tType d = TOKEN_ARROW \<Longrightarrow> derives (ExprPhrase 0 v) ys zs \<Longrightarrow>
    derives (SimplePhrase (SendStmt (tokenPos t) c (Some v))) (t # xs) zs"
  \<comment> \<open>declarations, jumps and blocks\<close>
| s_simple: "derives (SimplePhrase s) xs ys \<Longrightarrow> derives (StmtPhrase s) xs ys"
| s_const: "tType t = TOKEN_CONST \<Longrightarrow> gNames ns xs (d # ys) \<Longrightarrow> tType d \<in> {TOKEN_DECLARE, TOKEN_ASSIGN} \<Longrightarrow>
    derives (ExprsPhrase vs) ys zs \<Longrightarrow> derives (StmtPhrase (DeclareStmt (tokenPos t) ns vs True)) (t # xs) zs"
| s_import: "tType t = TOKEN_IDENT \<Longrightarrow> tValue t = ''import'' \<Longrightarrow> gImportSpec (tokenPos t) s xs ys \<Longrightarrow>
    derives (StmtPhrase s) (t # xs) ys"
| s_imports: "tType t = TOKEN_IDENT \<Longrightarrow> tValue t = ''import'' \<Longrightarrow> tType l = TOKEN_LPAREN \<Longrightarrow>
    gImports (tokenPos t) ss xs (r # ys) \<Longrightarrow> tType r = TOKEN_RPAREN \<Longrightarrow>
    derives (StmtPhrase (NestedBlock (BlockStmt (tokenPos t) ss))) (t # l # xs) ys"
| s_func: "tType t = TOKEN_FUNC \<Longrightarrow> tType n = TOKEN_IDENT \<Longrightarrow> gParams ps xs ys \<Longrightarrow> derives (BlockPhrase b) ys zs \<Longrightarrow>
    derives (StmtPhrase (FuncDeclStmt (tokenPos t) (tValue n) ps b)) (t # n # xs) zs"
| s_evaluate: "tType t = TOKEN_IDENT \<Longrightarrow> tValue t = ''evaluate'' \<Longrightarrow> tType n = TOKEN_STRING \<Longrightarrow>
    derives (BlockPhrase b) xs ys \<Longrightarrow> derives (StmtPhrase (EvaluateStmt (tokenPos t) (tValue n) b)) (t # n # xs) ys"
| s_label: "tType n = TOKEN_IDENT \<Longrightarrow> tType c = TOKEN_COLON \<Longrightarrow>
    derives (StmtPhrase (LabelStmt (tokenPos n) (tValue n))) (n # c # xs) xs"
| s_goto: "tType t = TOKEN_GOTO \<Longrightarrow> tType n = TOKEN_IDENT \<Longrightarrow>
    derives (StmtPhrase (GotoStmt (tokenPos t) (tValue n))) (t # n # xs) xs"
| s_break: "tType t = TOKEN_BREAK \<Longrightarrow> derives (StmtPhrase (BreakStmt (tokenPos t))) (t # xs) xs"
| s_continue: "tType t = TOKEN_CONTINUE \<Longrightarrow> derives (StmtPhrase (ContinueStmt (tokenPos t))) (t # xs) xs"
| s_return: "tType t = TOKEN_RETURN \<Longrightarrow> derives (ArgsPhrase vs) xs ys \<Longrightarrow> derives (StmtPhrase (ReturnStmt (tokenPos t) vs)) (t # xs) ys"
| s_go: "tType t = TOKEN_GO \<Longrightarrow> derives (ExprPhrase 0 e) xs ys \<Longrightarrow> isCallExpr e \<or> isMethodCallExpr e \<Longrightarrow>
    derives (StmtPhrase (GoStmt (tokenPos t) e)) (t # xs) ys"
| s_defer: "tType t = TOKEN_DEFER \<Longrightarrow> derives (ExprPhrase 0 e) xs ys \<Longrightarrow> isCallExpr e \<or> isMethodCallExpr e \<Longrightarrow>
    derives (StmtPhrase (DeferStmt (tokenPos t) e)) (t # xs) ys"
| s_if: "tType t = TOKEN_IF \<Longrightarrow> derives (ExprPhrase 0 c) xs ys \<Longrightarrow> derives (BlockPhrase b) ys zs \<Longrightarrow> derives (ElseIfsPhrase es) zs ws \<Longrightarrow> derives (ElsePhrase el) ws us \<Longrightarrow>
    derives (StmtPhrase (IfStmt (tokenPos t) c b es el)) (t # xs) us"
| s_loop: "tType t = TOKEN_FOR \<Longrightarrow> derives (BlockPhrase b) xs ys \<Longrightarrow> derives (StmtPhrase (ForStmt (tokenPos t) None b)) (t # xs) ys"
| s_while: "tType t = TOKEN_FOR \<Longrightarrow> derives (ExprPhrase 0 c) xs ys \<Longrightarrow> derives (BlockPhrase b) ys zs \<Longrightarrow>
    derives (StmtPhrase (ForStmt (tokenPos t) (Some c) b)) (t # xs) zs"
| s_for: "tType t = TOKEN_FOR \<Longrightarrow> derives (SimplePhrase i) xs (p # ys) \<Longrightarrow> tType p = TOKEN_SEMICOLON \<Longrightarrow> derives (ExprPhrase 0 c) ys (q # zs) \<Longrightarrow>
    tType q = TOKEN_SEMICOLON \<Longrightarrow> derives (SimplePhrase a) zs ws \<Longrightarrow> derives (BlockPhrase b) ws us \<Longrightarrow>
    derives (StmtPhrase (ForNumStmt (tokenPos t) i c a b)) (t # xs) us"
| s_range: "tType t = TOKEN_FOR \<Longrightarrow> tType k = TOKEN_IDENT \<Longrightarrow> tType d = TOKEN_DECLARE \<Longrightarrow> tType r = TOKEN_RANGE \<Longrightarrow>
    derives (ExprPhrase 0 e) xs ys \<Longrightarrow> derives (BlockPhrase b) ys zs \<Longrightarrow>
    derives (StmtPhrase (ForRangeStmt (tokenPos t) (tValue k) [] e b)) (t # k # d # r # xs) zs"
| s_range2: "tType t = TOKEN_FOR \<Longrightarrow> tType k = TOKEN_IDENT \<Longrightarrow> tType q = TOKEN_COMMA \<Longrightarrow> tType v = TOKEN_IDENT \<Longrightarrow>
    tType d = TOKEN_DECLARE \<Longrightarrow> tType r = TOKEN_RANGE \<Longrightarrow> derives (ExprPhrase 0 e) xs ys \<Longrightarrow> derives (BlockPhrase b) ys zs \<Longrightarrow>
    derives (StmtPhrase (ForRangeStmt (tokenPos t) (tValue k) (tValue v) e b)) (t # k # q # v # d # r # xs) zs"
| s_select: "tType t = TOKEN_IDENT \<Longrightarrow> tValue t = ''select'' \<Longrightarrow> tType l = TOKEN_LBRACE \<Longrightarrow>
    derives (CasesPhrase cs d) xs (r # ys) \<Longrightarrow> tType r = TOKEN_RBRACE \<Longrightarrow>
    derives (StmtPhrase (SelectStmt (tokenPos t) cs d)) (t # l # xs) ys"
| ss_none: "derives (StmtsPhrase []) xs xs"
| ss_semicolon: "tType t = TOKEN_SEMICOLON \<Longrightarrow> derives (StmtsPhrase ss) xs ys \<Longrightarrow> derives (StmtsPhrase ss) (t # xs) ys"
| ss_more: "derives (StmtPhrase s) xs ys \<Longrightarrow> derives (StmtsPhrase ss) ys zs \<Longrightarrow> derives (StmtsPhrase (s # ss)) xs zs"
| b_block: "tType l = TOKEN_LBRACE \<Longrightarrow> derives (StmtsPhrase ss) xs (r # ys) \<Longrightarrow> tType r = TOKEN_RBRACE \<Longrightarrow>
    derives (BlockPhrase (BlockStmt (tokenPos l) ss)) (l # xs) ys"
| ei_none: "derives (ElseIfsPhrase []) xs xs"
| ei_elseif: "tType t = TOKEN_ELSEIF \<Longrightarrow> derives (ExprPhrase 0 c) xs ys \<Longrightarrow> derives (BlockPhrase b) ys zs \<Longrightarrow> derives (ElseIfsPhrase es) zs ws \<Longrightarrow>
    derives (ElseIfsPhrase (ElseIfClause (tokenPos t) c b # es)) (t # xs) ws"
| ei_else_if: "tType u = TOKEN_ELSE \<Longrightarrow> tType t = TOKEN_IF \<Longrightarrow> derives (ExprPhrase 0 c) xs ys \<Longrightarrow> derives (BlockPhrase b) ys zs \<Longrightarrow>
    derives (ElseIfsPhrase es) zs ws \<Longrightarrow> derives (ElseIfsPhrase (ElseIfClause (tokenPos t) c b # es)) (u # t # xs) ws"
| el_none: "derives (ElsePhrase None) xs xs"
| el_some: "tType t = TOKEN_ELSE \<Longrightarrow> derives (BlockPhrase b) xs ys \<Longrightarrow> derives (ElsePhrase (Some b)) (t # xs) ys"
  \<comment> \<open>select\<close>
| cm_recv: "tType t = TOKEN_ARROW \<Longrightarrow> derives (ExprPhrase 0 c) xs ys \<Longrightarrow> derives (CommPhrase [] [] c None) (t # xs) ys"
| cm_recv_name: "derives (ExprPhrase 0 e) xs (d # t # ys) \<Longrightarrow> identName e = Some n \<Longrightarrow> tType d = TOKEN_DECLARE \<Longrightarrow>
    tType t = TOKEN_ARROW \<Longrightarrow> derives (ExprPhrase 0 c) ys zs \<Longrightarrow> derives (CommPhrase n [] c None) xs zs"
| cm_recv_ok: "derives (ExprPhrase 0 e) xs (q # ys) \<Longrightarrow> identName e = Some n \<Longrightarrow> tType q = TOKEN_COMMA \<Longrightarrow>
    derives (ExprPhrase 0 f) ys (d # t # zs) \<Longrightarrow> identName f = Some m \<Longrightarrow> tType d = TOKEN_DECLARE \<Longrightarrow> tType t = TOKEN_ARROW \<Longrightarrow>
    derives (ExprPhrase 0 c) zs ws \<Longrightarrow> derives (CommPhrase n m c None) xs ws"
| cm_send: "derives (ExprPhrase 0 c) xs (t # ys) \<Longrightarrow> tType t = TOKEN_ARROW \<Longrightarrow> derives (ExprPhrase 0 v) ys zs \<Longrightarrow>
    derives (CommPhrase [] [] c (Some v)) xs zs"
| cs_none: "derives (CasesPhrase [] None) xs xs"
| cs_semicolon: "tType t = TOKEN_SEMICOLON \<Longrightarrow> derives (CasesPhrase cs d) xs ys \<Longrightarrow> derives (CasesPhrase cs d) (t # xs) ys"
| cs_case: "tType t = TOKEN_IDENT \<Longrightarrow> tValue t = ''case'' \<Longrightarrow> derives (CommPhrase n m c v) xs (q # ys) \<Longrightarrow>
    tType q = TOKEN_COLON \<Longrightarrow> derives (StmtsPhrase ss) ys zs \<Longrightarrow> derives (CasesPhrase cs d) zs ws \<Longrightarrow>
    derives (CasesPhrase (SelectCase (tokenPos t) n m c v (BlockStmt (tokenPos t) ss) # cs) d) (t # xs) ws"
| cs_default: "tType t = TOKEN_IDENT \<Longrightarrow> tValue t = ''default'' \<Longrightarrow> tType q = TOKEN_COLON \<Longrightarrow>
    derives (StmtsPhrase ss) xs ys \<Longrightarrow> derives (CasesPhrase cs None) ys zs \<Longrightarrow>
    derives (CasesPhrase cs (Some (BlockStmt (tokenPos t) ss))) (t # q # xs) zs"

abbreviation gExpr :: "nat \<Rightarrow> Expr \<Rightarrow> Token list \<Rightarrow> Token list \<Rightarrow> bool" where
  "gExpr k e \<equiv> derives (ExprPhrase k e)"

abbreviation gStmt :: "Stmt \<Rightarrow> Token list \<Rightarrow> Token list \<Rightarrow> bool" where
  "gStmt st \<equiv> derives (StmtPhrase st)"

abbreviation gStmts :: "Stmt list \<Rightarrow> Token list \<Rightarrow> Token list \<Rightarrow> bool" where
  "gStmts sts \<equiv> derives (StmtsPhrase sts)"

abbreviation gBlock :: "BlockStmt \<Rightarrow> Token list \<Rightarrow> Token list \<Rightarrow> bool" where
  "gBlock b \<equiv> derives (BlockPhrase b)"

text \<open>A program: directives of its first token, then statements up to the end of the tokens.\<close>

definition gProgram :: "Program \<Rightarrow> Token list \<Rightarrow> bool" where
  "gProgram prog toks \<longleftrightarrow>
     prFileDirectives prog = parseFileDirectives (newParser toks) \<and>
     (\<exists>rst. gStmts (prStmts prog) toks rst \<and> (rst = [] \<or> tType (hd rst) = TOKEN_EOF))"

end
