(* ===== verification/Parser_Expr_Correct.thy ===== *)
theory Parser_Expr_Correct
  imports Grammar
begin

section \<open>The parser's contract, and expressions\<close>

text \<open>
  The contract of the four mutually recursive methods is the locale \<open>sub_parsers P B\<close>: on a
  state whose unread tokens weigh little enough for the bound \<open>B\<close>, a method does not run out
  of fuel, and when it succeeds the tokens it consumed derive the tree it returns and the
  next token cannot continue that tree. Inside the locale every method of the parser gets a
  rule of the same form; the last of them say that one more level of calls satisfies the
  contract with the next bound, which gives the interpretation on \<open>tie n\<close>.
\<close>

subsection \<open>Weakest preconditions\<close>

definition wp :: "'a pres \<Rightarrow> ('a \<Rightarrow> parser \<Rightarrow> bool) \<Rightarrow> bool" where
  "wp r Q = (case r of POk a s \<Rightarrow> Q a s | PErr e \<Rightarrow> True | PFuel \<Rightarrow> False)"

lemma wp_simps [simp]:
  "wp (POk a s) Q = Q a s" "wp (PErr e) Q" "\<not> wp PFuel Q" "wp (errorf m s) Q" "wp (posError p m) Q"
  by (simp_all add: wp_def errorf_def posError_def)

lemma wp_bindI: "wp r Q1 \<Longrightarrow> (\<And>a s. Q1 a s \<Longrightarrow> wp (f a s) Q) \<Longrightarrow> wp (pbind r f) Q"
  by (cases r) (auto simp: wp_def pbind_def)

lemma wp_mono: "wp r Q1 \<Longrightarrow> (\<And>a s. Q1 a s \<Longrightarrow> Q a s) \<Longrightarrow> wp r Q"
  by (auto simp: wp_def split: pres.splits)

lemma wpD: "wp r Q \<Longrightarrow> r = POk a s \<Longrightarrow> Q a s"
  by (simp add: wp_def)

lemma pbind_simps [simp]: "pbind (POk a s) f = f a s" "pbind (PErr e) f = PErr e" "pbind PFuel f = PFuel"
  by (simp_all add: pbind_def)

lemma pbind_assoc: "pbind (pbind r f) g = pbind r (\<lambda>a s. pbind (f a s) g)"
  by (cases r) simp_all

lemma pbind_if: "pbind (if c then r else r') f = (if c then pbind r f else pbind r' f)"
  by simp

lemma wp_ifI: "(c \<Longrightarrow> wp r Q) \<Longrightarrow> (\<not> c \<Longrightarrow> wp r' Q) \<Longrightarrow> wp (if c then r else r') Q"
  by simp

subsection \<open>The unread tokens\<close>

definition pending :: "parser \<Rightarrow> Token list" where
  "pending s = drop (ps_pos s) (ps_tokens s)"

definition weight :: "Token list \<Rightarrow> nat" where
  "weight xs = sumw tokenWeight xs"

abbreviation suppressed :: "parser \<Rightarrow> bool" where
  "suppressed s \<equiv> ps_suppressTaggedBlock s"

text \<open>The weight of a token beyond the one of every token: the text of a string.\<close>

definition textWeight :: "Token \<Rightarrow> nat" where
  "textWeight t = (if tType t = TOKEN_STRING \<or> tType t = TOKEN_RAW_BLOCK then length (tValue t) else 0)"

lemma weight_simps [simp]: "weight [] = 0" "weight (t # ts) = Suc (textWeight t + weight ts)"
  by (simp_all add: weight_def tokenWeight_def textWeight_def)

lemma textWeight_string:
  "tType t = TOKEN_STRING \<Longrightarrow> textWeight t = length (tValue t)"
  "tType t = TOKEN_RAW_BLOCK \<Longrightarrow> textWeight t = length (tValue t)"
  by (auto simp: textWeight_def)

lemma mu_pending: "mu s = weight (pending s)"
  by (simp add: mu_def pending_def weight_def)

lemma remaining_pending: "remaining s = length (pending s)"
  by (simp add: remaining_def pending_def)

lemma loopFuel_pending: "loopFuel s = Suc (length (pending s))"
  by (simp add: loopFuel_def remaining_pending)

lemma pending_newParser [simp]: "pending (newParser toks) = toks"
  by (simp add: pending_def newParser_def)

lemma pending_suppress [simp]: "pending (s\<lparr>ps_suppressTaggedBlock := b\<rparr>) = pending s"
  by (simp add: pending_def)

lemma suppressed_advance [simp]: "suppressed (advance s) = suppressed s"
  by (simp add: advance_def)

lemma pending_advance: "pending (advance s) = tl (pending s)"
  by (auto simp: pending_def advance_def tl_drop drop_Suc)

lemma peekAt_pending: "peekAt k s = (if k < length (pending s) then pending s ! k else eofToken)"
  by (auto simp: peekAt_def pending_def not_le)

lemma peek_pending: "peek s = (case pending s of [] \<Rightarrow> eofToken | t # ts \<Rightarrow> t)"
  by (auto simp: peek_def pending_def not_le drop_nth_Cons)

lemma tType_eofToken [simp]: "tType eofToken = TOKEN_EOF"
  by (simp add: eofToken_def)

lemma pending_peek: "tType (peek s) \<noteq> TOKEN_EOF \<Longrightarrow> pending s = peek s # pending (advance s)"
  by (cases "pending s") (simp_all add: peek_pending pending_advance)

lemma peek_advance: "tType (peek s) \<noteq> TOKEN_EOF \<Longrightarrow> peek (advance s) = peekAt 1 s"
proof -
  assume "tType (peek s) \<noteq> TOKEN_EOF"
  then obtain t where t: "pending s = t # pending (advance s)" by (metis pending_peek)
  show ?thesis by (cases "pending (advance s)") (simp_all add: peek_pending [of "advance s"] peekAt_pending t)
qed

lemma peekAt_advance: "tType (peek s) \<noteq> TOKEN_EOF \<Longrightarrow> peekAt k (advance s) = peekAt (Suc k) s"
  using pending_peek [of s] by (simp add: peekAt_pending)

lemma loopFuel_bound [simp]: "length (pending s) < loopFuel s"
  by (simp add: loopFuel_pending)

text \<open>Forward progress: tokens were consumed and the block flag is as before.\<close>

definition moved :: "parser \<Rightarrow> parser \<Rightarrow> bool" where
  "moved s s' \<longleftrightarrow> suppressed s' = suppressed s \<and> length (pending s') < length (pending s)
     \<and> weight (pending s') < weight (pending s)"

definition kept :: "parser \<Rightarrow> parser \<Rightarrow> bool" where
  "kept s s' \<longleftrightarrow> suppressed s' = suppressed s \<and> length (pending s') \<le> length (pending s)
     \<and> weight (pending s') \<le> weight (pending s)"

lemma moved_advance [simp]: "tType (peek s) \<noteq> TOKEN_EOF \<Longrightarrow> moved s (advance s)"
  using pending_peek [of s] by (simp add: moved_def)

lemma kept_refl [simp]: "kept s s"
  by (simp add: kept_def)

lemma moved_kept: "moved s s' \<Longrightarrow> kept s s'"
  by (simp add: kept_def moved_def)

lemma moved_trans: "moved s s' \<Longrightarrow> moved s' s'' \<Longrightarrow> moved s s''"
  by (simp add: moved_def)

lemma kept_moved: "kept s s' \<Longrightarrow> moved s' s'' \<Longrightarrow> moved s s''"
  by (simp add: moved_def kept_def)

lemma moved_kept_trans: "moved s s' \<Longrightarrow> kept s' s'' \<Longrightarrow> moved s s''"
  by (simp add: moved_def kept_def)

lemmas progress_defs = moved_def kept_def

text \<open>\<open>tok\<close>, of type \<open>t\<close>, is the token between the two states.\<close>

definition took :: "TokenType \<Rightarrow> Token \<Rightarrow> parser \<Rightarrow> parser \<Rightarrow> bool" where
  "took t tok s s' \<longleftrightarrow> tType tok = t \<and> moved s s' \<and> pending s = tok # pending s'"

lemma took_advance: "tType (peek s) = t \<Longrightarrow> t \<noteq> TOKEN_EOF \<Longrightarrow> took t (peek s) s (advance s)"
  by (auto simp: took_def pending_peek)

lemma took_check: "check t s \<Longrightarrow> t \<noteq> TOKEN_EOF \<Longrightarrow> took t (peek s) s (advance s)"
  by (simp add: took_advance check_def)

lemma took_second:
  "tType (peek s) \<noteq> TOKEN_EOF \<Longrightarrow> tType (peekAt 1 s) = t \<Longrightarrow> t \<noteq> TOKEN_EOF \<Longrightarrow>
   took t (peek (advance s)) (advance s) (advance (advance s))"
  by (rule took_advance) (simp_all add: peek_advance)

lemma took_moved: "took t tok s s' \<Longrightarrow> moved s s'"
  by (simp add: took_def)

lemma took_type: "took t tok s s' \<Longrightarrow> tType tok = t"
  by (simp add: took_def)

lemma took_pending: "took t tok s s' \<Longrightarrow> pending s = tok # pending s'"
  by (simp add: took_def)

lemma wp_expect: "t \<noteq> TOKEN_EOF \<Longrightarrow> wp (expect t s) (\<lambda>tok s'. took t tok s s')"
  by (auto simp: expect_def Let_def took_advance)

lemmas bind_expect = wp_bindI [OF wp_expect]

lemma skipSemicolons_unfold:
  "check TOKEN_SEMICOLON s \<Longrightarrow> skipSemicolons s = skipSemicolons (advance s)"
  "\<not> check TOKEN_SEMICOLON s \<Longrightarrow> skipSemicolons s = s"
  by (subst skipSemicolons.simps, simp)+

text \<open>A relation on token lists that is closed under putting semicolons in front.\<close>

lemma skipSemicolons_closed:
  assumes "\<And>t xs. tType t = TOKEN_SEMICOLON \<Longrightarrow> R xs \<Longrightarrow> R (t # xs)" and "R (pending (skipSemicolons s))"
  shows "R (pending s)"
  using assms(2)
proof (induction s rule: skipSemicolons.induct)
  case (1 s)
  show ?case
  proof (cases "check TOKEN_SEMICOLON s")
    case True
    then have "pending s = peek s # pending (advance s)" "tType (peek s) = TOKEN_SEMICOLON"
      by (auto simp: check_def pending_peek)
    with 1 True show ?thesis by (metis assms(1) skipSemicolons_unfold(1))
  next
    case False
    with 1 show ?thesis by (simp add: skipSemicolons_unfold)
  qed
qed

lemma skipSemicolons_kept: "kept s (skipSemicolons s)"
proof (induction s rule: skipSemicolons.induct)
  case (1 s)
  show ?case
  proof (cases "check TOKEN_SEMICOLON s")
    case True
    with 1 have "kept (advance s) (skipSemicolons s)" by (simp add: skipSemicolons_unfold)
    moreover have "moved s (advance s)" using True by (simp add: check_def)
    ultimately show ?thesis by (simp add: progress_defs)
  next
    case False
    then show ?thesis by (simp add: skipSemicolons_unfold)
  qed
qed

lemma skipSeparator_gSep: "kept s (skipSeparator s) \<and> gSep (pending s) (pending (skipSeparator s))"
proof (cases "check TOKEN_COMMA s \<or> check TOKEN_SEMICOLON s")
  case True
  then have "tType (peek s) \<noteq> TOKEN_EOF" by (auto simp: check_def)
  then have "moved s (advance s)" "pending s = peek s # pending (advance s)"
    by (simp_all add: pending_peek)
  with True show ?thesis
    by (auto simp: skipSeparator_def gSep_def check_def moved_kept)
qed (simp add: skipSeparator_def gSep_def)

subsection \<open>What may follow an expression\<close>

fun joinsAt :: "nat \<Rightarrow> TokenType list" where
  "joinsAt k = (if k = 4 then [TOKEN_CONCAT] else if k = 8 then [TOKEN_POW]
     else if k = 9 then [TOKEN_DOT, TOKEN_LBRACKET, TOKEN_LPAREN] else levelOps k)"

declare joinsAt.simps [simp del]

text \<open>The tokens that would have continued an expression of level \<open>k\<close>.\<close>

definition stops :: "nat \<Rightarrow> TokenType set" where
  "stops k = set (concat (map joinsAt [k..<10]))"

lemma stops_Suc: "k < 10 \<Longrightarrow> stops k = set (joinsAt k) \<union> stops (Suc k)"
  by (simp add: stops_def upt_conv_Cons)

lemma power_stops: "k \<le> 8 \<Longrightarrow> TOKEN_POW \<in> stops k"
  by (auto simp: stops_def joinsAt.simps intro!: bexI [of _ 8])

definition exprDone :: "nat \<Rightarrow> parser \<Rightarrow> Expr \<Rightarrow> parser \<Rightarrow> bool" where
  "exprDone k s e s' \<longleftrightarrow> moved s s' \<and> gExpr k e (pending s) (pending s') \<and> tType (peek s') \<notin> stops k"

definition simpleDone :: "parser \<Rightarrow> Stmt \<Rightarrow> parser \<Rightarrow> bool" where
  "simpleDone s st s' \<longleftrightarrow> moved s s' \<and> derives (SimplePhrase st) (pending s) (pending s')"

definition stmtDone :: "parser \<Rightarrow> Stmt \<Rightarrow> parser \<Rightarrow> bool" where
  "stmtDone s st s' \<longleftrightarrow> moved s s' \<and> gStmt st (pending s) (pending s')"

lemma gExpr_level: "gExpr j e xs ys \<Longrightarrow> k \<le> j \<Longrightarrow> gExpr k e xs ys"
proof (induction "j - k" arbitrary: j)
  case (Suc n)
  then obtain i where "j = Suc i" by (cases j) auto
  with Suc show ?case by (metis derives.e_up Suc_diff_le diff_Suc_Suc le_Suc_eq Suc_inject diff_is_0_eq Suc_leI)
qed simp

subsection \<open>Parameters, imports and names\<close>

lemmas token_tests = check_def isAtEnd_def matchAny_def checkIdent_def

lemma wp_funcParamsLoop:
  "length (pending s) < n \<Longrightarrow>
   wp (funcParamsLoop n ps s) (\<lambda>qs s'. moved s s' \<and> (\<exists>rs. qs = ps @ rs \<and> gParamList rs (pending s) (pending s')))"
proof (induction n arbitrary: ps s)
  case (Suc n)
  have loop: "wp (funcParamsLoop n (ps @ [\<lparr>fpName = tValue a, fpIsVarArg = False\<rparr>]) (advance s'))
      (\<lambda>qs s''. moved s s'' \<and> (\<exists>rs. qs = ps @ rs \<and> gParamList rs (pending s) (pending s'')))"
    if "took TOKEN_IDENT a s s'" "check TOKEN_COMMA s'" for a s'
  proof -
    note t = that(1) took_check [OF that(2)]
    then have "length (pending (advance s')) < n" using Suc.prems by (simp add: took_def progress_defs)
    from Suc.IH [OF this] show ?thesis
      by (rule wp_mono) (use t in \<open>auto simp: took_def progress_defs intro: gParamList.further\<close>)
  qed
  have named: "moved s (advance s') \<and> gParamList [\<lparr>fpName = tValue a, fpIsVarArg = True\<rparr>] (pending s) (pending (advance s'))"
    if "took TOKEN_IDENT a s s'" "check TOKEN_ELLIPSIS s'" for a s'
    using that(1) took_check [OF that(2)] by (simp add: took_def progress_defs gParamList.vararg)
  have bare: "moved s (advance s) \<and> gParamList [\<lparr>fpName = ''...'', fpIsVarArg = True\<rparr>] (pending s) (pending (advance s))"
    if "check TOKEN_ELLIPSIS s"
    using took_check [OF that] by (simp add: took_def gParamList.bare)
  have single: "moved s s' \<and> gParamList [\<lparr>fpName = tValue a, fpIsVarArg = False\<rparr>] (pending s) (pending s')"
    if "took TOKEN_IDENT a s s'" for a s'
    using that by (simp add: took_def gParamList.single)
  show ?case
    by (auto simp: Let_def bare named single intro!: bind_expect loop)
qed simp

lemma wp_parseFuncParams:
  "wp (parseFuncParams s) (\<lambda>ps s'. moved s s' \<and> gParams ps (pending s) (pending s'))"
  unfolding parseFuncParams_def
proof (rule bind_expect, simp)
  fix l s1 assume l: "took TOKEN_LPAREN l s s1"
  show "wp (pbind (if check TOKEN_RPAREN s1 then POk [] s1 else funcParamsLoop (loopFuel s1) [] s1)
        (\<lambda>ps s. pbind (expect TOKEN_RPAREN s) (\<lambda>_. POk ps)))
     (\<lambda>ps s'. moved s s' \<and> gParams ps (pending s) (pending s'))"
  proof (cases "check TOKEN_RPAREN s1")
    case True
    with l show ?thesis
      by (auto simp: took_def progress_defs intro!: bind_expect gParams.none)
  next
    case False
    with l show ?thesis
      by (auto simp: took_def progress_defs intro!: bind_expect wp_bindI [OF wp_funcParamsLoop] gParams.some)
  qed
qed

lemma wp_constNames:
  "length (pending s) < n \<Longrightarrow>
   wp (constNames n ns s) (\<lambda>ms s'. moved s s' \<and> (\<exists>rs. ms = ns @ rs \<and> gNames rs (pending s) (pending s')))"
proof (induction n arbitrary: ns s)
  case (Suc n)
  have loop: "wp (constNames n (ns @ [tValue a]) (advance s'))
      (\<lambda>ms s''. moved s s'' \<and> (\<exists>rs. ms = ns @ rs \<and> gNames rs (pending s) (pending s'')))"
    if "took TOKEN_IDENT a s s'" "check TOKEN_COMMA s'" for a s'
  proof -
    note t = that(1) took_check [OF that(2)]
    then have "length (pending (advance s')) < n" using Suc.prems by (simp add: took_def progress_defs)
    from Suc.IH [OF this] show ?thesis
      by (rule wp_mono) (use t in \<open>auto simp: took_def progress_defs intro: gNames.further\<close>)
  qed
  have single: "moved s s' \<and> gNames [tValue a] (pending s) (pending s')" if "took TOKEN_IDENT a s s'" for a s'
    using that by (simp add: took_def gNames.single)
  show ?case
    by (auto simp: single intro!: bind_expect loop)
qed simp

lemma wp_parseImportSpec:
  "wp (parseImportSpec pos s) (\<lambda>st s'. moved s s' \<and> gImportSpec pos st (pending s) (pending s'))"
proof -
  define spec where "spec r \<longleftrightarrow> wp r (\<lambda>(al, p) s'. moved s s' \<and>
      (al \<noteq> [] \<longrightarrow> gImportSpec pos (importStmt pos al p) (pending s) (pending s')))"
    for r :: "(bytes \<times> Token) pres"
  have "spec (if check TOKEN_STRING s
            then let pathTok = peek s; s = advance s in
              if checkIdent ''as'' s
              then pbind (expect TOKEN_IDENT (advance s)) (\<lambda>aliasTok s. POk (tValue aliasTok, pathTok) s)
              else POk (defaultImportAlias (tValue pathTok), pathTok) s
            else pbind (expect TOKEN_IDENT s) (\<lambda>aliasTok s.
                 pbind (expect TOKEN_STRING s) (\<lambda>pathTok s. POk (tValue aliasTok, pathTok) s)))"
  proof (cases "check TOKEN_STRING s")
    case True
    note p = took_check [OF True]
    show ?thesis
    proof (cases "checkIdent ''as'' (advance s)")
      case q: True
      then have "took TOKEN_IDENT (peek (advance s)) (advance s) (advance (advance s))"
        by (simp add: checkIdent_def took_advance)
      with p q True show ?thesis
        by (auto simp: spec_def checkIdent_def took_def progress_defs intro!: bind_expect gImportSpec.renamed)
    next
      case False
      with p True show ?thesis
        by (auto simp: spec_def Let_def took_def progress_defs intro!: gImportSpec.inferred)
    qed
  next
    case False
    then show ?thesis
      by (auto simp: spec_def took_def progress_defs intro!: bind_expect gImportSpec.named)
  qed
  note alias_rule = wp_bindI [OF this [unfolded spec_def]]
  show ?thesis
    unfolding parseImportSpec_def by (rule alias_rule) (auto simp: importStmt_def)
qed

lemma wp_importLoop:
  "length (pending s) < n \<Longrightarrow>
   wp (importLoop pos n acc s) (\<lambda>sts s'. kept s s' \<and> (\<exists>rs. sts = acc @ rs \<and> gImports pos rs (pending s) (pending s')))"
proof (induction n arbitrary: acc s)
  case (Suc n)
  let ?s = "skipSemicolons s"
  have close: "gImports pos rs (pending s) ys" if "gImports pos rs (pending ?s) ys" for rs ys
    using that by (rule skipSemicolons_closed [rotated]) (rule gImports.semicolon)
  have k: "kept s ?s" by (rule skipSemicolons_kept)
  have loop: "wp (importLoop pos n (acc @ [st]) (skipSeparator s1))
      (\<lambda>sts s'. kept s s' \<and> (\<exists>rs. sts = acc @ rs \<and> gImports pos rs (pending s) (pending s')))"
    if "moved ?s s1 \<and> gImportSpec pos st (pending ?s) (pending s1)" for st s1
  proof -
    note sep = skipSeparator_gSep [of s1]
    then have "length (pending (skipSeparator s1)) < n" using Suc.prems that k by (simp add: progress_defs)
    from Suc.IH [OF this] show ?thesis
      by (rule wp_mono) (use that sep k in \<open>auto simp: progress_defs intro!: close intro: gImports.spec\<close>)
  qed
  show ?case
    using k by (auto simp: Let_def intro!: close gImports.nil wp_bindI [OF wp_parseImportSpec] loop)
qed simp

lemma wp_denseLength:
  "wp (denseLength s) (\<lambda>n s'. kept s s' \<and> gDenseLen n (pending s) (pending s'))"
  by (auto simp: denseLength_def token_tests Let_def pending_peek moved_kept intro: gDenseLen.intros split: option.splits)

subsection \<open>The contract\<close>

locale sub_parsers =
  fixes P :: parsers and B :: nat
  assumes sub_unary: "4 * weight (pending s) < B \<Longrightarrow> wp (pUnary P s) (exprDone 7 s)"
    and sub_concat: "4 * weight (pending s) + 1 < B \<Longrightarrow> wp (pConcat P s) (exprDone 4 s)"
    and sub_expr: "4 * weight (pending s) + 2 < B \<Longrightarrow> wp (pExpr P s) (exprDone 0 s)"
    and sub_stmt: "4 * weight (pending s) + 3 < B \<Longrightarrow> wp (pStmt P s) (stmtDone s)"
begin

lemmas bind_unary = wp_bindI [OF sub_unary]
lemmas bind_concat = wp_bindI [OF sub_concat]
lemmas bind_expr = wp_bindI [OF sub_expr]
lemmas bind_stmt = wp_bindI [OF sub_stmt]

text \<open>Lists of expressions and blocks.\<close>

lemma wp_commaExprs:
  "length (pending s) < n \<Longrightarrow> 4 * weight (pending s) + 2 < B \<Longrightarrow>
   wp (commaExprs P n acc s) (\<lambda>es s'. moved s s' \<and>
     (\<exists>rs. es = acc @ rs \<and> derives (ExprsPhrase rs) (pending s) (pending s')))"
proof (induction n arbitrary: acc s)
  case (Suc n)
  have loop: "wp (commaExprs P n (acc @ [e]) (advance s'))
      (\<lambda>es s''. moved s s'' \<and> (\<exists>rs. es = acc @ rs \<and> derives (ExprsPhrase rs) (pending s) (pending s'')))"
    if "exprDone 0 s e s'" "check TOKEN_COMMA s'" for e s'
  proof -
    note t = that(1) [unfolded exprDone_def] took_check [OF that(2)]
    then have "length (pending (advance s')) < n" "4 * weight (pending (advance s')) + 2 < B"
      using Suc.prems by (auto simp: took_def progress_defs)
    from Suc.IH [OF this] show ?thesis
      by (rule wp_mono) (use t in \<open>auto simp: took_def progress_defs intro: derives.es_more\<close>)
  qed
  have one: "moved s s' \<and> derives (ExprsPhrase [e]) (pending s) (pending s')" if "exprDone 0 s e s'" for e s'
    using that by (simp add: exprDone_def derives.es_one)
  show ?case
    using Suc.prems(2) by (auto simp: one intro!: bind_expr loop)
qed simp

lemma wp_parseExprList:
  "4 * weight (pending s) + 2 < B \<Longrightarrow>
   wp (parseExprList P s) (\<lambda>es s'. moved s s' \<and> derives (ExprsPhrase es) (pending s) (pending s'))"
  unfolding parseExprList_def by (rule wp_mono [OF wp_commaExprs]) auto

lemma wp_parseArgList:
  "4 * weight (pending s) + 2 < B \<Longrightarrow>
   wp (parseArgList P s) (\<lambda>es s'. kept s s' \<and> derives (ArgsPhrase es) (pending s) (pending s'))"
  unfolding parseArgList_def
  by (auto simp: derives.args_none intro!: wp_mono [OF wp_commaExprs] intro: derives.args_some moved_kept)

lemma wp_parseExprBeforeBlock:
  "4 * weight (pending s) + 2 < B \<Longrightarrow> wp (parseExprBeforeBlock P s) (exprDone 0 s)"
  unfolding parseExprBeforeBlock_def
  by (rule bind_expr) (auto simp: exprDone_def progress_defs peek_def)

lemma wp_blockLoop:
  "length (pending s) < n \<Longrightarrow> 4 * weight (pending s) + 3 < B \<Longrightarrow>
   wp (blockLoop P n acc s) (\<lambda>sts s'. kept s s' \<and> (\<exists>rs. sts = acc @ rs \<and> gStmts rs (pending s) (pending s')))"
proof (induction n arbitrary: acc s)
  case (Suc n)
  let ?s = "skipSemicolons s"
  have close: "gStmts rs (pending s) ys" if "gStmts rs (pending ?s) ys" for rs ys
    using that by (rule skipSemicolons_closed [rotated]) (rule derives.ss_semicolon)
  have k: "kept s ?s" by (rule skipSemicolons_kept)
  have loop: "wp (blockLoop P n (acc @ [st]) s1)
      (\<lambda>sts s'. kept s s' \<and> (\<exists>rs. sts = acc @ rs \<and> gStmts rs (pending s) (pending s')))"
    if "stmtDone ?s st s1" for st s1
  proof -
    have "length (pending s1) < n" "4 * weight (pending s1) + 3 < B"
      using Suc.prems that k by (auto simp: stmtDone_def progress_defs)
    from Suc.IH [OF this] show ?thesis
      by (rule wp_mono) (use that k in \<open>auto simp: stmtDone_def progress_defs intro!: close intro: derives.ss_more\<close>)
  qed
  have fuel: "4 * weight (pending ?s) + 3 < B" using Suc.prems(2) k by (simp add: kept_def)
  show ?case
    using k fuel by (auto simp: Let_def intro!: close derives.ss_none bind_stmt loop)
qed simp

lemma wp_parseBlock:
  "4 * weight (pending s) < B \<Longrightarrow>
   wp (parseBlock P s) (\<lambda>b s'. moved s s' \<and> gBlock b (pending s) (pending s'))"
  unfolding parseBlock_def
  by (auto simp: took_def progress_defs intro!: bind_expect wp_bindI [OF wp_blockLoop] derives.b_block)

lemmas bind_block = wp_bindI [OF wp_parseBlock]

lemma wp_parseFuncLitExpr:
  assumes "tType (peek s) = TOKEN_FUNC" "4 * weight (pending s) \<le> B"
  shows "wp (parseFuncLitExpr P s) (\<lambda>e s'. moved s s' \<and> gExpr 10 e (pending s) (pending s'))"
  using took_advance [OF assms(1)] assms(2) unfolding parseFuncLitExpr_def Let_def
  by (auto simp: took_def progress_defs intro!: wp_bindI [OF wp_parseFuncParams] bind_block derives.e_func)

end

text \<open>Left associative levels, for any parser of the operands.\<close>

lemma wp_binaryLoop:
  assumes operand: "\<And>s. 4 * weight (pending s) + d < B \<Longrightarrow> wp (operand s) (exprDone (Suc k) s)"
    and k: "k < 10" "levelOps k \<noteq> []" "joinsAt k = levelOps k" "TOKEN_EOF \<notin> set (levelOps k)"
  shows "length (pending s) < n \<Longrightarrow> 4 * weight (pending s) + d < B \<Longrightarrow> moved s0 s \<Longrightarrow>
    gExpr k left (pending s0) (pending s) \<Longrightarrow> tType (peek s) \<notin> stops (Suc k) \<Longrightarrow>
    wp (binaryLoop (levelOps k) operand n left s) (exprDone k s0)"
proof (induction n arbitrary: left s)
  case (Suc n)
  show ?case
  proof (cases "matchAny (levelOps k) s")
    case True
    then have op: "tType (peek s) \<in> set (levelOps k)" by (simp add: matchAny_def)
    with k(4) have t: "took (tType (peek s)) (peek s) s (advance s)"
      by (intro took_advance) auto
    have "wp (binaryLoop (levelOps k) operand n (BinaryExpr (tokenPos (peek s)) left (tValue (peek s)) r) s1) (exprDone k s0)"
      if r: "exprDone (Suc k) (advance s) r s1" for r s1
    proof (rule Suc.IH)
      show "gExpr k (BinaryExpr (tokenPos (peek s)) left (tValue (peek s)) r) (pending s0) (pending s1)"
        using Suc.prems(4) op r t by (auto simp: took_def exprDone_def intro: derives.e_binary)
    qed (use Suc.prems r t in \<open>auto simp: took_def exprDone_def progress_defs\<close>)
    with True Suc.prems(2) t show ?thesis
      by (auto simp: Let_def took_def progress_defs intro!: wp_bindI [OF operand])
  next
    case False
    with Suc.prems show ?thesis
      by (auto simp: matchAny_def exprDone_def stops_Suc [OF k(1)] k(3))
  qed
qed simp

lemma wp_binaryLevel:
  assumes operand: "\<And>s. 4 * weight (pending s) + d < B \<Longrightarrow> wp (operand s) (exprDone (Suc k) s)"
    and k: "k < 10" "levelOps k \<noteq> []" "joinsAt k = levelOps k" "TOKEN_EOF \<notin> set (levelOps k)"
    and fuel: "4 * weight (pending s) + d < B"
  shows "wp (binaryLevel (levelOps k) operand s) (exprDone k s)"
  unfolding binaryLevel_def
proof (rule wp_bindI [OF operand])
  fix e s1 assume e: "exprDone (Suc k) s e s1"
  show "wp (binaryLoop (levelOps k) operand (loopFuel s1) e s1) (exprDone k s)"
    by (rule wp_binaryLoop [OF operand k]) (use e fuel in \<open>auto simp: exprDone_def progress_defs intro: derives.e_up\<close>)
qed (fact fuel)

lemma levelOps_levels [simp]:
  "levelOps 1 = orOps" "levelOps (Suc 0) = orOps" "levelOps 2 = andOps" "levelOps 3 = comparisonOps"
  "levelOps 5 = additiveOps" "levelOps 6 = multiplicativeOps"
  by (simp_all add: levelOps.simps)

lemma joinsAt_levels [simp]:
  "joinsAt 0 = []" "joinsAt 1 = orOps" "joinsAt (Suc 0) = orOps" "joinsAt 2 = andOps" "joinsAt 3 = comparisonOps"
  "joinsAt 4 = [TOKEN_CONCAT]" "joinsAt 5 = additiveOps" "joinsAt 6 = multiplicativeOps" "joinsAt 7 = []"
  "joinsAt 8 = [TOKEN_POW]" "joinsAt 9 = [TOKEN_DOT, TOKEN_LBRACKET, TOKEN_LPAREN]"
  by (simp_all add: joinsAt.simps levelOps.simps)

lemmas ops_defs = orOps_def andOps_def comparisonOps_def additiveOps_def multiplicativeOps_def unaryOps_def

lemmas wp_level = wp_binaryLevel [unfolded One_nat_def]

lemma stops_10: "stops 10 = {}"
  by (simp add: stops_def)

lemma stops_levels:
  "stops 0 = stops 1" "stops 4 = insert TOKEN_CONCAT (stops 5)" "stops 7 = stops 8"
  "stops 8 = insert TOKEN_POW (stops 9)" "stops 9 = {TOKEN_DOT, TOKEN_LBRACKET, TOKEN_LPAREN}"
  using stops_Suc [of 0] stops_Suc [of 4] stops_Suc [of 7] stops_Suc [of 8] stops_Suc [of 9]
  by (auto simp: stops_10)

lemma exprDone_0: "exprDone 1 s e s' \<Longrightarrow> exprDone 0 s e s'"
  by (simp add: exprDone_def stops_levels derives.e_up)

context sub_parsers
begin

text \<open>Operators.\<close>

lemma wp_parseMultiplicative:
  "4 * weight (pending s) < B \<Longrightarrow> wp (parseMultiplicative P s) (exprDone 6 s)"
  using wp_binaryLevel [of 0 B "pUnary P" 6 s] sub_unary
  by (simp add: parseMultiplicative_def ops_defs)

lemma wp_parseAdditive:
  "4 * weight (pending s) < B \<Longrightarrow> wp (parseAdditive P s) (exprDone 5 s)"
  using wp_binaryLevel [of 0 B "parseMultiplicative P" 5 s] wp_parseMultiplicative
  by (simp add: parseAdditive_def ops_defs)

lemma wp_parseComparison:
  "4 * weight (pending s) + 1 < B \<Longrightarrow> wp (parseComparison P s) (exprDone 3 s)"
  using wp_binaryLevel [of 1 B "pConcat P" 3 s] sub_concat
  by (simp add: parseComparison_def ops_defs)

lemma wp_parseAnd:
  "4 * weight (pending s) + 1 < B \<Longrightarrow> wp (parseAnd P s) (exprDone 2 s)"
  using wp_binaryLevel [of 1 B "parseComparison P" 2 s] wp_parseComparison
  by (simp add: parseAnd_def ops_defs)

lemma wp_parseOr:
  "4 * weight (pending s) + 1 < B \<Longrightarrow> wp (parseOr P s) (exprDone 1 s)"
  using wp_binaryLevel [of 1 B "parseAnd P" 1 s] wp_parseAnd
  by (simp add: parseOr_def ops_defs numeral_2_eq_2)

lemma step_expr: "4 * weight (pending s) + 2 < Suc B \<Longrightarrow> wp (parseExpr P s) (exprDone 0 s)"
  unfolding parseExpr_def by (rule wp_mono [OF wp_parseOr exprDone_0]) simp_all

lemma step_concat:
  assumes "4 * weight (pending s) + 1 < Suc B"
  shows "wp (parseConcat P s) (exprDone 4 s)"
  unfolding parseConcat_def
proof (rule wp_bindI [OF wp_parseAdditive])
  fix l s1 assume l: "exprDone 5 s l s1"
  show "wp (if check TOKEN_CONCAT s1
            then let opTok = peek s1 in pbind (pConcat P (advance s1)) (\<lambda>r. POk (BinaryExpr (tokenPos opTok) l (tValue opTok) r))
            else POk l s1) (exprDone 4 s)"
  proof (cases "check TOKEN_CONCAT s1")
    case True
    note t = took_check [OF True]
    have "exprDone 4 s (BinaryExpr (tokenPos (peek s1)) l (tValue (peek s1)) r) s2"
      if "exprDone 4 (advance s1) r s2" for r s2
      using l t that by (auto simp: exprDone_def took_def progress_defs intro!: derives.e_concat)
    with True t l assms show ?thesis
      by (auto simp: Let_def exprDone_def took_def progress_defs intro!: bind_concat)
  next
    case False
    with l show ?thesis
      by (auto simp: exprDone_def stops_levels check_def intro: gExpr_level)
  qed
qed (use assms in simp)

text \<open>Interpolated strings: a string of length \<open>n\<close> needs a bound of \<open>4 * n\<close>.\<close>

lemma wp_parseInterpolation:
  assumes "4 * length src + 6 < B"
  shows "wp (parseInterpolation P pos src s) (\<lambda>e s'. s' = s \<and>
     (\<exists>toks rst. Tokenize src = Inr toks \<and> gExpr 0 e toks rst \<and> onlySemicolonsOrEOF rst))"
proof (cases "Tokenize src")
  case (Inr toks)
  from covers_weight [OF Tokenize_covers [OF Inr]] have "weight toks \<le> Suc (length src)"
    by (simp add: weight_def)
  then have "wp (pExpr P (newParser toks)) (exprDone 0 (newParser toks))"
    using assms by (intro sub_expr) simp
  with Inr show ?thesis
    by (auto simp: parseInterpolation_def wp_def posError_def exprDone_def onlySemicolonsOrEOFRemain_def
          pending_def [symmetric] split: pres.splits)
qed (simp add: parseInterpolation_def)

lemma wp_interpolationLoop:
  "4 * length v \<le> B \<Longrightarrow>
   wp (interpolationLoop P pos parts v s) (\<lambda>ps s'. s' = s \<and> (\<exists>qs. ps = parts @ qs \<and> derives (PartsPhrase v qs) [] []))"
proof (induction "length v" arbitrary: v parts rule: less_induct)
  case less
  show ?case
  proof (cases "v = []")
    case True
    then show ?thesis by (simp add: interpolationLoop.simps derives.p_none)
  next
    case v: False
    show ?thesis
    proof (cases "indexOf v ''${''")
      case None
      with v show ?thesis
        by (subst interpolationLoop.simps) (simp add: derives.p_text contains_def)
    next
      case a: (Some a)
      show ?thesis
      proof (cases "scanInterpolationEnd v (a + 2)")
        case None
        with v a show ?thesis by (subst interpolationLoop.simps) simp
      next
        case b: (Some b)
        note ab = scanInterpolationEnd_bound [OF b]
        let ?src = "trimSpace (slice v (a + 2) b)"
        have "length ?src \<le> b - (a + 2)" using length_trimSpace [of "slice v (a + 2) b"] ab by simp
        then have fuel: "4 * length ?src + 6 < B" using ab less.prems by auto
        let ?ps = "if 0 < a then parts @ [InterpolatedStringPart (take a v) None] else parts"
        have step: "wp (interpolationLoop P pos (?ps @ [InterpolatedStringPart [] (Some e)]) (drop (Suc b) v) s)
               (\<lambda>ps s'. s' = s \<and> (\<exists>qs. ps = parts @ qs \<and> derives (PartsPhrase v qs) [] []))"
          if e: "Tokenize ?src = Inr toks" "gExpr 0 e toks rst" "onlySemicolonsOrEOF rst" for e toks rst
        proof -
          have "length (drop (Suc b) v) < length v" "4 * length (drop (Suc b) v) \<le> B"
            using ab less.prems by auto
          then show ?thesis
            by (rule wp_mono [OF less.hyps]) (use derives.p_expr [OF a b e] in \<open>auto split: if_splits\<close>)
        qed
        have "interpolationLoop P pos parts v s = pbind (parseInterpolation P pos ?src s)
            (\<lambda>e s. interpolationLoop P pos (?ps @ [InterpolatedStringPart [] (Some e)]) (drop (Suc b) v) s)"
          using v a b by (subst interpolationLoop.simps) (simp add: Let_def)
        then show ?thesis
          by (simp only:) (rule wp_bindI [OF wp_parseInterpolation [OF fuel]], elim conjE exE, hypsubst, rule step)
      qed
    qed
  qed
qed

lemma wp_interpolatedStringExpr:
  "4 * length v \<le> B \<Longrightarrow>
   wp (interpolatedStringExpr P pos v s) (\<lambda>e s'. s' = s \<and> derives (StringPhrase pos v e) [] [])"
  unfolding interpolatedStringExpr_def parseInterpolatedStringParts_def
  by (auto simp: derives.s_plain intro!: wp_bindI [OF wp_interpolationLoop] derives.s_parts)

text \<open>Tagged forms and literals, from the state at their first token.\<close>

lemma wp_parseConfigField:
  assumes "4 * weight (pending s) \<le> B"
  shows "wp (parseConfigField P s) (\<lambda>c s'. moved s s' \<and> derives (ConfigFieldPhrase c) (pending s) (pending s'))"
proof (cases "(check TOKEN_IDENT s \<or> check TOKEN_STRING s) \<and> tType (peekAt 1 s) = TOKEN_COLON")
  case True
  then have k: "tType (peek s) \<in> {TOKEN_IDENT, TOKEN_STRING}" by (auto simp: check_def)
  then have t: "took (tType (peek s)) (peek s) s (advance s)" by (intro took_advance) auto
  have c: "took TOKEN_COLON (peek (advance s)) (advance s) (advance (advance s))"
    by (rule took_second) (use k True in auto)
  from t c have p: "pending s = peek s # peek (advance s) # pending (advance (advance s))" "tType (peek (advance s)) = TOKEN_COLON"
    "moved s (advance (advance s))" by (auto simp: took_def progress_defs)
  then have "4 * weight (pending (advance (advance s))) + 2 < B" using assms by auto
  then show ?thesis
    using True k p unfolding parseConfigField_def Let_def
    by (auto simp: exprDone_def progress_defs intro!: bind_expr derives.cf_named)
next
  case named: False
  show ?thesis
  proof (cases "check TOKEN_LBRACKET s")
    case True
    with took_check [OF True] assms show ?thesis
      unfolding parseConfigField_def
      by (auto simp: exprDone_def took_def progress_defs check_def
            intro!: bind_expr bind_expect derives.cf_computed)
  next
    case False
    then show ?thesis unfolding parseConfigField_def if_not_P [OF named] by simp
  qed
qed

lemma wp_configLoop:
  "length (pending s) < n \<Longrightarrow> 4 * weight (pending s) \<le> B \<Longrightarrow>
   wp (configLoop P n acc s) (\<lambda>cs s'. kept s s' \<and> (\<exists>rs. cs = acc @ rs \<and> derives (ConfigPhrase rs) (pending s) (pending s')))"
proof (induction n arbitrary: acc s)
  case (Suc n)
  let ?s = "skipSemicolons s"
  have close: "derives (ConfigPhrase rs) (pending s) ys" if "derives (ConfigPhrase rs) (pending ?s) ys" for rs ys
    using that by (rule skipSemicolons_closed [rotated]) (rule derives.c_semicolon)
  have k: "kept s ?s" by (rule skipSemicolons_kept)
  have loop: "wp (configLoop P n (acc @ [c]) (skipSeparator s1))
      (\<lambda>cs s'. kept s s' \<and> (\<exists>rs. cs = acc @ rs \<and> derives (ConfigPhrase rs) (pending s) (pending s')))"
    if "moved ?s s1 \<and> derives (ConfigFieldPhrase c) (pending ?s) (pending s1)" for c s1
  proof -
    note sep = skipSeparator_gSep [of s1]
    then have "length (pending (skipSeparator s1)) < n" "4 * weight (pending (skipSeparator s1)) \<le> B"
      using Suc.prems that k by (auto simp: progress_defs)
    from Suc.IH [OF this] show ?thesis
      by (rule wp_mono) (use that sep k in \<open>auto simp: progress_defs intro!: close intro: derives.c_more\<close>)
  qed
  have fuel: "4 * weight (pending ?s) \<le> B" using Suc.prems(2) k by (simp add: kept_def)
  show ?case
    using k fuel by (auto simp: Let_def intro!: close derives.c_none wp_bindI [OF wp_parseConfigField] loop)
qed simp

lemma wp_parseConfigBlock:
  "4 * weight (pending s) \<le> B \<Longrightarrow>
   wp (parseConfigBlock P s) (\<lambda>cs s'. moved s s' \<and> (\<exists>l r xs. pending s = l # xs \<and> tType l = TOKEN_LBRACE
     \<and> derives (ConfigPhrase cs) xs (r # pending s') \<and> tType r = TOKEN_RBRACE))"
  unfolding parseConfigBlock_def
  by (auto simp: took_def progress_defs intro!: bind_expect wp_bindI [OF wp_configLoop])

lemma wp_literalValues:
  "length (pending s) < n \<Longrightarrow> 4 * weight (pending s) + 2 < B \<Longrightarrow> q \<noteq> TOKEN_EOF \<Longrightarrow>
   wp (literalValues P q n acc s) (\<lambda>es s'. kept s s' \<and> (\<exists>rs. es = acc @ rs \<and>
     (\<forall>c ys. pending s' = c # ys \<longrightarrow> tType c = q \<longrightarrow> derives (ValuesPhrase q rs) (pending s) ys)))"
proof (induction n arbitrary: acc s)
  case (Suc n)
  have loop: "wp (literalValues P q n (acc @ [e]) (advance s1))
      (\<lambda>es s'. kept s s' \<and> (\<exists>rs. es = acc @ rs \<and>
        (\<forall>c ys. pending s' = c # ys \<longrightarrow> tType c = q \<longrightarrow> derives (ValuesPhrase q rs) (pending s) ys)))"
    if e: "exprDone 0 s e s1" and t: "took d (peek s1) s1 (advance s1)" "d \<in> {TOKEN_COMMA, TOKEN_SEMICOLON}" for e s1 d
  proof -
    have "length (pending (advance s1)) < n" "4 * weight (pending (advance s1)) + 2 < B"
      using Suc.prems e t by (auto simp: took_def exprDone_def progress_defs)
    from Suc.IH [OF this Suc.prems(3)] show ?thesis
    proof (rule wp_mono)
      fix es s'
      assume "kept (advance s1) s' \<and> (\<exists>rs. es = (acc @ [e]) @ rs \<and>
        (\<forall>c ys. pending s' = c # ys \<longrightarrow> tType c = q \<longrightarrow> derives (ValuesPhrase q rs) (pending (advance s1)) ys))"
      then obtain rs where k: "kept (advance s1) s'" and es: "es = acc @ e # rs"
        and d: "\<And>c ys. pending s' = c # ys \<Longrightarrow> tType c = q \<Longrightarrow> derives (ValuesPhrase q rs) (pending (advance s1)) ys"
        by auto
      have "derives (ValuesPhrase q (e # rs)) (pending s) ys" if "pending s' = c # ys" "tType c = q" for c ys
        by (rule derives.vs_more [OF _ _ d [OF that]]) (use e t in \<open>auto simp: exprDone_def took_def\<close>)
      then show "kept s s' \<and> (\<exists>rs. es = acc @ rs \<and>
          (\<forall>c ys. pending s' = c # ys \<longrightarrow> tType c = q \<longrightarrow> derives (ValuesPhrase q rs) (pending s) ys))"
        using k e t es by (auto simp: exprDone_def took_def progress_defs)
    qed
  qed
  have stop: "kept s s1 \<and> (\<forall>c ys. pending s1 = c # ys \<longrightarrow> tType c = q \<longrightarrow> derives (ValuesPhrase q [e]) (pending s) ys)"
    if "exprDone 0 s e s1" for e s1
    using that by (auto simp: exprDone_def moved_kept intro: derives.vs_last)
  have trail: "kept s (advance s1) \<and>
      (\<forall>c ys. pending (advance s1) = c # ys \<longrightarrow> tType c = q \<longrightarrow> derives (ValuesPhrase q [e]) (pending s) ys)"
    if "exprDone 0 s e s1" "took d (peek s1) s1 (advance s1)" "d \<in> {TOKEN_COMMA, TOKEN_SEMICOLON}" for e s1 d
    using that by (auto simp: exprDone_def took_def progress_defs intro!: derives.vs_more derives.vs_none)
  have sep: "\<exists>d. took d (peek s1) s1 (advance s1) \<and> d \<in> {TOKEN_COMMA, TOKEN_SEMICOLON}"
    if "check TOKEN_COMMA s1 \<or> check TOKEN_SEMICOLON s1" for s1
    using that took_check [of TOKEN_COMMA s1] took_check [of TOKEN_SEMICOLON s1] by auto
  have more: "wp (let s = advance s1 in
        if check q s then POk (acc @ [e]) s else literalValues P q n (acc @ [e]) s)
      (\<lambda>es s'. kept s s' \<and> (\<exists>rs. es = acc @ rs \<and>
        (\<forall>c ys. pending s' = c # ys \<longrightarrow> tType c = q \<longrightarrow> derives (ValuesPhrase q rs) (pending s) ys)))"
    if e: "exprDone 0 s e s1" and c: "check TOKEN_COMMA s1 \<or> check TOKEN_SEMICOLON s1" for e s1
    using sep [OF c] loop [OF e] trail [OF e] by (auto simp: Let_def)
  show ?case
    using Suc.prems(2) by (auto simp: stop intro!: bind_expr more)
qed simp

lemma wp_literalBody:
  "4 * weight (pending s) + 2 < B \<Longrightarrow> q \<noteq> TOKEN_EOF \<Longrightarrow>
   wp (literalBody P q s) (\<lambda>vs s'. moved s s' \<and> derives (ValuesPhrase q vs) (pending s) (pending s'))"
  unfolding literalBody_def
  by (cases "check q s")
     (auto simp: took_def progress_defs intro!: bind_expect wp_bindI [OF wp_literalValues] derives.vs_none)

lemma wp_parseListLitExpr:
  assumes "tType (peek s) = TOKEN_LBRACKET" "4 * weight (pending s) \<le> B"
  shows "wp (parseListLitExpr P s) (\<lambda>e s'. moved s s' \<and> gExpr 10 e (pending s) (pending s'))"
  using took_advance [OF assms(1)] assms(2) unfolding parseListLitExpr_def currentPos_def
  by (auto simp: took_def progress_defs intro!: wp_bindI [OF wp_literalBody] derives.e_list)

lemma wp_parseDenseLitExpr:
  assumes "tType (peek s) = TOKEN_LBRACKET" "4 * weight (pending s) \<le> B"
  shows "wp (parseDenseLitExpr P s) (\<lambda>e s'. moved s s' \<and> gExpr 10 e (pending s) (pending s'))"
  using took_advance [OF assms(1)] assms(2) unfolding parseDenseLitExpr_def currentPos_def
  by (auto simp: took_def progress_defs
        intro!: wp_bindI [OF wp_denseLength] bind_expect wp_bindI [OF wp_literalBody] derives.e_dense)

lemma wp_parseTableField:
  assumes "4 * weight (pending s) + 2 < B"
  shows "wp (parseTableField P s) (\<lambda>f s'. moved s s' \<and> derives (FieldPhrase f) (pending s) (pending s'))"
proof (cases "check TOKEN_LBRACKET s \<and> \<not> isTypedDenseLitStart s")
  case True
  with took_check [of TOKEN_LBRACKET s] assms show ?thesis
    unfolding parseTableField_def
    by (auto simp: exprDone_def took_def progress_defs intro!: bind_expr bind_expect derives.f_computed)
next
  case bracket: False
  show ?thesis
  proof (cases "check TOKEN_IDENT s \<and> tType (peekAt 1 s) = TOKEN_COLON")
    case True
    then have "took TOKEN_IDENT (peek s) s (advance s)" by (intro took_check) auto
    moreover have "took TOKEN_COLON (peek (advance s)) (advance s) (advance (advance s))"
      by (rule took_second) (use True in \<open>auto simp: check_def\<close>)
    ultimately show ?thesis
      using True bracket assms
      unfolding parseTableField_def Let_def
      by (auto simp: exprDone_def took_def progress_defs intro!: bind_expr derives.f_named)
  next
    case False
    then show ?thesis
      using assms unfolding parseTableField_def if_not_P [OF bracket] if_not_P [OF False]
      by (auto simp: exprDone_def intro!: bind_expr derives.f_value)
  qed
qed

lemma wp_tableLoop:
  "length (pending s) < n \<Longrightarrow> 4 * weight (pending s) + 2 < B \<Longrightarrow>
   wp (tableLoop P n acc s) (\<lambda>fs s'. kept s s' \<and> (\<exists>rs. fs = acc @ rs \<and> derives (TablePhrase rs) (pending s) (pending s')))"
proof (induction n arbitrary: acc s)
  case (Suc n)
  have loop: "wp (tableLoop P n (acc @ [f]) (skipSeparator s1))
      (\<lambda>fs s'. kept s s' \<and> (\<exists>rs. fs = acc @ rs \<and> derives (TablePhrase rs) (pending s) (pending s')))"
    if "moved s s1 \<and> derives (FieldPhrase f) (pending s) (pending s1)" for f s1
  proof -
    note sep = skipSeparator_gSep [of s1]
    then have "length (pending (skipSeparator s1)) < n" "4 * weight (pending (skipSeparator s1)) + 2 < B"
      using Suc.prems that by (auto simp: progress_defs)
    from Suc.IH [OF this] show ?thesis
      by (rule wp_mono) (use that sep in \<open>auto simp: progress_defs intro: derives.t_more\<close>)
  qed
  show ?case
    using Suc.prems(2) by (auto intro!: derives.t_none wp_bindI [OF wp_parseTableField] loop)
qed simp

lemma wp_parseTableLitExpr:
  assumes "tType (peek s) = TOKEN_LBRACE" "4 * weight (pending s) \<le> B"
  shows "wp (parseTableLitExpr P s) (\<lambda>e s'. moved s s' \<and> gExpr 10 e (pending s) (pending s'))"
  using took_advance [OF assms(1)] assms(2) unfolding parseTableLitExpr_def currentPos_def Let_def
  by (auto simp: took_def progress_defs intro!: wp_bindI [OF wp_tableLoop] bind_expect derives.e_table)

lemma wp_stringBody:
  assumes "took t (peek s) s (advance s)" "t = TOKEN_STRING \<or> t = TOKEN_RAW_BLOCK" "4 * weight (pending s) \<le> B"
  shows "wp (interpolatedStringExpr P pos (tValue (peek s)) (advance s))
    (\<lambda>e s'. s' = advance s \<and> derives (StringPhrase pos (tValue (peek s)) e) [] [])"
  using assms by (intro wp_interpolatedStringExpr) (auto simp: took_def textWeight_string)

lemmas bind_string = wp_bindI [OF wp_stringBody]

end

definition afterBang :: "parser \<Rightarrow> parser" where
  "afterBang s = (if check TOKEN_NOT s then advance s else s)"

lemma afterBang: "kept s (afterBang s)" "gBang (check TOKEN_NOT s) (pending s) (pending (afterBang s))"
  using took_check [of TOKEN_NOT s]
  by (auto simp: afterBang_def took_def moved_kept intro: gBang.intros)

context sub_parsers
begin

lemma wp_parseTaggedDialectExpr:
  assumes "tType (peek s) = TOKEN_IDENT" "4 * weight (pending s) \<le> B"
  shows "wp (parseTaggedDialectExpr P s) (\<lambda>e s'. moved s s' \<and> gExpr 10 e (pending s) (pending s'))"
proof -
  let ?s1 = "advance s" and ?s = "afterBang (advance s)" and ?ff = "check TOKEN_NOT (advance s)"
  note t = took_advance [OF assms(1), simplified]
  note bang = afterBang [of ?s1]
  have fuel: "4 * weight (pending ?s) < B" "4 * weight (pending ?s) \<le> B"
    using t bang(1) assms(2) by (auto simp: took_def progress_defs)
  have moved: "moved s ?s" using t bang(1) by (auto simp: took_def progress_defs)
  consider (raw) "isRawStringToken (peek ?s)"
    | (config) "\<not> isRawStringToken (peek ?s)" "check TOKEN_LBRACE ?s" "isDialectFieldBlockStart ?s"
    | (body) "\<not> isRawStringToken (peek ?s)" "check TOKEN_LBRACE ?s" "\<not> isDialectFieldBlockStart ?s"
    | (block) "\<not> isRawStringToken (peek ?s)" "\<not> check TOKEN_LBRACE ?s" "check TOKEN_RAW_BLOCK ?s"
    | (bad) "\<not> isRawStringToken (peek ?s)" "\<not> check TOKEN_LBRACE ?s" "\<not> check TOKEN_RAW_BLOCK ?s" by blast
  then show ?thesis
  proof cases
    case raw
    then have b: "took TOKEN_STRING (peek ?s) ?s (advance ?s)" by (intro took_advance) (auto simp: isRawStringToken_def)
    have g: "gExpr 10 (TaggedStringExpr (tokenPos (peek s)) (tValue (peek s)) e ?ff) (pending s) (pending (advance ?s))"
      if "derives (StringPhrase (currentPos ?s) (tValue (peek ?s)) e) [] []" for e
      using derives.e_tagged_string [OF took_type [OF t] _ raw, of ?ff "pending ?s1" "pending (advance ?s)" e]
        t b bang(2) that by (simp add: took_def currentPos_def)
    from raw b moved fuel show ?thesis
      unfolding parseTaggedDialectExpr_def Let_def afterBang_def [symmetric]
      by (auto simp: g took_def progress_defs intro!: bind_string)
  next
    case config
    then show ?thesis
      using t bang(2) moved fuel
      unfolding parseTaggedDialectExpr_def Let_def afterBang_def [symmetric]
      by (auto simp: took_def progress_defs intro!: wp_bindI [OF wp_parseConfigBlock] derives.e_tagged_config)
  next
    case body
    then show ?thesis
      using t bang(2) moved fuel
      unfolding parseTaggedDialectExpr_def Let_def afterBang_def [symmetric]
      by (auto simp: took_def progress_defs intro!: bind_block derives.e_tagged_body)
  next
    case block
    note b = took_check [OF block(3), simplified]
    have g: "gExpr 10 (TaggedBlockExpr (tokenPos (peek s)) (tValue (peek s)) [] None (tValue (peek ?s)) (Some e) True ?ff)
        (pending s) (pending (advance ?s))"
      if "derives (StringPhrase (currentPos ?s) (tValue (peek ?s)) e) [] []" for e
      using derives.e_tagged_raw [OF took_type [OF t] _ took_type [OF b], of ?ff "pending ?s1" "pending (advance ?s)" e]
        t b bang(2) that by (simp add: took_def currentPos_def)
    from block b moved fuel show ?thesis
      unfolding parseTaggedDialectExpr_def Let_def afterBang_def [symmetric]
      by (auto simp: g took_def progress_defs intro!: bind_string)
  next
    case bad
    then show ?thesis
      unfolding parseTaggedDialectExpr_def Let_def afterBang_def [symmetric] by simp
  qed
qed

lemma wp_parseShellShortcutExpr:
  assumes "tType (peek s) = TOKEN_DOLLAR" "4 * weight (pending s) \<le> B"
  shows "wp (parseShellShortcutExpr P s) (\<lambda>e s'. moved s s' \<and> gExpr 10 e (pending s) (pending s'))"
proof -
  let ?s1 = "advance s" and ?s = "afterBang (advance s)" and ?ff = "check TOKEN_NOT (advance s)"
  note t = took_advance [OF assms(1), simplified]
  note bang = afterBang [of ?s1]
  have fuel: "4 * weight (pending ?s) \<le> B" and moved: "moved s ?s"
    using t bang(1) assms(2) by (auto simp: took_def progress_defs)
  show ?thesis
  proof (cases "isRawStringToken (peek ?s)")
    case raw: True
    then have b: "took TOKEN_STRING (peek ?s) ?s (advance ?s)" by (intro took_advance) (auto simp: isRawStringToken_def)
    have g: "gExpr 10 (TaggedStringExpr (tokenPos (peek s)) ''sh'' e ?ff) (pending s) (pending (advance ?s))"
      if "derives (StringPhrase (currentPos ?s) (tValue (peek ?s)) e) [] []" for e
      using derives.e_shell [OF took_type [OF t] _ raw, of ?ff "pending ?s1" "pending (advance ?s)" e]
        t b bang(2) that by (simp add: took_def currentPos_def)
    from raw b moved fuel show ?thesis
      unfolding parseShellShortcutExpr_def Let_def afterBang_def [symmetric] currentPos_def [of s]
      by (auto simp: g took_def progress_defs intro!: bind_string)
  next
    case False
    then show ?thesis
      unfolding parseShellShortcutExpr_def Let_def afterBang_def [symmetric] by simp
  qed
qed

text \<open>Primary expressions, one rule per kind of first token.\<close>

lemma wp_primary_paren:
  assumes "tType (peek s) = TOKEN_LPAREN" "4 * weight (pending s) \<le> B"
  shows "wp (pbind (pExpr P (advance s)) (\<lambda>e s1.
      pbind (expect TOKEN_RPAREN s1) (\<lambda>_ s1. POk (ParenExpr (tokenPos (peek s)) e) s1)))
    (\<lambda>e s'. moved s s' \<and> gExpr 10 e (pending s) (pending s'))"
  using took_advance [OF assms(1)] assms(2)
  by (auto simp: took_def exprDone_def progress_defs intro!: bind_expr bind_expect derives.e_paren)

lemma wp_primary_string:
  assumes "tType (peek s) = TOKEN_STRING" "4 * weight (pending s) \<le> B"
  shows "wp (if tIsRawString (peek s) \<or> tIsSingleQuoted (peek s)
      then POk (StringLit (tokenPos (peek s)) (tValue (peek s))) (advance s)
      else interpolatedStringExpr P (tokenPos (peek s)) (tValue (peek s)) (advance s))
    (\<lambda>e s'. moved s s' \<and> gExpr 10 e (pending s) (pending s'))"
proof -
  note t = took_advance [OF assms(1), simplified]
  from t have p: "moved s (advance s)" "pending s = peek s # pending (advance s)" by (simp_all add: took_def)
  show ?thesis
    using p assms t
    by (auto simp: plainStringToken_def interpolatingToken_def
          intro!: wp_mono [OF wp_stringBody] derives.e_plain_string intro: derives.e_string)
qed

lemma wp_primary_token:
  assumes "tType (peek s) \<noteq> TOKEN_EOF" "gExpr 10 e (peek s # pending (advance s)) (pending (advance s))"
  shows "moved s (advance s) \<and> gExpr 10 e (pending s) (pending (advance s))"
  using assms by (simp add: pending_peek)

lemma wp_parsePrimary:
  assumes "4 * weight (pending s) \<le> B"
  shows "wp (parsePrimary P s) (\<lambda>e s'. moved s s' \<and> gExpr 10 e (pending s) (pending s'))"
proof -
  have token: "wp (POk e (advance s)) (\<lambda>e s'. moved s s' \<and> gExpr 10 e (pending s) (pending s'))"
    if "tType (peek s) = t" "t \<noteq> TOKEN_EOF" "gExpr 10 e (peek s # pending (advance s)) (pending (advance s))" for t e
    using that wp_primary_token by simp
  show ?thesis
    unfolding parsePrimary_def Let_def
    apply (rule wp_ifI, (rule token, assumption, simp, simp add: derives.e_number) [1])
    apply (rule wp_ifI, rule wp_primary_string [OF _ assms], assumption)
    apply (rule wp_ifI, (rule token, assumption, simp, simp add: derives.e_true) [1])
    apply (rule wp_ifI, (rule token, assumption, simp, simp add: derives.e_false) [1])
    apply (rule wp_ifI, (rule token, assumption, simp, simp add: derives.e_nil) [1])
    apply (rule wp_ifI, (rule token, assumption, simp, simp add: derives.e_vararg) [1])
    apply (rule wp_ifI, rule wp_ifI, rule wp_parseTaggedDialectExpr [OF _ assms], assumption)
     apply (rule token, assumption, simp, simp add: derives.e_ident)
    apply (rule wp_ifI, rule wp_parseShellShortcutExpr [OF _ assms], assumption)
    apply (rule wp_ifI, rule wp_primary_paren [OF _ assms], assumption)
    apply (rule wp_ifI, rule wp_parseFuncLitExpr [OF _ assms], assumption)
    apply (rule wp_ifI, rule wp_parseTableLitExpr [OF _ assms], assumption)
    apply (rule wp_ifI, rule wp_ifI, rule wp_parseDenseLitExpr [OF _ assms], assumption)
     apply (rule wp_parseListLitExpr [OF _ assms], assumption)
    apply simp
    done
qed

text \<open>Postfix, power and unary expressions.\<close>

lemma wp_postfixStep:
  assumes e: "gExpr 9 e xs (pending s)" and step: "postfixStep P e s = Some r" and fuel: "4 * weight (pending s) \<le> B"
  shows "wp r (\<lambda>e' s'. moved s s' \<and> gExpr 9 e' xs (pending s'))"
proof -
  let ?ty = "tType (peek s)"
  consider (dot) "?ty = TOKEN_DOT" | (bracket) "?ty = TOKEN_LBRACKET" | (paren) "?ty = TOKEN_LPAREN" | (colon) "?ty = TOKEN_COLON"
    using step by (auto simp: postfixStep_def Let_def split: if_splits)
  then show ?thesis
  proof cases
    case dot
    with step e took_advance [OF dot] show ?thesis
      by (auto simp: postfixStep_def took_def progress_defs intro!: bind_expect derives.e_field)
  next
    case bracket
    with step e fuel took_advance [OF bracket] show ?thesis
      by (auto simp: postfixStep_def took_def exprDone_def progress_defs intro!: bind_expr bind_expect derives.e_index)
  next
    case paren
    note t = took_advance [OF paren, simplified]
    show ?thesis
    proof (cases "identName e = Some ''make'' \<and> tType (peekAt 1 s) = TOKEN_CHAN")
      case True
      let ?s = "advance (advance s)"
      have c: "took TOKEN_CHAN (peek (advance s)) (advance s) ?s"
        by (rule took_second) (use paren True in auto)
      have r: "r = parseMakeChan P (exprPos e) s" using step paren True by (simp add: postfixStep_def)
      show ?thesis
      proof (cases "check TOKEN_COMMA ?s")
        case comma: True
        with r t c e fuel took_check [OF comma] True show ?thesis
          by (auto simp: parseMakeChan_def Let_def pbind_assoc took_def exprDone_def progress_defs
                intro!: bind_expr bind_expect derives.e_chan_sized)
      next
        case False
        with r t c e True show ?thesis
          by (auto simp: parseMakeChan_def Let_def took_def progress_defs intro!: bind_expect derives.e_chan)
      qed
    next
      case False
      then have "r = parseCallExpr P e s" using step paren by (auto simp: postfixStep_def)
      with t e fuel show ?thesis
        by (auto simp: parseCallExpr_def took_def progress_defs
              intro!: wp_bindI [OF wp_parseArgList] bind_expect derives.e_call)
    qed
  next
    case colon
    note t = took_advance [OF colon, simplified]
    have line: "tLine (peekAt 1 s) = tLine (peek s)" and
      r: "r = pbind (expect TOKEN_IDENT (advance s)) (\<lambda>methodTok s.
                    pbind (expect TOKEN_LPAREN s) (\<lambda>_ s.
                    pbind (parseArgList P s) (\<lambda>args s.
                    pbind (expect TOKEN_RPAREN s) (\<lambda>_ s.
                      POk (MethodCallExpr (exprPos e) e (tValue methodTok) args) s))))"
      using step colon by (auto simp: postfixStep_def split: if_splits)
    have "tLine m = tLine (peek s)" if "pending (advance s) = m # ys" for m ys
      using that line peek_advance [of s] colon by (simp add: peek_pending [of "advance s"])
    with r t e fuel show ?thesis
      by (auto simp: took_def progress_defs
            intro!: wp_bindI [OF wp_parseArgList] bind_expect derives.e_method)
  qed
qed

lemma postfixStep_None: "postfixStep P e s = None \<Longrightarrow> tType (peek s) \<notin> stops 9"
  by (auto simp: postfixStep_def stops_levels Let_def split: if_splits)

lemma wp_postfixLoop:
  "length (pending s) < n \<Longrightarrow> 4 * weight (pending s) \<le> B \<Longrightarrow> moved s0 s \<Longrightarrow> gExpr 9 e (pending s0) (pending s) \<Longrightarrow>
   wp (postfixLoop P n e s) (exprDone 9 s0)"
proof (induction n arbitrary: e s)
  case (Suc n)
  show ?case
  proof (cases "postfixStep P e s")
    case None
    with Suc.prems show ?thesis by (simp add: exprDone_def postfixStep_None)
  next
    case (Some r)
    have "wp (postfixLoop P n e' s') (exprDone 9 s0)"
      if "moved s s' \<and> gExpr 9 e' (pending s0) (pending s')" for e' s'
      by (rule Suc.IH) (use that Suc.prems in \<open>auto simp: progress_defs\<close>)
    with Some show ?thesis
      using wp_postfixStep [OF Suc.prems(4) Some Suc.prems(2)] by (auto intro!: wp_bindI)
  qed
qed simp

lemma wp_parsePostfix:
  assumes "4 * weight (pending s) \<le> B"
  shows "wp (parsePostfix P s) (exprDone 9 s)"
  unfolding parsePostfix_def
proof (rule wp_bindI [OF wp_parsePrimary [OF assms]])
  fix e s1 assume e: "moved s s1 \<and> gExpr 10 e (pending s) (pending s1)"
  show "wp (postfixLoop P (loopFuel s1) e s1) (exprDone 9 s)"
    by (rule wp_postfixLoop) (use assms e in \<open>auto simp: progress_defs intro: gExpr_level\<close>)
qed

lemma wp_parsePower:
  assumes "4 * weight (pending s) \<le> B"
  shows "wp (parsePower P s) (exprDone 8 s)"
  unfolding parsePower_def
proof (rule wp_bindI [OF wp_parsePostfix [OF assms]])
  fix b s1 assume b: "exprDone 9 s b s1"
  show "wp (if check TOKEN_POW s1
            then let opTok = peek s1 in
              pbind (pUnary P (advance s1)) (\<lambda>x. POk (BinaryExpr (tokenPos opTok) b (tValue opTok) x))
            else POk b s1) (exprDone 8 s)"
  proof (cases "check TOKEN_POW s1")
    case True
    note t = took_check [OF True]
    have "exprDone 8 s (BinaryExpr (tokenPos (peek s1)) b (tValue (peek s1)) x) s2" if "exprDone 7 (advance s1) x s2" for x s2
      using b t that by (auto simp: exprDone_def took_def progress_defs stops_levels intro!: derives.e_power)
    with True t b assms show ?thesis
      by (auto simp: Let_def exprDone_def took_def progress_defs intro!: bind_unary)
  next
    case False
    with b show ?thesis
      by (auto simp: exprDone_def stops_levels check_def intro: gExpr_level)
  qed
qed

lemma step_unary:
  assumes "4 * weight (pending s) < Suc B"
  shows "wp (parseUnary P s) (exprDone 7 s)"
proof -
  consider (op) "matchAny unaryOps s" | (recv) "\<not> matchAny unaryOps s" "check TOKEN_ARROW s"
    | (power) "\<not> matchAny unaryOps s" "\<not> check TOKEN_ARROW s" by blast
  then show ?thesis
  proof cases
    case op
    then have ty: "tType (peek s) \<in> set unaryOps" by (simp add: matchAny_def)
    then have t: "took (tType (peek s)) (peek s) s (advance s)"
      by (intro took_advance) (auto simp: ops_defs)
    have no_pow: "\<not> check TOKEN_POW s2" if "exprDone 7 s1 e s2" for s1 e s2
      using that by (simp add: exprDone_def stops_levels check_def)
    have "exprDone 7 s (UnaryExpr (tokenPos (peek s)) (tValue (peek s)) e) s2" if "exprDone 7 (advance s) e s2" for e s2
      using that t derives.e_unary [OF ty] by (auto simp: exprDone_def took_def progress_defs)
    with op t assms show ?thesis
      by (auto simp: parseUnary_def Let_def no_pow took_def progress_defs intro!: bind_unary)
  next
    case recv
    note t = took_check [OF recv(2), simplified]
    have "exprDone 7 s (RecvExpr (tokenPos (peek s)) e) s2" if "exprDone 7 (advance s) e s2" for e s2
      using that t derives.e_recv [of "peek s"] by (auto simp: exprDone_def took_def progress_defs)
    with recv t assms show ?thesis
      by (auto simp: parseUnary_def Let_def took_def progress_defs intro!: bind_unary)
  next
    case power
    have "wp (parsePower P s) (exprDone 7 s)"
      by (rule wp_mono [OF wp_parsePower])
         (use assms in \<open>auto simp: exprDone_def stops_levels intro: gExpr_level\<close>)
    with power show ?thesis by (simp add: parseUnary_def)
  qed
qed

end

end
