(* ===== verification/Parser_Correct.thy ===== *)
theory Parser_Correct
  imports Parser_Expr_Correct
begin

section \<open>Correctness of the parser\<close>

text \<open>
  The statement methods, the interpretation of the contract on \<open>tie n\<close>, and what follows
  for \<open>Parse\<close>: it never runs out of fuel, and a tree it returns is derived by the grammar from
  the whole token list.
\<close>

lemma moved_peek: "moved s s' \<Longrightarrow> pending s = peek s # pending (advance s)"
  by (cases "pending s") (simp_all add: moved_def peek_pending pending_advance)

context sub_parsers
begin

subsection \<open>Statements that start with an expression\<close>

lemma wp_declareNames:
  assumes es: "derives (ExprsPhrase es) (pending s0) (pending s)" and m: "moved s0 s"
    and d: "check TOKEN_DECLARE s" and fuel: "4 * weight (pending s) \<le> B"
  shows "wp (declareNames P (tokenPos (peek s0)) es s) (simpleDone s0)"
proof (cases "exprListToNames es")
  case (Inr ns)
  note t = took_check [OF d, simplified]
  have decl: "simpleDone s0 (DeclareStmt (tokenPos (peek s0)) ns vs False) s2"
    if "moved (advance s) s2 \<and> derives (ExprsPhrase vs) (pending (advance s)) (pending s2)" for vs s2
    using derives.s_declare [of es "peek s0" "pending (advance s0)" "peek s" "pending (advance s)" ns vs "pending s2"]
      es m t that Inr moved_peek [OF m] by (auto simp: simpleDone_def took_def progress_defs)
  with Inr t fuel show ?thesis
    by (auto simp: declareNames_def took_def progress_defs intro!: wp_bindI [OF wp_parseExprList])
qed (simp add: declareNames_def)

lemma wp_parseMultiTargetStmt:
  assumes e: "exprDone 0 s0 e s" and c: "check TOKEN_COMMA s" and fuel: "4 * weight (pending s) \<le> B"
  shows "wp (parseMultiTargetStmt P (tokenPos (peek s0)) e s) (simpleDone s0)"
proof -
  note t = took_check [OF c, simplified]
  have targets: "wp (commaExprs P (loopFuel s) [e] (advance s))
      (\<lambda>es s'. moved s s' \<and> derives (ExprsPhrase es) (pending s0) (pending s'))"
    by (rule wp_mono [OF wp_commaExprs])
       (use e t fuel in \<open>auto simp: exprDone_def took_def progress_defs loopFuel_pending intro: derives.es_more\<close>)
  have assign: "wp (pbind (parseExprList P (advance s1)) (\<lambda>vals s. POk (AssignStmt (tokenPos (peek s0)) es vals) s)) (simpleDone s0)"
    if es: "moved s s1" "derives (ExprsPhrase es) (pending s0) (pending s1)" and d: "check TOKEN_ASSIGN s1" for es s1
  proof -
    note u = took_check [OF d, simplified]
    have m: "moved s0 s1" using e es(1) by (simp add: exprDone_def progress_defs)
    have "simpleDone s0 (AssignStmt (tokenPos (peek s0)) es vs) s2"
      if "moved (advance s1) s2 \<and> derives (ExprsPhrase vs) (pending (advance s1)) (pending s2)" for vs s2
      using derives.s_assign [of es "peek s0" "pending (advance s0)" "peek s1" "pending (advance s1)" vs "pending s2"]
        es m u that moved_peek [OF m] by (auto simp: simpleDone_def took_def progress_defs)
    with u es(1) fuel show ?thesis
      by (auto simp: took_def progress_defs intro!: wp_bindI [OF wp_parseExprList])
  qed
  show ?thesis
    unfolding parseMultiTargetStmt_def if_P [OF c]
  proof (rule wp_bindI [OF targets], elim conjE)
    fix es s1 assume es: "moved s s1" "derives (ExprsPhrase es) (pending s0) (pending s1)"
    moreover from this e fuel have "moved s0 s1" "4 * weight (pending s1) \<le> B"
      by (simp_all add: exprDone_def progress_defs)
    ultimately show "wp (if check TOKEN_DECLARE s1 then declareNames P (tokenPos (peek s0)) es s1
       else if check TOKEN_ASSIGN s1 then
         pbind (parseExprList P (advance s1)) (\<lambda>vals s. POk (AssignStmt (tokenPos (peek s0)) es vals) s)
       else errorf (Message ''expected ':=' or '=' after expression list'') s1) (simpleDone s0)"
      by (auto intro: wp_declareNames assign)
  qed
qed

lemma exprs_one: "exprDone 0 s e s' \<Longrightarrow> derives (ExprsPhrase [e]) (pending s) (pending s')"
  by (simp add: exprDone_def derives.es_one)

lemma wp_parseAssignStmtFromExpr:
  assumes e: "exprDone 0 s0 e s" and d: "check TOKEN_ASSIGN s" and fuel: "4 * weight (pending s) \<le> B"
  shows "wp (parseAssignStmtFromExpr P (tokenPos (peek s0)) e s) (simpleDone s0)"
proof -
  note u = took_check [OF d, simplified]
  have m: "moved s0 s" using e by (simp add: exprDone_def)
  have "simpleDone s0 (AssignStmt (tokenPos (peek s0)) [e] vs) s2"
    if "moved (advance s) s2 \<and> derives (ExprsPhrase vs) (pending (advance s)) (pending s2)" for vs s2
    using derives.s_assign [of "[e]" "peek s0" "pending (advance s0)" "peek s" "pending (advance s)" vs "pending s2"]
      exprs_one [OF e] m u that moved_peek [OF m] by (auto simp: simpleDone_def took_def progress_defs)
  with u fuel show ?thesis
    unfolding parseAssignStmtFromExpr_def
    by (auto simp: took_def progress_defs intro!: wp_bindI [OF wp_parseExprList])
qed

lemma wp_parseCompoundAssignStmt:
  assumes e: "exprDone 0 s0 e s" and d: "matchAny compoundAssignOps s" and fuel: "4 * weight (pending s) \<le> B"
  shows "wp (parseCompoundAssignStmt P (tokenPos (peek s0)) e s) (simpleDone s0)"
proof -
  have op: "tType (peek s) \<in> set compoundAssignOps" using d by (simp add: matchAny_def)
  then have u: "took (tType (peek s)) (peek s) s (advance s)"
    by (intro took_advance) (auto simp: compoundAssignOps_def)
  have m: "moved s0 s" using e by (simp add: exprDone_def)
  have "simpleDone s0 (CompoundAssignStmt (tokenPos (peek s0)) e (tValue (peek s)) v) s2" if "exprDone 0 (advance s) v s2" for v s2
    using derives.s_compound [of e "peek s0" "pending (advance s0)" "peek s" "pending (advance s)" v "pending s2"]
      e op u that moved_peek [OF m] by (auto simp: simpleDone_def exprDone_def took_def progress_defs)
  with u fuel show ?thesis
    unfolding parseCompoundAssignStmt_def
    by (auto simp: took_def progress_defs intro!: bind_expr)
qed

lemma wp_parseSendStmt:
  assumes e: "exprDone 0 s0 e s" and d: "check TOKEN_ARROW s" and fuel: "4 * weight (pending s) \<le> B"
  shows "wp (parseSendStmt P (tokenPos (peek s0)) e s) (simpleDone s0)"
proof -
  note u = took_check [OF d, simplified]
  have m: "moved s0 s" using e by (simp add: exprDone_def)
  have "simpleDone s0 (SendStmt (tokenPos (peek s0)) e (Some v)) s2" if "exprDone 0 (advance s) v s2" for v s2
    using derives.s_send [of e "peek s0" "pending (advance s0)" "peek s" "pending (advance s)" v "pending s2"]
      e u that moved_peek [OF m] by (auto simp: simpleDone_def exprDone_def took_def progress_defs)
  with u fuel show ?thesis
    unfolding parseSendStmt_def
    by (auto simp: took_def progress_defs intro!: bind_expr)
qed

lemma simpleDone_incdec:
  assumes e: "exprDone 0 s0 e s" and d: "check TOKEN_INC s \<or> check TOKEN_DEC s"
  shows "simpleDone s0 (IncDecStmt (tokenPos (peek s0)) e (tValue (peek s))) (advance s)"
proof -
  have ty: "tType (peek s) \<in> {TOKEN_INC, TOKEN_DEC}" using d by (auto simp: check_def)
  then have u: "took (tType (peek s)) (peek s) s (advance s)" by (intro took_advance) auto
  have m: "moved s0 s" using e by (simp add: exprDone_def)
  show ?thesis
    using derives.s_incdec [of e "peek s0" "pending (advance s0)" "peek s" "pending (advance s)"]
      e ty u moved_peek [OF m] by (auto simp: simpleDone_def exprDone_def took_def progress_defs)
qed

lemma simpleDone_standalone:
  assumes e: "exprDone 0 s0 e s" and st: "standaloneStmt (tokenPos (peek s0)) e = Some st"
  shows "simpleDone s0 st s"
proof -
  have m: "moved s0 s" using e by (simp add: exprDone_def)
  show ?thesis
    using derives.s_standalone [of e "peek s0" "pending (advance s0)" "pending s" st] e st m moved_peek [OF m]
    by (simp add: simpleDone_def exprDone_def)
qed

lemma wp_parseExpressionStmt:
  assumes fuel: "4 * weight (pending s0) + 2 < B"
  shows "wp (parseExpressionStmt P s0) (simpleDone s0)"
  unfolding parseExpressionStmt_def Let_def currentPos_def
proof (rule bind_expr [OF fuel])
  fix e s assume e: "exprDone 0 s0 e s"
  with fuel have f: "4 * weight (pending s) \<le> B" by (simp add: exprDone_def progress_defs)
  have m: "moved s0 s" using e by (simp add: exprDone_def)
  let ?pos = "tokenPos (peek s0)"
  show "wp (if check TOKEN_DECLARE s then parseDeclareStmt P ?pos e s
        else if check TOKEN_ASSIGN s then parseAssignStmtFromExpr P ?pos e s
        else if matchAny compoundAssignOps s then parseCompoundAssignStmt P ?pos e s
        else if check TOKEN_INC s \<or> check TOKEN_DEC s then POk (IncDecStmt ?pos e (tValue (peek s))) (advance s)
        else if check TOKEN_COMMA s then parseMultiTargetStmt P ?pos e s
        else if check TOKEN_ARROW s then parseSendStmt P ?pos e s
        else case standaloneStmt ?pos e of
          None \<Rightarrow> posError ?pos (Message ''expression is not a statement'')
        | Some st \<Rightarrow> POk st s) (simpleDone s0)"
    apply (rule wp_ifI, unfold parseDeclareStmt_def, rule wp_declareNames [OF exprs_one [OF e] m _ f], assumption)
    apply (rule wp_ifI, rule wp_parseAssignStmtFromExpr [OF e _ f], assumption)
    apply (rule wp_ifI, rule wp_parseCompoundAssignStmt [OF e _ f], assumption)
    apply (rule wp_ifI, simp add: simpleDone_incdec [OF e])
    apply (rule wp_ifI, rule wp_parseMultiTargetStmt [OF e _ f], assumption)
    apply (rule wp_ifI, rule wp_parseSendStmt [OF e _ f], assumption)
    apply (auto split: option.split intro: simpleDone_standalone [OF e])
    done
qed

lemma wp_parseSimpleStmtBeforeBlock:
  "4 * weight (pending s) + 2 < B \<Longrightarrow> wp (parseSimpleStmtBeforeBlock P s) (simpleDone s)"
  unfolding parseSimpleStmtBeforeBlock_def
  by (rule wp_bindI [OF wp_parseExpressionStmt]) (auto simp: simpleDone_def progress_defs)

lemma wp_expressionStmt:
  "4 * weight (pending s) + 2 < B \<Longrightarrow> wp (parseExpressionStmt P s) (stmtDone s)"
  by (rule wp_mono [OF wp_parseExpressionStmt]) (auto simp: simpleDone_def stmtDone_def intro: derives.s_simple)

subsection \<open>Declarations, jumps and blocks\<close>

lemma wp_parseFuncDeclStmt:
  assumes "tType (peek s) = TOKEN_FUNC" "4 * weight (pending s) \<le> B"
  shows "wp (parseFuncDeclStmt P s) (stmtDone s)"
  using took_advance [OF assms(1)] assms(2) unfolding parseFuncDeclStmt_def Let_def
  by (auto simp: took_def stmtDone_def progress_defs
        intro!: bind_expect wp_bindI [OF wp_parseFuncParams] bind_block derives.s_func)

lemma wp_parseEvaluateStmt:
  assumes "isEvaluateStmt s" "4 * weight (pending s) \<le> B"
  shows "wp (parseEvaluateStmt P s) (stmtDone s)"
proof -
  have "tType (peek s) = TOKEN_IDENT" "tValue (peek s) = ''evaluate''"
    using assms(1) by (auto simp: isEvaluateStmt_def checkIdent_def)
  with took_advance [of s TOKEN_IDENT] assms(2) show ?thesis
    unfolding parseEvaluateStmt_def Let_def
    by (auto simp: took_def stmtDone_def progress_defs intro!: bind_expect bind_block derives.s_evaluate)
qed

lemma wp_parseLabelStmt: "wp (parseLabelStmt s) (stmtDone s)"
  unfolding parseLabelStmt_def
  by (auto simp: took_def stmtDone_def progress_defs intro!: bind_expect derives.s_label)

lemma wp_parseGotoStmt: "tType (peek s) = TOKEN_GOTO \<Longrightarrow> wp (parseGotoStmt s) (stmtDone s)"
  using took_advance [of s TOKEN_GOTO] unfolding parseGotoStmt_def currentPos_def
  by (auto simp: took_def stmtDone_def progress_defs intro!: bind_expect derives.s_goto)

lemma wp_parseBreakStmt: "tType (peek s) = TOKEN_BREAK \<Longrightarrow> wp (parseBreakStmt s) (stmtDone s)"
  using took_advance [of s TOKEN_BREAK] unfolding parseBreakStmt_def currentPos_def
  by (auto simp: took_def stmtDone_def intro!: derives.s_break)

lemma wp_parseContinueStmt: "tType (peek s) = TOKEN_CONTINUE \<Longrightarrow> wp (parseContinueStmt s) (stmtDone s)"
  using took_advance [of s TOKEN_CONTINUE] unfolding parseContinueStmt_def currentPos_def
  by (auto simp: took_def stmtDone_def intro!: derives.s_continue)

lemma wp_parseReturnStmt:
  assumes "tType (peek s) = TOKEN_RETURN" "4 * weight (pending s) \<le> B"
  shows "wp (parseReturnStmt P s) (stmtDone s)"
  using took_advance [OF assms(1)] assms(2) unfolding parseReturnStmt_def Let_def currentPos_def
  by (auto simp: took_def stmtDone_def progress_defs
        intro!: wp_bindI [OF wp_commaExprs] derives.s_return derives.args_none intro: derives.args_some)

lemma wp_parseGoStmt:
  assumes "tType (peek s) = TOKEN_GO" "4 * weight (pending s) \<le> B"
  shows "wp (parseGoStmt P s) (stmtDone s)"
  using took_advance [OF assms(1)] assms(2) unfolding parseGoStmt_def currentPos_def
  by (auto simp: took_def stmtDone_def exprDone_def progress_defs intro!: bind_expr derives.s_go)

lemma wp_parseDeferStmt:
  assumes "tType (peek s) = TOKEN_DEFER" "4 * weight (pending s) \<le> B"
  shows "wp (parseDeferStmt P s) (stmtDone s)"
  using took_advance [OF assms(1)] assms(2) unfolding parseDeferStmt_def currentPos_def
  by (auto simp: took_def stmtDone_def exprDone_def progress_defs intro!: bind_expr derives.s_defer)

lemma wp_parseConstDeclStmt:
  assumes "tType (peek s) = TOKEN_CONST" "4 * weight (pending s) \<le> B"
  shows "wp (parseConstDeclStmt P s) (stmtDone s)"
proof -
  note t = took_advance [OF assms(1), simplified]
  have vals: "wp (pbind (parseExprList P (advance s1)) (\<lambda>vals s2. POk (DeclareStmt (currentPos s) ns vals True) s2)) (stmtDone s)"
    if ns: "moved (advance s) s1" "gNames ns (pending (advance s)) (pending s1)"
      and d: "check TOKEN_DECLARE s1 \<or> check TOKEN_ASSIGN s1" for ns s1
  proof -
    have ty: "tType (peek s1) \<in> {TOKEN_DECLARE, TOKEN_ASSIGN}" using d by (auto simp: check_def)
    then have u: "took (tType (peek s1)) (peek s1) s1 (advance s1)" by (intro took_advance) auto
    have "stmtDone s (DeclareStmt (currentPos s) ns vs True) s2"
      if "moved (advance s1) s2 \<and> derives (ExprsPhrase vs) (pending (advance s1)) (pending s2)" for vs s2
      using derives.s_const [of "peek s" ns "pending (advance s)" "peek s1" "pending (advance s1)" vs "pending s2"]
        t u ns ty that by (auto simp: stmtDone_def took_def currentPos_def progress_defs)
    with t u ns assms(2) show ?thesis
      by (auto simp: took_def progress_defs intro!: wp_bindI [OF wp_parseExprList])
  qed
  show ?thesis
    unfolding parseConstDeclStmt_def Let_def
    by (auto intro!: wp_bindI [OF wp_constNames] vals)
qed

lemma wp_parseImportDeclStmt:
  assumes "tType (peek s) = TOKEN_IDENT" "isImportDecl s"
  shows "wp (parseImportDeclStmt s) (stmtDone s)"
proof -
  note t = took_advance [OF assms(1), simplified]
  have import: "tValue (peek s) = ''import''" using assms(2) by (simp add: isImportDecl_def)
  show ?thesis
  proof (cases "check TOKEN_LPAREN (advance s)")
    case True
    with took_check [OF True] t import show ?thesis
      unfolding parseImportDeclStmt_def Let_def currentPos_def
      by (auto simp: took_def stmtDone_def progress_defs
            intro!: wp_bindI [OF wp_importLoop] bind_expect derives.s_imports)
  next
    case False
    with t import show ?thesis
      unfolding parseImportDeclStmt_def Let_def currentPos_def
      by (auto simp: took_def stmtDone_def progress_defs
            intro!: wp_mono [OF wp_parseImportSpec] derives.s_import)
  qed
qed

lemma wp_elseIfLoop:
  "length (pending s) < n \<Longrightarrow> 4 * weight (pending s) \<le> B \<Longrightarrow>
   wp (elseIfLoop P n acc s) (\<lambda>es s'. kept s s' \<and> (\<exists>rs. es = acc @ rs \<and> derives (ElseIfsPhrase rs) (pending s) (pending s')))"
proof (induction n arbitrary: acc s)
  case (Suc n)
  let ?Q = "\<lambda>es s'. kept s s' \<and> (\<exists>rs. es = acc @ rs \<and> derives (ElseIfsPhrase rs) (pending s) (pending s'))"
  consider (elseif) "check TOKEN_ELSEIF s" | (else_if) "check TOKEN_ELSE s" "tType (peekAt 1 s) = TOKEN_IF"
    | (stop) "\<not> (check TOKEN_ELSEIF s \<or> check TOKEN_ELSE s \<and> tType (peekAt 1 s) = TOKEN_IF)" by blast
  then show ?case
  proof cases
    case elseif
    note t = took_check [OF elseif, simplified]
    have "wp (elseIfLoop P n (acc @ [ElseIfClause (currentPos s) c b]) s2) ?Q"
      if c: "exprDone 0 (advance s) c s1" and b: "moved s1 s2 \<and> gBlock b (pending s1) (pending s2)" for c s1 b s2
    proof -
      have "length (pending s2) < n" "4 * weight (pending s2) \<le> B"
        using Suc.prems t c b by (auto simp: took_def exprDone_def progress_defs)
      from Suc.IH [OF this] show ?thesis
        by (rule wp_mono)
           (use t c b in \<open>auto simp: took_def exprDone_def progress_defs currentPos_def intro: derives.ei_elseif\<close>)
    qed
    moreover have "\<not> check TOKEN_ELSE s" using elseif by (simp add: check_def)
    ultimately show ?thesis
      using elseif t Suc.prems(2)
      by (auto simp: Let_def took_def exprDone_def progress_defs intro!: wp_bindI [OF wp_parseExprBeforeBlock] bind_block)
  next
    case else_if
    note t = took_check [OF else_if(1), simplified]
    have u: "took TOKEN_IF (peek (advance s)) (advance s) (advance (advance s))"
      by (rule took_second) (use else_if in \<open>auto simp: check_def\<close>)
    have "wp (elseIfLoop P n (acc @ [ElseIfClause (currentPos (advance s)) c b]) s2) ?Q"
      if c: "exprDone 0 (advance (advance s)) c s1" and b: "moved s1 s2 \<and> gBlock b (pending s1) (pending s2)" for c s1 b s2
    proof -
      have "length (pending s2) < n" "4 * weight (pending s2) \<le> B"
        using Suc.prems t u c b by (auto simp: took_def exprDone_def progress_defs)
      from Suc.IH [OF this] show ?thesis
        by (rule wp_mono)
           (use t u c b in \<open>auto simp: took_def exprDone_def progress_defs currentPos_def intro: derives.ei_else_if\<close>)
    qed
    then show ?thesis
      using else_if t u Suc.prems(2)
      by (auto simp: Let_def took_def exprDone_def progress_defs intro!: wp_bindI [OF wp_parseExprBeforeBlock] bind_block)
  next
    case stop
    show ?thesis by (simp only: elseIfLoop.simps if_not_P [OF stop]) (simp add: derives.ei_none)
  qed
qed simp

lemma wp_optionalElse:
  "4 * weight (pending s) \<le> B \<Longrightarrow>
   wp (optionalElse P s) (\<lambda>b s'. kept s s' \<and> derives (ElsePhrase b) (pending s) (pending s'))"
  using took_check [of TOKEN_ELSE s] unfolding optionalElse_def
  by (auto simp: took_def progress_defs derives.el_none intro!: bind_block derives.el_some)

lemma wp_parseIfStmt:
  assumes "tType (peek s) = TOKEN_IF" "4 * weight (pending s) \<le> B"
  shows "wp (parseIfStmt P s) (stmtDone s)"
  using took_advance [OF assms(1)] assms(2) unfolding parseIfStmt_def Let_def currentPos_def
  by (auto simp: took_def stmtDone_def exprDone_def progress_defs
        intro!: wp_bindI [OF wp_parseExprBeforeBlock] bind_block wp_bindI [OF wp_elseIfLoop]
          wp_bindI [OF wp_optionalElse] derives.s_if)

lemma wp_parseForRangeBody:
  assumes t: "took TOKEN_FOR t s0 s" and id: "tType (peek s) = TOKEN_IDENT" and fuel: "4 * weight (pending s) \<le> B"
  shows "wp (parseForRangeBody P (tokenPos t) s) (stmtDone s0)"
proof (cases "check TOKEN_COMMA (advance s)")
  case True
  with t took_advance [OF id] took_check [OF True] fuel show ?thesis
    unfolding parseForRangeBody_def Let_def
    by (auto simp: took_def stmtDone_def exprDone_def progress_defs pbind_assoc
          intro!: bind_expect wp_bindI [OF wp_parseExprBeforeBlock] bind_block derives.s_range2)
next
  case False
  with t took_advance [OF id] fuel show ?thesis
    unfolding parseForRangeBody_def Let_def
    by (auto simp: took_def stmtDone_def exprDone_def progress_defs
          intro!: bind_expect wp_bindI [OF wp_parseExprBeforeBlock] bind_block derives.s_range)
qed

lemma wp_parseForNumBody:
  assumes t: "took TOKEN_FOR t s0 s" and fuel: "4 * weight (pending s) + 2 < B"
  shows "wp (parseForNumBody P (tokenPos t) s) (stmtDone s0)"
  using t fuel unfolding parseForNumBody_def parseSimpleStmt_def
  by (auto simp: took_def stmtDone_def simpleDone_def exprDone_def progress_defs
        intro!: bind_expect wp_bindI [OF wp_parseExpressionStmt] wp_bindI [OF wp_parseSimpleStmtBeforeBlock]
          bind_expr bind_block derives.s_for)

lemma wp_parseForStmt:
  assumes "tType (peek s) = TOKEN_FOR" "4 * weight (pending s) \<le> B"
  shows "wp (parseForStmt P s) (stmtDone s)"
proof -
  note t = took_advance [OF assms(1), simplified]
  have fuel: "4 * weight (pending (advance s)) + 2 < B" using t assms(2) by (simp add: took_def)
  have loop: "wp (pbind (parseBlock P (advance s)) (\<lambda>b. POk (ForStmt (tokenPos (peek s)) None b))) (stmtDone s)"
    using t fuel by (auto simp: took_def stmtDone_def progress_defs intro!: bind_block derives.s_loop)
  have while: "wp (pbind (parseExprBeforeBlock P (advance s)) (\<lambda>c s1.
      pbind (parseBlock P s1) (\<lambda>b. POk (ForStmt (tokenPos (peek s)) (Some c) b)))) (stmtDone s)"
    using t fuel
    by (auto simp: took_def stmtDone_def exprDone_def progress_defs
          intro!: wp_bindI [OF wp_parseExprBeforeBlock] bind_block derives.s_while)
  have range: "wp (parseForRangeBody P (tokenPos (peek s)) (advance s)) (stmtDone s)" if "isForRange (advance s)"
    by (rule wp_parseForRangeBody [OF t]) (use that fuel in \<open>auto simp: isForRange_def split: if_splits\<close>)
  show ?thesis
    unfolding parseForStmt_def Let_def currentPos_def
    using loop while range wp_parseForNumBody [OF t fuel] by simp
qed

subsection \<open>Select\<close>

lemma wp_clauseLoop:
  "length (pending s) < n \<Longrightarrow> 4 * weight (pending s) + 3 < B \<Longrightarrow>
   wp (clauseLoop P n acc s) (\<lambda>sts s'. kept s s' \<and> (\<exists>rs. sts = acc @ rs \<and> gStmts rs (pending s) (pending s')))"
proof (induction n arbitrary: acc s)
  case (Suc n)
  let ?s = "skipSemicolons s"
  have close: "gStmts rs (pending s) ys" if "gStmts rs (pending ?s) ys" for rs ys
    using that by (rule skipSemicolons_closed [rotated]) (rule derives.ss_semicolon)
  have k: "kept s ?s" by (rule skipSemicolons_kept)
  have loop: "wp (clauseLoop P n (acc @ [st]) s1)
      (\<lambda>sts s'. kept s s' \<and> (\<exists>rs. sts = acc @ rs \<and> gStmts rs (pending s) (pending s')))"
    if "stmtDone ?s st s1" for st s1
  proof -
    have "length (pending s1) < n" "4 * weight (pending s1) + 3 < B"
      using Suc.prems that k by (auto simp: stmtDone_def progress_defs)
    from Suc.IH [OF this] show ?thesis
      by (rule wp_mono) (use that k in \<open>auto simp: stmtDone_def progress_defs intro!: close intro: derives.ss_more\<close>)
  qed
  have fuel: "4 * weight (pending ?s) + 3 < B" using Suc.prems(2) k by (simp add: kept_def)
  show ?case
    using k fuel by (auto simp: Let_def intro!: close derives.ss_none bind_stmt loop)
qed simp

lemma wp_parseSelectClauseBody:
  "4 * weight (pending s) \<le> B \<Longrightarrow>
   wp (parseSelectClauseBody P pos s) (\<lambda>b s'. moved s s' \<and>
     (\<exists>c xs ss. pending s = c # xs \<and> tType c = TOKEN_COLON \<and> b = BlockStmt pos ss \<and> gStmts ss xs (pending s')))"
  unfolding parseSelectClauseBody_def
  by (auto simp: took_def progress_defs intro!: bind_expect wp_bindI [OF wp_clauseLoop])

lemma wp_parseSelectComm:
  assumes fuel: "4 * weight (pending s) + 2 < B"
  shows "wp (parseSelectComm P s) (\<lambda>(n, m, c, v) s'. moved s s' \<and> derives (CommPhrase n m c v) (pending s) (pending s'))"
proof (cases "check TOKEN_ARROW s")
  case True
  with took_check [OF True] fuel show ?thesis
    by (auto simp: parseSelectComm_def took_def exprDone_def progress_defs intro!: bind_expr derives.cm_recv)
next
  case False
  let ?Q = "\<lambda>(n, m, c, v) s'. moved s s' \<and> derives (CommPhrase n m c v) (pending s) (pending s')"
  have ok: "wp (case identName e of None \<Rightarrow> errorf (Message ''select receive declaration requires an identifier'') s1
      | Some name \<Rightarrow>
          pbind (pExpr P (advance s1)) (\<lambda>okExpr s.
            case identName okExpr of
              None \<Rightarrow> errorf (Message ''select receive ok declaration requires an identifier'') s
            | Some okName \<Rightarrow>
                pbind (expect TOKEN_DECLARE s) (\<lambda>_ s.
                pbind (expect TOKEN_ARROW s) (\<lambda>_ s.
                pbind (pExpr P s) (\<lambda>ch s. POk (name, okName, ch, None) s))))) ?Q"
    if e: "exprDone 0 s e s1" and c: "check TOKEN_COMMA s1" for e s1
    using e took_check [OF c] fuel
    by (auto simp: took_def exprDone_def progress_defs split: option.split
          intro!: bind_expr bind_expect derives.cm_recv_ok)
  have name: "wp (case identName e of None \<Rightarrow> errorf (Message ''select receive declaration requires an identifier'') s1
      | Some name \<Rightarrow>
          pbind (expect TOKEN_ARROW (advance s1)) (\<lambda>_ s.
          pbind (pExpr P s) (\<lambda>ch s. POk (name, [], ch, None) s))) ?Q"
    if e: "exprDone 0 s e s1" and d: "check TOKEN_DECLARE s1" for e s1
    using e took_check [OF d] fuel
    by (auto simp: took_def exprDone_def progress_defs split: option.split
          intro!: bind_expr bind_expect derives.cm_recv_name)
  have send: "wp (pbind (pExpr P (advance s1)) (\<lambda>v s. POk ([], [], e, Some v) s)) ?Q"
    if e: "exprDone 0 s e s1" and a: "check TOKEN_ARROW s1" for e s1
    using e took_check [OF a] fuel
    by (auto simp: took_def exprDone_def progress_defs intro!: bind_expr derives.cm_send)
  show ?thesis
    unfolding parseSelectComm_def if_not_P [OF False]
    by (rule bind_expr [OF fuel]) (intro wp_ifI ok name send wp_simps)
qed

lemma wp_parseSelectCase:
  assumes "checkIdent ''case'' s" "4 * weight (pending s) \<le> B"
  shows "wp (parseSelectCase P s) (\<lambda>c s'. moved s s' \<and>
    (\<forall>cs d ys. derives (CasesPhrase cs d) (pending s') ys \<longrightarrow> derives (CasesPhrase (c # cs) d) (pending s) ys))"
proof -
  have ty: "tType (peek s) = TOKEN_IDENT" "tValue (peek s) = ''case''" using assms(1) by (auto simp: checkIdent_def)
  with took_advance [OF ty(1)] assms(2) show ?thesis
    unfolding parseSelectCase_def Let_def currentPos_def
    by (auto simp: took_def progress_defs
          intro!: wp_bindI [OF wp_parseSelectComm] wp_bindI [OF wp_parseSelectClauseBody] intro: derives.cs_case)
qed

text \<open>What the loop adds to the cases and the default it was called with.\<close>

definition selected :: "SelectCase list \<Rightarrow> BlockStmt option \<Rightarrow> parser \<Rightarrow> SelectCase list \<times> BlockStmt option \<Rightarrow> parser \<Rightarrow> bool" where
  "selected cases dflt s r s' \<longleftrightarrow> kept s s' \<and> (\<exists>cs d. fst r = cases @ cs \<and> (d = None \<and> snd r = dflt \<or> dflt = None \<and> snd r = d)
     \<and> derives (CasesPhrase cs d) (pending s) (pending s'))"

lemma selected_case:
  assumes "selected (cases @ [c]) dflt s1 r s'" "kept s s1"
    "\<And>cs d ys. derives (CasesPhrase cs d) (pending s1) ys \<Longrightarrow> derives (CasesPhrase (c # cs) d) (pending s) ys"
  shows "selected cases dflt s r s'"
proof -
  from assms(1) obtain cs d where "fst r = (cases @ [c]) @ cs" "kept s1 s'"
    "d = None \<and> snd r = dflt \<or> dflt = None \<and> snd r = d" "derives (CasesPhrase cs d) (pending s1) (pending s')"
    unfolding selected_def by blast
  with assms(2,3) show ?thesis
    unfolding selected_def by (intro conjI exI [of _ "c # cs"] exI [of _ d]) (simp_all add: progress_defs)
qed

lemma selected_default:
  assumes "selected cases (Some b) s1 r s'" "kept s s1"
    "\<And>cs ys. derives (CasesPhrase cs None) (pending s1) ys \<Longrightarrow> derives (CasesPhrase cs (Some b)) (pending s) ys"
  shows "selected cases None s r s'"
proof -
  from assms(1) obtain cs where "fst r = cases @ cs" "kept s1 s'" "snd r = Some b"
    "derives (CasesPhrase cs None) (pending s1) (pending s')"
    unfolding selected_def by blast
  with assms(2,3) show ?thesis
    unfolding selected_def by (intro conjI exI [of _ cs] exI [of _ "Some b"]) (simp_all add: progress_defs)
qed

lemma selected_stop: "kept s s' \<Longrightarrow> derives (CasesPhrase [] None) (pending s) (pending s') \<Longrightarrow> selected cases dflt s (cases, dflt) s'"
  unfolding selected_def by (intro conjI exI [of _ "[]"] exI [of _ None]) simp_all

lemma wp_selectLoop:
  "length (pending s) < n \<Longrightarrow> 4 * weight (pending s) \<le> B \<Longrightarrow>
   wp (selectLoop P n cases dflt s) (selected cases dflt s)"
proof (induction n arbitrary: cases dflt s)
  case (Suc n)
  let ?s = "skipSemicolons s"
  have close: "derives (CasesPhrase rs d) (pending s) ys" if "derives (CasesPhrase rs d) (pending ?s) ys" for rs d ys
    using that by (rule skipSemicolons_closed [rotated]) (rule derives.cs_semicolon)
  have k: "kept s ?s" by (rule skipSemicolons_kept)
  have fuel: "4 * weight (pending ?s) \<le> B" using Suc.prems(2) k by (simp add: kept_def)
  have another: "wp (selectLoop P n (cases @ [c]) dflt s1) (selected cases dflt s)"
    if c: "moved ?s s1 \<and> (\<forall>cs d ys. derives (CasesPhrase cs d) (pending s1) ys \<longrightarrow>
        derives (CasesPhrase (c # cs) d) (pending ?s) ys)" for c s1
  proof -
    have "length (pending s1) < n" "4 * weight (pending s1) \<le> B" and k1: "kept s s1"
      using Suc.prems c k by (auto simp: progress_defs)
    from Suc.IH [OF this(1,2)] show ?thesis
      by (rule wp_mono) (erule selected_case [OF _ k1], use c in \<open>blast intro: close\<close>)
  qed
  have default: "wp (pbind (parseSelectClauseBody P (currentPos ?s) (advance ?s)) (\<lambda>body s.
             selectLoop P n cases (Some body) s)) (selected cases None s)"
    if d: "checkIdent ''default'' ?s"
  proof -
    have ty: "tType (peek ?s) = TOKEN_IDENT" "tValue (peek ?s) = ''default''" using d by (auto simp: checkIdent_def)
    note t = took_advance [OF ty(1), simplified]
    have "wp (selectLoop P n cases (Some b) s1) (selected cases None s)"
      if b: "moved (advance ?s) s1 \<and> (\<exists>c xs ss. pending (advance ?s) = c # xs \<and> tType c = TOKEN_COLON
          \<and> b = BlockStmt (currentPos ?s) ss \<and> gStmts ss xs (pending s1))" for b s1
    proof -
      have "length (pending s1) < n" "4 * weight (pending s1) \<le> B" and k1: "kept s s1"
        using Suc.prems t b k by (auto simp: took_def progress_defs)
      moreover have "derives (CasesPhrase cs (Some b)) (pending s) ys" if "derives (CasesPhrase cs None) (pending s1) ys" for cs ys
        by (rule close) (use b t ty that in \<open>auto simp: took_def currentPos_def intro: derives.cs_default\<close>)
      ultimately show ?thesis
        by (intro wp_mono [OF Suc.IH]) (auto elim: selected_default)
    qed
    with t fuel show ?thesis
      by (auto simp: took_def intro!: wp_bindI [OF wp_parseSelectClauseBody])
  qed
  show ?case
    unfolding selectLoop.simps Let_def
    apply (rule wp_ifI, simp add: selected_stop derives.cs_none)
    apply (rule wp_ifI, simp add: selected_stop k close derives.cs_none)
    apply (rule wp_ifI, rule wp_bindI [OF wp_parseSelectCase [OF _ fuel]], assumption, rule another, assumption)
    apply (rule wp_ifI, cases "dflt = None", simp add: default, simp)
    apply simp
    done
qed simp

lemma wp_parseSelectStmt:
  assumes "isSelectStmt s" "4 * weight (pending s) \<le> B"
  shows "wp (parseSelectStmt P s) (stmtDone s)"
proof -
  have ty: "tType (peek s) = TOKEN_IDENT" "tValue (peek s) = ''select''"
    using assms(1) by (auto simp: isSelectStmt_def checkIdent_def)
  show ?thesis
    using ty took_advance [OF ty(1)] assms(2) unfolding parseSelectStmt_def currentPos_def
    by (auto simp: took_def stmtDone_def progress_defs selected_def
          intro!: bind_expect wp_bindI [OF wp_selectLoop] derives.s_select)
qed

subsection \<open>All statements\<close>

lemma step_stmt:
  assumes "4 * weight (pending s) + 3 < Suc B"
  shows "wp (parseStmt P s) (stmtDone s)"
proof -
  have f: "4 * weight (pending s) \<le> B" and f2: "4 * weight (pending s) + 2 < B" using assms by simp_all
  note expr = wp_expressionStmt [OF f2]
  have func: "wp (parseFuncDeclOrExprStmt P s) (stmtDone s)" if "tType (peek s) = TOKEN_FUNC"
    using wp_parseFuncDeclStmt [OF that f] expr by (simp add: parseFuncDeclOrExprStmt_def)
  show ?thesis
    unfolding parseStmt_def Let_def
    by (intro wp_ifI wp_parseSelectStmt f func wp_parseImportDeclStmt wp_parseEvaluateStmt wp_parseLabelStmt expr
          wp_parseIfStmt wp_parseForStmt wp_parseReturnStmt wp_parseBreakStmt wp_parseContinueStmt
          wp_parseGotoStmt wp_parseGoStmt wp_parseDeferStmt wp_parseConstDeclStmt) assumption+
qed

lemma step: "sub_parsers (parserStep P) (Suc B)"
  by unfold_locales (simp_all add: parserStep_def step_unary step_concat step_expr step_stmt)

end

subsection \<open>The closed recursion\<close>

lemma tie_sub_parsers: "sub_parsers (tie n) n"
proof (induction n)
  case 0
  show ?case by unfold_locales simp_all
next
  case (Suc n)
  then show ?case using sub_parsers.step by simp
qed

interpretation tied: sub_parsers "tie n" n for n
  by (rule tie_sub_parsers)

lemma parse_methods_total:
  assumes "parseFuel s \<le> n"
  shows "wp (pExpr (tie n) s) (exprDone 0 s)" "wp (pConcat (tie n) s) (exprDone 4 s)"
    "wp (pUnary (tie n) s) (exprDone 7 s)" "wp (pStmt (tie n) s) (stmtDone s)"
  using assms
  by (auto simp: parseFuel_def mu_pending intro: tied.sub_expr tied.sub_concat tied.sub_unary tied.sub_stmt)

lemma wp_programLoop:
  "length (pending s) < k \<Longrightarrow> 4 * weight (pending s) + 3 < n \<Longrightarrow>
   wp (programLoop (tie n) k acc s) (\<lambda>sts s'. \<exists>rs. sts = acc @ rs \<and> gStmts rs (pending s) (pending s') \<and> isAtEnd s')"
proof (induction k arbitrary: acc s)
  case (Suc k)
  let ?s = "skipSemicolons s"
  have close: "gStmts rs (pending s) ys" if "gStmts rs (pending ?s) ys" for rs ys
    using that by (rule skipSemicolons_closed [rotated]) (rule derives.ss_semicolon)
  have k: "kept s ?s" by (rule skipSemicolons_kept)
  have loop: "wp (programLoop (tie n) k (acc @ [st]) s1)
      (\<lambda>sts s'. \<exists>rs. sts = acc @ rs \<and> gStmts rs (pending s) (pending s') \<and> isAtEnd s')"
    if "stmtDone ?s st s1" for st s1
  proof -
    have "length (pending s1) < k" "4 * weight (pending s1) + 3 < n"
      using Suc.prems that k by (auto simp: stmtDone_def progress_defs)
    from Suc.IH [OF this] show ?thesis
      by (rule wp_mono) (use that in \<open>auto simp: stmtDone_def intro!: close intro: derives.ss_more\<close>)
  qed
  have fuel: "4 * weight (pending ?s) + 3 < n" using Suc.prems(2) k by (simp add: kept_def)
  show ?case
    using fuel by (auto simp: Let_def intro!: close derives.ss_none tied.bind_stmt loop)
qed simp

lemma wp_parseWith:
  assumes "parseFuel (newParser toks) \<le> n"
  shows "wp (parseWith (tie n) toks) (\<lambda>prog s. gProgram prog toks)"
proof -
  have "wp (programLoop (tie n) (loopFuel (newParser toks)) [] (newParser toks))
      (\<lambda>sts s'. \<exists>rs. sts = [] @ rs \<and> gStmts rs toks (pending s') \<and> isAtEnd s')"
    using wp_programLoop [of "newParser toks" "loopFuel (newParser toks)" n "[]"] assms
    by (simp add: parseFuel_def mu_pending loopFuel_pending)
  then show ?thesis
    unfolding parseWith_def Let_def
    by (rule wp_bindI) (auto simp: gProgram_def isAtEnd_def peek_pending split: list.splits)
qed

end
