(* ===== verification/Well_Formed.thy ===== *)
theory Well_Formed
  imports Parser_Correct
begin

section \<open>Well-formed syntax trees\<close>

text \<open>
  What the later passes may rely on in a tree that was parsed from source text. Operands sit
  at the precedence their operator asks for, so the tree needs no parentheses besides the
  ones it records; operators are the ones of their node; only the last parameter of a function
  collects the remaining arguments; \<open>go\<close>, \<open>defer\<close> and expression statements hold calls;
  the clauses of a counting loop are simple statements; a tagged block has exactly one of its
  three kinds of body; dense literals have a known element type. \<open>Parser_Correct\<close> gives a
  derivation of the tree, and well-formedness is an induction over it.
\<close>

definition binaryLevels :: "(bytes \<times> nat) list" where
  "binaryLevels = [(''||'', 1), (''&&'', 2), (''=='', 3), (''!='', 3), (''<'', 3), (''<='', 3), (''>'', 3),
     (''>='', 3), (''..'', 4), (''+'', 5), (''-'', 5), (''|'', 5), (''^'', 5), (''*'', 6), (''/'', 6),
     (''%'', 6), (''<<'', 6), (''>>'', 6), (''&'', 6), (''&^'', 6), (''**'', 8)]"

definition binLevel :: "bytes \<Rightarrow> nat option" where
  "binLevel op = map_of binaryLevels op"

fun exprLevel :: "Expr \<Rightarrow> nat" where
  "exprLevel (BinaryExpr p l op r) = (case binLevel op of Some k \<Rightarrow> k | None \<Rightarrow> 0)"
| "exprLevel (UnaryExpr p op e) = 7"
| "exprLevel (RecvExpr p e) = 7"
| "exprLevel (IndexExpr p t i) = 9"
| "exprLevel (FieldExpr p t f) = 9"
| "exprLevel (CallExpr p f a) = 9"
| "exprLevel (MethodCallExpr p ob m a) = 9"
| "exprLevel (MakeChanExpr p sz) = 9"
| "exprLevel e = 10"

text \<open>The least levels of the two operands of a binary operator.\<close>

definition operandLevels :: "nat \<Rightarrow> nat \<times> nat" where
  "operandLevels k = (if k = 4 then (5, 4) else if k = 8 then (9, 7) else (k, Suc k))"

definition binaryOk :: "Expr \<Rightarrow> bytes \<Rightarrow> Expr \<Rightarrow> bool" where
  "binaryOk l op r \<longleftrightarrow> (case binLevel op of None \<Rightarrow> False
     | Some k \<Rightarrow> fst (operandLevels k) \<le> exprLevel l \<and> snd (operandLevels k) \<le> exprLevel r)"

definition paramsOk :: "FuncParam list \<Rightarrow> bool" where
  "paramsOk ps \<longleftrightarrow> list_all (\<lambda>p. \<not> fpIsVarArg p) (butlast ps)"

fun isSimpleStmt :: "Stmt \<Rightarrow> bool" where
  "isSimpleStmt (AssignStmt p ts vs) = True"
| "isSimpleStmt (DeclareStmt p ns vs ro) = (\<not> ro)"
| "isSimpleStmt (CompoundAssignStmt p t op v) = True"
| "isSimpleStmt (IncDecStmt p t op) = True"
| "isSimpleStmt (CallStmt p c) = True"
| "isSimpleStmt (SendStmt p c v) = True"
| "isSimpleStmt st = False"

fun isDeclareStmt :: "Stmt \<Rightarrow> bool" where
  "isDeclareStmt (DeclareStmt p ns vs ro) = True"
| "isDeclareStmt st = False"

fun isStringExpr :: "Expr \<Rightarrow> bool" where
  "isStringExpr (StringLit p v) = True"
| "isStringExpr (InterpolatedStringExpr p ps) = True"
| "isStringExpr e = False"

definition isCall :: "Expr \<Rightarrow> bool" where
  "isCall e \<longleftrightarrow> isCallExpr e \<or> isMethodCallExpr e"

fun isTextPart :: "InterpolatedStringPart \<Rightarrow> bool" where
  "isTextPart (InterpolatedStringPart t eo) = (eo = None)"

text \<open>No two texts of an interpolated string are neighbours.\<close>

fun textsApart :: "InterpolatedStringPart list \<Rightarrow> bool" where
  "textsApart (p # q # ps) = (\<not> (isTextPart p \<and> isTextPart q) \<and> textsApart (q # ps))"
| "textsApart ps = True"

lemma textsApart_value [simp]:
  "textsApart (InterpolatedStringPart t (Some e) # ps) = textsApart ps"
  by (cases ps) auto

primrec okExpr :: "Expr \<Rightarrow> bool"
  and okPart :: "InterpolatedStringPart \<Rightarrow> bool"
  and okConfig :: "ConfigField \<Rightarrow> bool"
  and okField :: "TableField \<Rightarrow> bool"
  and okStmt :: "Stmt \<Rightarrow> bool"
  and okCase :: "SelectCase \<Rightarrow> bool"
  and okElseIf :: "ElseIfClause \<Rightarrow> bool"
  and okBlock :: "BlockStmt \<Rightarrow> bool"
where
  "okExpr (NumberLit p v) = True"
| "okExpr (StringLit p v) = True"
| "okExpr (InterpolatedStringExpr p ps) = (ps \<noteq> [] \<and> list_all id (map okPart ps) \<and> textsApart ps)"
| "okExpr (BoolLit p b) = True"
| "okExpr (NilLit p) = True"
| "okExpr (VarArgExpr p) = True"
| "okExpr (IdentExpr p n) = True"
| "okExpr (TaggedStringExpr p t b f) = (isStringExpr b \<and> okExpr b)"
| "okExpr (TaggedBlockExpr p t c b r e h f) = (list_all id (map okConfig c) \<and> pred_option id (map_option okBlock b)
     \<and> pred_option id (map_option okExpr e) \<and> pred_option isStringExpr e
     \<and> (h \<longleftrightarrow> e \<noteq> None) \<and> (b \<noteq> None \<longrightarrow> c = [] \<and> \<not> h) \<and> (h \<longrightarrow> c = []) \<and> (\<not> h \<longrightarrow> r = []))"
| "okExpr (BinaryExpr p l op r) = (binaryOk l op r \<and> okExpr l \<and> okExpr r)"
| "okExpr (UnaryExpr p op e) = (op \<in> {''-'', ''!'', ''#'', ''^''} \<and> 7 \<le> exprLevel e \<and> okExpr e)"
| "okExpr (ParenExpr p e) = okExpr e"
| "okExpr (IndexExpr p t i) = (9 \<le> exprLevel t \<and> okExpr t \<and> okExpr i)"
| "okExpr (FieldExpr p t f) = (9 \<le> exprLevel t \<and> okExpr t)"
| "okExpr (CallExpr p f a) = (9 \<le> exprLevel f \<and> okExpr f \<and> list_all id (map okExpr a))"
| "okExpr (MethodCallExpr p ob m a) = (9 \<le> exprLevel ob \<and> okExpr ob \<and> list_all id (map okExpr a))"
| "okExpr (FuncLitExpr p ps b) = (paramsOk ps \<and> okBlock b)"
| "okExpr (ListLitExpr p vs) = list_all id (map okExpr vs)"
| "okExpr (TableLitExpr p fs) = list_all id (map okField fs)"
| "okExpr (DenseLitExpr p d n vs) = (isDenseDType d \<and> list_all id (map okExpr vs))"
| "okExpr (RecvExpr p c) = (7 \<le> exprLevel c \<and> okExpr c)"
| "okExpr (MakeChanExpr p sz) = pred_option id (map_option okExpr sz)"
| "okPart (InterpolatedStringPart t e) = ((e = None \<longleftrightarrow> t \<noteq> []) \<and> pred_option id (map_option okExpr e))"
| "okConfig (ConfigField p k v) = (okExpr k \<and> okExpr v)"
| "okField (TableField k v) = (pred_option id (map_option okExpr k) \<and> okExpr v)"
| "okStmt (AssignStmt p ts vs) = (ts \<noteq> [] \<and> vs \<noteq> [] \<and> list_all id (map okExpr ts) \<and> list_all id (map okExpr vs))"
| "okStmt (DeclareStmt p ns vs ro) = (ns \<noteq> [] \<and> vs \<noteq> [] \<and> list_all id (map okExpr vs))"
| "okStmt (CompoundAssignStmt p t op v) = (op \<in> {''+='', ''-='', ''*='', ''/=''} \<and> okExpr t \<and> okExpr v)"
| "okStmt (IncDecStmt p t op) = (op \<in> {''++'', ''--''} \<and> okExpr t)"
| "okStmt (CallStmt p c) = (isCall c \<and> okExpr c)"
| "okStmt (GoStmt p c) = (isCall c \<and> okExpr c)"
| "okStmt (DeferStmt p c) = (isCall c \<and> okExpr c)"
| "okStmt (SendStmt p c v) = ((v = None \<longrightarrow> isRecvExpr c) \<and> okExpr c \<and> pred_option id (map_option okExpr v))"
| "okStmt (SelectStmt p cs d) = (list_all id (map okCase cs) \<and> pred_option id (map_option okBlock d))"
| "okStmt (IfStmt p c b es e) = (okExpr c \<and> okBlock b \<and> list_all id (map okElseIf es) \<and> pred_option id (map_option okBlock e))"
| "okStmt (ForNumStmt p i c q b) = (isSimpleStmt i \<and> isSimpleStmt q \<and> okStmt i \<and> okExpr c \<and> okStmt q \<and> okBlock b)"
| "okStmt (ForRangeStmt p k v i b) = (okExpr i \<and> okBlock b)"
| "okStmt (ForStmt p c b) = (pred_option id (map_option okExpr c) \<and> okBlock b)"
| "okStmt (ReturnStmt p vs) = list_all id (map okExpr vs)"
| "okStmt (BreakStmt p) = True"
| "okStmt (ContinueStmt p) = True"
| "okStmt (LabelStmt p n) = True"
| "okStmt (GotoStmt p n) = True"
| "okStmt (EvaluateStmt p n b) = okBlock b"
| "okStmt (FuncDeclStmt p n ps b) = (paramsOk ps \<and> okBlock b)"
| "okStmt (NestedBlock b) = (list_all isDeclareStmt (blockStmts b) \<and> okBlock b)"
| "okCase (SelectCase p n m c v b) = (okExpr c \<and> pred_option id (map_option okExpr v) \<and> (v \<noteq> None \<longrightarrow> n = [] \<and> m = []) \<and> okBlock b)"
| "okElseIf (ElseIfClause p c b) = (okExpr c \<and> okBlock b)"
| "okBlock (BlockStmt p ss) = list_all id (map okStmt ss)"

lemma ok_lists [simp]:
  "list_all id (map f xs) = list_all f xs" "pred_option id (map_option f x) = pred_option f x"
  by (simp_all add: list.pred_map option.pred_map)

text \<open>The property of every non-terminal, under the assumption that operators are spelled right.\<close>

primrec okPhrase :: "phrase \<Rightarrow> bool" where
  "okPhrase (ExprPhrase k e) = (okExpr e \<and> k \<le> exprLevel e)"
| "okPhrase (ExprsPhrase es) = (es \<noteq> [] \<and> list_all okExpr es)"
| "okPhrase (ArgsPhrase es) = list_all okExpr es"
| "okPhrase (ValuesPhrase q es) = list_all okExpr es"
| "okPhrase (TablePhrase fs) = list_all okField fs"
| "okPhrase (FieldPhrase f) = okField f"
| "okPhrase (ConfigPhrase cs) = list_all okConfig cs"
| "okPhrase (ConfigFieldPhrase c) = okConfig c"
| "okPhrase (StringPhrase p v e) = (isStringExpr e \<and> okExpr e)"
| "okPhrase (PartsPhrase v ps) = ((v \<noteq> [] \<longrightarrow> ps \<noteq> []) \<and> list_all okPart ps \<and> textsApart ps)"
| "okPhrase (SimplePhrase s) = (isSimpleStmt s \<and> okStmt s)"
| "okPhrase (StmtPhrase s) = okStmt s"
| "okPhrase (StmtsPhrase ss) = list_all okStmt ss"
| "okPhrase (BlockPhrase b) = okBlock b"
| "okPhrase (ElseIfsPhrase es) = list_all okElseIf es"
| "okPhrase (ElsePhrase b) = pred_option okBlock b"
| "okPhrase (CommPhrase n m c v) = (okExpr c \<and> pred_option okExpr v \<and> (v \<noteq> None \<longrightarrow> n = [] \<and> m = []))"
| "okPhrase (CasesPhrase cs d) = (list_all okCase cs \<and> pred_option okBlock d)"

definition opText :: "TokenType \<Rightarrow> bytes option" where
  "opText ty = map_of (map prod.swap operatorTable) ty"

lemma spelled_value: "spelled t \<Longrightarrow> opText (tType t) \<noteq> None \<Longrightarrow> tValue t = the (opText (tType t))"
proof -
  assume t: "spelled t" and "opText (tType t) \<noteq> None"
  then obtain s where s: "map_of (map prod.swap operatorTable) (tType t) = Some s" by (auto simp: opText_def)
  then have "(s, tType t) \<in> set operatorTable" by (auto dest: map_of_SomeD)
  with t s show ?thesis by (auto simp: spelled_def opText_def)
qed

lemma op_texts:
  "opText TOKEN_OR = Some ''||''" "opText TOKEN_AND = Some ''&&''" "opText TOKEN_EQ = Some ''==''"
  "opText TOKEN_NEQ = Some ''!=''" "opText TOKEN_LT = Some ''<''" "opText TOKEN_LE = Some ''<=''"
  "opText TOKEN_GT = Some ''>''" "opText TOKEN_GE = Some ''>=''" "opText TOKEN_CONCAT = Some ''..''"
  "opText TOKEN_PLUS = Some ''+''" "opText TOKEN_MINUS = Some ''-''" "opText TOKEN_BIT_OR = Some ''|''"
  "opText TOKEN_BIT_XOR = Some ''^''" "opText TOKEN_STAR = Some ''*''" "opText TOKEN_SLASH = Some ''/''"
  "opText TOKEN_PERCENT = Some ''%''" "opText TOKEN_SHL = Some ''<<''" "opText TOKEN_SHR = Some ''>>''"
  "opText TOKEN_BIT_AND = Some ''&''" "opText TOKEN_BIT_AND_NOT = Some ''&^''" "opText TOKEN_POW = Some ''**''"
  "opText TOKEN_NOT = Some ''!''" "opText TOKEN_LEN = Some ''#''"
  "opText TOKEN_PLUS_ASSIGN = Some ''+=''" "opText TOKEN_MINUS_ASSIGN = Some ''-=''"
  "opText TOKEN_STAR_ASSIGN = Some ''*=''" "opText TOKEN_SLASH_ASSIGN = Some ''/=''"
  "opText TOKEN_INC = Some ''++''" "opText TOKEN_DEC = Some ''--''"
  by (simp_all add: opText_def operatorTable_def)

lemma binLevels:
  "binLevel ''||'' = Some 1" "binLevel ''&&'' = Some 2" "binLevel ''=='' = Some 3" "binLevel ''!='' = Some 3"
  "binLevel ''<'' = Some 3" "binLevel ''<='' = Some 3" "binLevel ''>'' = Some 3" "binLevel ''>='' = Some 3"
  "binLevel ''..'' = Some 4" "binLevel ''+'' = Some 5" "binLevel ''-'' = Some 5" "binLevel ''|'' = Some 5"
  "binLevel ''^'' = Some 5" "binLevel ''*'' = Some 6" "binLevel ''/'' = Some 6" "binLevel ''%'' = Some 6"
  "binLevel ''<<'' = Some 6" "binLevel ''>>'' = Some 6" "binLevel ''&'' = Some 6" "binLevel ''&^'' = Some 6"
  "binLevel ''**'' = Some 8"
  by (simp_all add: binLevel_def binaryLevels_def)

lemma spelled_binary:
  assumes "spelled t" "tType t \<in> set (levelOps k)"
  shows "binLevel (tValue t) = Some k" "operandLevels k = (k, Suc k)"
proof -
  have k: "k \<in> {1, 2, 3, 5, 6}" using assms(2) by (auto simp: levelOps.simps split: if_splits)
  then show "operandLevels k = (k, Suc k)" by (auto simp: operandLevels_def)
  have "\<exists>s. opText (tType t) = Some s \<and> binLevel s = Some k" if "tType t \<in> set (levelOps k)" "k \<in> {1, 2, 3, 5, 6}"
    using that(2)
  proof (elim insertE emptyE)
    assume "k = 1" with that(1) show ?thesis by (auto simp: ops_defs op_texts binLevels)
  next
    assume "k = 2" with that(1) show ?thesis by (auto simp: ops_defs op_texts binLevels)
  next
    assume "k = 3" with that(1) show ?thesis by (auto simp: ops_defs op_texts binLevels)
  next
    assume "k = 5" with that(1) show ?thesis by (auto simp: ops_defs op_texts binLevels)
  next
    assume "k = 6" with that(1) show ?thesis by (auto simp: ops_defs op_texts binLevels)
  qed
  from this [OF assms(2) k] show "binLevel (tValue t) = Some k"
    by (auto simp: spelled_value [OF assms(1)])
qed

lemma spelled_cases:
  assumes "spelled t"
  shows "tType t = TOKEN_CONCAT \<Longrightarrow> tValue t = ''..''" "tType t = TOKEN_POW \<Longrightarrow> tValue t = ''**''"
    "tType t \<in> set unaryOps \<Longrightarrow> tValue t \<in> {''-'', ''!'', ''#'', ''^''}"
    "tType t \<in> set compoundAssignOps \<Longrightarrow> tValue t \<in> {''+='', ''-='', ''*='', ''/=''}"
    "tType t \<in> {TOKEN_INC, TOKEN_DEC} \<Longrightarrow> tValue t \<in> {''++'', ''--''}"
proof -
  have v: "tValue t = s" if "opText (tType t) = Some s" for s using spelled_value [OF assms] that by simp
  show "tType t = TOKEN_CONCAT \<Longrightarrow> tValue t = ''..''" "tType t = TOKEN_POW \<Longrightarrow> tValue t = ''**''"
    by (auto intro!: v simp: op_texts)
  show "tType t \<in> set unaryOps \<Longrightarrow> tValue t \<in> {''-'', ''!'', ''#'', ''^''}"
    using v by (auto simp: unaryOps_def op_texts)
  show "tType t \<in> set compoundAssignOps \<Longrightarrow> tValue t \<in> {''+='', ''-='', ''*='', ''/=''}"
    using v by (auto simp: compoundAssignOps_def op_texts)
  show "tType t \<in> {TOKEN_INC, TOKEN_DEC} \<Longrightarrow> tValue t \<in> {''++'', ''--''}"
    using v by (auto simp: op_texts)
qed

lemma ok_standalone:
  assumes "standaloneStmt p e = Some s" "okExpr e"
  shows "isSimpleStmt s \<and> okStmt s"
proof -
  have call: "okExpr (parserDialectCall q m t b f) \<and> isCall (parserDialectCall q m t b f)" if "okExpr b" for q m t b f
    using that by (simp add: parserDialectCall_def isCall_def)
  have table: "list_all okField (configFieldsToTableFields cs)" if "list_all okConfig cs" for cs
    using that by (induction cs) (auto simp: configFieldsToTableFields_def split: ConfigField.splits)
  have tagged: "okExpr c \<and> isCall c" if "taggedExprStmtCall e = Some c" for c
    using that assms(2)
    by (cases e rule: taggedExprStmtCall.cases)
       (auto simp: paramsOk_def call table split: option.splits if_splits)
  show ?thesis
    using assms tagged by (auto simp: standaloneStmt_def isCall_def split: if_splits option.splits)
qed

lemma gParamList_ok: "gParamList ps xs ys \<Longrightarrow> ps \<noteq> [] \<and> paramsOk ps"
  by (induction rule: gParamList.induct) (auto simp: paramsOk_def)

lemma gParams_ok: "gParams ps xs ys \<Longrightarrow> paramsOk ps"
  by (induction rule: gParams.induct) (auto dest: gParamList_ok simp: paramsOk_def)

lemma gParamList_spelled: "gParamList ps xs ys \<Longrightarrow> list_all spelled xs \<Longrightarrow> list_all spelled ys"
  by (induction rule: gParamList.induct) auto

lemma gParams_spelled: "gParams ps xs ys \<Longrightarrow> list_all spelled xs \<Longrightarrow> list_all spelled ys"
  by (induction rule: gParams.induct) (auto dest: gParamList_spelled)

lemma gSep_spelled: "gSep xs ys \<Longrightarrow> list_all spelled xs \<Longrightarrow> list_all spelled ys"
  by (auto simp: gSep_def)

lemma gBang_spelled: "gBang f xs ys \<Longrightarrow> list_all spelled xs \<Longrightarrow> list_all spelled ys"
  by (induction rule: gBang.induct) auto

lemma gDenseLen_spelled: "gDenseLen n xs ys \<Longrightarrow> list_all spelled xs \<Longrightarrow> list_all spelled ys"
  by (induction rule: gDenseLen.induct) auto

lemma gNames_spelled: "gNames ns xs ys \<Longrightarrow> list_all spelled xs \<Longrightarrow> ns \<noteq> [] \<and> list_all spelled ys"
  by (induction rule: gNames.induct) auto

lemma gImportSpec_ok: "gImportSpec p s xs ys \<Longrightarrow> okStmt s \<and> isDeclareStmt s"
  by (induction rule: gImportSpec.induct) (auto simp: importStmt_def)

lemma gImportSpec_spelled: "gImportSpec p s xs ys \<Longrightarrow> list_all spelled xs \<Longrightarrow> list_all spelled ys"
  by (induction rule: gImportSpec.induct) auto

lemma gImports_ok: "gImports p ss xs ys \<Longrightarrow> list_all okStmt ss \<and> list_all isDeclareStmt ss"
  by (induction rule: gImports.induct) (auto dest: gImportSpec_ok)

lemma gImports_spelled: "gImports p ss xs ys \<Longrightarrow> list_all spelled xs \<Longrightarrow> list_all spelled ys"
  by (induction rule: gImports.induct) (auto dest: gImportSpec_spelled gSep_spelled)

lemmas grammar_spelled = gParams_spelled gSep_spelled gBang_spelled gDenseLen_spelled gImportSpec_spelled
  gImports_spelled

lemma exprListToNames_ok: "exprListToNames es = Inr ns \<Longrightarrow> es \<noteq> [] \<Longrightarrow> ns \<noteq> []"
  by (cases es) (auto split: option.splits sum.splits)

lemma isStringExpr_level: "isStringExpr e \<Longrightarrow> exprLevel e = 10"
  by (cases e rule: isStringExpr.cases) auto

lemma not_contains_empty: "\<not> contains [] ''${''"
  by (simp add: contains_def indexOf.simps)

lemma derives_ok: "derives ph xs ys \<Longrightarrow> list_all spelled xs \<Longrightarrow> okPhrase ph \<and> list_all spelled ys"
proof (induction rule: derives.induct)
  case (e_binary k l xs t ys r zs)
  then show ?case using spelled_binary [of t k] by (auto simp: binaryOk_def)
next
  case (e_concat l xs t ys r zs)
  then show ?case using spelled_cases(1) [of t] by (auto simp: binaryOk_def binLevels operandLevels_def)
next
  case (e_power l xs t ys r zs)
  then show ?case using spelled_cases(2) [of t] by (auto simp: binaryOk_def binLevels operandLevels_def)
next
  case (e_unary t e xs ys)
  then show ?case using spelled_cases(3) [of t] by auto
next
  case (s_compound e t xs d ys v zs)
  then show ?case using spelled_cases(4) [of d] by auto
next
  case (s_incdec e t xs d ys)
  then show ?case using spelled_cases(5) [of d] by auto
next
  case (s_standalone e t xs ys s)
  then show ?case using ok_standalone by auto
next
  case (p_expr v a b toks e rst ps)
  then show ?case using scanInterpolationEnd_bound [of v "a + 2" b] by (auto dest: Tokenize_spelled)
qed (auto dest: grammar_spelled gNames_spelled gParams_ok gImportSpec_ok gImports_ok exprListToNames_ok
      simp: isStringExpr_level isCall_def not_contains_empty)

definition okProgram :: "Program \<Rightarrow> bool" where
  "okProgram prog \<longleftrightarrow> list_all okStmt (prStmts prog)"

lemma gProgram_ok: "gProgram prog toks \<Longrightarrow> list_all spelled toks \<Longrightarrow> okProgram prog"
  unfolding gProgram_def okProgram_def using derives_ok by fastforce

text \<open>The front end as a whole: what a successful run of lexer and parser has established.\<close>

lemma Parse_total: "Parse toks \<noteq> PFuel"
  using wp_parseWith [of toks "parseFuel (newParser toks)"] by (auto simp: Parse_def wp_def split: pres.splits)

lemma Parse_derives: "Parse toks = POk prog s \<Longrightarrow> gProgram prog toks"
  using wp_parseWith [of toks "parseFuel (newParser toks)"] by (auto simp: Parse_def wp_def)

lemma parseSource_cases:
  "parseSource src = Inr prog \<Longrightarrow> \<exists>toks s. Tokenize src = Inr toks \<and> Parse toks = POk prog s"
  by (auto simp: parseSource_def split: sum.splits pres.splits)

lemma parseSource_ok: "parseSource src = Inr prog \<Longrightarrow> okProgram prog"
  by (auto dest!: parseSource_cases intro: gProgram_ok Parse_derives Tokenize_spelled)

end
