(* ===== verification/Samples.thy ===== *)
theory Samples
  imports Well_Formed
begin

section \<open>Sample programs\<close>

text \<open>
  Small sources with their token lists and trees, evaluated by the kernel's simplifier. The
  witnesses of the properties apply them to these inputs.
\<close>

definition sampleCall :: bytes where
  "sampleCall = ''go f(-b ** 2)''"

definition sampleCallTree :: Program where
  "sampleCallTree = \<lparr>prStmts = [GoStmt (mkPos 1 1) (CallExpr (mkPos 1 4) (IdentExpr (mkPos 1 4) ''f'')
     [UnaryExpr (mkPos 1 6) ''-''
       (BinaryExpr (mkPos 1 9) (IdentExpr (mkPos 1 7) ''b'') ''**'' (NumberLit (mkPos 1 12) ''2''))])],
     prFileDirectives = []\<rparr>"

lemma sampleCall_tokens:
  "Tokenize sampleCall = Inr [mkToken TOKEN_GO ''go'' 1 1, mkToken TOKEN_IDENT ''f'' 1 4, mkToken TOKEN_LPAREN ''('' 1 5,
     mkToken TOKEN_MINUS ''-'' 1 6, mkToken TOKEN_IDENT ''b'' 1 7, mkToken TOKEN_POW ''**'' 1 9,
     mkToken TOKEN_NUMBER ''2'' 1 12, mkToken TOKEN_RPAREN '')'' 1 13, mkToken TOKEN_EOF [] 1 14]"
  by code_simp

lemma sampleCall_parse: "parseSource sampleCall = Inr sampleCallTree"
  by code_simp

text \<open>A backward jump, and a jump into the body of a loop from outside of it.\<close>

definition sampleJump :: bytes where
  "sampleJump = ''again: goto again''"

definition sampleJumpTree :: Program where
  "sampleJumpTree = \<lparr>prStmts = [LabelStmt (mkPos 1 1) ''again'', GotoStmt (mkPos 1 8) ''again''],
     prFileDirectives = []\<rparr>"

lemma sampleJump_parse: "parseSource sampleJump = Inr sampleJumpTree"
  by code_simp

definition sampleIntoLoop :: bytes where
  "sampleIntoLoop = ''if a { goto x } for b { x: y = 1 }''"

definition sampleIntoLoopTree :: Program where
  "sampleIntoLoopTree = \<lparr>prStmts =
     [IfStmt (mkPos 1 1) (IdentExpr (mkPos 1 4) ''a'')
        (BlockStmt (mkPos 1 6) [GotoStmt (mkPos 1 8) ''x'']) [] None,
      ForStmt (mkPos 1 17) (Some (IdentExpr (mkPos 1 21) ''b''))
        (BlockStmt (mkPos 1 23) [LabelStmt (mkPos 1 25) ''x'',
           AssignStmt (mkPos 1 28) [IdentExpr (mkPos 1 28) ''y''] [NumberLit (mkPos 1 32) ''1'']])],
     prFileDirectives = []\<rparr>"

lemma sampleIntoLoop_parse: "parseSource sampleIntoLoop = Inr sampleIntoLoopTree"
  by code_simp

text \<open>The tokens of the expression \<open>-a\<close>.\<close>

definition sampleExpr :: parser where
  "sampleExpr = newParser [mkToken TOKEN_MINUS ''-'' 1 1, mkToken TOKEN_IDENT ''a'' 1 2, mkToken TOKEN_EOF [] 1 3]"

lemma sampleExpr_parse:
  "pExpr (tie (parseFuel sampleExpr)) sampleExpr =
     POk (UnaryExpr (mkPos 1 1) ''-'' (IdentExpr (mkPos 1 2) ''a'')) (advance (advance sampleExpr))"
  "pUnary (tie (parseFuel sampleExpr)) sampleExpr =
     POk (UnaryExpr (mkPos 1 1) ''-'' (IdentExpr (mkPos 1 2) ''a'')) (advance (advance sampleExpr))"
  by code_simp+

text \<open>A reading of expressions as texts: \<open>..\<close> concatenates, \<open>tostring\<close> of a name gives the name.\<close>

fun sampleText :: "Expr \<Rightarrow> bytes" where
  "sampleText (StringLit p t) = t"
| "sampleText (BinaryExpr p l op r) = sampleText l @ sampleText r"
| "sampleText (CallExpr p f [IdentExpr q n]) = n"
| "sampleText e = []"

end
