(* ===== verification/Desugar.thy ===== *)
theory Desugar
  imports Ast
begin

section \<open>Lowering syntax sugar (internal/ast/syntax_desugar.go)\<close>

text \<open>
  \<open>DesugarSyntax\<close> replaces interpolated strings, tagged dialect forms and list literals by
  calls, concatenations and table literals. The methods call each other on subtrees and, in
  \<open>dialectCall\<close>, on trees they have just built, so the recursion is closed the way the parser
  closes its own: the methods take a record of the two recursive entry points, and
  \<open>desugarAt n\<close> allows \<open>n\<close> nested calls. A tree of weight \<open>n\<close> needs no more than \<open>n\<close>
  of them, which \<open>desugar_fuel_enough\<close> states.
\<close>

record desugarers =
  dsExpr :: "Expr \<Rightarrow> Expr"
  dsStmt :: "Stmt \<Rightarrow> Stmt"

definition desugarStmtList :: "desugarers \<Rightarrow> Stmt list \<Rightarrow> Stmt list" where
  "desugarStmtList D stmts = map (dsStmt D) stmts"

definition desugarExprList :: "desugarers \<Rightarrow> Expr list \<Rightarrow> Expr list" where
  "desugarExprList D exprs = map (dsExpr D) exprs"

definition desugarBlock :: "desugarers \<Rightarrow> BlockStmt \<Rightarrow> BlockStmt" where
  "desugarBlock D block = BlockStmt (blockPos block) (desugarStmtList D (blockStmts block))"

definition desugarField :: "desugarers \<Rightarrow> TableField \<Rightarrow> TableField" where
  "desugarField D f = (case f of TableField key v \<Rightarrow> TableField (map_option (dsExpr D) key) (dsExpr D v))"

definition desugarTable :: "desugarers \<Rightarrow> Pos \<Rightarrow> TableField list \<Rightarrow> Expr" where
  "desugarTable D pos fs = TableLitExpr pos (map (desugarField D) fs)"

definition configTable :: "desugarers \<Rightarrow> Pos \<Rightarrow> ConfigField list \<Rightarrow> Expr" where
  "configTable D pos config =
     TableLitExpr pos (map (\<lambda>f. case f of ConfigField p key v \<Rightarrow> TableField (Some (dsExpr D key)) (dsExpr D v)) config)"

definition runtimeTableCall :: "Pos \<Rightarrow> bytes \<Rightarrow> bytes \<Rightarrow> Expr list \<Rightarrow> Expr" where
  "runtimeTableCall pos table fname args = CallExpr pos (FieldExpr pos (IdentExpr pos table) fname) args"

text \<open>The call into the \<open>dialect\<close> library; \<open>opts\<close> is \<open>None\<close> for Go's nil.\<close>

definition dialectCall :: "desugarers \<Rightarrow> Pos \<Rightarrow> bytes \<Rightarrow> bytes \<Rightarrow> Expr \<Rightarrow> Expr option \<Rightarrow> bool \<Rightarrow> Expr" where
  "dialectCall D pos methodName tag body opts failFast =
     (let table = (case opts of Some t \<Rightarrow> t | None \<Rightarrow> TableLitExpr pos []);
          opts' = (case table of
             TableLitExpr p fs \<Rightarrow>
               TableLitExpr p (map (desugarField D) fs
                 @ [TableField (Some (StringLit pos ''fail_fast'')) (BoolLit pos failFast)])
           | other \<Rightarrow> other)
      in runtimeTableCall pos ''dialect'' methodName [StringLit pos tag, dsExpr D body, opts'])"

definition dialectInterpolationArray :: "Pos \<Rightarrow> Expr list \<Rightarrow> Expr" where
  "dialectInterpolationArray pos vals = TableLitExpr pos (map (TableField None) vals)"

text \<open>One part of an interpolation; the last raw part is the one that a text replaces.\<close>

fun interpolationStep :: "desugarers \<Rightarrow> Pos \<Rightarrow> Pos \<Rightarrow> Expr list \<times> Expr list \<Rightarrow> InterpolatedStringPart \<Rightarrow> Expr list \<times> Expr list" where
  "interpolationStep D pos ipos (raw, vals) (InterpolatedStringPart t (Some e)) =
     (raw @ [StringLit pos []], vals @ [dsExpr D e])"
| "interpolationStep D pos ipos (raw, vals) (InterpolatedStringPart t None) =
     (if t \<noteq> [] then (raw[length raw - 1 := StringLit ipos t], vals) else (raw, vals))"

definition interpolationParts :: "desugarers \<Rightarrow> Pos \<Rightarrow> Pos \<Rightarrow> InterpolatedStringPart list \<Rightarrow> Expr list \<times> Expr list" where
  "interpolationParts D pos ipos ps = foldl (interpolationStep D pos ipos) ([StringLit pos []], []) ps"

fun taggedStringBody :: "desugarers \<Rightarrow> Pos \<Rightarrow> bytes \<Rightarrow> Expr \<Rightarrow> Expr" where
  "taggedStringBody D pos tag (InterpolatedStringExpr ipos ps) =
     (let (raw, vals) = interpolationParts D pos ipos ps in
      runtimeTableCall pos ''dialect'' ''interpolate''
        [StringLit pos tag, dialectInterpolationArray pos raw, dialectInterpolationArray pos vals])"
| "taggedStringBody D pos tag body = body"

fun concatPart :: "desugarers \<Rightarrow> Pos \<Rightarrow> InterpolatedStringPart \<Rightarrow> Expr list" where
  "concatPart D pos (InterpolatedStringPart t (Some e)) =
     [CallExpr (exprPos e) (IdentExpr (exprPos e) ''tostring'') [dsExpr D e]]"
| "concatPart D pos (InterpolatedStringPart t None) = (if t \<noteq> [] then [StringLit pos t] else [])"

definition concatChain :: "Expr list \<Rightarrow> Expr option" where
  "concatChain vals =
     (case vals of [] \<Rightarrow> None
      | v # vs \<Rightarrow> Some (foldl (\<lambda>out x. BinaryExpr (exprPos x) out ''..'' x) v vs))"

definition interpolatedStringConcat :: "desugarers \<Rightarrow> Pos \<Rightarrow> InterpolatedStringPart list \<Rightarrow> Expr" where
  "interpolatedStringConcat D pos ps =
     (if ps = [] then StringLit (mkPos 0 0) []
      else case concatChain (concat (map (concatPart D pos) ps)) of
        None \<Rightarrow> StringLit pos []
      | Some e \<Rightarrow> e)"

definition desugarPlainCallExpr :: "desugarers \<Rightarrow> Pos \<Rightarrow> Expr \<Rightarrow> Expr list \<Rightarrow> Expr" where
  "desugarPlainCallExpr D pos fn args = CallExpr pos (dsExpr D fn) (desugarExprList D args)"

fun desugarCallExpr :: "desugarers \<Rightarrow> Expr \<Rightarrow> Expr" where
  "desugarCallExpr D (CallExpr p fn args) = desugarPlainCallExpr D p fn args"
| "desugarCallExpr D (MethodCallExpr p ob m args) = MethodCallExpr p (dsExpr D ob) m (desugarExprList D args)"
| "desugarCallExpr D e = dsExpr D e"

fun desugarExpr :: "desugarers \<Rightarrow> Expr \<Rightarrow> Expr" where
  "desugarExpr D (BinaryExpr p l op r) = BinaryExpr p (dsExpr D l) op (dsExpr D r)"
| "desugarExpr D (UnaryExpr p op e) = UnaryExpr p op (dsExpr D e)"
| "desugarExpr D (InterpolatedStringExpr p ps) = interpolatedStringConcat D p ps"
| "desugarExpr D (TaggedStringExpr p tag body failFast) =
     dialectCall D p ''eval'' tag (taggedStringBody D p tag body) None failFast"
| "desugarExpr D (TaggedBlockExpr p tag config body raw rawExpr hasRaw failFast) =
     (if hasRaw then
        dialectCall D p ''eval'' tag
          (case rawExpr of Some e \<Rightarrow> taggedStringBody D p tag e | None \<Rightarrow> StringLit p raw)
          (Some (TableLitExpr p [TableField (Some (StringLit p ''raw_source'')) (BoolLit p True)])) failFast
      else case body of
        Some b \<Rightarrow> dialectCall D p ''eval_raw'' tag (FuncLitExpr p [] (desugarBlock D b)) None failFast
      | None \<Rightarrow> dialectCall D p ''eval_block'' tag (configTable D p config) None failFast)"
| "desugarExpr D (ParenExpr p e) = ParenExpr p (dsExpr D e)"
| "desugarExpr D (IndexExpr p t i) = IndexExpr p (dsExpr D t) (dsExpr D i)"
| "desugarExpr D (FieldExpr p t f) = FieldExpr p (dsExpr D t) f"
| "desugarExpr D (CallExpr p fn args) = desugarPlainCallExpr D p fn args"
| "desugarExpr D (MethodCallExpr p ob m args) = MethodCallExpr p (dsExpr D ob) m (desugarExprList D args)"
| "desugarExpr D (FuncLitExpr p ps b) = FuncLitExpr p ps (desugarBlock D b)"
| "desugarExpr D (TableLitExpr p fs) = desugarTable D p fs"
| "desugarExpr D (DenseLitExpr p d n vs) = DenseLitExpr p d n (desugarExprList D vs)"
| "desugarExpr D (RecvExpr p c) = RecvExpr p (dsExpr D c)"
| "desugarExpr D (MakeChanExpr p sz) = MakeChanExpr p (map_option (dsExpr D) sz)"
| "desugarExpr D (ListLitExpr p vs) = TableLitExpr p (map (\<lambda>v. TableField None (dsExpr D v)) vs)"
| "desugarExpr D e = e"

definition desugarCase :: "desugarers \<Rightarrow> SelectCase \<Rightarrow> SelectCase" where
  "desugarCase D c = (case c of SelectCase p n m ch v b \<Rightarrow>
     SelectCase p n m (dsExpr D ch) (map_option (dsExpr D) v) (desugarBlock D b))"

definition desugarElseIf :: "desugarers \<Rightarrow> ElseIfClause \<Rightarrow> ElseIfClause" where
  "desugarElseIf D ei = (case ei of ElseIfClause p c b \<Rightarrow> ElseIfClause p (dsExpr D c) (desugarBlock D b))"

fun desugarStmt :: "desugarers \<Rightarrow> Stmt \<Rightarrow> Stmt" where
  "desugarStmt D (DeclareStmt p ns vs ro) = DeclareStmt p ns (desugarExprList D vs) ro"
| "desugarStmt D (AssignStmt p ts vs) = AssignStmt p (desugarExprList D ts) (desugarExprList D vs)"
| "desugarStmt D (CompoundAssignStmt p t op v) = CompoundAssignStmt p (dsExpr D t) op (dsExpr D v)"
| "desugarStmt D (IncDecStmt p t op) = IncDecStmt p (dsExpr D t) op"
| "desugarStmt D (CallStmt p c) = CallStmt p (desugarCallExpr D c)"
| "desugarStmt D (GoStmt p c) = GoStmt p (dsExpr D c)"
| "desugarStmt D (DeferStmt p c) = DeferStmt p (dsExpr D c)"
| "desugarStmt D (SendStmt p c v) = SendStmt p (dsExpr D c) (map_option (dsExpr D) v)"
| "desugarStmt D (SelectStmt p cs d) = SelectStmt p (map (desugarCase D) cs) (map_option (desugarBlock D) d)"
| "desugarStmt D (IfStmt p c b es e) =
     IfStmt p (dsExpr D c) (desugarBlock D b) (map (desugarElseIf D) es) (map_option (desugarBlock D) e)"
| "desugarStmt D (ForNumStmt p i c q b) =
     ForNumStmt p (dsStmt D i) (dsExpr D c) (dsStmt D q) (desugarBlock D b)"
| "desugarStmt D (ForRangeStmt p k v i b) = ForRangeStmt p k v (dsExpr D i) (desugarBlock D b)"
| "desugarStmt D (ForStmt p c b) = ForStmt p (map_option (dsExpr D) c) (desugarBlock D b)"
| "desugarStmt D (ReturnStmt p vs) = ReturnStmt p (desugarExprList D vs)"
| "desugarStmt D (FuncDeclStmt p n ps b) = FuncDeclStmt p n ps (desugarBlock D b)"
| "desugarStmt D (NestedBlock b) = NestedBlock (desugarBlock D b)"
| "desugarStmt D st = st"

primrec desugarAt :: "nat \<Rightarrow> desugarers" where
  "desugarAt 0 = \<lparr>dsExpr = (\<lambda>e. e), dsStmt = (\<lambda>s. s)\<rparr>"
| "desugarAt (Suc n) = \<lparr>dsExpr = desugarExpr (desugarAt n), dsStmt = desugarStmt (desugarAt n)\<rparr>"

text \<open>The entry points at a level of calls, which keep evaluation from unfolding the levels below.\<close>

definition desugarExprAt :: "nat \<Rightarrow> Expr \<Rightarrow> Expr" where
  "desugarExprAt n = dsExpr (desugarAt n)"

definition desugarStmtAt :: "nat \<Rightarrow> Stmt \<Rightarrow> Stmt" where
  "desugarStmtAt n = dsStmt (desugarAt n)"

lemma desugarAt_code: "desugarAt n = \<lparr>dsExpr = desugarExprAt n, dsStmt = desugarStmtAt n\<rparr>"
  by (simp add: desugarExprAt_def desugarStmtAt_def)

lemma desugarEntry_code:
  "desugarExprAt 0 e = e" "desugarExprAt (Suc n) e = desugarExpr (desugarAt n) e"
  "desugarStmtAt 0 st = st" "desugarStmtAt (Suc n) st = desugarStmt (desugarAt n) st"
  by (simp_all add: desugarExprAt_def desugarStmtAt_def)

declare desugarAt.simps [code del] desugarAt_code [code] desugarEntry_code [code]

text \<open>The number of nodes of a tree, a bound on its nesting.\<close>

definition optWeight :: "('a \<Rightarrow> nat) \<Rightarrow> 'a option \<Rightarrow> nat" where
  "optWeight w x = (case x of None \<Rightarrow> 0 | Some y \<Rightarrow> w y)"

primrec exprWeight :: "Expr \<Rightarrow> nat"
  and partWeight :: "InterpolatedStringPart \<Rightarrow> nat"
  and configWeight :: "ConfigField \<Rightarrow> nat"
  and fieldWeight :: "TableField \<Rightarrow> nat"
  and stmtWeight :: "Stmt \<Rightarrow> nat"
  and caseWeight :: "SelectCase \<Rightarrow> nat"
  and elseIfWeight :: "ElseIfClause \<Rightarrow> nat"
  and blockWeight :: "BlockStmt \<Rightarrow> nat"
where
  "exprWeight (NumberLit p v) = 1"
| "exprWeight (StringLit p v) = 1"
| "exprWeight (InterpolatedStringExpr p ps) = Suc (sum_list (map partWeight ps))"
| "exprWeight (BoolLit p b) = 1"
| "exprWeight (NilLit p) = 1"
| "exprWeight (VarArgExpr p) = 1"
| "exprWeight (IdentExpr p n) = 1"
| "exprWeight (TaggedStringExpr p t b f) = Suc (exprWeight b)"
| "exprWeight (TaggedBlockExpr p t c b r e h f) =
     Suc (sum_list (map configWeight c) + optWeight id (map_option blockWeight b)
          + optWeight id (map_option exprWeight e))"
| "exprWeight (BinaryExpr p l op r) = Suc (exprWeight l + exprWeight r)"
| "exprWeight (UnaryExpr p op e) = Suc (exprWeight e)"
| "exprWeight (ParenExpr p e) = Suc (exprWeight e)"
| "exprWeight (IndexExpr p t i) = Suc (exprWeight t + exprWeight i)"
| "exprWeight (FieldExpr p t f) = Suc (exprWeight t)"
| "exprWeight (CallExpr p f a) = Suc (exprWeight f + sum_list (map exprWeight a))"
| "exprWeight (MethodCallExpr p ob m a) = Suc (exprWeight ob + sum_list (map exprWeight a))"
| "exprWeight (FuncLitExpr p ps b) = Suc (blockWeight b)"
| "exprWeight (ListLitExpr p vs) = Suc (sum_list (map exprWeight vs))"
| "exprWeight (TableLitExpr p fs) = Suc (sum_list (map fieldWeight fs))"
| "exprWeight (DenseLitExpr p d n vs) = Suc (sum_list (map exprWeight vs))"
| "exprWeight (RecvExpr p c) = Suc (exprWeight c)"
| "exprWeight (MakeChanExpr p sz) = Suc (optWeight id (map_option exprWeight sz))"
| "partWeight (InterpolatedStringPart t e) = Suc (optWeight id (map_option exprWeight e))"
| "configWeight (ConfigField p k v) = Suc (exprWeight k + exprWeight v)"
| "fieldWeight (TableField k v) = Suc (optWeight id (map_option exprWeight k) + exprWeight v)"
| "stmtWeight (AssignStmt p ts vs) = Suc (sum_list (map exprWeight ts) + sum_list (map exprWeight vs))"
| "stmtWeight (DeclareStmt p ns vs ro) = Suc (sum_list (map exprWeight vs))"
| "stmtWeight (CompoundAssignStmt p t op v) = Suc (exprWeight t + exprWeight v)"
| "stmtWeight (IncDecStmt p t op) = Suc (exprWeight t)"
| "stmtWeight (CallStmt p c) = Suc (exprWeight c)"
| "stmtWeight (GoStmt p c) = Suc (exprWeight c)"
| "stmtWeight (DeferStmt p c) = Suc (exprWeight c)"
| "stmtWeight (SendStmt p c v) = Suc (exprWeight c + optWeight id (map_option exprWeight v))"
| "stmtWeight (SelectStmt p cs d) = Suc (sum_list (map caseWeight cs) + optWeight id (map_option blockWeight d))"
| "stmtWeight (IfStmt p c b es e) =
     Suc (exprWeight c + blockWeight b + sum_list (map elseIfWeight es) + optWeight id (map_option blockWeight e))"
| "stmtWeight (ForNumStmt p i c q b) = Suc (stmtWeight i + exprWeight c + stmtWeight q + blockWeight b)"
| "stmtWeight (ForRangeStmt p k v i b) = Suc (exprWeight i + blockWeight b)"
| "stmtWeight (ForStmt p c b) = Suc (optWeight id (map_option exprWeight c) + blockWeight b)"
| "stmtWeight (ReturnStmt p vs) = Suc (sum_list (map exprWeight vs))"
| "stmtWeight (BreakStmt p) = 1"
| "stmtWeight (ContinueStmt p) = 1"
| "stmtWeight (LabelStmt p n) = 1"
| "stmtWeight (GotoStmt p n) = 1"
| "stmtWeight (EvaluateStmt p n b) = Suc (blockWeight b)"
| "stmtWeight (FuncDeclStmt p n ps b) = Suc (blockWeight b)"
| "stmtWeight (NestedBlock b) = Suc (blockWeight b)"
| "caseWeight (SelectCase p n m c v b) = Suc (exprWeight c + optWeight id (map_option exprWeight v) + blockWeight b)"
| "elseIfWeight (ElseIfClause p c b) = Suc (exprWeight c + blockWeight b)"
| "blockWeight (BlockStmt p ss) = Suc (sum_list (map stmtWeight ss))"

definition cloneFileDirectives :: "FileDirective list \<Rightarrow> FileDirective list" where
  "cloneFileDirectives ds = map (\<lambda>d. d\<lparr>fdArgs := fdArgs d\<rparr>) ds"

definition DesugarSyntax :: "Program \<Rightarrow> Program" where
  "DesugarSyntax prog =
     \<lparr>prStmts = desugarStmtList (desugarAt (sum_list (map stmtWeight (prStmts prog)))) (prStmts prog),
      prFileDirectives = cloneFileDirectives (prFileDirectives prog)\<rparr>"

end
