(* ===== verification/Desugar_Correct.thy ===== *)
theory Desugar_Correct
  imports Desugar
begin

section \<open>Correctness of the lowering\<close>

text \<open>
  \<open>sugarFree\<close> trees have no interpolated strings, tagged forms or list literals; an
  \<open>evaluate\<close> block is passed over, as \<open>DesugarSyntax\<close> does not enter it. On such trees
  desugaring is the identity for any number of nested calls, which makes the second pass of
  \<open>dialectCall\<close> over a body that was already lowered harmless. The result of desugaring is
  always sugar-free, given as many nested calls as the tree has nodes, and more of them
  change nothing.
\<close>

primrec freeExpr :: "Expr \<Rightarrow> bool"
  and freePart :: "InterpolatedStringPart \<Rightarrow> bool"
  and freeConfig :: "ConfigField \<Rightarrow> bool"
  and freeField :: "TableField \<Rightarrow> bool"
  and freeStmt :: "Stmt \<Rightarrow> bool"
  and freeCase :: "SelectCase \<Rightarrow> bool"
  and freeElseIf :: "ElseIfClause \<Rightarrow> bool"
  and freeBlock :: "BlockStmt \<Rightarrow> bool"
where
  "freeExpr (NumberLit p v) = True"
| "freeExpr (StringLit p v) = True"
| "freeExpr (InterpolatedStringExpr p ps) = False"
| "freeExpr (BoolLit p b) = True"
| "freeExpr (NilLit p) = True"
| "freeExpr (VarArgExpr p) = True"
| "freeExpr (IdentExpr p n) = True"
| "freeExpr (TaggedStringExpr p t b f) = False"
| "freeExpr (TaggedBlockExpr p t c b r e h f) = False"
| "freeExpr (BinaryExpr p l op r) = (freeExpr l \<and> freeExpr r)"
| "freeExpr (UnaryExpr p op e) = freeExpr e"
| "freeExpr (ParenExpr p e) = freeExpr e"
| "freeExpr (IndexExpr p t i) = (freeExpr t \<and> freeExpr i)"
| "freeExpr (FieldExpr p t f) = freeExpr t"
| "freeExpr (CallExpr p f a) = (freeExpr f \<and> list_all id (map freeExpr a))"
| "freeExpr (MethodCallExpr p ob m a) = (freeExpr ob \<and> list_all id (map freeExpr a))"
| "freeExpr (FuncLitExpr p ps b) = freeBlock b"
| "freeExpr (ListLitExpr p vs) = False"
| "freeExpr (TableLitExpr p fs) = list_all id (map freeField fs)"
| "freeExpr (DenseLitExpr p d n vs) = list_all id (map freeExpr vs)"
| "freeExpr (RecvExpr p c) = freeExpr c"
| "freeExpr (MakeChanExpr p sz) = pred_option id (map_option freeExpr sz)"
| "freePart (InterpolatedStringPart t e) = pred_option id (map_option freeExpr e)"
| "freeConfig (ConfigField p k v) = (freeExpr k \<and> freeExpr v)"
| "freeField (TableField k v) = (pred_option id (map_option freeExpr k) \<and> freeExpr v)"
| "freeStmt (AssignStmt p ts vs) = (list_all id (map freeExpr ts) \<and> list_all id (map freeExpr vs))"
| "freeStmt (DeclareStmt p ns vs ro) = list_all id (map freeExpr vs)"
| "freeStmt (CompoundAssignStmt p t op v) = (freeExpr t \<and> freeExpr v)"
| "freeStmt (IncDecStmt p t op) = freeExpr t"
| "freeStmt (CallStmt p c) = freeExpr c"
| "freeStmt (GoStmt p c) = freeExpr c"
| "freeStmt (DeferStmt p c) = freeExpr c"
| "freeStmt (SendStmt p c v) = (freeExpr c \<and> pred_option id (map_option freeExpr v))"
| "freeStmt (SelectStmt p cs d) = (list_all id (map freeCase cs) \<and> pred_option id (map_option freeBlock d))"
| "freeStmt (IfStmt p c b es e) = (freeExpr c \<and> freeBlock b \<and> list_all id (map freeElseIf es) \<and> pred_option id (map_option freeBlock e))"
| "freeStmt (ForNumStmt p i c q b) = (freeStmt i \<and> freeExpr c \<and> freeStmt q \<and> freeBlock b)"
| "freeStmt (ForRangeStmt p k v i b) = (freeExpr i \<and> freeBlock b)"
| "freeStmt (ForStmt p c b) = (pred_option id (map_option freeExpr c) \<and> freeBlock b)"
| "freeStmt (ReturnStmt p vs) = list_all id (map freeExpr vs)"
| "freeStmt (BreakStmt p) = True"
| "freeStmt (ContinueStmt p) = True"
| "freeStmt (LabelStmt p n) = True"
| "freeStmt (GotoStmt p n) = True"
| "freeStmt (EvaluateStmt p n b) = True"
| "freeStmt (FuncDeclStmt p n ps b) = freeBlock b"
| "freeStmt (NestedBlock b) = freeBlock b"
| "freeCase (SelectCase p n m c v b) = (freeExpr c \<and> pred_option id (map_option freeExpr v) \<and> freeBlock b)"
| "freeElseIf (ElseIfClause p c b) = (freeExpr c \<and> freeBlock b)"
| "freeBlock (BlockStmt p ss) = list_all id (map freeStmt ss)"

lemma list_all_id [simp]: "list_all id (map f xs) = list_all f xs"
  by (simp add: list.pred_map)

lemma pred_option_id [simp]: "pred_option id (map_option f x) = pred_option f x"
  by (simp add: option.pred_map)

lemma optWeight_simps [simp]:
  "optWeight id (map_option f x) = optWeight f x" "optWeight f None = 0" "optWeight f (Some y) = f y"
  by (cases x) (simp_all add: optWeight_def)

definition sugarFree :: "Program \<Rightarrow> bool" where
  "sugarFree prog \<longleftrightarrow> list_all freeStmt (prStmts prog)"

subsection \<open>Entry points that leave sugar-free trees alone\<close>

lemma map_idle: "list_all P xs \<Longrightarrow> (\<And>x. P x \<Longrightarrow> f x = x) \<Longrightarrow> map f xs = xs"
  by (induction xs) auto

lemma option_idle: "pred_option P x \<Longrightarrow> (\<And>y. P y \<Longrightarrow> f y = y) \<Longrightarrow> map_option f x = x"
  by (cases x) auto

locale idle_desugarers =
  fixes D :: desugarers
  assumes idle_expr: "freeExpr e \<Longrightarrow> dsExpr D e = e"
    and idle_stmt: "freeStmt s \<Longrightarrow> dsStmt D s = s"
begin

lemma idle_exprs: "list_all freeExpr es \<Longrightarrow> desugarExprList D es = es"
  by (simp add: desugarExprList_def map_idle [of freeExpr] idle_expr)

lemma idle_option: "pred_option freeExpr x \<Longrightarrow> map_option (dsExpr D) x = x"
  by (rule option_idle [of freeExpr]) (simp_all add: idle_expr)

lemma idle_block: "freeBlock b \<Longrightarrow> desugarBlock D b = b"
  by (cases b) (simp add: desugarBlock_def desugarStmtList_def map_idle [of freeStmt] idle_stmt)

lemma idle_field: "freeField f \<Longrightarrow> desugarField D f = f"
  by (cases f) (simp add: desugarField_def idle_option idle_expr)

lemma idle_case: "freeCase c \<Longrightarrow> desugarCase D c = c"
  by (cases c) (simp add: desugarCase_def idle_option idle_expr idle_block)

lemma idle_elseif: "freeElseIf c \<Longrightarrow> desugarElseIf D c = c"
  by (cases c) (simp add: desugarElseIf_def idle_expr idle_block)

lemmas idle_simps = idle_expr idle_stmt idle_exprs idle_option idle_block
  map_idle [of freeField, OF _ idle_field] map_idle [of freeCase, OF _ idle_case]
  map_idle [of freeElseIf, OF _ idle_elseif] option_idle [of freeBlock, OF _ idle_block]

lemma step_expr: "freeExpr e \<Longrightarrow> desugarExpr D e = e"
  by (cases e) (simp_all add: idle_simps desugarPlainCallExpr_def desugarTable_def)

lemma step_call: "freeExpr e \<Longrightarrow> desugarCallExpr D e = e"
  by (cases e) (simp_all add: idle_simps desugarPlainCallExpr_def)

lemma step_stmt: "freeStmt s \<Longrightarrow> desugarStmt D s = s"
  by (cases s) (simp_all add: idle_simps step_call)

lemma step: "idle_desugarers \<lparr>dsExpr = desugarExpr D, dsStmt = desugarStmt D\<rparr>"
  by unfold_locales (simp_all add: step_expr step_stmt)

end

lemma desugarAt_idle: "idle_desugarers (desugarAt n)"
proof (induction n)
  case 0
  show ?case by unfold_locales simp_all
next
  case (Suc n)
  then show ?case using idle_desugarers.step by simp
qed

interpretation idle_at: idle_desugarers "desugarAt n" for n
  by (rule desugarAt_idle)

subsection \<open>Entry points that remove the sugar\<close>

lemma exprWeight_pos [simp]: "exprWeight e \<noteq> 0"
  by (cases e) simp_all

lemma stmtWeight_pos [simp]: "stmtWeight s \<noteq> 0"
  by (cases s) simp_all

lemma sum_list_member_le: "x \<in> set xs \<Longrightarrow> f x \<le> sum_list (map f xs :: nat list)"
  by (induction xs) auto

text \<open>Trees of weight at most \<open>N\<close> come out sugar-free.\<close>

locale lowering_desugarers = idle_desugarers +
  fixes N :: nat
  assumes lower_expr: "exprWeight e \<le> N \<Longrightarrow> freeExpr (dsExpr D e)"
    and lower_stmt: "stmtWeight s \<le> N \<Longrightarrow> freeStmt (dsStmt D s)"
begin

lemma lower_exprs: "sum_list (map exprWeight es) \<le> N \<Longrightarrow> list_all freeExpr (desugarExprList D es)"
  unfolding desugarExprList_def list_all_iff
  by (auto intro!: lower_expr intro: le_trans [OF sum_list_member_le])

lemma lower_option: "optWeight exprWeight x \<le> N \<Longrightarrow> pred_option freeExpr (map_option (dsExpr D) x)"
  by (cases x) (auto intro: lower_expr)

lemma lower_block: "blockWeight b \<le> Suc N \<Longrightarrow> freeBlock (desugarBlock D b)"
  by (cases b) (auto simp: desugarBlock_def desugarStmtList_def list_all_iff
      intro!: lower_stmt intro: le_trans [OF sum_list_member_le])

lemma lower_block_option: "optWeight blockWeight x \<le> Suc N \<Longrightarrow> pred_option freeBlock (map_option (desugarBlock D) x)"
  by (cases x) (auto intro: lower_block)

lemma lower_field: "fieldWeight f \<le> Suc N \<Longrightarrow> freeField (desugarField D f)"
  by (cases f) (simp add: desugarField_def lower_option lower_expr)

lemma lower_case: "caseWeight c \<le> Suc N \<Longrightarrow> freeCase (desugarCase D c)"
  by (cases c) (simp add: desugarCase_def lower_option lower_expr lower_block)

lemma lower_elseif: "elseIfWeight c \<le> Suc N \<Longrightarrow> freeElseIf (desugarElseIf D c)"
  by (cases c) (simp add: desugarElseIf_def lower_expr lower_block)

lemma lower_list:
  assumes "\<And>x. w x \<le> Suc N \<Longrightarrow> P (f x)" "sum_list (map w xs) \<le> Suc N"
  shows "list_all (P \<circ> f) xs"
  using assms le_trans [OF sum_list_member_le] by (fastforce simp: list_all_iff)

lemmas lower_lists = lower_list [of fieldWeight freeField "desugarField D", OF lower_field]
  lower_list [of caseWeight freeCase "desugarCase D", OF lower_case]
  lower_list [of elseIfWeight freeElseIf "desugarElseIf D", OF lower_elseif]

lemmas lower_simps = lower_expr lower_stmt lower_exprs lower_option lower_block lower_block_option

text \<open>A body that is sugar-free already passes through \<open>dialectCall\<close> unchanged.\<close>

lemma free_dialectCall:
  "freeExpr body \<Longrightarrow> opts = None \<or> (\<exists>p fs. opts = Some (TableLitExpr p fs) \<and> list_all freeField fs) \<Longrightarrow>
   freeExpr (dialectCall D pos m tag body opts ff)"
  by (auto simp: dialectCall_def runtimeTableCall_def Let_def idle_expr idle_simps)

lemma free_configTable: "sum_list (map configWeight cs) \<le> N \<Longrightarrow> freeExpr (configTable D pos cs)"
proof -
  assume *: "sum_list (map configWeight cs) \<le> N"
  have "freeField (case f of ConfigField p k v \<Rightarrow> TableField (Some (dsExpr D k)) (dsExpr D v))" if "f \<in> set cs" for f
    using sum_list_member_le [OF that, of configWeight] * by (cases f) (simp add: lower_expr)
  then show ?thesis by (auto simp: configTable_def list_all_iff)
qed

lemma free_interpolationParts:
  "sum_list (map partWeight ps) \<le> Suc N \<Longrightarrow> list_all freeExpr raw \<Longrightarrow> list_all freeExpr vals \<Longrightarrow>
   list_all freeExpr (fst (foldl (interpolationStep D pos ipos) (raw, vals) ps)) \<and>
   list_all freeExpr (snd (foldl (interpolationStep D pos ipos) (raw, vals) ps))"
proof (induction ps arbitrary: raw vals)
  case (Cons a ps)
  obtain t eo where a: "a = InterpolatedStringPart t eo" by (cases a)
  show ?case
  proof (cases eo)
    case None
    have "list_all freeExpr (raw[i := StringLit ipos t])" for i
      using Cons.prems(2) by (auto simp: list_all_iff dest!: set_update_subset_insert [THEN subsetD])
    with Cons a None show ?thesis by simp
  next
    case (Some e)
    with Cons.prems a have "exprWeight e \<le> N" by simp
    with Cons a Some show ?thesis by (simp add: lower_expr)
  qed
qed simp

lemma free_interpolationArray: "list_all freeExpr vs \<Longrightarrow> freeExpr (dialectInterpolationArray pos vs)"
  by (auto simp: dialectInterpolationArray_def list_all_iff)

lemma free_taggedStringBody:
  assumes "exprWeight b \<le> N"
  shows "freeExpr (dsExpr D (taggedStringBody D pos tag b)) \<and>
    (\<forall>p ps. b = InterpolatedStringExpr p ps \<longrightarrow> freeExpr (taggedStringBody D pos tag b))"
proof (cases "\<exists>p ps. b = InterpolatedStringExpr p ps")
  case True
  then obtain p ps where b: "b = InterpolatedStringExpr p ps" by blast
  obtain raw vals where rv: "interpolationParts D pos p ps = (raw, vals)" by fastforce
  have "list_all freeExpr raw \<and> list_all freeExpr vals"
    using free_interpolationParts [of ps "[StringLit pos []]" "[]" pos p] assms b rv
    by (simp add: interpolationParts_def)
  then have "freeExpr (taggedStringBody D pos tag b)"
    using b rv by (simp add: runtimeTableCall_def free_interpolationArray)
  then show ?thesis using idle_expr by auto
next
  case False
  then have "taggedStringBody D pos tag b = b" by (cases b) auto
  with False assms show ?thesis by (simp add: lower_expr)
qed

lemma free_concatChain: "list_all freeExpr vs \<Longrightarrow> concatChain vs = Some e \<Longrightarrow> freeExpr e"
proof -
  have fold: "freeExpr v \<Longrightarrow> list_all freeExpr vs \<Longrightarrow> freeExpr (foldl (\<lambda>out x. BinaryExpr (exprPos x) out ''..'' x) v vs)" for v vs
    by (induction vs arbitrary: v) auto
  show "list_all freeExpr vs \<Longrightarrow> concatChain vs = Some e \<Longrightarrow> freeExpr e"
    by (auto simp: concatChain_def fold split: list.splits)
qed

lemma free_concatPart: "partWeight p \<le> Suc N \<Longrightarrow> list_all freeExpr (concatPart D pos p)"
  by (cases "(D, pos, p)" rule: concatPart.cases) (auto simp: lower_expr)

lemma free_interpolatedStringConcat:
  assumes "sum_list (map partWeight ps) \<le> N"
  shows "freeExpr (interpolatedStringConcat D pos ps)"
proof -
  have "list_all freeExpr (concat (map (concatPart D pos) ps))"
  proof -
    have "list_all freeExpr (concatPart D pos p)" if "p \<in> set ps" for p
      by (rule free_concatPart) (use sum_list_member_le [OF that, of partWeight] assms in simp)
    then show ?thesis by (auto simp: list_all_iff)
  qed
  then show ?thesis
    by (auto simp: interpolatedStringConcat_def split: option.splits intro: free_concatChain)
qed

lemma lowered_expr: "exprWeight e \<le> Suc N \<Longrightarrow> freeExpr (desugarExpr D e)"
proof (cases e)
  case (TaggedStringExpr p tag body ff)
  assume "exprWeight e \<le> Suc N"
  with TaggedStringExpr have "freeExpr (dsExpr D (taggedStringBody D p tag body))"
    using free_taggedStringBody by simp
  with TaggedStringExpr show ?thesis by (simp add: dialectCall_def runtimeTableCall_def)
next
  case (TaggedBlockExpr p tag config body raw rawExpr hasRaw ff)
  assume w: "exprWeight e \<le> Suc N"
  have "freeExpr (dsExpr D (case rawExpr of Some e \<Rightarrow> taggedStringBody D p tag e | None \<Rightarrow> StringLit p raw))"
    using w TaggedBlockExpr free_taggedStringBody by (auto simp: idle_expr split: option.split)
  then have "freeExpr (dialectCall D p ''eval'' tag
      (case rawExpr of Some e \<Rightarrow> taggedStringBody D p tag e | None \<Rightarrow> StringLit p raw)
      (Some (TableLitExpr p [TableField (Some (StringLit p ''raw_source'')) (BoolLit p True)])) ff)"
    by (simp add: dialectCall_def runtimeTableCall_def desugarField_def idle_expr)
  then show ?thesis
    using w TaggedBlockExpr
    by (auto simp: lower_block free_configTable intro!: free_dialectCall split: option.split)
next
  case (ListLitExpr p vs)
  assume "exprWeight e \<le> Suc N"
  with ListLitExpr show ?thesis
    by (auto simp: list_all_iff intro!: lower_expr intro: le_trans [OF sum_list_member_le])
qed (simp_all add: lower_simps lower_lists desugarPlainCallExpr_def desugarTable_def free_interpolatedStringConcat)

lemma lowered_stmt: "stmtWeight s \<le> Suc N \<Longrightarrow> freeStmt (desugarStmt D s)"
proof (cases s)
  case (CallStmt p c)
  assume "stmtWeight s \<le> Suc N"
  with CallStmt have "freeExpr (desugarCallExpr D c)"
    by (cases "(D, c)" rule: desugarCallExpr.cases) (simp_all add: lower_simps desugarPlainCallExpr_def)
  with CallStmt show ?thesis by simp
qed (simp_all add: lower_simps lower_lists)

lemma lowered: "lowering_desugarers \<lparr>dsExpr = desugarExpr D, dsStmt = desugarStmt D\<rparr> (Suc N)"
  using step lowered_expr lowered_stmt
  by (simp add: lowering_desugarers_def lowering_desugarers_axioms_def)

end

lemma desugarAt_lowering: "lowering_desugarers (desugarAt n) n"
proof (induction n)
  case 0
  show ?case by unfold_locales simp_all
next
  case (Suc n)
  then show ?case using lowering_desugarers.lowered by simp
qed

interpretation lower_at: lowering_desugarers "desugarAt n" n for n
  by (rule desugarAt_lowering)

subsection \<open>More nested calls change nothing\<close>

text \<open>Two pairs of entry points that give the same result on every tree of weight at most \<open>N\<close>.\<close>

locale agreeing_desugarers =
  lowering_desugarers D N + other: lowering_desugarers D' N for D D' N +
  assumes agree_expr: "exprWeight e \<le> N \<Longrightarrow> dsExpr D e = dsExpr D' e"
    and agree_stmt: "stmtWeight s \<le> N \<Longrightarrow> dsStmt D s = dsStmt D' s"
begin

lemma agree_exprs: "sum_list (map exprWeight es) \<le> N \<Longrightarrow> desugarExprList D es = desugarExprList D' es"
  unfolding desugarExprList_def
  by (auto intro!: agree_expr intro: le_trans [OF sum_list_member_le])

lemma agree_option: "optWeight exprWeight x \<le> N \<Longrightarrow> map_option (dsExpr D) x = map_option (dsExpr D') x"
  by (cases x) (auto intro: agree_expr)

lemma agree_block: "blockWeight b \<le> Suc N \<Longrightarrow> desugarBlock D b = desugarBlock D' b"
  by (cases b) (auto simp: desugarBlock_def desugarStmtList_def
      intro!: agree_stmt intro: le_trans [OF sum_list_member_le])

lemma agree_block_option:
  "optWeight blockWeight x \<le> Suc N \<Longrightarrow> map_option (desugarBlock D) x = map_option (desugarBlock D') x"
  by (cases x) (auto intro: agree_block)

lemma agree_field: "fieldWeight f \<le> Suc N \<Longrightarrow> desugarField D f = desugarField D' f"
  by (cases f) (simp add: desugarField_def agree_option agree_expr)

lemma agree_case: "caseWeight c \<le> Suc N \<Longrightarrow> desugarCase D c = desugarCase D' c"
  by (cases c) (simp add: desugarCase_def agree_option agree_expr agree_block)

lemma agree_elseif: "elseIfWeight c \<le> Suc N \<Longrightarrow> desugarElseIf D c = desugarElseIf D' c"
  by (cases c) (simp add: desugarElseIf_def agree_expr agree_block)

lemma agree_list:
  assumes "\<And>x. w x \<le> (M :: nat) \<Longrightarrow> f x = g x" "sum_list (map w xs) \<le> M"
  shows "map f xs = map g xs"
proof (rule map_cong [OF refl])
  fix x assume "x \<in> set xs"
  from sum_list_member_le [OF this, of w] assms show "f x = g x" by simp
qed

lemmas agree_lists = agree_list [of fieldWeight, OF agree_field]
  agree_list [of caseWeight, OF agree_case] agree_list [of elseIfWeight, OF agree_elseif]

lemmas agree_simps = agree_expr agree_stmt agree_exprs agree_option agree_block agree_block_option

lemma agree_free: "freeExpr e \<Longrightarrow> dsExpr D e = dsExpr D' e"
  by (simp add: idle_expr other.idle_expr)

lemma agree_configTable:
  assumes "sum_list (map configWeight cs) \<le> N"
  shows "configTable D pos cs = configTable D' pos cs"
  unfolding configTable_def
proof (intro arg_cong [of _ _ "TableLitExpr pos"] map_cong [OF refl])
  fix c assume "c \<in> set cs"
  from sum_list_member_le [OF this, of configWeight] assms
  show "(case c of ConfigField p k v \<Rightarrow> TableField (Some (dsExpr D k)) (dsExpr D v)) =
    (case c of ConfigField p k v \<Rightarrow> TableField (Some (dsExpr D' k)) (dsExpr D' v))"
    by (cases c) (simp add: agree_expr)
qed

lemma agree_interpolationParts:
  assumes "sum_list (map partWeight ps) \<le> Suc N"
  shows "interpolationParts D pos ipos ps = interpolationParts D' pos ipos ps"
proof -
  have "interpolationStep D pos ipos acc p = interpolationStep D' pos ipos acc p" if "p \<in> set ps" for acc p
  proof -
    have "partWeight p \<le> Suc N"
      using sum_list_member_le [OF that, of partWeight] assms by simp
    then show ?thesis
      by (cases "(D, pos, ipos, acc, p)" rule: interpolationStep.cases) (auto simp: agree_expr)
  qed
  then show ?thesis
    unfolding interpolationParts_def by (intro foldl_cong) auto
qed

lemma agree_taggedStringBody:
  assumes "exprWeight b \<le> N"
  shows "taggedStringBody D pos tag b = taggedStringBody D' pos tag b"
    and "dsExpr D (taggedStringBody D pos tag b) = dsExpr D' (taggedStringBody D pos tag b)"
proof -
  show "taggedStringBody D pos tag b = taggedStringBody D' pos tag b"
    using assms agree_interpolationParts by (cases b) auto
  show "dsExpr D (taggedStringBody D pos tag b) = dsExpr D' (taggedStringBody D pos tag b)"
  proof (cases "\<exists>p ps. b = InterpolatedStringExpr p ps")
    case True
    with assms free_taggedStringBody show ?thesis by (blast intro: agree_free)
  next
    case False
    then have "taggedStringBody D pos tag b = b" by (cases b) auto
    with assms show ?thesis by (simp add: agree_expr)
  qed
qed

lemma agree_interpolatedStringConcat:
  assumes "sum_list (map partWeight ps) \<le> N"
  shows "interpolatedStringConcat D pos ps = interpolatedStringConcat D' pos ps"
proof -
  have "concatPart D pos p = concatPart D' pos p" if "p \<in> set ps" for p
  proof -
    have "partWeight p \<le> Suc N"
      using sum_list_member_le [OF that, of partWeight] assms by simp
    then show ?thesis
      by (cases "(D, pos, p)" rule: concatPart.cases) (auto simp: agree_expr)
  qed
  then have "map (concatPart D pos) ps = map (concatPart D' pos) ps" by simp
  then show ?thesis by (simp only: interpolatedStringConcat_def)
qed

lemma agree_dialectCall:
  assumes "dsExpr D body = dsExpr D' body"
    "opts = None \<or> (\<exists>p fs. opts = Some (TableLitExpr p fs) \<and> list_all freeField fs)"
  shows "dialectCall D pos m tag body opts ff = dialectCall D' pos m tag body opts ff"
  using assms by (auto simp: dialectCall_def Let_def idle_simps other.idle_simps)

lemma agreed_expr: "exprWeight e \<le> Suc N \<Longrightarrow> desugarExpr D e = desugarExpr D' e"
proof (cases e)
  case (TaggedStringExpr p tag body ff)
  assume "exprWeight e \<le> Suc N"
  then have "exprWeight body \<le> N" using TaggedStringExpr by simp
  from agree_taggedStringBody [OF this] show ?thesis
    using TaggedStringExpr by (simp add: agree_dialectCall)
next
  case (TaggedBlockExpr p tag config body raw rawExpr hasRaw ff)
  assume w: "exprWeight e \<le> Suc N"
  have "freeExpr (configTable D p config)" "configTable D p config = configTable D' p config"
    using w TaggedBlockExpr free_configTable agree_configTable by simp_all
  note config = this agree_dialectCall [OF agree_free [OF this(1)]]
  have block: "freeBlock (desugarBlock D b)" "desugarBlock D b = desugarBlock D' b" if "body = Some b" for b
    using w TaggedBlockExpr that lower_block agree_block by simp_all
  have rawBody: "taggedStringBody D p tag b = taggedStringBody D' p tag b"
    "dsExpr D (taggedStringBody D p tag b) = dsExpr D' (taggedStringBody D p tag b)" if "rawExpr = Some b" for b
    using w TaggedBlockExpr that agree_taggedStringBody by simp_all
  show ?thesis
    unfolding TaggedBlockExpr using config block rawBody
    by (cases rawExpr; cases body) (auto intro!: agree_dialectCall agree_free)
next
  case (ListLitExpr p vs)
  assume "exprWeight e \<le> Suc N"
  with ListLitExpr agree_list [of exprWeight N "\<lambda>v. TableField None (dsExpr D v)"]
  show ?thesis by (simp add: agree_expr)
qed (simp_all add: agree_simps agree_lists desugarPlainCallExpr_def desugarTable_def
    agree_interpolatedStringConcat)

lemma agreed_stmt: "stmtWeight s \<le> Suc N \<Longrightarrow> desugarStmt D s = desugarStmt D' s"
proof (cases s)
  case (CallStmt p c)
  assume "stmtWeight s \<le> Suc N"
  with CallStmt have "desugarCallExpr D c = desugarCallExpr D' c"
    by (cases c) (simp_all add: agree_simps desugarPlainCallExpr_def)
  with CallStmt show ?thesis by simp
qed (simp_all add: agree_simps agree_lists)

end

text \<open>
  The lowering without a bound on nested calls: each tree gets as many as it has nodes.
\<close>

definition lowering :: desugarers where
  "lowering = \<lparr>dsExpr = (\<lambda>e. dsExpr (desugarAt (exprWeight e)) e),
               dsStmt = (\<lambda>s. dsStmt (desugarAt (stmtWeight s)) s)\<rparr>"

interpretation lowering_lower: lowering_desugarers lowering N for N
  by unfold_locales
    (simp_all add: lowering_def idle_at.idle_expr idle_at.idle_stmt lower_at.lower_expr lower_at.lower_stmt)

lemma lowering_desugarers_mono: "lowering_desugarers D m \<Longrightarrow> n \<le> m \<Longrightarrow> lowering_desugarers D n"
  by (auto simp: lowering_desugarers_def lowering_desugarers_axioms_def)

lemma desugarAt_agree: "n \<le> m \<Longrightarrow> agreeing_desugarers (desugarAt n) (desugarAt m) n"
proof (induction n arbitrary: m)
  case 0
  have "lowering_desugarers (desugarAt m) 0" for m
    using lowering_desugarers_mono [OF desugarAt_lowering, of 0 m] by simp
  from this [of 0] this [of m] show ?case
    by (simp add: agreeing_desugarers_def agreeing_desugarers_axioms_def)
next
  case (Suc n)
  then obtain k where m: "m = Suc k" "n \<le> k" by (cases m) auto
  have "lowering_desugarers (desugarAt j) (Suc n)" if "Suc n \<le> j" for j
    using lowering_desugarers_mono [OF desugarAt_lowering that] .
  from this [of "Suc n"] this [OF Suc.prems] show ?case
    using m agreeing_desugarers.agreed_expr [OF Suc.IH [OF m(2)]]
      agreeing_desugarers.agreed_stmt [OF Suc.IH [OF m(2)]]
    by (simp add: agreeing_desugarers_def agreeing_desugarers_axioms_def)
qed

lemma lowering_simps:
  "dsExpr lowering e = dsExpr (desugarAt (exprWeight e)) e"
  "dsStmt lowering s = dsStmt (desugarAt (stmtWeight s)) s"
  by (simp_all add: lowering_def)

lemma desugarAt_lowering_agree: "agreeing_desugarers (desugarAt n) lowering n"
  using desugarAt_lowering [of n] lowering_lower.lowering_desugarers_axioms
    agreeing_desugarers.agree_expr [OF desugarAt_agree] agreeing_desugarers.agree_stmt [OF desugarAt_agree]
  by (auto simp: agreeing_desugarers_def agreeing_desugarers_axioms_def lowering_simps)

interpretation agree_at: agreeing_desugarers "desugarAt n" lowering n for n
  by (rule desugarAt_lowering_agree)

text \<open>The unbounded lowering satisfies the equations of the code.\<close>

lemma lowering_expr: "dsExpr lowering e = desugarExpr lowering e"
proof -
  obtain n where n: "exprWeight e = Suc n" using exprWeight_pos not0_implies_Suc by blast
  then have "dsExpr lowering e = desugarExpr (desugarAt n) e" by (simp add: lowering_simps)
  also have "\<dots> = desugarExpr lowering e" using n by (simp add: agree_at.agreed_expr)
  finally show ?thesis .
qed

lemma lowering_stmt: "dsStmt lowering s = desugarStmt lowering s"
proof -
  obtain n where n: "stmtWeight s = Suc n" using stmtWeight_pos not0_implies_Suc by blast
  then have "dsStmt lowering s = desugarStmt (desugarAt n) s" by (simp add: lowering_simps)
  also have "\<dots> = desugarStmt lowering s" using n by (simp add: agree_at.agreed_stmt)
  finally show ?thesis .
qed

lemma lowering_stmts:
  "sum_list (map stmtWeight ss) \<le> n \<Longrightarrow> desugarStmtList (desugarAt n) ss = desugarStmtList lowering ss"
  unfolding desugarStmtList_def
  by (auto intro!: agree_at.agree_stmt intro: le_trans [OF sum_list_member_le])

lemma DesugarSyntax_lowering:
  "DesugarSyntax prog = \<lparr>prStmts = map (dsStmt lowering) (prStmts prog),
     prFileDirectives = prFileDirectives prog\<rparr>"
  by (simp add: DesugarSyntax_def lowering_stmts cloneFileDirectives_def) (simp add: desugarStmtList_def)

end
