(* ===== verification/Desugar_Meaning.thy ===== *)
theory Desugar_Meaning
  imports Desugar_Correct Well_Formed
begin

section \<open>What the lowered expressions mean\<close>

text \<open>
  The two lowerings of an interpolated string keep its pieces in order: as a chain of
  concatenations, and, under a tag, as the array of texts and the array of values that
  \<open>dialect.interpolate\<close> receives. The arguments are over any meaning of expressions that
  reads \<open>..\<close> as concatenation and a string literal as its text.
\<close>

text \<open>
  \<open>weave raw vals\<close> is the sequence of literal texts and values that the raw array and the value
  array of \<open>dialect.interpolate\<close> stand for: \<open>raw[0], vals[0], raw[1], vals[1], \<dots>\<close>, empty texts
  left out.
\<close>

fun weave :: "Expr list \<Rightarrow> Expr list \<Rightarrow> (bytes + Expr) list" where
  "weave (StringLit p t # raw) vals =
     (if t = [] then [] else [Inl t]) @ (case vals of [] \<Rightarrow> [] | v # vs \<Rightarrow> Inr v # weave raw vs)"
| "weave raw vals = []"

text \<open>The pieces of an interpolated string in the source, values already lowered.\<close>

definition partPiece :: "desugarers \<Rightarrow> InterpolatedStringPart \<Rightarrow> bytes + Expr" where
  "partPiece D p = (case p of InterpolatedStringPart t eo \<Rightarrow>
     (case eo of Some e \<Rightarrow> Inr (dsExpr D e) | None \<Rightarrow> Inl t))"

fun isStringLit :: "Expr \<Rightarrow> bool" where
  "isStringLit (StringLit p t) = True"
| "isStringLit e = False"

lemma weave_value:
  "list_all isStringLit raw \<Longrightarrow> raw \<noteq> [] \<Longrightarrow> length raw = Suc (length vals) \<Longrightarrow>
   weave (raw @ [StringLit p []]) (vals @ [v]) = weave raw vals @ [Inr v]"
proof (induction raw vals rule: weave.induct)
  case (1 q t raw vals)
  then show ?case by (cases vals; cases raw) auto
qed auto

lemma weave_text:
  "list_all isStringLit raw \<Longrightarrow> length raw = length vals \<Longrightarrow> t \<noteq> [] \<Longrightarrow>
   weave (raw @ [StringLit q t]) vals = weave (raw @ [StringLit p []]) vals @ [Inl t]"
proof (induction raw vals rule: weave.induct)
  case (1 q t raw vals)
  then show ?case by (cases vals) auto
qed (auto split: list.splits elim: isStringLit.elims)

text \<open>
  The loop over the parts: \<open>pieces\<close> have been read, and the last raw text is still empty unless
  the last part was a text.
\<close>

definition woven :: "(bytes + Expr) list \<Rightarrow> bool \<Rightarrow> Expr list \<times> Expr list \<Rightarrow> bool" where
  "woven pieces afterText acc \<longleftrightarrow>
     list_all isStringLit (fst acc) \<and> length (fst acc) = Suc (length (snd acc)) \<and>
     weave (fst acc) (snd acc) = pieces \<and> (\<not> afterText \<longrightarrow> (\<exists>p. last (fst acc) = StringLit p []))"

lemma woven_value:
  "woven pieces b (raw, vals) \<Longrightarrow>
   woven (pieces @ [Inr v]) False (raw @ [StringLit p []], vals @ [v])"
  using weave_value [of raw vals p v] by (cases raw) (auto simp: woven_def)

lemma woven_text:
  assumes "woven pieces False (raw, vals)" "t \<noteq> []"
  shows "woven (pieces @ [Inl t]) True (raw[length raw - 1 := StringLit p t], vals)"
proof -
  obtain q where q: "last raw = StringLit q []" "raw \<noteq> []"
    using assms(1) by (cases raw) (auto simp: woven_def)
  define ini where "ini = butlast raw"
  have raw: "raw = ini @ [StringLit q []]" using q by (metis ini_def append_butlast_last_id)
  moreover from this assms(1) have len: "length vals = length ini" by (simp add: woven_def)
  ultimately show ?thesis using assms weave_text [of ini vals t p q]
    by (simp add: woven_def list_update_append)
qed

lemma woven_step:
  assumes "woven pieces b (raw, vals)" "okPart x" "\<not> (b \<and> isTextPart x)"
  shows "woven (pieces @ [partPiece D x]) (isTextPart x) (interpolationStep D pos ipos (raw, vals) x)"
proof (cases "(D, pos, ipos, (raw, vals), x)" rule: interpolationStep.cases)
  case (1 D pos ipos raw' vals' t e)
  with assms show ?thesis by (simp add: partPiece_def woven_value)
next
  case (2 D pos ipos raw' vals' t)
  with assms woven_text [of pieces raw vals t ipos] show ?thesis by (auto simp: partPiece_def)
qed

lemma woven_parts:
  "woven pieces b acc \<Longrightarrow> list_all okPart ps \<Longrightarrow> textsApart ps \<Longrightarrow> \<not> (b \<and> ps \<noteq> [] \<and> isTextPart (hd ps)) \<Longrightarrow>
   \<exists>b'. woven (pieces @ map (partPiece D) ps) b' (foldl (interpolationStep D pos ipos) acc ps)"
proof (induction ps arbitrary: pieces b acc)
  case (Cons x ps)
  obtain raw vals where acc: "acc = (raw, vals)" by (cases acc)
  have "woven (pieces @ [partPiece D x]) (isTextPart x) (interpolationStep D pos ipos acc x)"
    using Cons.prems acc by (auto intro!: woven_step)
  moreover have "textsApart ps" "\<not> (isTextPart x \<and> ps \<noteq> [] \<and> isTextPart (hd ps))"
    using Cons.prems(3) by (cases ps; simp)+
  ultimately show ?case using Cons.IH Cons.prems(2) by fastforce
qed auto

lemma interpolationParts_weave:
  assumes "list_all okPart ps" "textsApart ps" "interpolationParts D pos ipos ps = (raw, vals)"
  shows "weave raw vals = map (partPiece D) ps" "length raw = Suc (length vals)" "list_all isStringLit raw"
proof -
  have "woven [] False ([StringLit pos []], [])" by (simp add: woven_def)
  from woven_parts [OF this assms(1,2), of D pos ipos] assms(3)
  show "weave raw vals = map (partPiece D) ps" "length raw = Suc (length vals)" "list_all isStringLit raw"
    by (auto simp: interpolationParts_def woven_def)
qed

subsection \<open>The chain of concatenations\<close>

lemma concatChain_text:
  assumes "\<And>p l r. ev (BinaryExpr p l ''..'' r) = ev l @ (ev r :: bytes)"
  shows "concatChain es = Some e \<Longrightarrow> ev e = concat (map ev es)" "concatChain es = None \<longleftrightarrow> es = []"
proof -
  have fold: "ev (foldl (\<lambda>out x. BinaryExpr (exprPos x) out ''..'' x) v vs) = ev v @ concat (map ev vs)" for v vs
    by (induction vs arbitrary: v) (auto simp: assms)
  show "concatChain es = Some e \<Longrightarrow> ev e = concat (map ev es)"
    by (auto simp: concatChain_def fold split: list.splits)
  show "concatChain es = None \<longleftrightarrow> es = []" by (auto simp: concatChain_def split: list.splits)
qed

text \<open>The text of a part: its own, or what \<open>tostring\<close> gives for the lowered value.\<close>

definition partText :: "(Expr \<Rightarrow> bytes) \<Rightarrow> desugarers \<Rightarrow> InterpolatedStringPart \<Rightarrow> bytes" where
  "partText ev D p = (case p of InterpolatedStringPart t eo \<Rightarrow>
     (case eo of None \<Rightarrow> t
      | Some e \<Rightarrow> ev (CallExpr (exprPos e) (IdentExpr (exprPos e) ''tostring'') [dsExpr D e])))"

lemma interpolatedStringConcat_text:
  assumes "\<And>p l r. ev (BinaryExpr p l ''..'' r) = ev l @ ev r" "\<And>p t. ev (StringLit p t) = t"
  shows "ev (interpolatedStringConcat D pos ps) = concat (map (partText ev D) ps)"
proof -
  have part: "concat (map ev (concatPart D pos p)) = partText ev D p" for p
    by (cases "(D, pos, p)" rule: concatPart.cases) (auto simp: partText_def assms(2))
  have "concat (map ev (concat (map (concatPart D pos) ps))) = concat (map (partText ev D) ps)"
    by (induction ps) (auto simp: part)
  moreover have "ev (interpolatedStringConcat D pos ps) = concat (map ev (concat (map (concatPart D pos) ps)))"
  proof -
    define cs where "cs = concat (map (concatPart D pos) ps)"
    show ?thesis
    proof (cases "concatChain cs")
      case None
      then have "cs = []" using concatChain_text(2) [of ev, OF assms(1)] by blast
      with None show ?thesis by (simp add: interpolatedStringConcat_def cs_def [symmetric] assms(2))
    next
      case (Some e)
      then have "ps \<noteq> []" by (auto simp: cs_def concatChain_def)
      moreover have "ev e = concat (map ev cs)" by (rule concatChain_text(1) [of ev, OF assms(1) Some])
      ultimately show ?thesis using Some by (simp add: interpolatedStringConcat_def cs_def [symmetric])
    qed
  qed
  ultimately show ?thesis by simp
qed

end
