(* ===== verification/Label_Control.thy ===== *)
theory Label_Control
  imports Ast
begin

section \<open>Labels and gotos (internal/ast/label_control.go)\<close>

text \<open>
  \<open>ValidateLabelControl\<close> walks every function on its own: it collects the labels and gotos
  of the body with the block, the index and the depth they stand at, and then checks each goto
  against its label. A pointer to a block is a \<open>blockRef\<close>: its address, the path of statement
  and clause numbers from the function body, which stands for the identity that the code
  compares, and the statements it points to. A label error is a value of \<open>label_error\<close>,
  with the line and names of the message.
\<close>

record blockRef =
  brAddr :: "nat list"
  brStmts :: "Stmt list"

record labelInfo =
  liName :: bytes
  liPos :: Pos
  liBlock :: blockRef
  liStmtIndex :: nat
  liDepth :: nat

text \<open>The struct \<open>gotoInfo\<close> has the fields of \<open>labelInfo\<close>.\<close>

type_synonym gotoInfo = labelInfo

record labelScope =
  lsLabels :: "bytes \<rightharpoonup> labelInfo"
  lsGotos :: "gotoInfo list"

datatype label_error =
    DuplicateLabel nat bytes nat
  | TargetNotFound nat bytes
  | DeeperScope nat bytes
  | OverDeclaration nat bytes

definition emptyScope :: labelScope where
  "emptyScope = \<lparr>lsLabels = Map.empty, lsGotos = []\<rparr>"

fun stmtIntroducesLocal :: "Stmt \<Rightarrow> bool" where
  "stmtIntroducesLocal (DeclareStmt p ns vs ro) = True"
| "stmtIntroducesLocal (FuncDeclStmt p n ps b) = True"
| "stmtIntroducesLocal (ForNumStmt p i c q b) = True"
| "stmtIntroducesLocal (ForRangeStmt p k v i b) = True"
| "stmtIntroducesLocal st = False"

text \<open>The loop over the gotos of a function, after its body has been walked.\<close>

definition jumpsOver :: "gotoInfo \<Rightarrow> labelInfo \<Rightarrow> bool" where
  "jumpsOver g lbl \<longleftrightarrow>
     brAddr (liBlock lbl) = brAddr (liBlock g) \<and> liStmtIndex g < liStmtIndex lbl \<and>
     list_ex (\<lambda>i. stmtIntroducesLocal (brStmts (liBlock g) ! i)) [Suc (liStmtIndex g)..<liStmtIndex lbl]"

definition checkGoto :: "labelScope \<Rightarrow> gotoInfo \<Rightarrow> label_error option" where
  "checkGoto sc g =
     (case lsLabels sc (liName g) of
        None \<Rightarrow> Some (TargetNotFound (pLine (liPos g)) (liName g))
      | Some lbl \<Rightarrow>
          if liDepth g < liDepth lbl then Some (DeeperScope (pLine (liPos g)) (liName g))
          else if jumpsOver g lbl then Some (OverDeclaration (pLine (liPos g)) (liName g))
          else None)"

fun checkGotos :: "labelScope \<Rightarrow> gotoInfo list \<Rightarrow> label_error option" where
  "checkGotos sc [] = None"
| "checkGotos sc (g # gs) = (case checkGoto sc g of Some e \<Rightarrow> Some e | None \<Rightarrow> checkGotos sc gs)"

text \<open>Sequencing: the first error ends the walk.\<close>

definition ebind :: "'e + 'a \<Rightarrow> ('a \<Rightarrow> 'e + 'b) \<Rightarrow> 'e + 'b" where
  "ebind r k = (case r of Inl e \<Rightarrow> Inl e | Inr x \<Rightarrow> k x)"

fun firstError :: "'e option list \<Rightarrow> 'e option" where
  "firstError [] = None"
| "firstError (None # es) = firstError es"
| "firstError (Some e # es) = Some e"

definition orScope :: "'e option \<Rightarrow> 'a \<Rightarrow> 'e + 'a" where
  "orScope err sc = (case err of None \<Rightarrow> Inr sc | Some e \<Rightarrow> Inl e)"

text \<open>
  What the loops of the walk do with the methods on their elements: the statements of a block,
  the clauses of an if statement, an optional block.
\<close>

type_synonym stmt_walk = "blockRef \<Rightarrow> nat \<Rightarrow> nat \<Rightarrow> labelScope \<Rightarrow> label_error + labelScope"
type_synonym block_walk = "nat list \<Rightarrow> nat \<Rightarrow> labelScope \<Rightarrow> label_error + labelScope"

primrec walkStmts :: "stmt_walk list \<Rightarrow> stmt_walk" where
  "walkStmts [] ref i depth sc = Inr sc"
| "walkStmts (w # ws) ref i depth sc = ebind (w ref i depth sc) (walkStmts ws ref (Suc i) depth)"

primrec walkClauses :: "block_walk list \<Rightarrow> nat \<Rightarrow> block_walk" where
  "walkClauses [] j addr depth sc = Inr sc"
| "walkClauses (w # ws) j addr depth sc = ebind (w (addr @ [j + 2]) depth sc) (walkClauses ws (Suc j) addr depth)"

definition walkOption :: "block_walk option \<Rightarrow> block_walk" where
  "walkOption w addr depth sc = (case w of None \<Rightarrow> Inr sc | Some f \<Rightarrow> f addr depth sc)"

text \<open>A function body gets a scope of its own, at depth 0.\<close>

definition validateLabelStmtList :: "block_walk \<Rightarrow> label_error option" where
  "validateLabelStmtList w =
     (case w [] 0 emptyScope of
        Inl e \<Rightarrow> Some e
      | Inr sc \<Rightarrow> checkGotos sc (lsGotos sc))"

primrec walkExpr :: "Expr \<Rightarrow> label_error option"
  and walkPart :: "InterpolatedStringPart \<Rightarrow> label_error option"
  and walkConfig :: "ConfigField \<Rightarrow> label_error option"
  and walkField :: "TableField \<Rightarrow> label_error option"
  and walkStmt :: "Stmt \<Rightarrow> stmt_walk"
  and walkCase :: "SelectCase \<Rightarrow> label_error option"
  and walkElseIf :: "ElseIfClause \<Rightarrow> block_walk"
  and walkBlock :: "BlockStmt \<Rightarrow> block_walk"
where
  "walkExpr (NumberLit p v) = None"
| "walkExpr (StringLit p v) = None"
| "walkExpr (InterpolatedStringExpr p ps) = None"
| "walkExpr (BoolLit p b) = None"
| "walkExpr (NilLit p) = None"
| "walkExpr (VarArgExpr p) = None"
| "walkExpr (IdentExpr p n) = None"
| "walkExpr (TaggedStringExpr p t b f) = None"
| "walkExpr (TaggedBlockExpr p t c b r e h f) = None"
| "walkExpr (BinaryExpr p l op r) = firstError [walkExpr l, walkExpr r]"
| "walkExpr (UnaryExpr p op e) = walkExpr e"
| "walkExpr (ParenExpr p e) = walkExpr e"
| "walkExpr (IndexExpr p t i) = firstError [walkExpr t, walkExpr i]"
| "walkExpr (FieldExpr p t f) = walkExpr t"
| "walkExpr (CallExpr p f a) = firstError (walkExpr f # map walkExpr a)"
| "walkExpr (MethodCallExpr p ob m a) = firstError (walkExpr ob # map walkExpr a)"
| "walkExpr (FuncLitExpr p ps b) = validateLabelStmtList (walkBlock b)"
| "walkExpr (ListLitExpr p vs) = None"
| "walkExpr (TableLitExpr p fs) = firstError (map walkField fs)"
| "walkExpr (DenseLitExpr p d n vs) = firstError (map walkExpr vs)"
| "walkExpr (RecvExpr p c) = None"
| "walkExpr (MakeChanExpr p sz) = None"
| "walkPart (InterpolatedStringPart t e) = None"
| "walkConfig (ConfigField p k v) = None"
| "walkField (TableField k v) =
     firstError [case map_option walkExpr k of None \<Rightarrow> None | Some err \<Rightarrow> err, walkExpr v]"
| "walkStmt (LabelStmt p n) ref i depth sc =
     (case lsLabels sc n of
        Some prev \<Rightarrow> Inl (DuplicateLabel (pLine p) n (pLine (liPos prev)))
      | None \<Rightarrow> Inr (sc\<lparr>lsLabels := (lsLabels sc)(n \<mapsto>
          \<lparr>liName = n, liPos = p, liBlock = ref, liStmtIndex = i, liDepth = depth\<rparr>)\<rparr>))"
| "walkStmt (GotoStmt p n) ref i depth sc =
     Inr (sc\<lparr>lsGotos := lsGotos sc @
          [\<lparr>liName = n, liPos = p, liBlock = ref, liStmtIndex = i, liDepth = depth\<rparr>]\<rparr>)"
| "walkStmt (NestedBlock b) ref i depth sc = walkBlock b (brAddr ref @ [i, 0]) (Suc depth) sc"
| "walkStmt (IfStmt p c b es e) ref i depth sc =
     ebind (walkBlock b (brAddr ref @ [i, 0]) (Suc depth) sc) (\<lambda>sc.
     ebind (walkClauses (map walkElseIf es) 0 (brAddr ref @ [i]) (Suc depth) sc)
       (walkOption (map_option walkBlock e) (brAddr ref @ [i, 1]) (Suc depth)))"
| "walkStmt (ForStmt p c b) ref i depth sc = walkBlock b (brAddr ref @ [i, 0]) (Suc depth) sc"
| "walkStmt (ForNumStmt p st c q b) ref i depth sc = walkBlock b (brAddr ref @ [i, 0]) (Suc depth) sc"
| "walkStmt (ForRangeStmt p k v it b) ref i depth sc = walkBlock b (brAddr ref @ [i, 0]) (Suc depth) sc"
| "walkStmt (FuncDeclStmt p n ps b) ref i depth sc = orScope (validateLabelStmtList (walkBlock b)) sc"
| "walkStmt (EvaluateStmt p n b) ref i depth sc = walkBlock b (brAddr ref @ [i, 0]) (Suc depth) sc"
| "walkStmt (DeclareStmt p ns vs ro) ref i depth sc = orScope (firstError (map walkExpr vs)) sc"
| "walkStmt (AssignStmt p ts vs) ref i depth sc = orScope (firstError (map walkExpr vs)) sc"
| "walkStmt (CallStmt p c) ref i depth sc = orScope (walkExpr c) sc"
| "walkStmt (ReturnStmt p vs) ref i depth sc = orScope (firstError (map walkExpr vs)) sc"
| "walkStmt (CompoundAssignStmt p t op v) ref i depth sc = Inr sc"
| "walkStmt (IncDecStmt p t op) ref i depth sc = Inr sc"
| "walkStmt (GoStmt p c) ref i depth sc = Inr sc"
| "walkStmt (DeferStmt p c) ref i depth sc = Inr sc"
| "walkStmt (SendStmt p c v) ref i depth sc = Inr sc"
| "walkStmt (SelectStmt p cs d) ref i depth sc = Inr sc"
| "walkStmt (BreakStmt p) ref i depth sc = Inr sc"
| "walkStmt (ContinueStmt p) ref i depth sc = Inr sc"
| "walkCase (SelectCase p n m c v b) = None"
| "walkElseIf (ElseIfClause p c b) addr depth sc = walkBlock b addr depth sc"
| "walkBlock (BlockStmt p ss) addr depth sc =
     walkStmts (map walkStmt ss) \<lparr>brAddr = addr, brStmts = ss\<rparr> 0 depth sc"

definition ValidateLabelControl :: "Program \<Rightarrow> label_error option" where
  "ValidateLabelControl prog = validateLabelStmtList (walkBlock (BlockStmt (mkPos 1 1) (prStmts prog)))"

end
