(* ===== verification/Label_Correct.thy ===== *)
theory Label_Correct
  imports Label_Control
begin

section \<open>What the label check accepts\<close>

text \<open>
  The specification is over the points of a function body: its labels and gotos with the block,
  index and depth they stand at, in source order, without the bodies of nested functions. A
  body is in order when no label is defined twice and every goto has a label that is not deeper
  than the goto and, in the same block, does not lie behind a declaration. The check accepts a
  program exactly when the body of the program and the function bodies it looks into are in
  order, in whatever order it meets them.
\<close>

datatype point = AtLabel labelInfo | AtGoto gotoInfo

primrec numbered :: "(nat \<Rightarrow> 'a list) list \<Rightarrow> nat \<Rightarrow> 'a list" where
  "numbered [] i = []"
| "numbered (f # fs) i = f i @ numbered fs (Suc i)"

primrec pointsStmt :: "Stmt \<Rightarrow> blockRef \<Rightarrow> nat \<Rightarrow> nat \<Rightarrow> point list"
  and pointsElseIf :: "ElseIfClause \<Rightarrow> nat list \<Rightarrow> nat \<Rightarrow> point list"
  and pointsBlock :: "BlockStmt \<Rightarrow> nat list \<Rightarrow> nat \<Rightarrow> point list"
where
  "pointsStmt (LabelStmt p n) ref depth i =
     [AtLabel \<lparr>liName = n, liPos = p, liBlock = ref, liStmtIndex = i, liDepth = depth\<rparr>]"
| "pointsStmt (GotoStmt p n) ref depth i =
     [AtGoto \<lparr>liName = n, liPos = p, liBlock = ref, liStmtIndex = i, liDepth = depth\<rparr>]"
| "pointsStmt (NestedBlock b) ref depth i = pointsBlock b (brAddr ref @ [i, 0]) (Suc depth)"
| "pointsStmt (IfStmt p c b es e) ref depth i =
     pointsBlock b (brAddr ref @ [i, 0]) (Suc depth)
     @ numbered (map (\<lambda>f j. f (brAddr ref @ [i] @ [j + 2]) (Suc depth)) (map pointsElseIf es)) 0
     @ (case map_option pointsBlock e of None \<Rightarrow> [] | Some f \<Rightarrow> f (brAddr ref @ [i, 1]) (Suc depth))"
| "pointsStmt (ForStmt p c b) ref depth i = pointsBlock b (brAddr ref @ [i, 0]) (Suc depth)"
| "pointsStmt (ForNumStmt p st c q b) ref depth i = pointsBlock b (brAddr ref @ [i, 0]) (Suc depth)"
| "pointsStmt (ForRangeStmt p k v it b) ref depth i = pointsBlock b (brAddr ref @ [i, 0]) (Suc depth)"
| "pointsStmt (EvaluateStmt p n b) ref depth i = pointsBlock b (brAddr ref @ [i, 0]) (Suc depth)"
| "pointsStmt (FuncDeclStmt p n ps b) ref depth i = []"
| "pointsStmt (DeclareStmt p ns vs ro) ref depth i = []"
| "pointsStmt (AssignStmt p ts vs) ref depth i = []"
| "pointsStmt (CallStmt p c) ref depth i = []"
| "pointsStmt (ReturnStmt p vs) ref depth i = []"
| "pointsStmt (CompoundAssignStmt p t op v) ref depth i = []"
| "pointsStmt (IncDecStmt p t op) ref depth i = []"
| "pointsStmt (GoStmt p c) ref depth i = []"
| "pointsStmt (DeferStmt p c) ref depth i = []"
| "pointsStmt (SendStmt p c v) ref depth i = []"
| "pointsStmt (SelectStmt p cs d) ref depth i = []"
| "pointsStmt (BreakStmt p) ref depth i = []"
| "pointsStmt (ContinueStmt p) ref depth i = []"
| "pointsElseIf (ElseIfClause p c b) addr depth = pointsBlock b addr depth"
| "pointsBlock (BlockStmt p ss) addr depth =
     numbered (map (\<lambda>f. f \<lparr>brAddr = addr, brStmts = ss\<rparr> depth) (map pointsStmt ss)) 0"

definition bodyPoints :: "BlockStmt \<Rightarrow> point list" where
  "bodyPoints b = pointsBlock b [] 0"

fun labelsOf :: "point list \<Rightarrow> labelInfo list" where
  "labelsOf [] = []"
| "labelsOf (AtLabel l # ps) = l # labelsOf ps"
| "labelsOf (AtGoto g # ps) = labelsOf ps"

fun gotosOf :: "point list \<Rightarrow> gotoInfo list" where
  "gotosOf [] = []"
| "gotosOf (AtLabel l # ps) = gotosOf ps"
| "gotosOf (AtGoto g # ps) = g # gotosOf ps"

text \<open>A function body in order.\<close>

definition mayJump :: "gotoInfo \<Rightarrow> labelInfo \<Rightarrow> bool" where
  "mayJump g l \<longleftrightarrow> liDepth l \<le> liDepth g \<and> \<not> jumpsOver g l"

definition bodyOk :: "point list \<Rightarrow> bool" where
  "bodyOk ps \<longleftrightarrow> distinct (map liName (labelsOf ps)) \<and>
     list_all (\<lambda>g. list_ex (\<lambda>l. liName l = liName g \<and> mayJump g l) (labelsOf ps)) (gotosOf ps)"

lemma points_members:
  "l \<in> set (labelsOf ps) \<longleftrightarrow> AtLabel l \<in> set ps" "g \<in> set (gotosOf ps) \<longleftrightarrow> AtGoto g \<in> set ps"
  by (induction ps rule: labelsOf.induct) auto

lemma bodyOk_target:
  assumes "bodyOk ps" "AtGoto g \<in> set ps"
  shows "\<exists>!l. AtLabel l \<in> set ps \<and> liName l = liName g \<and> mayJump g l"
proof -
  have "inj_on liName (set (labelsOf ps))" using assms(1) by (simp add: bodyOk_def distinct_map)
  then have unique: "l = l'" if "AtLabel l \<in> set ps" "AtLabel l' \<in> set ps" "liName l = liName l'" for l l'
    using that by (auto simp: inj_on_def points_members)
  have "g \<in> set (gotosOf ps)" using assms(2) by (simp add: points_members)
  then obtain l where "l \<in> set (labelsOf ps)" "liName l = liName g" "mayJump g l"
    using assms(1) by (auto simp: bodyOk_def list_all_iff list_ex_iff)
  moreover from this have "AtLabel l \<in> set ps" by (simp add: points_members)
  ultimately show ?thesis using unique by (metis (no_types))
qed

text \<open>The nested functions that the check looks into are in order.\<close>

primrec fnsExpr :: "Expr \<Rightarrow> bool"
  and fnsField :: "TableField \<Rightarrow> bool"
  and fnsStmt :: "Stmt \<Rightarrow> bool"
  and fnsElseIf :: "ElseIfClause \<Rightarrow> bool"
  and fnsBlock :: "BlockStmt \<Rightarrow> bool"
where
  "fnsExpr (NumberLit p v) = True"
| "fnsExpr (StringLit p v) = True"
| "fnsExpr (InterpolatedStringExpr p ps) = True"
| "fnsExpr (BoolLit p b) = True"
| "fnsExpr (NilLit p) = True"
| "fnsExpr (VarArgExpr p) = True"
| "fnsExpr (IdentExpr p n) = True"
| "fnsExpr (TaggedStringExpr p t b f) = True"
| "fnsExpr (TaggedBlockExpr p t c b r e h f) = True"
| "fnsExpr (BinaryExpr p l op r) = (fnsExpr l \<and> fnsExpr r)"
| "fnsExpr (UnaryExpr p op e) = fnsExpr e"
| "fnsExpr (ParenExpr p e) = fnsExpr e"
| "fnsExpr (IndexExpr p t i) = (fnsExpr t \<and> fnsExpr i)"
| "fnsExpr (FieldExpr p t f) = fnsExpr t"
| "fnsExpr (CallExpr p f a) = (fnsExpr f \<and> list_all id (map fnsExpr a))"
| "fnsExpr (MethodCallExpr p ob m a) = (fnsExpr ob \<and> list_all id (map fnsExpr a))"
| "fnsExpr (FuncLitExpr p ps b) = (fnsBlock b \<and> bodyOk (bodyPoints b))"
| "fnsExpr (ListLitExpr p vs) = True"
| "fnsExpr (TableLitExpr p fs) = list_all id (map fnsField fs)"
| "fnsExpr (DenseLitExpr p d n vs) = list_all id (map fnsExpr vs)"
| "fnsExpr (RecvExpr p c) = True"
| "fnsExpr (MakeChanExpr p sz) = True"
| "fnsField (TableField k v) = (pred_option id (map_option fnsExpr k) \<and> fnsExpr v)"
| "fnsStmt (LabelStmt p n) = True"
| "fnsStmt (GotoStmt p n) = True"
| "fnsStmt (NestedBlock b) = fnsBlock b"
| "fnsStmt (IfStmt p c b es e) = (fnsBlock b \<and> list_all id (map fnsElseIf es) \<and> pred_option id (map_option fnsBlock e))"
| "fnsStmt (ForStmt p c b) = fnsBlock b"
| "fnsStmt (ForNumStmt p st c q b) = fnsBlock b"
| "fnsStmt (ForRangeStmt p k v it b) = fnsBlock b"
| "fnsStmt (FuncDeclStmt p n ps b) = (fnsBlock b \<and> bodyOk (bodyPoints b))"
| "fnsStmt (EvaluateStmt p n b) = fnsBlock b"
| "fnsStmt (DeclareStmt p ns vs ro) = list_all id (map fnsExpr vs)"
| "fnsStmt (AssignStmt p ts vs) = list_all id (map fnsExpr vs)"
| "fnsStmt (CallStmt p c) = fnsExpr c"
| "fnsStmt (ReturnStmt p vs) = list_all id (map fnsExpr vs)"
| "fnsStmt (CompoundAssignStmt p t op v) = True"
| "fnsStmt (IncDecStmt p t op) = True"
| "fnsStmt (GoStmt p c) = True"
| "fnsStmt (DeferStmt p c) = True"
| "fnsStmt (SendStmt p c v) = True"
| "fnsStmt (SelectStmt p cs d) = True"
| "fnsStmt (BreakStmt p) = True"
| "fnsStmt (ContinueStmt p) = True"
| "fnsElseIf (ElseIfClause p c b) = fnsBlock b"
| "fnsBlock (BlockStmt p ss) = list_all id (map fnsStmt ss)"

lemma fns_lists [simp]:
  "list_all id (map f xs) = list_all f xs" "pred_option id (map_option f x) = pred_option f x"
  by (simp_all add: list.pred_map option.pred_map)

definition labelsInOrder :: "Program \<Rightarrow> bool" where
  "labelsInOrder prog \<longleftrightarrow> list_all fnsStmt (prStmts prog) \<and> bodyOk (bodyPoints (BlockStmt (mkPos 1 1) (prStmts prog)))"

subsection \<open>Collecting points into a scope\<close>

fun addPoint :: "point \<Rightarrow> labelScope \<Rightarrow> labelScope option" where
  "addPoint (AtLabel l) sc =
     (if lsLabels sc (liName l) = None then Some (sc\<lparr>lsLabels := (lsLabels sc)(liName l \<mapsto> l)\<rparr>) else None)"
| "addPoint (AtGoto g) sc = Some (sc\<lparr>lsGotos := lsGotos sc @ [g]\<rparr>)"

primrec addPoints :: "point list \<Rightarrow> labelScope \<Rightarrow> labelScope option" where
  "addPoints [] sc = Some sc"
| "addPoints (p # ps) sc = Option.bind (addPoint p sc) (addPoints ps)"

lemma addPoints_append:
  "addPoints (ps @ qs) sc = Option.bind (addPoints ps sc) (addPoints qs)"
  by (induction ps arbitrary: sc) (auto split: Option.bind_splits)

lemma addPoints_result:
  "addPoints ps sc = Some sc' \<longleftrightarrow>
     distinct (map liName (labelsOf ps)) \<and> list_all (\<lambda>l. lsLabels sc (liName l) = None) (labelsOf ps) \<and>
     sc' = sc\<lparr>lsLabels := lsLabels sc ++ map_of (rev (map (\<lambda>l. (liName l, l)) (labelsOf ps))),
              lsGotos := lsGotos sc @ gotosOf ps\<rparr>"
proof (induction ps arbitrary: sc sc' rule: labelsOf.induct)
  case (2 l ps)
  define sc1 where "sc1 = sc\<lparr>lsLabels := (lsLabels sc)(liName l \<mapsto> l)\<rparr>"
  have labels: "list_all (\<lambda>k. lsLabels sc1 (liName k) = None) (labelsOf ps) \<longleftrightarrow>
    liName l \<notin> liName ` set (labelsOf ps) \<and> list_all (\<lambda>k. lsLabels sc (liName k) = None) (labelsOf ps)"
    by (auto simp: sc1_def list_all_iff) (metis imageI)
  have scope: "sc1\<lparr>lsLabels := lsLabels sc1 ++ map_of (rev (map (\<lambda>l. (liName l, l)) (labelsOf ps))),
      lsGotos := lsGotos sc1 @ gotosOf ps\<rparr> =
    sc\<lparr>lsLabels := lsLabels sc ++ map_of (rev (map (\<lambda>l. (liName l, l)) (labelsOf (AtLabel l # ps)))),
      lsGotos := lsGotos sc @ gotosOf (AtLabel l # ps)\<rparr>"
    by (simp add: sc1_def)
  have "addPoints (AtLabel l # ps) sc = (if lsLabels sc (liName l) = None then addPoints ps sc1 else None)"
    by (simp add: sc1_def)
  then show ?case using 2 [of sc1 sc'] labels scope by auto
qed auto

text \<open>A walk that succeeds exactly when \<open>good\<close> holds and the points can be added.\<close>

definition collects :: "bool \<Rightarrow> point list \<Rightarrow> (labelScope \<Rightarrow> label_error + labelScope) \<Rightarrow> bool" where
  "collects good ps w \<longleftrightarrow> (\<forall>sc sc'. w sc = Inr sc' \<longleftrightarrow> good \<and> addPoints ps sc = Some sc')"

lemma collects_none: "collects True [] Inr"
  by (simp add: collects_def)

lemma collects_error: "collects (err = None) [] (orScope err)"
  by (auto simp: collects_def orScope_def split: option.split)

lemma collects_bind:
  assumes "collects a ps v" "collects b qs w"
  shows "collects (a \<and> b) (ps @ qs) (\<lambda>sc. ebind (v sc) w)"
  unfolding collects_def
proof (intro allI)
  fix sc sc'
  show "ebind (v sc) w = Inr sc' \<longleftrightarrow> (a \<and> b) \<and> addPoints (ps @ qs) sc = Some sc'"
  proof (cases "v sc")
    case (Inl e)
    then have "\<not> (a \<and> addPoints ps sc = Some s)" for s
      using assms(1) unfolding collects_def by (metis Inr_Inl_False)
    with Inl show ?thesis by (auto simp: ebind_def addPoints_append bind_eq_Some_conv)
  next
    case (Inr s)
    then have "a \<and> addPoints ps sc = Some s" using assms(1) by (simp add: collects_def)
    with Inr assms(2) show ?thesis by (simp add: ebind_def addPoints_append collects_def)
  qed
qed

lemma collects_stmts:
  "(\<And>f g i x. (f, g, x) \<in> set fs \<Longrightarrow> collects x (g i) (f ref i depth)) \<Longrightarrow>
   collects (list_all (\<lambda>(f, g, x). x) fs) (numbered (map (\<lambda>(f, g, x). g) fs) i)
     (walkStmts (map (\<lambda>(f, g, x). f) fs) ref i depth)"
proof (induction fs arbitrary: i)
  case Nil
  show ?case using collects_none by (simp add: collects_def)
next
  case (Cons a fs)
  obtain f g x where a: "a = (f, g, x)" by (cases a)
  from collects_bind [of x "g i" "f ref i depth", OF _ Cons.IH [of "Suc i"]] Cons.prems
  show ?case by (simp add: a)
qed

lemma collects_clauses:
  "(\<And>f g j x. (f, g, x) \<in> set fs \<Longrightarrow> collects x (g j) (f (addr @ [j + 2]) depth)) \<Longrightarrow>
   collects (list_all (\<lambda>(f, g, x). x) fs) (numbered (map (\<lambda>(f, g, x). g) fs) j)
     (walkClauses (map (\<lambda>(f, g, x). f) fs) j addr depth)"
proof (induction fs arbitrary: j)
  case Nil
  show ?case using collects_none by (simp add: collects_def)
next
  case (Cons a fs)
  obtain f g x where a: "a = (f, g, x)" by (cases a)
  from collects_bind [of x "g j" "f (addr @ [j + 2]) depth", OF _ Cons.IH [of "Suc j"]] Cons.prems
  show ?case by (simp add: a)
qed

lemma collects_option:
  "(\<And>b. x = Some b \<Longrightarrow> collects (good b) (pts b addr depth) (w b addr depth)) \<Longrightarrow>
   collects (pred_option good x) (case map_option pts x of None \<Rightarrow> [] | Some f \<Rightarrow> f addr depth)
     (walkOption (map_option w x) addr depth)"
  using collects_none by (cases x) (simp_all add: walkOption_def collects_def)

subsection \<open>Function bodies\<close>

lemma checkGotos_None: "checkGotos sc gs = None \<longleftrightarrow> list_all (\<lambda>g. checkGoto sc g = None) gs"
  by (induction gs) (auto split: option.split)

lemma checkGoto_None:
  "checkGoto sc g = None \<longleftrightarrow> (\<exists>l. lsLabels sc (liName g) = Some l \<and> mayJump g l)"
  by (auto simp: checkGoto_def mayJump_def not_less split: option.split)

lemma bodyOk_collected:
  assumes "addPoints ps emptyScope = Some sc"
  shows "checkGotos sc (lsGotos sc) = None \<longleftrightarrow> bodyOk ps"
proof -
  have d: "distinct (map liName (labelsOf ps))"
    and sc: "lsLabels sc = map_of (rev (map (\<lambda>l. (liName l, l)) (labelsOf ps)))" "lsGotos sc = gotosOf ps"
    using assms unfolding addPoints_result by (auto simp: emptyScope_def)
  have "lsLabels sc n = Some l \<longleftrightarrow> l \<in> set (labelsOf ps) \<and> liName l = n" for n l
    unfolding sc(1) using d by (subst map_of_eq_Some_iff) (auto simp: rev_map [symmetric] comp_def)
  then show ?thesis
    unfolding checkGotos_None checkGoto_None bodyOk_def using d sc(2)
    by (auto simp: list_all_iff list_ex_iff)
qed

lemma validate_collects:
  assumes "collects good ps (w [] 0)"
  shows "validateLabelStmtList w = None \<longleftrightarrow> good \<and> bodyOk ps"
proof (cases "w [] 0 emptyScope")
  case (Inl e)
  then have "\<not> (good \<and> addPoints ps emptyScope = Some sc)" for sc
    using assms unfolding collects_def by (metis Inr_Inl_False)
  moreover have "bodyOk ps \<Longrightarrow> \<exists>sc. addPoints ps emptyScope = Some sc"
    unfolding addPoints_result bodyOk_def by (simp add: emptyScope_def list_all_iff)
  ultimately show ?thesis using Inl by (auto simp: validateLabelStmtList_def)
next
  case (Inr sc)
  then have "good \<and> addPoints ps emptyScope = Some sc" using assms by (simp add: collects_def)
  with Inr bodyOk_collected [of ps sc] show ?thesis by (simp add: validateLabelStmtList_def)
qed

lemma firstError_None [simp]: "firstError es = None \<longleftrightarrow> list_all (\<lambda>e. e = None) es"
  by (induction es rule: firstError.induct) auto

text \<open>The walks of statements and blocks as functions of the scope.\<close>

lemma walk_functions:
  "walkStmt (NestedBlock b) ref i depth = walkBlock b (brAddr ref @ [i, 0]) (Suc depth)"
  "walkStmt (ForStmt p co b) ref i depth = walkBlock b (brAddr ref @ [i, 0]) (Suc depth)"
  "walkStmt (ForNumStmt p st c q b) ref i depth = walkBlock b (brAddr ref @ [i, 0]) (Suc depth)"
  "walkStmt (ForRangeStmt p kn vn it b) ref i depth = walkBlock b (brAddr ref @ [i, 0]) (Suc depth)"
  "walkStmt (EvaluateStmt p n b) ref i depth = walkBlock b (brAddr ref @ [i, 0]) (Suc depth)"
  "walkStmt (FuncDeclStmt p n ps b) ref i depth = orScope (validateLabelStmtList (walkBlock b))"
  "walkStmt (DeclareStmt p ns vs ro) ref i depth = orScope (firstError (map walkExpr vs))"
  "walkStmt (AssignStmt p ts vs) ref i depth = orScope (firstError (map walkExpr vs))"
  "walkStmt (CallStmt p c) ref i depth = orScope (walkExpr c)"
  "walkStmt (ReturnStmt p vs) ref i depth = orScope (firstError (map walkExpr vs))"
  "walkStmt (CompoundAssignStmt p t op v) ref i depth = Inr"
  "walkStmt (IncDecStmt p t op) ref i depth = Inr"
  "walkStmt (GoStmt p c) ref i depth = Inr"
  "walkStmt (DeferStmt p c) ref i depth = Inr"
  "walkStmt (SendStmt p c sv) ref i depth = Inr"
  "walkStmt (SelectStmt p cs d) ref i depth = Inr"
  "walkStmt (BreakStmt p) ref i depth = Inr"
  "walkStmt (ContinueStmt p) ref i depth = Inr"
  "walkElseIf (ElseIfClause p c b) addr depth = walkBlock b addr depth"
  "walkBlock (BlockStmt p ss) addr depth = walkStmts (map walkStmt ss) \<lparr>brAddr = addr, brStmts = ss\<rparr> 0 depth"
  "walkStmt (IfStmt p c b es e) ref i depth =
     (\<lambda>sc. ebind (walkBlock b (brAddr ref @ [i, 0]) (Suc depth) sc) (\<lambda>sc.
        ebind (walkClauses (map walkElseIf es) 0 (brAddr ref @ [i]) (Suc depth) sc)
          (walkOption (map_option walkBlock e) (brAddr ref @ [i, 1]) (Suc depth))))"
  by (rule ext, simp)+

lemma walkBlock_collects:
  assumes "\<And>s ref depth i. s \<in> set ss \<Longrightarrow> collects (fnsStmt s) (pointsStmt s ref depth i) (walkStmt s ref i depth)"
  shows "collects (fnsBlock (BlockStmt p ss)) (pointsBlock (BlockStmt p ss) addr depth) (walkBlock (BlockStmt p ss) addr depth)"
  unfolding walk_functions
  using collects_stmts [of "map (\<lambda>s. (walkStmt s, pointsStmt s \<lparr>brAddr = addr, brStmts = ss\<rparr> depth, fnsStmt s)) ss"
      "\<lparr>brAddr = addr, brStmts = ss\<rparr>" depth 0] assms
  by (auto simp: list.pred_map comp_def)

lemma walkClauses_collects:
  assumes "\<And>c addr depth. c \<in> set es \<Longrightarrow> collects (fnsElseIf c) (pointsElseIf c addr depth) (walkElseIf c addr depth)"
  shows "collects (list_all fnsElseIf es)
    (numbered (map (\<lambda>f j. f (addr @ [j + 2]) depth) (map pointsElseIf es)) 0)
    (walkClauses (map walkElseIf es) 0 addr depth)"
  using collects_clauses [of "map (\<lambda>c. (walkElseIf c, \<lambda>j. pointsElseIf c (addr @ [j + 2]) depth, fnsElseIf c)) es"
      addr depth 0] assms
  by (auto simp: list.pred_map comp_def)

lemma walkIf_collects:
  assumes "\<And>addr depth. collects (fnsBlock b) (pointsBlock b addr depth) (walkBlock b addr depth)"
    "\<And>c addr depth. c \<in> set es \<Longrightarrow> collects (fnsElseIf c) (pointsElseIf c addr depth) (walkElseIf c addr depth)"
    "\<And>b addr depth. e = Some b \<Longrightarrow> collects (fnsBlock b) (pointsBlock b addr depth) (walkBlock b addr depth)"
  shows "collects (fnsStmt (IfStmt p c b es e)) (pointsStmt (IfStmt p c b es e) ref depth i)
    (walkStmt (IfStmt p c b es e) ref i depth)"
  unfolding walk_functions
  using collects_bind [OF assms(1) [of "brAddr ref @ [i, 0]" "Suc depth"] collects_bind [OF
      walkClauses_collects [OF assms(2), of es "brAddr ref @ [i]" "Suc depth"]
      collects_option [of e fnsBlock pointsBlock "brAddr ref @ [i, 1]" "Suc depth" walkBlock, OF assms(3)]]]
  by simp

lemma walk_correct:
  "walkExpr e = None \<longleftrightarrow> fnsExpr e"
  "(pt :: InterpolatedStringPart) = pt" "(cf :: ConfigField) = cf"
  "walkField f = None \<longleftrightarrow> fnsField f"
  "\<forall>ref depth i. collects (fnsStmt s) (pointsStmt s ref depth i) (walkStmt s ref i depth)"
  "(sc :: SelectCase) = sc"
  "\<forall>addr depth. collects (fnsElseIf c) (pointsElseIf c addr depth) (walkElseIf c addr depth)"
  "\<forall>addr depth. collects (fnsBlock b) (pointsBlock b addr depth) (walkBlock b addr depth)"
proof (induction e and pt and cf and f and s and sc and c and b)
  case (FuncLitExpr p ps b)
  then show ?case using validate_collects [of "fnsBlock b" _ "walkBlock b"] by (simp add: bodyPoints_def)
next
  case (TableField k v)
  then show ?case by (cases k) auto
next
  case (IfStmt p c b es e)
  then show ?case by (intro allI walkIf_collects) auto
next
  case (FuncDeclStmt p n ps b)
  then show ?case
    using validate_collects [of "fnsBlock b" "pointsBlock b [] 0" "walkBlock b"] collects_error [of "validateLabelStmtList (walkBlock b)"]
    by (simp add: bodyPoints_def walk_functions)
next
  case (LabelStmt p n)
  then show ?case by (auto simp: collects_def split: option.split)
next
  case (GotoStmt p n)
  then show ?case by (auto simp: collects_def)
next
  case (BlockStmt p ss)
  then show ?case using walkBlock_collects by blast
next
  case (DeclareStmt p ns vs ro)
  then show ?case using collects_error [of "firstError (map walkExpr vs)"]
    by (simp add: walk_functions list_all_iff)
next
  case (AssignStmt p ts vs)
  then show ?case using collects_error [of "firstError (map walkExpr vs)"]
    by (simp add: walk_functions list_all_iff)
next
  case (ReturnStmt p vs)
  then show ?case using collects_error [of "firstError (map walkExpr vs)"]
    by (simp add: walk_functions list_all_iff)
next
  case (CallStmt p c)
  then show ?case using collects_error [of "walkExpr c"] by (simp add: walk_functions)
qed (auto simp: list_all_iff collects_none walk_functions)

lemma ValidateLabelControl_accepts: "ValidateLabelControl prog = None \<longleftrightarrow> labelsInOrder prog"
proof -
  define b where "b = BlockStmt (mkPos 1 1) (prStmts prog)"
  have "collects (fnsBlock b) (pointsBlock b [] 0) (walkBlock b [] 0)" using walk_correct(8) by blast
  from validate_collects [of _ _ "walkBlock b", OF this] show ?thesis
    by (simp add: ValidateLabelControl_def labelsInOrder_def bodyPoints_def b_def)
qed

subsection \<open>The points name the statements they stand for\<close>

definition atStmt :: "(bytes \<Rightarrow> Pos \<Rightarrow> Stmt) \<Rightarrow> labelInfo \<Rightarrow> bool" where
  "atStmt mk l \<longleftrightarrow> liStmtIndex l < length (brStmts (liBlock l)) \<and>
     brStmts (liBlock l) ! liStmtIndex l = mk (liName l) (liPos l)"

fun pointAt :: "point \<Rightarrow> bool" where
  "pointAt (AtLabel l) = atStmt (\<lambda>n p. LabelStmt p n) l"
| "pointAt (AtGoto g) = atStmt (\<lambda>n p. GotoStmt p n) g"

lemma numbered_all:
  "(\<And>j f. j < length fs \<Longrightarrow> fs ! j = f \<Longrightarrow> list_all P (f (i + j))) \<Longrightarrow> list_all P (numbered fs i)"
proof (induction fs arbitrary: i)
  case (Cons f fs)
  from Cons.prems [of 0 f] have "list_all P (f i)" by simp
  moreover have "list_all P (numbered fs (Suc i))"
    by (rule Cons.IH) (use Cons.prems [of "Suc _"] in force)
  ultimately show ?case by simp
qed simp

lemma points_at:
  "(e :: Expr) = e" "(pt :: InterpolatedStringPart) = pt" "(cf :: ConfigField) = cf" "(f :: TableField) = f"
  "\<forall>ref depth i. i < length (brStmts ref) \<longrightarrow> brStmts ref ! i = s \<longrightarrow> list_all pointAt (pointsStmt s ref depth i)"
  "(sc :: SelectCase) = sc"
  "\<forall>addr depth. list_all pointAt (pointsElseIf c addr depth)"
  "\<forall>addr depth. list_all pointAt (pointsBlock b addr depth)"
proof (induction e and pt and cf and f and s and sc and c and b)
  case (IfStmt p c b es e)
  have "list_all pointAt (numbered (map (\<lambda>f j. f (brAddr ref @ [i] @ [j + 2]) (Suc depth)) (map pointsElseIf es)) 0)"
    for ref :: blockRef and i depth
    by (rule numbered_all) (use IfStmt.IH(3) in auto)
  with IfStmt show ?case by (cases e) auto
next
  case (BlockStmt p ss)
  show ?case
    by (auto intro!: numbered_all) (use BlockStmt.IH nth_mem in fastforce)
qed (auto simp: atStmt_def)

subsection \<open>Addresses identify blocks\<close>

text \<open>
  The code compares the pointers of two blocks, the model their addresses. The block at an
  address is a function of the address, and the statements a point carries are that block's, so
  two points with the same address are in the same block.
\<close>

fun subBlock :: "Stmt \<Rightarrow> nat \<Rightarrow> BlockStmt option" where
  "subBlock (IfStmt p c b es e) k =
     (if k = 0 then Some b else if k = 1 then e
      else if k - 2 < length es then (case es ! (k - 2) of ElseIfClause q d b' \<Rightarrow> Some b') else None)"
| "subBlock (NestedBlock b) k = Some b"
| "subBlock (ForStmt p c b) k = Some b"
| "subBlock (ForNumStmt p st c q b) k = Some b"
| "subBlock (ForRangeStmt p kn vn it b) k = Some b"
| "subBlock (EvaluateStmt p n b) k = Some b"
| "subBlock s k = None"

fun blockAt :: "BlockStmt \<Rightarrow> nat list \<Rightarrow> Stmt list option" where
  "blockAt b [] = Some (blockStmts b)"
| "blockAt b (i # k # addr) =
     (if i < length (blockStmts b) then Option.bind (subBlock (blockStmts b ! i) k) (\<lambda>c. blockAt c addr) else None)"
| "blockAt b [i] = None"

fun pointInfo :: "point \<Rightarrow> labelInfo" where
  "pointInfo (AtLabel l) = l"
| "pointInfo (AtGoto g) = g"

definition addressed :: "BlockStmt \<Rightarrow> point \<Rightarrow> bool" where
  "addressed root p \<longleftrightarrow> blockAt root (brAddr (liBlock (pointInfo p))) = Some (brStmts (liBlock (pointInfo p)))"

text \<open>\<open>addr\<close> leads from the root to the block \<open>b\<close>.\<close>

definition leadsTo :: "BlockStmt \<Rightarrow> nat list \<Rightarrow> BlockStmt \<Rightarrow> bool" where
  "leadsTo root addr b \<longleftrightarrow> (\<forall>as. blockAt root (addr @ as) = blockAt b as)"

lemma leadsTo_sub:
  "leadsTo root addr b \<Longrightarrow> i < length (blockStmts b) \<Longrightarrow> subBlock (blockStmts b ! i) k = Some c \<Longrightarrow>
   leadsTo root (addr @ [i, k]) c"
  by (simp add: leadsTo_def)

lemma leadsTo_here: "leadsTo root addr b \<Longrightarrow> blockAt root addr = Some (blockStmts b)"
  by (auto simp: leadsTo_def dest: spec [of _ "[]"])

lemma points_addressed:
  "(e :: Expr) = e" "(pt :: InterpolatedStringPart) = pt" "(cf :: ConfigField) = cf" "(f :: TableField) = f"
  "\<forall>ref p depth i. leadsTo root (brAddr ref) (BlockStmt p (brStmts ref)) \<longrightarrow> i < length (brStmts ref) \<longrightarrow>
     brStmts ref ! i = s \<longrightarrow> list_all (addressed root) (pointsStmt s ref depth i)"
  "(sc :: SelectCase) = sc"
  "\<forall>addr depth. (case c of ElseIfClause p d b \<Rightarrow> leadsTo root addr b) \<longrightarrow> list_all (addressed root) (pointsElseIf c addr depth)"
  "\<forall>addr depth. leadsTo root addr b \<longrightarrow> list_all (addressed root) (pointsBlock b addr depth)"
proof (induction e and pt and cf and f and s and sc and c and b)
  case (IfStmt q c b es e)
  show ?case
  proof (intro allI impI)
    fix ref :: blockRef and p depth i
    assume *: "leadsTo root (brAddr ref) (BlockStmt p (brStmts ref))" "i < length (brStmts ref)"
      "brStmts ref ! i = IfStmt q c b es e"
    then have sub: "subBlock (IfStmt q c b es e) k = Some b' \<Longrightarrow> leadsTo root (brAddr ref @ [i, k]) b'" for k b'
      using leadsTo_sub [of root "brAddr ref" "BlockStmt p (brStmts ref)" i k b'] by simp
    have "list_all (addressed root)
      (numbered (map (\<lambda>f j. f (brAddr ref @ [i] @ [j + 2]) (Suc depth)) (map pointsElseIf es)) 0)"
    proof (rule numbered_all)
      fix j f
      assume j: "j < length (map (\<lambda>f j. f (brAddr ref @ [i] @ [j + 2]) (Suc depth)) (map pointsElseIf es))"
        "map (\<lambda>f j. f (brAddr ref @ [i] @ [j + 2]) (Suc depth)) (map pointsElseIf es) ! j = f"
      obtain q' d b' where c: "es ! j = ElseIfClause q' d b'" by (cases "es ! j")
      have "leadsTo root (brAddr ref @ [i, j + 2]) b'" using j c by (intro sub) simp
      moreover have "ElseIfClause q' d b' \<in> set es" using j c nth_mem [of j es] by simp
      ultimately show "list_all (addressed root) (f (0 + j))"
        using j c IfStmt.IH(3) [of "es ! j"] by (auto simp del: pointsElseIf.simps)
    qed
    moreover have "e = Some b' \<Longrightarrow> list_all (addressed root) (pointsBlock b' (brAddr ref @ [i, 1]) (Suc depth))" for b'
      using IfStmt.IH(4) sub [of 1] by auto
    moreover have "list_all (addressed root) (pointsBlock b (brAddr ref @ [i, 0]) (Suc depth))"
      using IfStmt.IH(2) sub [of 0] by simp
    ultimately show "list_all (addressed root) (pointsStmt (IfStmt q c b es e) ref depth i)"
      by (cases e) simp_all
  qed
next
  case (BlockStmt p ss)
  show ?case
  proof (intro allI impI)
    fix addr depth
    assume l: "leadsTo root addr (BlockStmt p ss)"
    have "list_all (addressed root) (pointsStmt (ss ! j) \<lparr>brAddr = addr, brStmts = ss\<rparr> depth j)" if "j < length ss" for j
      using BlockStmt.IH [OF nth_mem [OF that], rule_format, of "\<lparr>brAddr = addr, brStmts = ss\<rparr>" p j depth] l that by simp
    then show "list_all (addressed root) (pointsBlock (BlockStmt p ss) addr depth)"
      by (auto intro!: numbered_all)
  qed
qed (auto simp: addressed_def leadsTo_here dest: leadsTo_sub [where k = 0])

lemma bodyPoints_addressed: "list_all (addressed b) (bodyPoints b)"
  unfolding bodyPoints_def using points_addressed(8) [of b b] by (simp add: leadsTo_def)

lemma same_address:
  "p \<in> set (bodyPoints b) \<Longrightarrow> q \<in> set (bodyPoints b) \<Longrightarrow>
   brAddr (liBlock (pointInfo p)) = brAddr (liBlock (pointInfo q)) \<Longrightarrow>
   liBlock (pointInfo p) = liBlock (pointInfo q)"
  using bodyPoints_addressed [of b] by (metis addressed_def list_all_iff option.inject blockRef.equality old.unit.exhaust)

end
