(* ===== verification/Inspect.thy ===== *)
theory Inspect
  imports Ast
begin

section \<open>Tree traversal (internal/ast/inspect.go)\<close>

text \<open>
  \<open>Inspect\<close> calls a visitor on a node and, when the visitor answers true, on the children
  of the node in order. The visitor is a Go closure with effects of its own: a function from
  its state and a node to the answer and the new state. A nil interface or pointer is an
  absent \<open>option\<close>, which is not visited.
\<close>

datatype (plugins only: size code) Node =
    ProgramNode Program
  | BlockNode BlockStmt
  | StmtNode Stmt
  | ExprNode Expr

type_synonym 's visitor = "'s \<Rightarrow> Node \<Rightarrow> bool \<times> 's"
type_synonym 's walk = "'s visitor \<Rightarrow> 's \<Rightarrow> 's"

definition seqWalk :: "'s walk list \<Rightarrow> 's walk" where
  "seqWalk ws fn s = foldl (\<lambda>s w. w fn s) s ws"

definition optWalk :: "'s walk option \<Rightarrow> 's walk list" where
  "optWalk w = (case w of None \<Rightarrow> [] | Some f \<Rightarrow> [f])"

definition visit :: "Node \<Rightarrow> 's walk list \<Rightarrow> 's walk" where
  "visit n kids fn s = (case fn s n of (go, s') \<Rightarrow> if go then seqWalk kids fn s' else s')"

primrec inspectExpr :: "Expr \<Rightarrow> 's walk"
  and inspectPart :: "InterpolatedStringPart \<Rightarrow> 's walk"
  and inspectConfig :: "ConfigField \<Rightarrow> 's walk"
  and inspectField :: "TableField \<Rightarrow> 's walk"
  and inspectStmt :: "Stmt \<Rightarrow> 's walk"
  and inspectCase :: "SelectCase \<Rightarrow> 's walk"
  and inspectElseIf :: "ElseIfClause \<Rightarrow> 's walk"
  and inspectBlock :: "BlockStmt \<Rightarrow> 's walk"
where
  "inspectExpr (NumberLit p v) = visit (ExprNode (NumberLit p v)) ([])"
| "inspectExpr (StringLit p v) = visit (ExprNode (StringLit p v)) ([])"
| "inspectExpr (InterpolatedStringExpr p ps) = visit (ExprNode (InterpolatedStringExpr p ps)) (map inspectPart ps)"
| "inspectExpr (BoolLit p b) = visit (ExprNode (BoolLit p b)) ([])"
| "inspectExpr (NilLit p) = visit (ExprNode (NilLit p)) ([])"
| "inspectExpr (VarArgExpr p) = visit (ExprNode (VarArgExpr p)) ([])"
| "inspectExpr (IdentExpr p n) = visit (ExprNode (IdentExpr p n)) ([])"
| "inspectExpr (TaggedStringExpr p t b f) = visit (ExprNode (TaggedStringExpr p t b f)) ([inspectExpr b])"
| "inspectExpr (TaggedBlockExpr p t c b r e h f) = visit (ExprNode (TaggedBlockExpr p t c b r e h f)) (map inspectConfig c @ optWalk (map_option inspectBlock b) @ optWalk (map_option inspectExpr e))"
| "inspectExpr (BinaryExpr p l op r) = visit (ExprNode (BinaryExpr p l op r)) ([inspectExpr l, inspectExpr r])"
| "inspectExpr (UnaryExpr p op e) = visit (ExprNode (UnaryExpr p op e)) ([inspectExpr e])"
| "inspectExpr (ParenExpr p e) = visit (ExprNode (ParenExpr p e)) ([inspectExpr e])"
| "inspectExpr (IndexExpr p t i) = visit (ExprNode (IndexExpr p t i)) ([inspectExpr t, inspectExpr i])"
| "inspectExpr (FieldExpr p t f) = visit (ExprNode (FieldExpr p t f)) ([inspectExpr t])"
| "inspectExpr (CallExpr p f a) = visit (ExprNode (CallExpr p f a)) (inspectExpr f # map inspectExpr a)"
| "inspectExpr (MethodCallExpr p ob m a) = visit (ExprNode (MethodCallExpr p ob m a)) (inspectExpr ob # map inspectExpr a)"
| "inspectExpr (FuncLitExpr p ps b) = visit (ExprNode (FuncLitExpr p ps b)) ([inspectBlock b])"
| "inspectExpr (ListLitExpr p vs) = visit (ExprNode (ListLitExpr p vs)) (map inspectExpr vs)"
| "inspectExpr (TableLitExpr p fs) = visit (ExprNode (TableLitExpr p fs)) (map inspectField fs)"
| "inspectExpr (DenseLitExpr p d n vs) = visit (ExprNode (DenseLitExpr p d n vs)) (map inspectExpr vs)"
| "inspectExpr (RecvExpr p c) = visit (ExprNode (RecvExpr p c)) ([inspectExpr c])"
| "inspectExpr (MakeChanExpr p sz) = visit (ExprNode (MakeChanExpr p sz)) (optWalk (map_option inspectExpr sz))"
| "inspectPart (InterpolatedStringPart t e) = seqWalk (optWalk (map_option inspectExpr e))"
| "inspectConfig (ConfigField p k v) = seqWalk [inspectExpr k, inspectExpr v]"
| "inspectField (TableField k v) = seqWalk (optWalk (map_option inspectExpr k) @ [inspectExpr v])"
| "inspectStmt (AssignStmt p ts vs) = visit (StmtNode (AssignStmt p ts vs)) (map inspectExpr ts @ map inspectExpr vs)"
| "inspectStmt (DeclareStmt p ns vs ro) = visit (StmtNode (DeclareStmt p ns vs ro)) (map inspectExpr vs)"
| "inspectStmt (CompoundAssignStmt p t op v) = visit (StmtNode (CompoundAssignStmt p t op v)) ([inspectExpr t, inspectExpr v])"
| "inspectStmt (IncDecStmt p t op) = visit (StmtNode (IncDecStmt p t op)) ([inspectExpr t])"
| "inspectStmt (CallStmt p c) = visit (StmtNode (CallStmt p c)) ([inspectExpr c])"
| "inspectStmt (GoStmt p c) = visit (StmtNode (GoStmt p c)) ([inspectExpr c])"
| "inspectStmt (DeferStmt p c) = visit (StmtNode (DeferStmt p c)) ([inspectExpr c])"
| "inspectStmt (SendStmt p c v) = visit (StmtNode (SendStmt p c v)) (inspectExpr c # optWalk (map_option inspectExpr v))"
| "inspectStmt (SelectStmt p cs d) = visit (StmtNode (SelectStmt p cs d)) (map inspectCase cs @ optWalk (map_option inspectBlock d))"
| "inspectStmt (IfStmt p c b es e) = visit (StmtNode (IfStmt p c b es e)) (inspectExpr c # inspectBlock b # map inspectElseIf es @ optWalk (map_option inspectBlock e))"
| "inspectStmt (ForNumStmt p i c q b) = visit (StmtNode (ForNumStmt p i c q b)) ([inspectStmt i, inspectExpr c, inspectStmt q, inspectBlock b])"
| "inspectStmt (ForRangeStmt p k v i b) = visit (StmtNode (ForRangeStmt p k v i b)) ([inspectExpr i, inspectBlock b])"
| "inspectStmt (ForStmt p c b) = visit (StmtNode (ForStmt p c b)) (optWalk (map_option inspectExpr c) @ [inspectBlock b])"
| "inspectStmt (ReturnStmt p vs) = visit (StmtNode (ReturnStmt p vs)) (map inspectExpr vs)"
| "inspectStmt (BreakStmt p) = visit (StmtNode (BreakStmt p)) ([])"
| "inspectStmt (ContinueStmt p) = visit (StmtNode (ContinueStmt p)) ([])"
| "inspectStmt (LabelStmt p n) = visit (StmtNode (LabelStmt p n)) ([])"
| "inspectStmt (GotoStmt p n) = visit (StmtNode (GotoStmt p n)) ([])"
| "inspectStmt (EvaluateStmt p n b) = visit (StmtNode (EvaluateStmt p n b)) ([inspectBlock b])"
| "inspectStmt (FuncDeclStmt p n ps b) = visit (StmtNode (FuncDeclStmt p n ps b)) ([inspectBlock b])"
| "inspectStmt (NestedBlock b) = inspectBlock b"
| "inspectCase (SelectCase p n m c v b) = seqWalk (inspectExpr c # optWalk (map_option inspectExpr v) @ [inspectBlock b])"
| "inspectElseIf (ElseIfClause p c b) = seqWalk [inspectExpr c, inspectBlock b]"
| "inspectBlock (BlockStmt p ss) = visit (BlockNode (BlockStmt p ss)) (map inspectStmt ss)"

primrec Inspect :: "Node \<Rightarrow> 's walk" where
  "Inspect (ProgramNode prog) = visit (ProgramNode prog) (map inspectStmt (prStmts prog))"
| "Inspect (BlockNode b) = inspectBlock b"
| "Inspect (StmtNode st) = inspectStmt st"
| "Inspect (ExprNode e) = inspectExpr e"

section \<open>What the traversal visits\<close>

text \<open>The children of a node; a block that is a statement is the block node.\<close>

fun stmtNodeOf :: "Stmt \<Rightarrow> Node" where
  "stmtNodeOf (NestedBlock b) = BlockNode b"
| "stmtNodeOf st = StmtNode st"

definition optNode :: "Node option \<Rightarrow> Node list" where
  "optNode x = (case x of None \<Rightarrow> [] | Some n \<Rightarrow> [n])"

fun partNodes :: "InterpolatedStringPart \<Rightarrow> Node list" where
  "partNodes (InterpolatedStringPart t e) = optNode (map_option ExprNode e)"

fun configNodes :: "ConfigField \<Rightarrow> Node list" where
  "configNodes (ConfigField p k v) = [ExprNode k, ExprNode v]"

fun fieldNodes :: "TableField \<Rightarrow> Node list" where
  "fieldNodes (TableField k v) = optNode (map_option ExprNode k) @ [ExprNode v]"

fun caseNodes :: "SelectCase \<Rightarrow> Node list" where
  "caseNodes (SelectCase p n m c v b) = ExprNode c # optNode (map_option ExprNode v) @ [BlockNode b]"

fun elseIfNodes :: "ElseIfClause \<Rightarrow> Node list" where
  "elseIfNodes (ElseIfClause p c b) = [ExprNode c, BlockNode b]"

fun children :: "Node \<Rightarrow> Node list" where
  "children (ExprNode (NumberLit p v)) = []"
| "children (ExprNode (StringLit p v)) = []"
| "children (ExprNode (InterpolatedStringExpr p ps)) = concat (map partNodes ps)"
| "children (ExprNode (BoolLit p b)) = []"
| "children (ExprNode (NilLit p)) = []"
| "children (ExprNode (VarArgExpr p)) = []"
| "children (ExprNode (IdentExpr p n)) = []"
| "children (ExprNode (TaggedStringExpr p t b f)) = [ExprNode b]"
| "children (ExprNode (TaggedBlockExpr p t c b r e h f)) = concat (map configNodes c) @ optNode (map_option BlockNode b) @ optNode (map_option ExprNode e)"
| "children (ExprNode (BinaryExpr p l op r)) = [ExprNode l, ExprNode r]"
| "children (ExprNode (UnaryExpr p op e)) = [ExprNode e]"
| "children (ExprNode (ParenExpr p e)) = [ExprNode e]"
| "children (ExprNode (IndexExpr p t i)) = [ExprNode t, ExprNode i]"
| "children (ExprNode (FieldExpr p t f)) = [ExprNode t]"
| "children (ExprNode (CallExpr p f a)) = ExprNode f # map ExprNode a"
| "children (ExprNode (MethodCallExpr p ob m a)) = ExprNode ob # map ExprNode a"
| "children (ExprNode (FuncLitExpr p ps b)) = [BlockNode b]"
| "children (ExprNode (ListLitExpr p vs)) = map ExprNode vs"
| "children (ExprNode (TableLitExpr p fs)) = concat (map fieldNodes fs)"
| "children (ExprNode (DenseLitExpr p d n vs)) = map ExprNode vs"
| "children (ExprNode (RecvExpr p c)) = [ExprNode c]"
| "children (ExprNode (MakeChanExpr p sz)) = optNode (map_option ExprNode sz)"
| "children (StmtNode (AssignStmt p ts vs)) = map ExprNode ts @ map ExprNode vs"
| "children (StmtNode (DeclareStmt p ns vs ro)) = map ExprNode vs"
| "children (StmtNode (CompoundAssignStmt p t op v)) = [ExprNode t, ExprNode v]"
| "children (StmtNode (IncDecStmt p t op)) = [ExprNode t]"
| "children (StmtNode (CallStmt p c)) = [ExprNode c]"
| "children (StmtNode (GoStmt p c)) = [ExprNode c]"
| "children (StmtNode (DeferStmt p c)) = [ExprNode c]"
| "children (StmtNode (SendStmt p c v)) = ExprNode c # optNode (map_option ExprNode v)"
| "children (StmtNode (SelectStmt p cs d)) = concat (map caseNodes cs) @ optNode (map_option BlockNode d)"
| "children (StmtNode (IfStmt p c b es e)) = ExprNode c # BlockNode b # concat (map elseIfNodes es) @ optNode (map_option BlockNode e)"
| "children (StmtNode (ForNumStmt p i c q b)) = [stmtNodeOf i, ExprNode c, stmtNodeOf q, BlockNode b]"
| "children (StmtNode (ForRangeStmt p k v i b)) = [ExprNode i, BlockNode b]"
| "children (StmtNode (ForStmt p c b)) = optNode (map_option ExprNode c) @ [BlockNode b]"
| "children (StmtNode (ReturnStmt p vs)) = map ExprNode vs"
| "children (StmtNode (BreakStmt p)) = []"
| "children (StmtNode (ContinueStmt p)) = []"
| "children (StmtNode (LabelStmt p n)) = []"
| "children (StmtNode (GotoStmt p n)) = []"
| "children (StmtNode (EvaluateStmt p n b)) = [BlockNode b]"
| "children (StmtNode (FuncDeclStmt p n ps b)) = [BlockNode b]"
| "children (StmtNode (NestedBlock b)) = map stmtNodeOf (blockStmts b)"
| "children (BlockNode b) = map stmtNodeOf (blockStmts b)"
| "children (ProgramNode prog) = map stmtNodeOf (prStmts prog)"

lemma seqWalk_simps [simp]:
  "seqWalk [] fn s = s" "seqWalk (w # ws) fn s = seqWalk ws fn (w fn s)"
  "seqWalk (ws @ vs) fn s = seqWalk vs fn (seqWalk ws fn s)"
  by (simp_all add: seqWalk_def)

lemma seqWalk_concat:
  assumes "\<And>x. f x = seqWalk (g x)"
  shows "seqWalk (map f xs) = seqWalk (concat (map g xs))"
proof (intro ext)
  fix fn s
  show "seqWalk (map f xs) fn s = seqWalk (concat (map g xs)) fn s"
    by (induction xs arbitrary: s) (simp_all add: assms)
qed

lemma map_optNode: "map Inspect (optNode (map_option ExprNode x)) = optWalk (map_option inspectExpr x)"
  "map Inspect (optNode (map_option BlockNode y)) = optWalk (map_option inspectBlock y)"
  by (cases x; simp add: optNode_def optWalk_def) (cases y; simp add: optNode_def optWalk_def)

lemma Inspect_stmtNodeOf: "Inspect (stmtNodeOf st) = inspectStmt st"
  by (cases st) simp_all

lemma inspect_pieces:
  "inspectPart p = seqWalk (map Inspect (partNodes p))"
  "inspectConfig c = seqWalk (map Inspect (configNodes c))"
  "inspectField f = seqWalk (map Inspect (fieldNodes f))"
  "inspectCase sc = seqWalk (map Inspect (caseNodes sc))"
  "inspectElseIf ei = seqWalk (map Inspect (elseIfNodes ei))"
  by (cases p; cases c; cases f; cases sc; cases ei; simp add: map_optNode)+

lemmas inspect_lists =
  seqWalk_concat [of inspectPart, OF inspect_pieces(1)] seqWalk_concat [of inspectConfig, OF inspect_pieces(2)]
  seqWalk_concat [of inspectField, OF inspect_pieces(3)] seqWalk_concat [of inspectCase, OF inspect_pieces(4)]
  seqWalk_concat [of inspectElseIf, OF inspect_pieces(5)]

lemma map_Inspect [simp]:
  "map Inspect (map ExprNode es) = map inspectExpr es" "map Inspect (map stmtNodeOf ss) = map inspectStmt ss"
  "map Inspect (map BlockNode bs) = map inspectBlock bs"
  by (simp_all add: Inspect_stmtNodeOf)

lemma visit_def': "visit n kids fn s = (if fst (fn s n) then seqWalk kids fn (snd (fn s n)) else snd (fn s n))"
  by (simp add: visit_def split: prod.split)

text \<open>Visiting a node is calling the visitor and visiting the children in order.\<close>

definition isBlockStmt :: "Node \<Rightarrow> bool" where
  "isBlockStmt n \<longleftrightarrow> (\<exists>b. n = StmtNode (NestedBlock b))"

lemma Inspect_unfold:
  assumes "\<not> isBlockStmt n"
  shows "Inspect n fn s =
    (if fst (fn s n) then seqWalk (map Inspect (children n)) fn (snd (fn s n)) else snd (fn s n))"
proof (cases n)
  case (ProgramNode prog)
  then show ?thesis by (simp add: visit_def' Inspect_stmtNodeOf comp_def)
next
  case (BlockNode b)
  then show ?thesis by (cases b) (simp add: visit_def' Inspect_stmtNodeOf comp_def)
next
  case (StmtNode st)
  with assms show ?thesis
    by (cases st) (simp_all add: isBlockStmt_def visit_def' inspect_lists map_optNode map_concat comp_def
        Inspect_stmtNodeOf)
next
  case (ExprNode e)
  then show ?thesis
    by (cases e) (simp_all add: visit_def' inspect_lists map_optNode map_concat comp_def)
qed

text \<open>Induction over the children of a node.\<close>

lemma node_induct_all:
  assumes step: "\<And>n. (\<And>c. c \<in> set (children n) \<Longrightarrow> P c) \<Longrightarrow> P n"
  shows "P (ExprNode e)" "\<forall>c\<in>set (partNodes pt). P c" "\<forall>c\<in>set (configNodes cf). P c"
    "\<forall>c\<in>set (fieldNodes f). P c" "P (StmtNode st) \<and> P (stmtNodeOf st)" "\<forall>c\<in>set (caseNodes sc). P c"
    "\<forall>c\<in>set (elseIfNodes ei). P c" "P (BlockNode b) \<and> (\<forall>s\<in>set (blockStmts b). P (stmtNodeOf s))"
proof (induction e and pt and cf and f and st and sc and ei and b)
  case (BlockStmt p ss)
  then have ss: "\<forall>s\<in>set ss. P (stmtNodeOf s)" by blast
  have "P (BlockNode (BlockStmt p ss))" by (rule step) (use ss in auto)
  with ss show ?case by simp
next
  case (NestedBlock b)
  then have "\<forall>c\<in>set (children (StmtNode (NestedBlock b))). P c" by simp
  then have "P (StmtNode (NestedBlock b))" by (blast intro: step)
  with NestedBlock show ?case by simp
qed (((simp only: stmtNodeOf.simps conj_absorb)?, (rule step)?, (auto simp: optNode_def split: option.splits)[1])+)

lemma node_induct:
  assumes "\<And>n. (\<And>c. c \<in> set (children n) \<Longrightarrow> P c) \<Longrightarrow> P n"
  shows "P n"
proof (cases n)
  case (ProgramNode prog)
  have "P c" if "c \<in> set (children n)" for c
    using that ProgramNode node_induct_all(5) [of P, OF assms] by auto
  then show ?thesis by (rule assms)
next
  case (BlockNode b)
  then show ?thesis using node_induct_all(8) [of P, OF assms] by blast
next
  case (StmtNode st)
  then show ?thesis using node_induct_all(5) [of P, OF assms] by blast
next
  case (ExprNode e)
  then show ?thesis using node_induct_all(1) [of P, OF assms] by blast
qed

lemma plain_nodes [simp]:
  "\<not> isBlockStmt (ExprNode e)" "\<not> isBlockStmt (BlockNode b)" "\<not> isBlockStmt (stmtNodeOf st)"
  by (simp_all add: isBlockStmt_def) (cases st; simp)

lemma plain_pieces [simp]:
  "c \<in> set (optNode (map_option ExprNode x)) \<Longrightarrow> \<not> isBlockStmt c"
  "c \<in> set (optNode (map_option BlockNode y)) \<Longrightarrow> \<not> isBlockStmt c"
  "c \<in> set (partNodes p) \<Longrightarrow> \<not> isBlockStmt c" "c \<in> set (configNodes cf) \<Longrightarrow> \<not> isBlockStmt c"
  "c \<in> set (fieldNodes f) \<Longrightarrow> \<not> isBlockStmt c" "c \<in> set (caseNodes sc) \<Longrightarrow> \<not> isBlockStmt c"
  "c \<in> set (elseIfNodes ei) \<Longrightarrow> \<not> isBlockStmt c"
proof -
  show e: "c \<in> set (optNode (map_option ExprNode x)) \<Longrightarrow> \<not> isBlockStmt c" for x
    by (cases x) (auto simp: optNode_def)
  show "c \<in> set (optNode (map_option BlockNode y)) \<Longrightarrow> \<not> isBlockStmt c"
    by (cases y) (auto simp: optNode_def)
  show "c \<in> set (partNodes p) \<Longrightarrow> \<not> isBlockStmt c" by (cases p) (auto dest: e)
  show "c \<in> set (configNodes cf) \<Longrightarrow> \<not> isBlockStmt c" by (cases cf) auto
  show "c \<in> set (fieldNodes f) \<Longrightarrow> \<not> isBlockStmt c" by (cases f) (auto dest: e)
  show "c \<in> set (caseNodes sc) \<Longrightarrow> \<not> isBlockStmt c" by (cases sc) (auto dest: e)
  show "c \<in> set (elseIfNodes ei) \<Longrightarrow> \<not> isBlockStmt c" by (cases ei) auto
qed

lemma children_plain: "c \<in> set (children n) \<Longrightarrow> \<not> isBlockStmt c"
  by (cases n rule: children.cases) (auto dest: plain_pieces)

text \<open>A visitor that notes every node and goes on below the nodes that satisfy \<open>go\<close>.\<close>

definition noting :: "(Node \<Rightarrow> bool) \<Rightarrow> Node list visitor" where
  "noting go s n = (go n, s @ [n])"

definition visited :: "(Node \<Rightarrow> bool) \<Rightarrow> Node \<Rightarrow> Node list" where
  "visited go n = Inspect n (noting go) []"

lemma noting_state: "fst (noting go s n) = go n" "snd (noting go s n) = s @ [n]"
  by (simp_all add: noting_def)

lemma Inspect_noting:
  "\<not> isBlockStmt n \<Longrightarrow> Inspect n (noting go) s = s @ visited go n \<and>
     visited go n = n # (if go n then concat (map (visited go) (children n)) else [])"
proof (induction n arbitrary: s rule: node_induct)
  case (1 n)
  have kids: "set cs \<subseteq> set (children n) \<Longrightarrow>
    seqWalk (map Inspect cs) (noting go) s = s @ concat (map (visited go) cs)" for cs s
    by (induction cs arbitrary: s) (use 1 children_plain in simp_all)
  show ?case
    using kids [of "children n"]
    by (simp add: Inspect_unfold [OF "1.prems", of "noting go"] visited_def noting_state)
qed

definition stepsTo :: "(Node \<Rightarrow> bool) \<Rightarrow> Node \<Rightarrow> Node \<Rightarrow> bool" where
  "stepsTo go n c \<longleftrightarrow> go n \<and> c \<in> set (children n)"

lemma set_visited:
  "\<not> isBlockStmt n \<Longrightarrow> set (visited go n) = {m. (stepsTo go)\<^sup>*\<^sup>* n m}"
proof (induction n rule: node_induct)
  case (1 n)
  have kids: "(\<Union>c\<in>set (children n). set (visited go c)) = (\<Union>c\<in>set (children n). {m. (stepsTo go)\<^sup>*\<^sup>* c m})"
    using 1 children_plain by (intro SUP_cong) blast+
  have "set (visited go n) = insert n (if go n then \<Union>c\<in>set (children n). set (visited go c) else {})"
    unfolding conjunct2 [OF Inspect_noting [OF "1.prems", of go]] by (auto simp only: list.set set_concat set_map split: if_split)
  also have "\<dots> = insert n (\<Union>c\<in>{c. stepsTo go n c}. {m. (stepsTo go)\<^sup>*\<^sup>* c m})"
    unfolding kids by (simp add: stepsTo_def [of go n])
  also have "\<dots> = {m. (stepsTo go)\<^sup>*\<^sup>* n m}"
    by (auto intro: converse_rtranclp_into_rtranclp elim: converse_rtranclpE)
  finally show ?case .
qed

end
