(* ===== verification/Pipeline.thy ===== *)
theory Pipeline
  imports Samples Desugar_Meaning Label_Correct Inspect
begin

section \<open>The passes together\<close>

text \<open>
  Facts that join components: a traversal of a lowered program meets no sugar, and a tagged
  string means something else as a statement than as an expression.
\<close>

subsection \<open>No sugar below a lowered program\<close>

fun isSugar :: "Node \<Rightarrow> bool" where
  "isSugar (ExprNode (InterpolatedStringExpr p ps)) = True"
| "isSugar (ExprNode (TaggedStringExpr p t b f)) = True"
| "isSugar (ExprNode (TaggedBlockExpr p t c b r e h f)) = True"
| "isSugar (ExprNode (ListLitExpr p vs)) = True"
| "isSugar n = False"

fun outsideEvaluate :: "Node \<Rightarrow> bool" where
  "outsideEvaluate (StmtNode (EvaluateStmt p n b)) = False"
| "outsideEvaluate n = True"

fun freeNode :: "Node \<Rightarrow> bool" where
  "freeNode (ProgramNode prog) = sugarFree prog"
| "freeNode (BlockNode b) = freeBlock b"
| "freeNode (StmtNode st) = freeStmt st"
| "freeNode (ExprNode e) = freeExpr e"

lemma freeNode_stmtNodeOf [simp]: "freeNode (stmtNodeOf st) = freeStmt st"
  by (cases st) simp_all

lemma freeBlock_stmts: "freeBlock b = list_all freeStmt (blockStmts b)"
  by (cases b) simp

lemma freeNode_optNode:
  "list_all freeNode (optNode (map_option ExprNode x)) = pred_option freeExpr x"
  "list_all freeNode (optNode (map_option BlockNode y)) = pred_option freeBlock y"
  by (cases x; simp add: optNode_def) (cases y; simp add: optNode_def)

lemma freeNode_pieces:
  "list_all freeNode (fieldNodes f) = freeField f" "list_all freeNode (caseNodes sc) = freeCase sc"
  "list_all freeNode (elseIfNodes ei) = freeElseIf ei"
  by (cases f; cases sc; cases ei; simp add: freeNode_optNode)+

lemma list_all_concat: "list_all P (concat (map g xs)) = list_all (\<lambda>x. list_all P (g x)) xs"
  by (induction xs) simp_all

lemma free_children: "freeNode n \<Longrightarrow> outsideEvaluate n \<Longrightarrow> list_all freeNode (children n)"
  by (cases n rule: children.cases)
    (simp_all add: list.pred_map comp_def freeNode_optNode list_all_concat freeNode_pieces sugarFree_def freeBlock_stmts)

lemma free_visited:
  "\<not> isBlockStmt n \<Longrightarrow> freeNode n \<Longrightarrow> filter isSugar (visited outsideEvaluate n) = []"
proof (induction n rule: node_induct)
  case (1 n)
  have "\<not> isSugar n" using "1.prems"(2) by (cases n rule: isSugar.cases) simp_all
  moreover have "filter isSugar (concat (map (visited outsideEvaluate) (children n))) = []" if "outsideEvaluate n"
    using free_children [OF "1.prems"(2) that] 1 children_plain by (auto simp: list_all_iff filter_concat)
  ultimately show ?case
    by (simp add: conjunct2 [OF Inspect_noting [OF "1.prems"(1)]])
qed

lemma sugarFree_DesugarSyntax: "sugarFree (DesugarSyntax prog)"
  by (auto simp: DesugarSyntax_lowering sugarFree_def list.pred_map comp_def list_all_iff
      intro: lowering_lower.lower_stmt [OF order_refl])

lemma lowering_idle: "freeStmt s \<Longrightarrow> dsStmt lowering s = s" "freeExpr e \<Longrightarrow> dsExpr lowering e = e"
  by (rule lowering_lower.idle_stmt lowering_lower.idle_expr; assumption)+

end
