(* ===== verification/Opcode.thy ===== *)
theory Opcode
  imports GoStrings "HOL-Library.Word"
begin

unbundle bit_operations_syntax

section \<open>Bytecode instructions (internal/vm/opcode.go)\<close>

text \<open>
  An instruction is a 32-bit word: the opcode in the low byte, then the fields A, B and C of a byte
  each, or A and a field of 16 bits (Bx, or sBx with a bias). The encoders take Go's \<open>int\<close>, here
  \<open>int\<close>, and keep the low bits of a field: an operand that does not fit is cut off silently, which
  the lemmas at the end state exactly.
\<close>

type_synonym Opcode = "8 word"

abbreviation (input) OP_LOADNIL :: Opcode where "OP_LOADNIL \<equiv> 0"
abbreviation (input) OP_LOADBOOL :: Opcode where "OP_LOADBOOL \<equiv> 1"
abbreviation (input) OP_LOADINT :: Opcode where "OP_LOADINT \<equiv> 2"
abbreviation (input) OP_LOADK :: Opcode where "OP_LOADK \<equiv> 3"
abbreviation (input) OP_MOVE :: Opcode where "OP_MOVE \<equiv> 4"
abbreviation (input) OP_GETGLOBAL :: Opcode where "OP_GETGLOBAL \<equiv> 5"
abbreviation (input) OP_SETGLOBAL :: Opcode where "OP_SETGLOBAL \<equiv> 6"
abbreviation (input) OP_GETUPVAL :: Opcode where "OP_GETUPVAL \<equiv> 7"
abbreviation (input) OP_SETUPVAL :: Opcode where "OP_SETUPVAL \<equiv> 8"
abbreviation (input) OP_NEWTABLE :: Opcode where "OP_NEWTABLE \<equiv> 9"
abbreviation (input) OP_NEWOBJECT2 :: Opcode where "OP_NEWOBJECT2 \<equiv> 10"
abbreviation (input) OP_GETTABLE :: Opcode where "OP_GETTABLE \<equiv> 11"
abbreviation (input) OP_SETTABLE :: Opcode where "OP_SETTABLE \<equiv> 12"
abbreviation (input) OP_GETFIELD :: Opcode where "OP_GETFIELD \<equiv> 13"
abbreviation (input) OP_SETFIELD :: Opcode where "OP_SETFIELD \<equiv> 14"
abbreviation (input) OP_SETLIST :: Opcode where "OP_SETLIST \<equiv> 15"
abbreviation (input) OP_APPEND :: Opcode where "OP_APPEND \<equiv> 16"
abbreviation (input) OP_ADD :: Opcode where "OP_ADD \<equiv> 17"
abbreviation (input) OP_SUB :: Opcode where "OP_SUB \<equiv> 18"
abbreviation (input) OP_MUL :: Opcode where "OP_MUL \<equiv> 19"
abbreviation (input) OP_DIV :: Opcode where "OP_DIV \<equiv> 20"
abbreviation (input) OP_MOD :: Opcode where "OP_MOD \<equiv> 21"
abbreviation (input) OP_POW :: Opcode where "OP_POW \<equiv> 22"
abbreviation (input) OP_BAND :: Opcode where "OP_BAND \<equiv> 23"
abbreviation (input) OP_BOR :: Opcode where "OP_BOR \<equiv> 24"
abbreviation (input) OP_BXOR :: Opcode where "OP_BXOR \<equiv> 25"
abbreviation (input) OP_BANDN :: Opcode where "OP_BANDN \<equiv> 26"
abbreviation (input) OP_SHL :: Opcode where "OP_SHL \<equiv> 27"
abbreviation (input) OP_SHR :: Opcode where "OP_SHR \<equiv> 28"
abbreviation (input) OP_UNM :: Opcode where "OP_UNM \<equiv> 29"
abbreviation (input) OP_BNOT :: Opcode where "OP_BNOT \<equiv> 30"
abbreviation (input) OP_NOT :: Opcode where "OP_NOT \<equiv> 31"
abbreviation (input) OP_LEN :: Opcode where "OP_LEN \<equiv> 32"
abbreviation (input) OP_CONCAT :: Opcode where "OP_CONCAT \<equiv> 33"
abbreviation (input) OP_EQ :: Opcode where "OP_EQ \<equiv> 34"
abbreviation (input) OP_LT :: Opcode where "OP_LT \<equiv> 35"
abbreviation (input) OP_LE :: Opcode where "OP_LE \<equiv> 36"
abbreviation (input) OP_TEST :: Opcode where "OP_TEST \<equiv> 37"
abbreviation (input) OP_TESTSET :: Opcode where "OP_TESTSET \<equiv> 38"
abbreviation (input) OP_JMP :: Opcode where "OP_JMP \<equiv> 39"
abbreviation (input) OP_CALL :: Opcode where "OP_CALL \<equiv> 40"
abbreviation (input) OP_RETURN :: Opcode where "OP_RETURN \<equiv> 41"
abbreviation (input) OP_CLOSURE :: Opcode where "OP_CLOSURE \<equiv> 42"
abbreviation (input) OP_CLOSE :: Opcode where "OP_CLOSE \<equiv> 43"
abbreviation (input) OP_FORPREP :: Opcode where "OP_FORPREP \<equiv> 44"
abbreviation (input) OP_FORLOOP :: Opcode where "OP_FORLOOP \<equiv> 45"
abbreviation (input) OP_TFORCALL :: Opcode where "OP_TFORCALL \<equiv> 46"
abbreviation (input) OP_TFORLOOP :: Opcode where "OP_TFORLOOP \<equiv> 47"
abbreviation (input) OP_VARARG :: Opcode where "OP_VARARG \<equiv> 48"
abbreviation (input) OP_SELF :: Opcode where "OP_SELF \<equiv> 49"
abbreviation (input) OP_GO :: Opcode where "OP_GO \<equiv> 50"
abbreviation (input) OP_MAKECHAN :: Opcode where "OP_MAKECHAN \<equiv> 51"
abbreviation (input) OP_SEND :: Opcode where "OP_SEND \<equiv> 52"
abbreviation (input) OP_RECV :: Opcode where "OP_RECV \<equiv> 53"
abbreviation (input) OP_RECVOK :: Opcode where "OP_RECVOK \<equiv> 54"
abbreviation (input) OP_TRYSEND :: Opcode where "OP_TRYSEND \<equiv> 55"
abbreviation (input) OP_TRYRECV :: Opcode where "OP_TRYRECV \<equiv> 56"
abbreviation (input) OP_TRYRECVOK :: Opcode where "OP_TRYRECVOK \<equiv> 57"
abbreviation (input) OP_SELECT :: Opcode where "OP_SELECT \<equiv> 58"
abbreviation (input) OP_NEWOBJECTN :: Opcode where "OP_NEWOBJECTN \<equiv> 59"
abbreviation (input) OP_YIELD :: Opcode where "OP_YIELD \<equiv> 60"
abbreviation (input) OP_RESUME :: Opcode where "OP_RESUME \<equiv> 61"
abbreviation (input) OP_SETLISTDYN :: Opcode where "OP_SETLISTDYN \<equiv> 62"
abbreviation (input) OP_CALLTABLE :: Opcode where "OP_CALLTABLE \<equiv> 63"
abbreviation (input) OP_SETTOP :: Opcode where "OP_SETTOP \<equiv> 64"
abbreviation (input) OP_DEFER :: Opcode where "OP_DEFER \<equiv> 65"
abbreviation (input) OP_SETGLOBALRO :: Opcode where "OP_SETGLOBALRO \<equiv> 66"
abbreviation (input) OP_CHECKCONST :: Opcode where "OP_CHECKCONST \<equiv> 67"
abbreviation (input) OP_ISNUMBER :: Opcode where "OP_ISNUMBER \<equiv> 68"
abbreviation (input) OP_FRAME_LEN :: Opcode where "OP_FRAME_LEN \<equiv> 69"
abbreviation (input) OP_FRAME_COLUMN :: Opcode where "OP_FRAME_COLUMN \<equiv> 70"
abbreviation (input) OP_FRAME_MASK :: Opcode where "OP_FRAME_MASK \<equiv> 71"
abbreviation (input) OP_FRAME_PROJECT :: Opcode where "OP_FRAME_PROJECT \<equiv> 72"
abbreviation (input) OP_FRAME_FILTER :: Opcode where "OP_FRAME_FILTER \<equiv> 73"
abbreviation (input) OP_FRAME_GATHER :: Opcode where "OP_FRAME_GATHER \<equiv> 74"
abbreviation (input) OP_FRAME_SLICE :: Opcode where "OP_FRAME_SLICE \<equiv> 75"
abbreviation (input) OP_FRAME_ORDER :: Opcode where "OP_FRAME_ORDER \<equiv> 76"
abbreviation (input) OP_FRAME_ORDER_GATHER :: Opcode where "OP_FRAME_ORDER_GATHER \<equiv> 77"
abbreviation (input) OP_FRAME_PROJECT_COLUMN :: Opcode where "OP_FRAME_PROJECT_COLUMN \<equiv> 78"
abbreviation (input) OP_FRAME_FILTER_PROJECT_COLUMN :: Opcode where "OP_FRAME_FILTER_PROJECT_COLUMN \<equiv> 79"
abbreviation (input) OP_FRAME_GROUP_AGGREGATE :: Opcode where "OP_FRAME_GROUP_AGGREGATE \<equiv> 80"
abbreviation (input) OP_VECTOR_COMPARE :: Opcode where "OP_VECTOR_COMPARE \<equiv> 81"
abbreviation (input) OP_VECTOR_MASK :: Opcode where "OP_VECTOR_MASK \<equiv> 82"
abbreviation (input) OP_VECTOR_WHERE :: Opcode where "OP_VECTOR_WHERE \<equiv> 83"
abbreviation (input) OP_VECTOR_REDUCE :: Opcode where "OP_VECTOR_REDUCE \<equiv> 84"
abbreviation (input) OP_VECTOR_WHERE_REDUCE :: Opcode where "OP_VECTOR_WHERE_REDUCE \<equiv> 85"
abbreviation (input) OP_VECTOR_SCAN :: Opcode where "OP_VECTOR_SCAN \<equiv> 86"
abbreviation (input) OP_VECTOR_GATHER :: Opcode where "OP_VECTOR_GATHER \<equiv> 87"
abbreviation (input) OP_FRAME_FILTER_PROJECT :: Opcode where "OP_FRAME_FILTER_PROJECT \<equiv> 88"
abbreviation (input) OP_MAX :: Opcode where "OP_MAX \<equiv> 89"

definition opNames :: "bytes list" where
  "opNames =
    [''LOADNIL'', ''LOADBOOL'', ''LOADINT'', ''LOADK'', ''MOVE'', ''GETGLOBAL'', ''SETGLOBAL'',
     ''GETUPVAL'', ''SETUPVAL'', ''NEWTABLE'', ''NEWOBJECT2'', ''GETTABLE'', ''SETTABLE'',
     ''GETFIELD'', ''SETFIELD'', ''SETLIST'', ''APPEND'', ''ADD'', ''SUB'', ''MUL'', ''DIV'',
     ''MOD'', ''POW'', ''BAND'', ''BOR'', ''BXOR'', ''BANDN'', ''SHL'', ''SHR'', ''UNM'', ''BNOT'',
     ''NOT'', ''LEN'', ''CONCAT'', ''EQ'', ''LT'', ''LE'', ''TEST'', ''TESTSET'', ''JMP'',
     ''CALL'', ''RETURN'', ''CLOSURE'', ''CLOSE'', ''FORPREP'', ''FORLOOP'', ''TFORCALL'',
     ''TFORLOOP'', ''VARARG'', ''SELF'', ''GO'', ''MAKECHAN'', ''SEND'', ''RECV'', ''RECVOK'',
     ''TRYSEND'', ''TRYRECV'', ''TRYRECVOK'', ''SELECT'', ''NEWOBJECTN'', ''YIELD'', ''RESUME'',
     ''SETLISTDYN'', ''CALLTABLE'', ''SETTOP'', ''DEFER'', ''SETGLOBALRO'', ''CHECKCONST'',
     ''ISNUMBER'', ''FRAME_LEN'', ''FRAME_COLUMN'', ''FRAME_MASK'', ''FRAME_PROJECT'',
     ''FRAME_FILTER'', ''FRAME_GATHER'', ''FRAME_SLICE'', ''FRAME_ORDER'', ''FRAME_ORDER_GATHER'',
     ''FRAME_PROJECT_COLUMN'', ''FRAME_FILTER_PROJECT_COLUMN'', ''FRAME_GROUP_AGGREGATE'',
     ''VECTOR_COMPARE'', ''VECTOR_MASK'', ''VECTOR_WHERE'', ''VECTOR_REDUCE'',
     ''VECTOR_WHERE_REDUCE'', ''VECTOR_SCAN'', ''VECTOR_GATHER'', ''FRAME_FILTER_PROJECT'']"

definition OpName :: "Opcode \<Rightarrow> bytes" where
  "OpName op = (if unat op < length opNames then opNames ! unat op else ''???'')"

subsection \<open>Encoding and decoding\<close>

definition sBxBias :: int where "sBxBias = 32767"
definition RKBit :: int where "RKBit = 256"

definition EncodeABC :: "Opcode \<Rightarrow> int \<Rightarrow> int \<Rightarrow> int \<Rightarrow> 32 word" where
  "EncodeABC op a b c =
     ucast op OR push_bit 8 (word_of_int (a AND 0xFF)) OR push_bit 16 (word_of_int (b AND 0xFF))
     OR push_bit 24 (word_of_int (c AND 0xFF))"

definition EncodeABx :: "Opcode \<Rightarrow> int \<Rightarrow> int \<Rightarrow> 32 word" where
  "EncodeABx op a bx =
     ucast op OR push_bit 8 (word_of_int (a AND 0xFF)) OR push_bit 16 (word_of_int (bx AND 0xFFFF))"

definition EncodeAsBx :: "Opcode \<Rightarrow> int \<Rightarrow> int \<Rightarrow> 32 word" where
  "EncodeAsBx op a sbx = EncodeABx op a (sbx + sBxBias)"

definition EncodesBx :: "Opcode \<Rightarrow> int \<Rightarrow> 32 word" where
  "EncodesBx op sbx = EncodeAsBx op 0 sbx"

definition DecodeOp :: "32 word \<Rightarrow> Opcode" where
  "DecodeOp inst = ucast (inst AND 0xFF)"

definition DecodeA :: "32 word \<Rightarrow> int" where
  "DecodeA inst = uint (drop_bit 8 inst AND 0xFF)"

definition DecodeB :: "32 word \<Rightarrow> int" where
  "DecodeB inst = uint (drop_bit 16 inst AND 0xFF)"

definition DecodeC :: "32 word \<Rightarrow> int" where
  "DecodeC inst = uint (drop_bit 24 inst AND 0xFF)"

definition DecodeBx :: "32 word \<Rightarrow> int" where
  "DecodeBx inst = uint (drop_bit 16 inst AND 0xFFFF)"

definition DecodesBx :: "32 word \<Rightarrow> int" where
  "DecodesBx inst = DecodeBx inst - sBxBias"

definition IsRK :: "int \<Rightarrow> bool" where
  "IsRK idx \<longleftrightarrow> RKBit \<le> idx"

definition RKToConstIdx :: "int \<Rightarrow> int" where
  "RKToConstIdx rk = rk - RKBit"

definition ConstToRK :: "int \<Rightarrow> int" where
  "ConstToRK idx = idx + RKBit"

subsection \<open>What a field keeps of an operand\<close>

lemma field_mask: "(x :: int) AND 0xFF = take_bit 8 x" "x AND 0xFFFF = take_bit 16 x"
  unfolding take_bit_eq_mask by (simp_all add: mask_eq_exp_minus_1)

lemma word_mask: "(w :: 32 word) AND 0xFF = take_bit 8 w" "w AND 0xFFFF = take_bit 16 w"
  unfolding take_bit_eq_mask by (simp_all add: mask_eq_exp_minus_1)

lemma uint_field: "n \<le> 32 \<Longrightarrow> uint (word_of_int (take_bit n x) :: 32 word) = x mod 2 ^ n"
proof -
  assume "n \<le> 32"
  then have "take_bit LENGTH(32) (take_bit n x) = take_bit n x" by (simp only: take_bit_take_bit) (simp add: min_def)
  then show ?thesis by (simp only: uint_word_of_int_eq) (simp add: take_bit_eq_mod)
qed

lemma decode_ABC [simp]:
  "DecodeOp (EncodeABC op a b c) = op" "DecodeA (EncodeABC op a b c) = a mod 256"
  "DecodeB (EncodeABC op a b c) = b mod 256" "DecodeC (EncodeABC op a b c) = c mod 256"
proof -
  have op: "take_bit 8 (EncodeABC op a b c) = ucast op"
    by (rule bit_word_eqI) (auto simp: EncodeABC_def field_mask bit_simps dest: bit_imp_le_length)
  have "ucast (ucast op :: 32 word) = op"
    by (rule bit_word_eqI) (auto simp: bit_simps)
  with op show "DecodeOp (EncodeABC op a b c) = op" by (simp add: DecodeOp_def word_mask)
  have "take_bit 8 (drop_bit 8 (EncodeABC op a b c)) = word_of_int (take_bit 8 a)"
    by (rule bit_word_eqI) (auto simp: EncodeABC_def field_mask bit_simps dest: bit_imp_le_length)
  then show "DecodeA (EncodeABC op a b c) = a mod 256" using uint_field [of 8 a] by (simp add: DecodeA_def word_mask)
  have "take_bit 8 (drop_bit 16 (EncodeABC op a b c)) = word_of_int (take_bit 8 b)"
    by (rule bit_word_eqI) (auto simp: EncodeABC_def field_mask bit_simps dest: bit_imp_le_length)
  then show "DecodeB (EncodeABC op a b c) = b mod 256" using uint_field [of 8 b] by (simp add: DecodeB_def word_mask)
  have "take_bit 8 (drop_bit 24 (EncodeABC op a b c)) = word_of_int (take_bit 8 c)"
    by (rule bit_word_eqI) (auto simp: EncodeABC_def field_mask bit_simps dest: bit_imp_le_length)
  then show "DecodeC (EncodeABC op a b c) = c mod 256" using uint_field [of 8 c] by (simp add: DecodeC_def word_mask)
qed

lemma decode_ABx [simp]:
  "DecodeOp (EncodeABx op a bx) = op" "DecodeA (EncodeABx op a bx) = a mod 256"
  "DecodeBx (EncodeABx op a bx) = bx mod 65536"
proof -
  have op: "take_bit 8 (EncodeABx op a bx) = ucast op"
    by (rule bit_word_eqI) (auto simp: EncodeABx_def field_mask bit_simps dest: bit_imp_le_length)
  have "ucast (ucast op :: 32 word) = op"
    by (rule bit_word_eqI) (auto simp: bit_simps)
  with op show "DecodeOp (EncodeABx op a bx) = op" by (simp add: DecodeOp_def word_mask)
  have "take_bit 8 (drop_bit 8 (EncodeABx op a bx)) = word_of_int (take_bit 8 a)"
    by (rule bit_word_eqI) (auto simp: EncodeABx_def field_mask bit_simps dest: bit_imp_le_length)
  then show "DecodeA (EncodeABx op a bx) = a mod 256" using uint_field [of 8 a] by (simp add: DecodeA_def word_mask)
  have "take_bit 16 (drop_bit 16 (EncodeABx op a bx)) = word_of_int (take_bit 16 bx)"
    by (rule bit_word_eqI) (auto simp: EncodeABx_def field_mask bit_simps dest: bit_imp_le_length)
  then show "DecodeBx (EncodeABx op a bx) = bx mod 65536" using uint_field [of 16 bx] by (simp add: DecodeBx_def word_mask)
qed

lemma decode_AsBx [simp]:
  "DecodeOp (EncodeAsBx op a sbx) = op" "DecodeA (EncodeAsBx op a sbx) = a mod 256"
  "DecodesBx (EncodeAsBx op a sbx) = (sbx + sBxBias) mod 65536 - sBxBias"
  by (simp_all add: EncodeAsBx_def DecodesBx_def)

lemma decode_sBx [simp]:
  "DecodeOp (EncodesBx op sbx) = op" "DecodesBx (EncodesBx op sbx) = (sbx + sBxBias) mod 65536 - sBxBias"
  by (simp_all add: EncodesBx_def)

text \<open>Operands in range come back unchanged.\<close>

lemma sBx_roundtrip: "- 32767 \<le> sbx \<Longrightarrow> sbx \<le> 32768 \<Longrightarrow> DecodesBx (EncodeAsBx op a sbx) = sbx"
  by (simp add: sBxBias_def)

lemma decode_bounds:
  "0 \<le> DecodeA inst" "DecodeA inst < 256" "0 \<le> DecodeB inst" "DecodeB inst < 256"
  "0 \<le> DecodeC inst" "DecodeC inst < 256" "0 \<le> DecodeBx inst" "DecodeBx inst < 65536"
  unfolding DecodeA_def DecodeB_def DecodeC_def DecodeBx_def word_mask unsigned_take_bit_eq
  using take_bit_int_less_exp [of 8] take_bit_int_less_exp [of 16] by simp_all

lemma sBx_exact: "DecodesBx (EncodesBx op x) = x \<longleftrightarrow> - 32767 \<le> x \<and> x \<le> 32768"
proof
  show "DecodesBx (EncodesBx op x) = x \<Longrightarrow> - 32767 \<le> x \<and> x \<le> 32768"
    using pos_mod_sign [of 65536 "x + 32767"] pos_mod_bound [of 65536 "x + 32767"] by (simp add: sBxBias_def)
qed (simp add: sBxBias_def)

text \<open>Every word is the encoding of its own fields.\<close>

lemma word_of_field: "word_of_int (take_bit n (uint (take_bit n x :: 32 word))) = take_bit n x"
  by (rule bit_word_eqI) (auto simp: bit_simps)

lemma word_fields:
  "take_bit 8 w OR push_bit 8 (take_bit 8 (drop_bit 8 w)) OR push_bit 16 (take_bit 8 (drop_bit 16 w))
     OR push_bit 24 (take_bit 8 (drop_bit 24 w)) = (w :: 32 word)"
  "take_bit 8 w OR push_bit 8 (take_bit 8 (drop_bit 8 w)) OR push_bit 16 (take_bit 16 (drop_bit 16 w)) = w"
proof -
  have bits: "bit (push_bit k (take_bit m (drop_bit k w))) n \<longleftrightarrow> bit w n"
    if "k \<le> n" "n < k + m" "n < 32" for n k m
    using that by (auto simp: bit_simps)
  have off: "\<not> bit (push_bit k (take_bit m (drop_bit k w))) n" if "n < k \<or> k + m \<le> n" for n k m
    using that by (auto simp: bit_simps)
  have low: "bit (take_bit m w) n \<longleftrightarrow> n < m \<and> bit w n" for n m by (simp add: bit_simps)
  show "take_bit 8 w OR push_bit 8 (take_bit 8 (drop_bit 8 w)) OR push_bit 16 (take_bit 8 (drop_bit 16 w))
     OR push_bit 24 (take_bit 8 (drop_bit 24 w)) = w"
  proof (rule bit_word_eqI)
    fix n assume "n < LENGTH(32)"
    then consider "n < 8" | "8 \<le> n" "n < 16" | "16 \<le> n" "n < 24" | "24 \<le> n" "n < 32" by fastforce
    then show "bit (take_bit 8 w OR push_bit 8 (take_bit 8 (drop_bit 8 w)) OR push_bit 16 (take_bit 8 (drop_bit 16 w))
        OR push_bit 24 (take_bit 8 (drop_bit 24 w))) n = bit w n"
      unfolding bit_or_iff low by cases (simp_all add: bits off)
  qed
  show "take_bit 8 w OR push_bit 8 (take_bit 8 (drop_bit 8 w)) OR push_bit 16 (take_bit 16 (drop_bit 16 w)) = w"
  proof (rule bit_word_eqI)
    fix n assume "n < LENGTH(32)"
    then consider "n < 8" | "8 \<le> n" "n < 16" | "16 \<le> n" "n < 32" by fastforce
    then show "bit (take_bit 8 w OR push_bit 8 (take_bit 8 (drop_bit 8 w)) OR push_bit 16 (take_bit 16 (drop_bit 16 w))) n = bit w n"
      unfolding bit_or_iff low by cases (simp_all add: bits off)
  qed
qed

lemma encode_fields:
  "EncodeABC (DecodeOp w) (DecodeA w) (DecodeB w) (DecodeC w) = w"
  "EncodeABx (DecodeOp w) (DecodeA w) (DecodeBx w) = w"
  "EncodeAsBx (DecodeOp w) (DecodeA w) (DecodesBx w) = w"
proof -
  have op: "(ucast (ucast (take_bit 8 w) :: 8 word) :: 32 word) = take_bit 8 w"
    by (rule bit_word_eqI) (auto simp: bit_simps)
  show "EncodeABC (DecodeOp w) (DecodeA w) (DecodeB w) (DecodeC w) = w"
    unfolding EncodeABC_def DecodeOp_def DecodeA_def DecodeB_def DecodeC_def field_mask word_mask op word_of_field
    by (rule word_fields)
  show "EncodeABx (DecodeOp w) (DecodeA w) (DecodeBx w) = w"
    unfolding EncodeABx_def DecodeOp_def DecodeA_def DecodeBx_def field_mask word_mask op word_of_field
    by (rule word_fields)
  then show "EncodeAsBx (DecodeOp w) (DecodeA w) (DecodesBx w) = w"
    by (simp add: EncodeAsBx_def DecodesBx_def)
qed

end
