(* ===== verification/Float64.thy ===== *)
theory Float64
  imports Complex_Main "HOL-Library.Word"
begin

section \<open>Go's float64\<close>

text \<open>
  A \<open>float64\<close> is modelled by its bit pattern, so that \<open>math.Float64bits\<close> and
  \<open>math.Float64frombits\<close> are the identity. The operations follow IEEE 754: the exact result,
  a mantissa times a power of two, is rounded once to the nearest representable value, ties to
  even. A NaN that an operation produces is the one of \<open>math.NaN\<close>'s class with an empty payload.
  \<open>fval\<close> reads a finite pattern as a real number; it occurs in statements only.
\<close>

type_synonym f64 = "64 word"

definition fExp :: "f64 \<Rightarrow> nat" where
  "fExp w = (unat w div 2 ^ 52) mod 2048"

definition fFrac :: "f64 \<Rightarrow> nat" where
  "fFrac w = unat w mod 2 ^ 52"

definition fNeg :: "f64 \<Rightarrow> bool" where
  "fNeg w \<longleftrightarrow> 2 ^ 63 \<le> unat w"

definition fIsNaN :: "f64 \<Rightarrow> bool" where
  "fIsNaN w \<longleftrightarrow> fExp w = 2047 \<and> fFrac w \<noteq> 0"

definition fIsInf :: "f64 \<Rightarrow> bool" where
  "fIsInf w \<longleftrightarrow> fExp w = 2047 \<and> fFrac w = 0"

definition fMant :: "f64 \<Rightarrow> nat" where
  "fMant w = (if fExp w = 0 then fFrac w else fFrac w + 2 ^ 52)"

definition fScale :: "f64 \<Rightarrow> int" where
  "fScale w = int (max 1 (fExp w)) - 1075"

definition fSigned :: "f64 \<Rightarrow> int" where
  "fSigned w = (if fNeg w then - int (fMant w) else int (fMant w))"

definition fFinite :: "f64 \<Rightarrow> bool" where
  "fFinite w \<longleftrightarrow> fExp w \<noteq> 2047"

definition fval :: "f64 \<Rightarrow> real" where
  "fval w = of_int (fSigned w) * 2 powi fScale w"

subsection \<open>Rounding\<close>

fun bitLen :: "nat \<Rightarrow> nat" where
  "bitLen n = (if n = 0 then 0 else Suc (bitLen (n div 2)))"

declare bitLen.simps [simp del]

text \<open>\<open>m / 2 ^ s\<close>, rounded to the nearest integer, ties to even.\<close>

definition roundShift :: "nat \<Rightarrow> nat \<Rightarrow> nat" where
  "roundShift m s =
     (let q = m div 2 ^ s; r = 2 * (m mod 2 ^ s) in
      if 2 ^ s < r \<or> (r = 2 ^ s \<and> odd q) then Suc q else q)"

text \<open>The magnitude bits of the value nearest to \<open>m * 2 ^ e\<close>, for \<open>m\<close> not zero.\<close>

definition encodeMag :: "nat \<Rightarrow> int \<Rightarrow> nat" where
  "encodeMag m e =
     (let q = max (int (bitLen m) + e - 53) (- 1074);
          mant = (if e \<le> q then roundShift m (nat (q - e)) else m * 2 ^ nat (e - q))
      in min (2047 * 2 ^ 52) (nat (q + 1074) * 2 ^ 52 + mant))"

definition floatBits :: "bool \<Rightarrow> nat \<Rightarrow> int \<Rightarrow> f64" where
  "floatBits neg m e =
     word_of_nat ((if neg then 2 ^ 63 else 0) + (if m = 0 then 0 else encodeMag m e))"

definition qNaN :: f64 where
  "qNaN = 0x7FF8000000000000"

definition fInf :: "bool \<Rightarrow> f64" where
  "fInf neg = (if neg then 0xFFF0000000000000 else 0x7FF0000000000000)"

definition fZero :: "bool \<Rightarrow> f64" where
  "fZero neg = (if neg then 0x8000000000000000 else 0)"

subsection \<open>Conversions and operations\<close>

text \<open>\<open>float64(i)\<close>\<close>

definition floatOfInt :: "int \<Rightarrow> f64" where
  "floatOfInt i = floatBits (i < 0) (nat \<bar>i\<bar>) 0"

text \<open>Two finite values on a common scale.\<close>

definition aligned :: "f64 \<Rightarrow> f64 \<Rightarrow> int \<times> int \<times> int" where
  "aligned x y =
     (let e = min (fScale x) (fScale y) in
      (fSigned x * 2 ^ nat (fScale x - e), fSigned y * 2 ^ nat (fScale y - e), e))"

definition fNegate :: "f64 \<Rightarrow> f64" where
  "fNegate x = x + 0x8000000000000000"

definition fAdd :: "f64 \<Rightarrow> f64 \<Rightarrow> f64" where
  "fAdd x y =
     (if fIsNaN x \<or> fIsNaN y then qNaN
      else if fIsInf x then (if fIsInf y \<and> fNeg x \<noteq> fNeg y then qNaN else x)
      else if fIsInf y then y
      else case aligned x y of (a, b, e) \<Rightarrow>
        if a + b = 0 then fZero (fNeg x \<and> fNeg y)
        else floatBits (a + b < 0) (nat \<bar>a + b\<bar>) e)"

definition fSub :: "f64 \<Rightarrow> f64 \<Rightarrow> f64" where
  "fSub x y = (if fIsNaN y then qNaN else fAdd x (fNegate y))"

definition fMul :: "f64 \<Rightarrow> f64 \<Rightarrow> f64" where
  "fMul x y =
     (let neg = (fNeg x \<noteq> fNeg y) in
      if fIsNaN x \<or> fIsNaN y then qNaN
      else if fIsInf x \<or> fIsInf y then (if fMant x = 0 \<or> fMant y = 0 then qNaN else fInf neg)
      else floatBits neg (fMant x * fMant y) (fScale x + fScale y))"

text \<open>The quotient carries 64 more bits than the divisor and a sticky bit for the remainder.\<close>

definition fDiv :: "f64 \<Rightarrow> f64 \<Rightarrow> f64" where
  "fDiv x y =
     (let neg = (fNeg x \<noteq> fNeg y) in
      if fIsNaN x \<or> fIsNaN y then qNaN
      else if fIsInf x then (if fIsInf y then qNaN else fInf neg)
      else if fIsInf y then fZero neg
      else if fMant y = 0 then (if fMant x = 0 then qNaN else fInf neg)
      else let k = 64 + bitLen (fMant y); n = fMant x * 2 ^ k;
               q = 2 * (n div fMant y) + (if n mod fMant y = 0 then 0 else 1)
           in floatBits neg q (fScale x - fScale y - int k - 1))"

definition fEq :: "f64 \<Rightarrow> f64 \<Rightarrow> bool" where
  "fEq x y \<longleftrightarrow>
     (if fIsNaN x \<or> fIsNaN y then False
      else if fIsInf x \<or> fIsInf y then x = y
      else case aligned x y of (a, b, e) \<Rightarrow> a = b)"

definition fLess :: "f64 \<Rightarrow> f64 \<Rightarrow> bool" where
  "fLess x y \<longleftrightarrow>
     (if fIsNaN x \<or> fIsNaN y then False
      else if fIsInf x then fNeg x \<and> x \<noteq> y
      else if fIsInf y then \<not> fNeg y
      else case aligned x y of (a, b, e) \<Rightarrow> a < b)"

definition fLessEq :: "f64 \<Rightarrow> f64 \<Rightarrow> bool" where
  "fLessEq x y \<longleftrightarrow> fLess x y \<or> fEq x y"

text \<open>The integer part of a finite value, \<open>math.Trunc\<close> as an integer.\<close>

definition fTrunc :: "f64 \<Rightarrow> int" where
  "fTrunc x =
     (let m = (if 0 \<le> fScale x then int (fMant x) * 2 ^ nat (fScale x) else int (fMant x) div 2 ^ nat (- fScale x))
      in if fNeg x then - m else m)"

subsection \<open>Fields of a pattern\<close>

lemma fExp_bound: "fExp w \<le> 2047"
  unfolding fExp_def by simp

lemma fFrac_bound: "fFrac w < 2 ^ 52"
  unfolding fFrac_def by simp

lemma unat_fields: "unat (w :: f64) = (if fNeg w then 2 ^ 63 else 0) + fExp w * 2 ^ 52 + fFrac w"
proof -
  define a where "a = unat w div 2 ^ 52"
  have u: "unat w = a * 2 ^ 52 + fFrac w" unfolding a_def fFrac_def by simp
  have "unat w < 2 ^ 64" using unsigned_less [of w] by simp
  then have a: "a < 4096" unfolding a_def by (intro less_mult_imp_div_less) simp
  have "fNeg w \<longleftrightarrow> 2048 \<le> a" using u fFrac_bound [of w] by (auto simp: fNeg_def)
  moreover have "fExp w = a mod 2048" by (simp only: fExp_def a_def)
  then have "fExp w = (if 2048 \<le> a then a - 2048 else a)" using a le_mod_geq [of 2048 a] by auto
  moreover obtain b where "a = 2048 + b" if "2048 \<le> a" using le_Suc_ex by blast
  ultimately show ?thesis using u by (cases "2048 \<le> a") auto
qed

lemma bitLen_bounds: "m \<noteq> 0 \<Longrightarrow> 2 ^ (bitLen m - 1) \<le> m \<and> m < 2 ^ bitLen m \<and> 0 < bitLen m"
proof (induction m rule: bitLen.induct)
  case (1 n)
  show ?case
  proof (cases "n div 2 = 0")
    case True
    with 1 have "n = 1" by simp
    then show ?thesis by (simp add: bitLen.simps)
  next
    case False
    with 1 have "2 ^ (bitLen (n div 2) - 1) \<le> n div 2 \<and> n div 2 < 2 ^ bitLen (n div 2) \<and> 0 < bitLen (n div 2)"
      by simp
    moreover obtain k where "bitLen (n div 2) = Suc k" using calculation by (metis gr0_implies_Suc)
    ultimately show ?thesis using 1 by (subst (1 2 3) bitLen.simps) auto
  qed
qed

lemma bitLen_le: "m < 2 ^ k \<Longrightarrow> bitLen m \<le> k"
proof (cases "m = 0")
  case True
  then show ?thesis by (simp add: bitLen.simps)
next
  case False
  assume "m < 2 ^ k"
  with bitLen_bounds [OF False] have "2 ^ (bitLen m - 1) < (2 :: nat) ^ k" by linarith
  then show ?thesis by simp
qed

lemma encodeMag_bound: "encodeMag m e \<le> 2047 * 2 ^ 52"
  by (simp add: encodeMag_def Let_def)

definition magBits :: "nat \<Rightarrow> int \<Rightarrow> nat" where
  "magBits m e = (if m = 0 then 0 else encodeMag m e)"

lemma magBits_bound: "magBits m e \<le> 2047 * 2 ^ 52"
  using encodeMag_bound [of m e] by (simp add: magBits_def)

lemma floatBits_fields:
  "fNeg (floatBits neg m e) = neg" "fExp (floatBits neg m e) = magBits m e div 2 ^ 52"
  "fFrac (floatBits neg m e) = magBits m e mod 2 ^ 52"
proof -
  have b: "magBits m e < 2 ^ 63" using magBits_bound [of m e] by simp
  define n where "n = (if neg then 2 ^ 63 else 0) + magBits m e"
  have "n < 2 ^ LENGTH(64)" using b by (simp add: n_def)
  then have u: "unat (floatBits neg m e) = (if neg then 2 ^ 63 else 0) + magBits m e"
    unfolding floatBits_def magBits_def [symmetric] n_def [symmetric] using \<open>n < 2 ^ LENGTH(64)\<close>
    by (simp add: unsigned_of_nat take_bit_nat_eq_self)
  then have u': "unat (floatBits neg m e) = (if neg then 2048 else 0) * 2 ^ 52 + magBits m e" by simp
  show "fNeg (floatBits neg m e) = neg" using b by (simp add: fNeg_def u)
  have "magBits m e div 2 ^ 52 < 2048" using magBits_bound [of m e] by simp
  then show "fExp (floatBits neg m e) = magBits m e div 2 ^ 52"
    by (simp only: fExp_def u') simp
  show "fFrac (floatBits neg m e) = magBits m e mod 2 ^ 52"
    by (simp only: fFrac_def u') simp
qed

lemma floatBits_not_nan: "\<not> fIsNaN (floatBits neg m e)"
proof -
  have "magBits m e mod 2 ^ 52 = 0" if "magBits m e div 2 ^ 52 = 2047"
  proof -
    have "magBits m e = 2047 * 2 ^ 52 + magBits m e mod 2 ^ 52" using that div_mult_mod_eq [of "magBits m e" "2 ^ 52"] by simp
    with magBits_bound [of m e] show ?thesis by linarith
  qed
  then show ?thesis by (simp add: fIsNaN_def floatBits_fields)
qed

subsection \<open>Exact results\<close>

lemma roundShift_0 [simp]: "roundShift m 0 = m"
  by (simp add: roundShift_def)

text \<open>Values with at most 53 significant bits and an exponent in range are not rounded.\<close>

lemma floatBits_exact:
  assumes m: "m \<noteq> 0" "m < 2 ^ 53" and e: "- 1074 \<le> e" "int (bitLen m) + e \<le> 1024"
  defines "q \<equiv> max (int (bitLen m) + e - 53) (- 1074)"
  shows "fMant (floatBits neg m e) = m * 2 ^ nat (e - q)" "fScale (floatBits neg m e) = q"
    "fFinite (floatBits neg m e)"
proof -
  note k = bitLen_bounds [OF m(1)] bitLen_le [OF m(2)]
  have q: "- 1074 \<le> q" "q \<le> e" "q \<le> 971" using k e by (auto simp: q_def)
  define M where "M = m * 2 ^ nat (e - q)"
  have hi: "M < 2 ^ 53"
  proof -
    have "M < 2 ^ bitLen m * 2 ^ nat (e - q)" using k by (simp add: M_def)
    also have "\<dots> = 2 ^ (bitLen m + nat (e - q))" by (simp add: power_add)
    also have "\<dots> \<le> 2 ^ 53" using q by (intro power_increasing) (auto simp: q_def)
    finally show ?thesis .
  qed
  have lo: "2 ^ 52 \<le> M" if "q \<noteq> - 1074"
  proof -
    have "bitLen m - 1 + nat (e - q) = 52" using that q k by (auto simp: q_def)
    then have "(2 :: nat) ^ 52 = 2 ^ (bitLen m - 1) * 2 ^ nat (e - q)" by (metis power_add)
    also have "\<dots> \<le> M" using k by (simp add: M_def)
    finally show ?thesis .
  qed
  have enc: "magBits m e = nat (q + 1074) * 2 ^ 52 + M"
  proof -
    have "(if e \<le> q then roundShift m (nat (q - e)) else m * 2 ^ nat (e - q)) = M"
      using q(2) by (cases "e = q") (auto simp: M_def)
    moreover have "nat (q + 1074) * 2 ^ 52 + M \<le> 2047 * 2 ^ 52"
    proof -
      have "nat (q + 1074) \<le> 2045" using q(3) by simp
      then have "nat (q + 1074) * 2 ^ 52 \<le> 2045 * 2 ^ 52" by simp
      with hi show ?thesis by simp
    qed
    ultimately show ?thesis
      using m(1) by (simp add: magBits_def encodeMag_def q_def [symmetric] Let_def)
  qed
  have "fMant (floatBits neg m e) = M \<and> fScale (floatBits neg m e) = q \<and> fFinite (floatBits neg m e)"
  proof (cases "M < 2 ^ 52")
    case True
    then have q0: "q = - 1074" using lo by force
    then have "magBits m e = M" using enc by simp
    with True q0 show ?thesis
      by (simp add: fMant_def fScale_def fFinite_def floatBits_fields)
  next
    case False
    define r where "r = M - 2 ^ 52"
    have r: "M = r + 2 ^ 52" "r < 2 ^ 52" using False hi by (auto simp: r_def)
    have "magBits m e = Suc (nat (q + 1074)) * 2 ^ 52 + r" using enc r by simp
    then have "magBits m e div 2 ^ 52 = Suc (nat (q + 1074))" "magBits m e mod 2 ^ 52 = r"
      using r(2) by (simp_all only: div_mult_self3 mod_mult_self3 div_less mod_less)
    with q r show ?thesis
      by (simp add: fMant_def fScale_def fFinite_def floatBits_fields)
  qed
  then show "fMant (floatBits neg m e) = m * 2 ^ nat (e - q)" "fScale (floatBits neg m e) = q"
    "fFinite (floatBits neg m e)" by (simp_all add: M_def)
qed

lemma fval_floatBits:
  assumes "m \<noteq> 0" "m < 2 ^ 53" "- 1074 \<le> e" "int (bitLen m) + e \<le> 1024"
  shows "fval (floatBits neg m e) = (if neg then - 1 else 1) * (of_nat m * 2 powi e)"
proof -
  let ?q = "max (int (bitLen m) + e - 53) (- 1074)"
  have "?q \<le> e" using bitLen_le [OF assms(2)] assms(3) by simp
  then have "2 ^ nat (e - ?q) * 2 powi ?q = (2 powi e :: real)"
    by (simp add: power_int_def [of _ "int (nat (e - ?q))", simplified, symmetric] flip: power_int_of_nat power_int_add)
  then show ?thesis
    using floatBits_exact [OF assms, of neg]
    by (cases neg) (simp_all add: fval_def fSigned_def floatBits_fields mult.assoc)
qed

lemma bitLen_1 [simp]: "bitLen (Suc 0) = Suc 0"
  by (simp add: bitLen.simps [of "Suc 0"] bitLen.simps [of 0])

lemma bitLen_power: "bitLen (2 ^ k) = Suc k"
  by (induction k) (simp_all add: bitLen.simps [of "2 * 2 ^ _"])

lemma encodeMag_2_53: "encodeMag (2 ^ 53) 0 = encodeMag 1 53"
  by (simp add: encodeMag_def bitLen_power [of 53, simplified] roundShift_def)

text \<open>Integers of at most 53 bits are represented exactly.\<close>

lemma floatOfInt_exact:
  assumes "\<bar>i\<bar> \<le> 2 ^ 53"
  shows "fval (floatOfInt i) = of_int i \<and> fFinite (floatOfInt i)"
proof -
  consider "i = 0" | "\<bar>i\<bar> = 2 ^ 53" | "i \<noteq> 0" "\<bar>i\<bar> < 2 ^ 53" using assms by force
  then show ?thesis
  proof cases
    case 1
    then show ?thesis
      by (simp add: floatOfInt_def fval_def fSigned_def fMant_def fFinite_def floatBits_fields magBits_def)
  next
    case 2
    then have "floatOfInt i = floatBits (i < 0) 1 53"
      by (simp add: floatOfInt_def floatBits_def encodeMag_2_53 [simplified])
    moreover have "of_int i = (if i < 0 then - 1 else 1) * (2 ^ 53 :: real)"
      using 2 by (cases "i < 0") auto
    ultimately show ?thesis
      using fval_floatBits [of 1 53 "i < 0"] floatBits_exact [of 1 53 "i < 0"] by simp
  next
    case 3
    then have "nat \<bar>i\<bar> < 2 ^ 53" by (simp add: nat_less_iff)
    with 3 bitLen_le [OF this] fval_floatBits [of "nat \<bar>i\<bar>" 0 "i < 0"] floatBits_exact [of "nat \<bar>i\<bar>" 0 "i < 0"]
    show ?thesis by (simp add: floatOfInt_def)
  qed
qed

subsection \<open>Comparison and arithmetic on exact values\<close>

lemma aligned_fval:
  assumes "aligned x y = (a, b, e)"
  shows "fval x = of_int a * 2 powi e" "fval y = of_int b * 2 powi e" "e = min (fScale x) (fScale y)"
proof -
  have scale: "2 ^ nat (k - e) * 2 powi e = (2 powi k :: real)" if "e \<le> k" for k
    using that by (simp flip: power_int_of_nat power_int_add)
  have abe: "e = min (fScale x) (fScale y)" "a = fSigned x * 2 ^ nat (fScale x - e)" "b = fSigned y * 2 ^ nat (fScale y - e)"
    using assms by (auto simp: aligned_def Let_def)
  show "e = min (fScale x) (fScale y)" by (rule abe(1))
  show "fval x = of_int a * 2 powi e" using scale [of "fScale x"] abe by (simp add: fval_def mult.assoc)
  show "fval y = of_int b * 2 powi e" using scale [of "fScale y"] abe by (simp add: fval_def mult.assoc)
qed

lemma finite_classes [simp]: "fFinite x \<Longrightarrow> \<not> fIsNaN x" "fFinite x \<Longrightarrow> \<not> fIsInf x"
  by (simp_all add: fFinite_def fIsNaN_def fIsInf_def)

text \<open>Comparing finite patterns is comparing the real numbers they stand for.\<close>

lemma fLess_fval: "fFinite x \<Longrightarrow> fFinite y \<Longrightarrow> fLess x y \<longleftrightarrow> fval x < fval y"
  and fEq_fval: "fFinite x \<Longrightarrow> fFinite y \<Longrightarrow> fEq x y \<longleftrightarrow> fval x = fval y"
  by (cases "aligned x y"; simp add: fLess_def fEq_def aligned_fval)+

lemma roundShift_double: "roundShift (2 * m) (Suc s) = roundShift m s"
  by (simp add: roundShift_def Let_def)

lemma bitLen_double: "m \<noteq> 0 \<Longrightarrow> bitLen (2 * m) = Suc (bitLen m)"
  by (simp add: bitLen.simps [of "2 * m"])

lemma encodeMag_double: "m \<noteq> 0 \<Longrightarrow> encodeMag (2 * m) (e - 1) = encodeMag m e"
proof -
  assume m: "m \<noteq> 0"
  define q where "q = max (int (bitLen m) + e - 53) (- 1074)"
  have q: "max (int (bitLen (2 * m)) + (e - 1) - 53) (- 1074) = q"
    using m by (simp add: q_def bitLen_double)
  have "(if e - 1 \<le> q then roundShift (2 * m) (nat (q - (e - 1))) else 2 * m * 2 ^ nat (e - 1 - q)) =
    (if e \<le> q then roundShift m (nat (q - e)) else m * 2 ^ nat (e - q))"
  proof (cases "e \<le> q")
    case True
    then have "nat (q - (e - 1)) = Suc (nat (q - e))" by simp
    with True show ?thesis by (simp add: roundShift_double)
  next
    case False
    then have "nat (e - q) = Suc (nat (e - 1 - q))" by simp
    with False show ?thesis by auto
  qed
  then show ?thesis unfolding encodeMag_def q Let_def q_def [symmetric] by simp
qed

lemma floatBits_shift: "floatBits neg (m * 2 ^ t) (e - int t) = floatBits neg m e"
proof (cases "m = 0")
  case False
  then have "encodeMag (m * 2 ^ t) (e - int t) = encodeMag m e" for e
  proof (induction t)
    case (Suc t)
    then show ?case using encodeMag_double [of "m * 2 ^ t" "e - int t"] by (simp add: algebra_simps)
  qed simp
  with False show ?thesis by (simp add: floatBits_def)
qed (simp add: floatBits_def)

lemma floatOfInt_sign [simp]: "fNeg (floatOfInt i) \<longleftrightarrow> i < 0"
  by (simp add: floatOfInt_def floatBits_fields)

text \<open>An integer of fewer than 53 bits is its mantissa, scaled by a power of two that is at most 1.\<close>

lemma floatOfInt_mantissa:
  assumes "\<bar>i\<bar> < 2 ^ 53"
  obtains t where "fScale (floatOfInt i) = - int t" "fMant (floatOfInt i) = nat \<bar>i\<bar> * 2 ^ t"
proof (cases "i = 0")
  case True
  then have "fScale (floatOfInt i) = - int 1074" "fMant (floatOfInt i) = nat \<bar>i\<bar> * 2 ^ 1074"
    by (simp_all add: floatOfInt_def fScale_def fMant_def floatBits_fields magBits_def)
  then show thesis by (rule that)
next
  case False
  let ?m = "nat \<bar>i\<bar>"
  have m: "?m \<noteq> 0" "?m < 2 ^ 53" using False assms by (simp_all add: nat_less_iff)
  note b = bitLen_le [OF m(2)] bitLen_bounds [OF m(1)]
  have "fScale (floatOfInt i) = - int (53 - bitLen ?m)" "fMant (floatOfInt i) = ?m * 2 ^ (53 - bitLen ?m)"
    using floatBits_exact [OF m, of 0 "i < 0"] b by (simp_all add: floatOfInt_def nat_diff_distrib of_nat_diff)
  then show thesis by (rule that)
qed

lemma floatOfInt_signed:
  assumes "fMant (floatOfInt i) = nat \<bar>i\<bar> * 2 ^ t"
  shows "fSigned (floatOfInt i) = i * 2 ^ t"
  using assms by (simp add: fSigned_def)

lemma fAdd_floatOfInt:
  assumes "\<bar>i\<bar> < 2 ^ 53" "\<bar>j\<bar> < 2 ^ 53"
  shows "fAdd (floatOfInt i) (floatOfInt j) = floatOfInt (i + j)"
proof -
  obtain t u where t: "fScale (floatOfInt i) = - int t" "fSigned (floatOfInt i) = i * 2 ^ t"
    and u: "fScale (floatOfInt j) = - int u" "fSigned (floatOfInt j) = j * 2 ^ u"
    using floatOfInt_mantissa [OF assms(1)] floatOfInt_mantissa [OF assms(2)] floatOfInt_signed by metis
  define v where "v = max t u"
  have "aligned (floatOfInt i) (floatOfInt j) = (i * 2 ^ v, j * 2 ^ v, - int v)"
  proof -
    have "min (- int t) (- int u) = - int v" by (simp add: v_def)
    moreover have "nat (- int t + int v) = v - t" "nat (- int u + int v) = v - u" by (simp_all add: v_def nat_diff_distrib')
    moreover have "t \<le> v" "u \<le> v" by (simp_all add: v_def)
    ultimately show ?thesis
      by (simp add: aligned_def t u Let_def mult.assoc flip: power_add)
  qed
  moreover have "fFinite (floatOfInt i)" "fFinite (floatOfInt j)"
    using floatOfInt_exact assms by force+
  moreover have "i * 2 ^ v + j * 2 ^ v = (i + j) * 2 ^ v" by (simp add: algebra_simps)
  moreover have "nat \<bar>(i + j) * 2 ^ v\<bar> = nat \<bar>i + j\<bar> * 2 ^ v" by (simp add: abs_mult nat_mult_distrib nat_power_eq)
  moreover have "((i + j) * 2 ^ v < 0) = (i + j < 0)" by (simp add: mult_less_0_iff)
  moreover have "floatBits neg (nat \<bar>i + j\<bar> * 2 ^ v) (- int v) = floatBits neg (nat \<bar>i + j\<bar>) 0" for neg
    using floatBits_shift [of neg "nat \<bar>i + j\<bar>" v 0] by simp
  moreover have "fZero (i < 0 \<and> j < 0) = floatOfInt 0" if "i + j = 0"
    using that by (auto simp: fZero_def floatOfInt_def floatBits_def)
  ultimately show ?thesis by (auto simp: fAdd_def floatOfInt_def [of "i + j"] floatOfInt_def [of 0])
qed

lemma fMul_floatOfInt:
  assumes "\<bar>i\<bar> < 2 ^ 53" "\<bar>j\<bar> < 2 ^ 53" "i * j \<noteq> 0"
  shows "fMul (floatOfInt i) (floatOfInt j) = floatOfInt (i * j)"
proof -
  obtain t where t: "fScale (floatOfInt i) = - int t" "fMant (floatOfInt i) = nat \<bar>i\<bar> * 2 ^ t"
    using floatOfInt_mantissa [OF assms(1)] by blast
  obtain u where u: "fScale (floatOfInt j) = - int u" "fMant (floatOfInt j) = nat \<bar>j\<bar> * 2 ^ u"
    using floatOfInt_mantissa [OF assms(2)] by blast
  have "fFinite (floatOfInt i)" "fFinite (floatOfInt j)"
    using floatOfInt_exact assms by force+
  moreover have "(i * j < 0) = ((i < 0) \<noteq> (j < 0))" using assms(3) by (auto simp: mult_less_0_iff)
  moreover have "nat \<bar>i\<bar> * 2 ^ t * (nat \<bar>j\<bar> * 2 ^ u) = nat \<bar>i * j\<bar> * 2 ^ (t + u)"
    by (simp add: abs_mult nat_mult_distrib power_add)
  moreover have "floatBits neg (nat \<bar>i * j\<bar> * 2 ^ (t + u)) (- int t - int u) = floatBits neg (nat \<bar>i * j\<bar>) 0" for neg
    using floatBits_shift [of neg "nat \<bar>i * j\<bar>" "t + u" 0] by (simp add: algebra_simps)
  ultimately show ?thesis
    by (simp add: fMul_def t u floatOfInt_def [of "i * j"] Let_def)
qed

end
