(* ===== verification/Value.thy ===== *)
theory Value
  imports Float64 GoStrings
begin

unbundle bit_operations_syntax

section \<open>NaN-boxed values (internal/runtime/value.go, internal/nanbox/value.go)\<close>

text \<open>
  A \<open>Value\<close> is a 64-bit pattern: a float, or one of four tags in the top 16 bits over a payload
  of 48 bits. Go's \<open>int64\<close> is a 64-bit word read with \<open>sint\<close>. A pointer is its address; what
  the pattern of a pointer refers to is memory, so the functions that follow it take a
  \<open>memory\<close>: the text a string pointer leads to and the kind of a native frame that a table
  carries. The registration of pointers with the garbage collector has no effect on the pattern
  and is not modelled.
\<close>

type_synonym Value = "64 word"
type_synonym int64 = "64 word"

datatype ValueType =
    TypeNil | TypeBool | TypeInt | TypeFloat | TypeString | TypeTable | TypeFunction
  | TypeCoroutine | TypeChannel | TypeDenseArray | TypeSoA | TypeFrame | TypeKeyedFrame

definition nanBits :: Value where "nanBits = 0x7FFC000000000000"
definition tagNil :: Value where "tagNil = 0xFFFC000000000000"
definition tagBool :: Value where "tagBool = 0xFFFD000000000000"
definition tagInt :: Value where "tagInt = 0xFFFE000000000000"
definition tagPtr :: Value where "tagPtr = 0xFFFF000000000000"
definition tagMask :: Value where "tagMask = 0xFFFF000000000000"
definition payloadMask :: Value where "payloadMask = 0x0000FFFFFFFFFFFF"
definition valNil :: Value where "valNil = tagNil"
definition valFalse :: Value where "valFalse = tagBool"
definition valTrue :: Value where "valTrue = tagBool OR 1"
definition canonicalNaN :: Value where "canonicalNaN = 0x7FF8000000000000"
definition maxInt48 :: int where "maxInt48 = 2 ^ 47 - 1"
definition minInt48 :: int where "minInt48 = - (2 ^ 47)"

text \<open>The kinds of pointers, in bits 44 to 47.\<close>

definition ptrSubMask :: Value where "ptrSubMask = push_bit 44 0xF"
definition ptrAddrMask :: Value where "ptrAddrMask = push_bit 44 1 - 1"
definition ptrSub :: "nat \<Rightarrow> Value" where "ptrSub k = push_bit 44 (word_of_nat k)"

abbreviation (input) ptrSubTable where "ptrSubTable \<equiv> ptrSub 0"
abbreviation (input) ptrSubString where "ptrSubString \<equiv> ptrSub 1"
abbreviation (input) ptrSubClosure where "ptrSubClosure \<equiv> ptrSub 2"
abbreviation (input) ptrSubGoFunction where "ptrSubGoFunction \<equiv> ptrSub 3"
abbreviation (input) ptrSubCoroutine where "ptrSubCoroutine \<equiv> ptrSub 4"
abbreviation (input) ptrSubChannel where "ptrSubChannel \<equiv> ptrSub 5"
abbreviation (input) ptrSubAnyFunction where "ptrSubAnyFunction \<equiv> ptrSub 6"
abbreviation (input) ptrSubAnyCoro where "ptrSubAnyCoro \<equiv> ptrSub 7"
abbreviation (input) ptrSubVMClosure where "ptrSubVMClosure \<equiv> ptrSub 8"
abbreviation (input) ptrSubLazyString where "ptrSubLazyString \<equiv> ptrSub 9"
abbreviation (input) ptrSubVMCoroutine where "ptrSubVMCoroutine \<equiv> ptrSub 10"
abbreviation (input) ptrSubFixedRecord where "ptrSubFixedRecord \<equiv> ptrSub 11"
abbreviation (input) ptrSubDenseArray where "ptrSubDenseArray \<equiv> ptrSub 12"
abbreviation (input) ptrSubSoA where "ptrSubSoA \<equiv> ptrSub 13"

subsection \<open>Constructors\<close>

definition NilValue :: Value where
  "NilValue = valNil"

definition BoolValue :: "bool \<Rightarrow> Value" where
  "BoolValue b = (if b then valTrue else valFalse)"

definition FloatValue :: "f64 \<Rightarrow> Value" where
  "FloatValue f = (if f AND nanBits = nanBits then canonicalNaN else f)"

definition IntValue :: "int64 \<Rightarrow> Value" where
  "IntValue i =
     (if maxInt48 < sint i \<or> sint i < minInt48 then FloatValue (floatOfInt (sint i))
      else tagInt OR (i AND payloadMask))"

text \<open>The pattern of a pointer; a nil pointer is the nil value. All constructors of pointer
values have this shape, with their own kind.\<close>

definition pointerValue :: "nat \<Rightarrow> 64 word \<Rightarrow> Value" where
  "pointerValue k p = (if p = 0 then valNil else tagPtr OR ptrSub k OR (p AND ptrAddrMask))"

subsection \<open>Type checks\<close>

definition IsNil :: "Value \<Rightarrow> bool" where "IsNil v \<longleftrightarrow> v = valNil"
definition IsBool :: "Value \<Rightarrow> bool" where "IsBool v \<longleftrightarrow> v AND tagMask = tagBool"
definition IsInt :: "Value \<Rightarrow> bool" where "IsInt v \<longleftrightarrow> v AND tagMask = tagInt"
definition IsFloat :: "Value \<Rightarrow> bool" where "IsFloat v \<longleftrightarrow> v AND nanBits \<noteq> nanBits"
definition IsNumber :: "Value \<Rightarrow> bool" where "IsNumber v \<longleftrightarrow> IsFloat v \<or> IsInt v"
definition IsPointer :: "Value \<Rightarrow> bool" where "IsPointer v \<longleftrightarrow> v AND tagMask = tagPtr"

definition ptrPayload :: "Value \<Rightarrow> 64 word" where
  "ptrPayload v = v AND ptrAddrMask"

definition ptrSubType :: "Value \<Rightarrow> 64 word" where
  "ptrSubType v = v AND ptrSubMask"

definition IsString :: "Value \<Rightarrow> bool" where
  "IsString v \<longleftrightarrow> v AND tagMask = tagPtr \<and> ptrSubType v \<in> {ptrSubString, ptrSubLazyString}"

definition IsTable :: "Value \<Rightarrow> bool" where
  "IsTable v \<longleftrightarrow> v AND tagMask = tagPtr \<and> ptrSubType v \<in> {ptrSubTable, ptrSubFixedRecord}"

definition IsFunction :: "Value \<Rightarrow> bool" where
  "IsFunction v \<longleftrightarrow> v AND tagMask = tagPtr \<and>
     ptrSubType v \<in> {ptrSubClosure, ptrSubGoFunction, ptrSubAnyFunction, ptrSubVMClosure}"

definition IsCoroutine :: "Value \<Rightarrow> bool" where
  "IsCoroutine v \<longleftrightarrow> v AND tagMask = tagPtr \<and> ptrSubType v \<in> {ptrSubCoroutine, ptrSubAnyCoro, ptrSubVMCoroutine}"

definition IsChannel :: "Value \<Rightarrow> bool" where
  "IsChannel v \<longleftrightarrow> v AND tagMask = tagPtr \<and> ptrSubType v = ptrSubChannel"

text \<open>What pointers lead to: the text of a string, the native frame type of a table.\<close>

record memory =
  mStr :: "64 word \<Rightarrow> bytes"
  mFrame :: "64 word \<Rightarrow> ValueType option"

definition Type :: "memory \<Rightarrow> Value \<Rightarrow> ValueType" where
  "Type mem v =
     (if v AND nanBits \<noteq> nanBits then TypeFloat
      else let tag = v AND tagMask in
        if tag = tagNil then TypeNil
        else if tag = tagBool then TypeBool
        else if tag = tagInt then TypeInt
        else if tag = tagPtr then
          (let sub = v AND ptrSubMask in
           if sub \<in> {ptrSubTable, ptrSubFixedRecord}
             then (case mFrame mem (ptrPayload v) of Some typ \<Rightarrow> typ | None \<Rightarrow> TypeTable)
           else if sub \<in> {ptrSubString, ptrSubLazyString} then TypeString
           else if sub \<in> {ptrSubClosure, ptrSubGoFunction, ptrSubAnyFunction, ptrSubVMClosure} then TypeFunction
           else if sub \<in> {ptrSubCoroutine, ptrSubAnyCoro, ptrSubVMCoroutine} then TypeCoroutine
           else if sub = ptrSubChannel then TypeChannel
           else if sub = ptrSubDenseArray then TypeDenseArray
           else if sub = ptrSubSoA then TypeSoA
           else TypeTable)
        else TypeNil)"

subsection \<open>Accessors\<close>

definition BoolOf :: "Value \<Rightarrow> bool" where
  "BoolOf v \<longleftrightarrow> v AND 1 \<noteq> 0"

text \<open>\<open>Int\<close>: shift the payload to the top and back, arithmetically.\<close>

definition IntOf :: "Value \<Rightarrow> int64" where
  "IntOf v = signed_drop_bit 16 (push_bit 16 v)"

definition Float :: "Value \<Rightarrow> f64" where
  "Float v = v"

definition Number :: "Value \<Rightarrow> f64" where
  "Number v = (if IsInt v then floatOfInt (sint (IntOf v)) else v)"

definition Str :: "memory \<Rightarrow> Value \<Rightarrow> bytes" where
  "Str mem v = (if \<not> IsString v then [] else if ptrPayload v = 0 then [] else mStr mem (ptrPayload v))"

definition Truthy :: "Value \<Rightarrow> bool" where
  "Truthy v \<longleftrightarrow> v \<noteq> valNil \<and> v \<noteq> valFalse"

definition Equal :: "memory \<Rightarrow> Value \<Rightarrow> Value \<Rightarrow> bool" where
  "Equal mem v w =
     (if IsFloat v \<and> fIsNaN (Float v) then False
      else if IsFloat w \<and> fIsNaN (Float w) then False
      else if v = w then True
      else if Type mem v \<noteq> Type mem w then
        (if IsNumber v \<and> IsNumber w then fEq (Number v) (Number w) else False)
      else (case Type mem v of
          TypeNil \<Rightarrow> True
        | TypeBool \<Rightarrow> BoolOf v = BoolOf w
        | TypeInt \<Rightarrow> IntOf v = IntOf w
        | TypeFloat \<Rightarrow> fEq (Float v) (Float w)
        | TypeString \<Rightarrow> Str mem v = Str mem w
        | other \<Rightarrow> ptrPayload v = ptrPayload w))"

text \<open>Go's order of strings: byte by byte, a proper prefix first.\<close>

fun bytesLess :: "bytes \<Rightarrow> bytes \<Rightarrow> bool" where
  "bytesLess xs [] = False"
| "bytesLess [] (y # ys) = True"
| "bytesLess (x # xs) (y # ys) = (byte x < byte y \<or> (x = y \<and> bytesLess xs ys))"

text \<open>The result and whether the two values can be compared.\<close>

definition LessThan :: "memory \<Rightarrow> Value \<Rightarrow> Value \<Rightarrow> bool \<times> bool" where
  "LessThan mem v w =
     (if IsNumber v \<and> IsNumber w then (fLess (Number v) (Number w), True)
      else if IsString v \<and> IsString w then (bytesLess (Str mem v) (Str mem w), True)
      else (False, False))"

subsection \<open>Package nanbox\<close>

definition nbFromInt :: "int64 \<Rightarrow> Value" where
  "nbFromInt i =
     (if maxInt48 < sint i \<or> sint i < minInt48 then FloatValue (floatOfInt (sint i))
      else tagInt OR (i AND payloadMask))"

definition nbToInt :: "Value \<Rightarrow> int64" where
  "nbToInt v =
     (let raw = v AND payloadMask in
      if raw AND push_bit 47 1 \<noteq> 0 then raw OR 0xFFFF000000000000 else raw)"

definition nbFromPointer :: "64 word \<Rightarrow> Value" where
  "nbFromPointer p = tagPtr OR (p AND payloadMask)"

definition nbToPointer :: "Value \<Rightarrow> 64 word" where
  "nbToPointer v = v AND payloadMask"

definition nbToNumber :: "Value \<Rightarrow> f64" where
  "nbToNumber v = (if IsFloat v then v else floatOfInt (sint (nbToInt v)))"

section \<open>The representation is faithful\<close>

lemma masks:
  "payloadMask = mask 48" "tagMask = NOT (mask 48)" "ptrAddrMask = mask 44" "nanBits = push_bit 50 (mask 13)"
  "ptrSubMask = push_bit 44 (mask 4)"
  by (simp_all add: payloadMask_def tagMask_def ptrAddrMask_def ptrSubMask_def nanBits_def mask_eq_exp_minus_1)

lemma tags:
  "tagNil = push_bit 48 0xFFFC" "tagBool = push_bit 48 0xFFFD" "tagInt = push_bit 48 0xFFFE" "tagPtr = push_bit 48 0xFFFF"
  by (simp_all add: tagNil_def tagBool_def tagInt_def tagPtr_def)

text \<open>The tag test reads the top 16 bits.\<close>

lemma tag_test:
  "w AND tagMask = push_bit 48 t \<longleftrightarrow> drop_bit 48 w = t" if "drop_bit 48 (push_bit 48 t) = (t :: 64 word)"
proof -
  have w: "w AND tagMask = push_bit 48 (drop_bit 48 w)"
    by (rule bit_word_eqI) (auto simp: masks bit_simps)
  have "drop_bit 48 (push_bit 48 (drop_bit 48 w)) = drop_bit 48 w"
    by (rule bit_word_eqI) (auto simp: bit_simps dest: bit_imp_le_length)
  with that show ?thesis unfolding w by metis
qed

lemma drop_tag: "drop_bit 48 (push_bit 48 t OR (x AND payloadMask)) = t" if "drop_bit 48 (push_bit 48 t) = (t :: 64 word)"
proof -
  have "drop_bit 48 (x AND payloadMask) = 0"
    by (rule bit_word_eqI) (auto simp: masks bit_simps)
  then show ?thesis by (simp add: that)
qed

text \<open>The top 16 bits decide what a pattern is.\<close>

definition top :: "Value \<Rightarrow> 64 word" where
  "top v = drop_bit 48 v"

lemma kind_tests:
  "IsInt v \<longleftrightarrow> top v = 0xFFFE" "IsBool v \<longleftrightarrow> top v = 0xFFFD" "IsPointer v \<longleftrightarrow> top v = 0xFFFF"
  "v AND tagMask = tagNil \<longleftrightarrow> top v = 0xFFFC"
  unfolding IsInt_def IsBool_def IsPointer_def tags top_def by (rule tag_test, simp)+

lemma and_push_bit: "w AND push_bit n t = push_bit n (drop_bit n w AND (t :: 64 word))"
  by (rule bit_word_eqI) (auto simp: bit_simps)

lemma push_bit_drop: "drop_bit n (push_bit n (drop_bit n w AND t)) = drop_bit n w AND (t :: 64 word)"
  by (rule bit_word_eqI) (auto simp: bit_simps dest: bit_imp_le_length)

lemma mask_test:
  assumes "drop_bit n (push_bit n t) = (t :: 64 word)"
  shows "w AND push_bit n t = push_bit n t \<longleftrightarrow> drop_bit n w AND t = t"
  unfolding and_push_bit using assms push_bit_drop [of n w t] by metis

lemma float_test: "IsFloat v \<longleftrightarrow> top v AND 0x7FFC \<noteq> 0x7FFC"
proof -
  have n: "nanBits = push_bit 48 0x7FFC" by (simp add: nanBits_def)
  show ?thesis unfolding IsFloat_def n top_def using mask_test [of 48 "0x7FFC" v] by simp
qed

lemma top_simps:
  "top valNil = 0xFFFC" "top valFalse = 0xFFFD" "top valTrue = 0xFFFD" "top canonicalNaN = 0x7FF8"
  by (simp_all add: top_def valNil_def valFalse_def valTrue_def tagNil_def tagBool_def canonicalNaN_def)

lemma top_int: "top (tagInt OR (i AND payloadMask)) = 0xFFFE"
  unfolding top_def tags by (rule drop_tag) simp

lemma top_pointer: "p \<noteq> 0 \<Longrightarrow> k < 16 \<Longrightarrow> top (pointerValue k p) = 0xFFFF"
proof -
  assume k: "k < 16" and p: "p \<noteq> 0"
  have "drop_bit 48 (ptrSub k OR (p AND ptrAddrMask)) = 0"
  proof (rule bit_word_eqI)
    fix n assume "n < LENGTH(64)"
    have "k < 2 ^ n * 16" using k less_le_trans [of k 16 "2 ^ n * 16"] by simp
    then have "\<not> bit k (4 + n)" by (simp add: bit_iff_odd power_add mult.commute)
    then have "\<not> bit (word_of_nat k :: 64 word) (4 + n)" by (simp add: bit_simps)
    then show "bit (drop_bit 48 (ptrSub k OR (p AND ptrAddrMask))) n = bit (0 :: 64 word) n"
      by (auto simp: masks ptrSub_def bit_simps)
  qed
  then show ?thesis using p by (simp add: pointerValue_def top_def tags or.assoc)
qed

lemma IsFloat_FloatValue: "IsFloat (FloatValue f)"
  by (auto simp: FloatValue_def IsFloat_def canonicalNaN_def nanBits_def)

text \<open>The patterns with a tag are NaNs for the float unit.\<close>

lemma tagged_nan: "\<not> IsFloat v \<Longrightarrow> fIsNaN v"
proof -
  assume "\<not> IsFloat v"
  then have "v AND push_bit 50 (mask 13) = push_bit 50 (mask 13)" by (simp add: IsFloat_def masks)
  moreover have "drop_bit 50 (push_bit 50 (mask 13)) = (mask 13 :: 64 word)" by (simp add: mask_eq_exp_minus_1)
  ultimately have "drop_bit 50 v AND mask 13 = mask 13" using mask_test [of 50 "mask 13" v] by blast
  then have "unat (take_bit 13 (drop_bit 50 v)) = unat (mask 13 :: 64 word)" by (simp add: take_bit_eq_mask)
  moreover have "unat (mask 13 :: 64 word) = 2 ^ 13 - 1" by (simp add: mask_eq_exp_minus_1)
  moreover have "unat (take_bit 13 (drop_bit 50 v)) = take_bit 13 (drop_bit 50 (unat v))"
  proof -
    have "unat v < 2 ^ LENGTH(64)" by (rule unsigned_less)
    then show ?thesis by (simp only: unsigned_take_bit_eq unsigned_drop_bit_eq take_bit_nat_eq_self)
  qed
  ultimately have b: "unat v div 2 ^ 50 mod 2 ^ 13 = 2 ^ 13 - 1"
    by (simp only: take_bit_eq_mod drop_bit_eq_div)
  define a where "a = unat v div 2 ^ 50"
  have "fExp v = (a div 4) mod 2048"
    by (simp add: fExp_def a_def div_mult2_eq [symmetric])
  moreover have "a mod 8192 = 8191" using b by (simp add: a_def)
  ultimately have e: "fExp v = 2047" using div_exp_mod_exp_eq [of a 2 11] by simp
  have "unat v mod 2 ^ 52 div 2 ^ 50 = a mod 4"
    using div_exp_mod_exp_eq [of "unat v" 50 2] by (simp add: a_def)
  moreover have "a mod 4 = 3" using \<open>a mod 8192 = 8191\<close> mod_mod_cancel [of 4 8192 a] by simp
  ultimately have "fFrac v \<noteq> 0" by (auto simp: fFrac_def)
  with e show ?thesis by (simp add: fIsNaN_def)
qed

lemma FloatValue_id: "\<not> fIsNaN f \<Longrightarrow> FloatValue f = f"
  using tagged_nan [of f] by (auto simp: FloatValue_def IsFloat_def)

subsection \<open>Integers\<close>

definition inInt48 :: "int \<Rightarrow> bool" where
  "inInt48 i \<longleftrightarrow> minInt48 \<le> i \<and> i \<le> maxInt48"

lemma IntValue_small: "inInt48 (sint i) \<Longrightarrow> IntValue i = tagInt OR (i AND payloadMask)"
  by (auto simp: IntValue_def inInt48_def)

lemma IntValue_large: "\<not> inInt48 (sint i) \<Longrightarrow> IntValue i = floatOfInt (sint i) \<and> IsFloat (IntValue i)"
proof -
  assume "\<not> inInt48 (sint i)"
  moreover have "FloatValue (floatOfInt (sint i)) = floatOfInt (sint i)"
    by (simp add: FloatValue_id floatOfInt_def floatBits_not_nan)
  ultimately show ?thesis
    using IsFloat_FloatValue [of "floatOfInt (sint i)"] by (auto simp: IntValue_def inInt48_def not_le)
qed

lemma IsInt_IntValue: "IsInt (IntValue i) \<longleftrightarrow> inInt48 (sint i)"
proof (cases "inInt48 (sint i)")
  case True
  then show ?thesis by (simp add: kind_tests IntValue_small top_int)
next
  case False
  then have "IsFloat (IntValue i)" using IntValue_large by blast
  with False show ?thesis by (auto simp: kind_tests float_test)
qed

lemma IntOf_payload: "IntOf (tagInt OR (i AND payloadMask)) = signed_drop_bit 16 (push_bit 16 i)"
proof -
  have "push_bit 16 (push_bit 48 t OR (i AND mask 48)) = push_bit 16 i" for t
    by (rule bit_word_eqI) (auto simp: bit_simps)
  then have "push_bit 16 (tagInt OR (i AND payloadMask)) = push_bit 16 i" by (simp only: masks tags)
  then show ?thesis by (simp add: IntOf_def)
qed

lemma sign_extension:
  assumes "inInt48 (sint i)"
  shows "signed_drop_bit 16 (push_bit 16 i) = (i :: int64)"
proof -
  have b: "- (2 ^ 47) \<le> sint i" "sint i < 2 ^ 47" using assms by (auto simp: inInt48_def minInt48_def maxInt48_def)
  have "sint (push_bit 16 i) = 2 ^ 16 * sint i"
    unfolding signed_push_bit_eq using b
    by (subst signed_take_bit_int_eq_self) (simp_all add: push_bit_eq_mult)
  then have "sint (signed_drop_bit 16 (push_bit 16 i)) = sint i"
    by (simp add: sint_signed_drop_bit_eq drop_bit_eq_div)
  then show ?thesis by (simp only: signed_word_eqI)
qed

lemma IntOf_IntValue: "inInt48 (sint i) \<Longrightarrow> IntOf (IntValue i) = i"
  by (simp add: IntValue_small IntOf_payload sign_extension)

lemma inInt48_IntOf: "inInt48 (sint (IntOf v))"
proof -
  have "sint (IntOf v) = drop_bit 16 (sint (push_bit 16 v))" by (simp add: IntOf_def sint_signed_drop_bit_eq)
  moreover have "- (2 ^ 63) \<le> sint (push_bit 16 v)" "sint (push_bit 16 v) < 2 ^ 63"
    using sint_ge [of "push_bit 16 v"] sint_lt [of "push_bit 16 v"] by simp_all
  then have "- (2 ^ 63) div 2 ^ 16 \<le> sint (push_bit 16 v) div 2 ^ 16" "sint (push_bit 16 v) div 2 ^ 16 \<le> (2 ^ 63 - 1) div 2 ^ 16"
    by (intro zdiv_mono1; simp)+
  ultimately show ?thesis by (simp add: inInt48_def minInt48_def maxInt48_def drop_bit_eq_div)
qed

text \<open>The two packages read the payload in different ways, with the same result.\<close>

lemma nbToInt_IntOf: "nbToInt v = IntOf v"
proof (rule bit_word_eqI)
  fix n assume "n < LENGTH(64)"
  have h: "(0xFFFF000000000000 :: 64 word) = NOT (mask 48)" by (simp add: mask_eq_exp_minus_1)
  have c: "((v AND payloadMask) AND push_bit 47 1 \<noteq> 0) = bit v 47"
    using and_exp_eq_0_iff_not_bit [of "v AND payloadMask" 47] by (simp add: push_bit_of_1 masks bit_simps)
  show "bit (nbToInt v) n = bit (IntOf v) n"
    unfolding nbToInt_def IntOf_def Let_def c h using \<open>n < LENGTH(64)\<close>
    by (auto simp: masks bit_simps)
qed

lemma nbFromInt_IntValue: "nbFromInt = IntValue"
  by (simp add: fun_eq_iff nbFromInt_def IntValue_def)

lemma Number_IntValue: "Number (IntValue i) = floatOfInt (sint i)"
proof (cases "inInt48 (sint i)")
  case True
  then show ?thesis by (simp add: Number_def IsInt_IntValue IntOf_IntValue)
next
  case False
  then have "\<not> IsInt (IntValue i)" by (simp add: IsInt_IntValue)
  with IntValue_large [OF False] show ?thesis by (simp add: Number_def)
qed

subsection \<open>Kinds of values\<close>

lemma Type_number: "IsInt v \<Longrightarrow> Type mem v = TypeInt" "IsFloat v \<Longrightarrow> Type mem v = TypeFloat"
proof -
  show "IsFloat v \<Longrightarrow> Type mem v = TypeFloat" by (simp add: Type_def IsFloat_def)
  assume i: "IsInt v"
  then have "\<not> IsFloat v" by (simp add: kind_tests float_test)
  moreover have "tagInt \<noteq> tagNil" "tagInt \<noteq> tagBool" by (simp_all add: tagInt_def tagNil_def tagBool_def)
  ultimately show "Type mem v = TypeInt" using i by (simp add: Type_def IsFloat_def IsInt_def Let_def)
qed

lemma int_not_float: "IsInt v \<Longrightarrow> \<not> IsFloat v"
  by (simp add: kind_tests float_test)

lemma IntOf_small: "\<bar>sint (IntOf v)\<bar> < 2 ^ 53"
  using inInt48_IntOf [of v] by (auto simp: inInt48_def minInt48_def maxInt48_def abs_less_iff)

lemma fEq_refl: "\<not> fIsNaN x \<Longrightarrow> fEq x x"
  by (simp add: fEq_def aligned_def Let_def)

lemma fEq_ints: "fEq (floatOfInt (sint (IntOf v))) (floatOfInt (sint (IntOf w))) \<longleftrightarrow> IntOf v = IntOf w"
proof -
  have "fval (floatOfInt (sint (IntOf u))) = of_int (sint (IntOf u)) \<and> fFinite (floatOfInt (sint (IntOf u)))" for u
    using floatOfInt_exact IntOf_small [of u] by force
  then have "fEq (floatOfInt (sint (IntOf v))) (floatOfInt (sint (IntOf w))) \<longleftrightarrow>
      real_of_int (sint (IntOf v)) = real_of_int (sint (IntOf w))"
    by (metis fEq_fval)
  then show ?thesis using signed_word_eqI by (metis of_int_eq_iff)
qed

text \<open>Equality of numbers is numeric equality, whatever their representations.\<close>

lemma Equal_numbers:
  assumes "IsNumber v" "IsNumber w"
  shows "Equal mem v w = fEq (Number v) (Number w)"
proof -
  have number: "Number u = u" if "IsFloat u" for u
    using that by (auto simp: Number_def dest: int_not_float)
  have int: "Number u = floatOfInt (sint (IntOf u))" if "IsInt u" for u
    using that by (simp add: Number_def)
  have nan: "\<not> fEq x y" if "fIsNaN x \<or> fIsNaN y" for x y
    using that by (auto simp: fEq_def)
  consider "IsFloat v" "IsFloat w" | "IsInt v" "IsInt w" | "IsFloat v" "IsInt w" | "IsInt v" "IsFloat w"
    using assms by (auto simp: IsNumber_def)
  then show ?thesis
  proof cases
    case 1
    then show ?thesis using nan fEq_refl by (auto simp: Equal_def Type_number number Float_def)
  next
    case 2
    then show ?thesis using fEq_ints [of v w] by (auto simp: Equal_def Type_number int dest: int_not_float)
  next
    case 3
    then show ?thesis using nan assms
      by (auto simp: Equal_def Type_number number Float_def dest: int_not_float)
  next
    case 4
    then show ?thesis using nan assms
      by (auto simp: Equal_def Type_number number Float_def dest: int_not_float)
  qed
qed

lemma IsNumber_cases: "IsNumber v \<longleftrightarrow> IsInt v \<or> IsFloat v"
  by (auto simp: IsNumber_def)

end
