(* ===== verification/GoNumbers.thy ===== *)
theory GoNumbers
  imports Float64 GoStrings
begin

section \<open>Reading numbers with Go's strconv\<close>

text \<open>
  \<open>strconv.ParseInt\<close> with base 0 and \<open>strconv.ParseFloat\<close>, as the compiler and the runtime call
  them: \<open>None\<close> is an error of either kind, syntax or range. \<open>ParseFloat\<close> rounds to the nearest
  value, so it is the exact number that the text spells, rounded once.
\<close>

definition lowerByte :: "char \<Rightarrow> char" where
  "lowerByte c = (if inRange (CHR ''A'') (CHR ''Z'') c then char_of (byte c + 32) else c)"

definition isDigit10 :: "char \<Rightarrow> bool" where
  "isDigit10 c \<longleftrightarrow> inRange (CHR ''0'') (CHR ''9'') c"

text \<open>The value of a digit in a base of up to 36.\<close>

definition digitVal :: "char \<Rightarrow> nat option" where
  "digitVal c =
     (if isDigit10 c then Some (byte c - 48)
      else if inRange (CHR ''a'') (CHR ''z'') (lowerByte c) then Some (byte (lowerByte c) - 87)
      else None)"

definition digitIn :: "nat \<Rightarrow> char \<Rightarrow> nat option" where
  "digitIn base c = (case digitVal c of Some d \<Rightarrow> if d < base then Some d else None | None \<Rightarrow> None)"

text \<open>\<open>underscoreOK\<close>: underscores only between digits, or between a base prefix and a digit.
The middle argument is what was seen last: the beginning, a digit, an underscore, something else.\<close>

fun underscoresFrom :: "bool \<Rightarrow> char \<Rightarrow> bytes \<Rightarrow> bool" where
  "underscoresFrom hex saw [] \<longleftrightarrow> saw \<noteq> CHR ''_''"
| "underscoresFrom hex saw (c # cs) \<longleftrightarrow>
     (if isDigit10 c \<or> (hex \<and> inRange (CHR ''a'') (CHR ''f'') (lowerByte c)) then underscoresFrom hex (CHR ''0'') cs
      else if c = CHR ''_'' then saw = CHR ''0'' \<and> underscoresFrom hex (CHR ''_'') cs
      else saw \<noteq> CHR ''_'' \<and> underscoresFrom hex (CHR ''!'') cs)"

definition dropSign :: "bytes \<Rightarrow> bytes" where
  "dropSign s = (if hasPrefix s ''-'' \<or> hasPrefix s ''+'' then drop 1 s else s)"

definition underscoreOK :: "bytes \<Rightarrow> bool" where
  "underscoreOK s0 =
     (let s = dropSign s0 in
      case s of
        c # d # cs \<Rightarrow>
          if c = CHR ''0'' \<and> lowerByte d \<in> set ''box'' then underscoresFrom (lowerByte d = CHR ''x'') (CHR ''0'') cs
          else underscoresFrom False (CHR ''^'') s
      | _ \<Rightarrow> underscoresFrom False (CHR ''^'') s)"

text \<open>Digits of a base, underscores skipped.\<close>

fun readDigits :: "nat \<Rightarrow> int \<Rightarrow> bytes \<Rightarrow> int option" where
  "readDigits base n [] = Some n"
| "readDigits base n (c # cs) =
     (if c = CHR ''_'' then readDigits base n cs
      else case digitIn base c of Some d \<Rightarrow> readDigits base (n * int base + int d) cs | None \<Rightarrow> None)"

definition parseUint0 :: "bytes \<Rightarrow> int option" where
  "parseUint0 s =
     (if s = [] then None
      else
        let (base, ds) =
          (if hd s \<noteq> CHR ''0'' then (10, s)
           else if 3 \<le> length s \<and> lowerByte (s ! 1) = CHR ''b'' then (2, drop 2 s)
           else if 3 \<le> length s \<and> lowerByte (s ! 1) = CHR ''o'' then (8, drop 2 s)
           else if 3 \<le> length s \<and> lowerByte (s ! 1) = CHR ''x'' then (16, drop 2 s)
           else (8, drop 1 s))
        in if CHR ''_'' \<in> set ds \<and> \<not> underscoreOK s then None else readDigits base 0 ds)"

definition goParseInt0 :: "bytes \<Rightarrow> int option" where
  "goParseInt0 s =
     (case parseUint0 (dropSign s) of
        None \<Rightarrow> None
      | Some n \<Rightarrow>
          if hasPrefix s ''-'' then (if n \<le> 9223372036854775808 then Some (- n) else None)
          else if n < 9223372036854775808 then Some n else None)"

subsection \<open>Floats\<close>

text \<open>The float nearest to a quotient of natural numbers. The quotient is taken to at least 64 bits
and the last bit of the mantissa records whether anything was cut off.\<close>

definition floatOfRatio :: "bool \<Rightarrow> nat \<Rightarrow> nat \<Rightarrow> f64" where
  "floatOfRatio neg num den =
     (let t = (64 + bitLen den) - bitLen num;
          q = num * 2 ^ t div den;
          sticky = (if num * 2 ^ t mod den = 0 then 0 else 1)
      in floatBits neg (2 * q + sticky) (- int (Suc t)))"

text \<open>Mantissa digits: the digits before and after the dot, and the rest of the text. The counters
are the mantissa, the number of digits read and the number of digits after the dot.\<close>

fun floatDigits :: "nat \<Rightarrow> bool \<Rightarrow> nat \<Rightarrow> nat \<Rightarrow> nat \<Rightarrow> bytes \<Rightarrow> nat \<times> nat \<times> nat \<times> bytes" where
  "floatDigits base dot m k f [] = (m, k, f, [])"
| "floatDigits base dot m k f (c # cs) =
     (if c = CHR ''_'' then floatDigits base dot m k f cs
      else if c = CHR ''.'' then (if dot then (m, k, f, c # cs) else floatDigits base True m k f cs)
      else case (if base = 16 \<or> isDigit10 c then digitIn base c else None) of
          Some d \<Rightarrow> floatDigits base dot (m * base + d) (Suc k) (if dot then Suc f else f) cs
        | None \<Rightarrow> (m, k, f, c # cs))"

text \<open>Exponent digits, cut off once the value has five digits.\<close>

fun exponentDigits :: "nat \<Rightarrow> bytes \<Rightarrow> nat \<times> bytes" where
  "exponentDigits e [] = (e, [])"
| "exponentDigits e (c # cs) =
     (if c = CHR ''_'' then exponentDigits e cs
      else if isDigit10 c then exponentDigits (if e < 10000 then e * 10 + (byte c - 48) else e) cs
      else (e, c # cs))"

definition readExponent :: "bytes \<Rightarrow> (int \<times> bytes) option" where
  "readExponent s =
     (let ds = dropSign s in
      case ds of
        c # cs \<Rightarrow>
          if isDigit10 c then
            (let (e, rest) = exponentDigits 0 ds in Some (if hasPrefix s ''-'' then - int e else int e, rest))
          else None
      | [] \<Rightarrow> None)"

definition specialFloat :: "bytes \<Rightarrow> f64 option" where
  "specialFloat s =
     (let l = map lowerByte s; u = map lowerByte (dropSign s) in
      if u \<in> {''inf'', ''infinity''} then Some (fInf (hasPrefix s ''-''))
      else if l = ''nan'' then Some qNaN
      else None)"

definition floatOfParts :: "bool \<Rightarrow> nat \<Rightarrow> nat \<Rightarrow> int \<Rightarrow> f64" where
  "floatOfParts neg base m e =
     (if m = 0 then fZero neg
      else if base = 16 then floatBits neg m e
      else if 0 \<le> e then floatBits neg (m * 10 ^ nat e) 0
      else floatOfRatio neg m (10 ^ nat (- e)))"

definition goParseFloat :: "bytes \<Rightarrow> f64 option" where
  "goParseFloat s =
     (case specialFloat s of Some f \<Rightarrow> Some f | None \<Rightarrow>
        let neg = hasPrefix s ''-'';
            body = dropSign s;
            hex = (case body of a # b # cs \<Rightarrow> a = CHR ''0'' \<and> lowerByte b = CHR ''x'' \<and> cs \<noteq> [] | _ \<Rightarrow> False);
            base = (if hex then 16 else 10);
            (m, k, f, rest) = floatDigits base False 0 0 0 (if hex then drop 2 body else body);
            unit = (if hex then 4 else 1)
        in if k = 0 then None
           else if CHR ''_'' \<in> set s \<and> \<not> underscoreOK s then None
           else
             (let result = (case rest of
                  [] \<Rightarrow> if hex then None else Some (0, [])
                | c # cs \<Rightarrow>
                    if lowerByte c = (if hex then CHR ''p'' else CHR ''e'') then readExponent cs
                    else None)
              in case result of
                  Some (e, []) \<Rightarrow>
                    (let v = floatOfParts neg base m (e - int f * unit) in if fIsInf v then None else Some v)
                | _ \<Rightarrow> None))"

end
