(* ===== verification/Compiler_State.thy ===== *)
theory Compiler_State
  imports Ast Opcode Value GoNumbers
begin

section \<open>The compiler's state (internal/vm/compiler.go, internal/vm/proto.go)\<close>

text \<open>
  A \<open>compiler\<close> object compiles one function and points to the compiler of the enclosing function;
  the maps of known arities, known results and declared globals are shared along the chain. Here
  the chain is explicit: \<open>cFn\<close> is the function being compiled, \<open>cParents\<close> the enclosing ones,
  innermost first, and the shared maps are fields beside them. The stacks that Go keeps as slices
  (locals, loops, scopes) have their top first. Registers, constant indices and depths are Go's
  \<open>int\<close>; a position in the code is a \<open>nat\<close>.

  Not modelled: the fields of \<open>FuncProto\<close> that only the caches and the JIT fill in.
\<close>

subsection \<open>Data\<close>

text \<open>A constant of the pool: a string by its text, or a number by its pattern.\<close>

datatype Const = KStr bytes | KNum Value

record localVar =
  lvName :: bytes
  lvReg :: int
  lvDepth :: int
  lvCaptured :: bool
  lvReadOnly :: bool

record loopInfo =
  liBreakJumps :: "nat list"
  liContinueJumps :: "nat list"
  liScopeDepth :: int

record upvalInfo =
  uiName :: bytes
  uiInStack :: bool
  uiIndex :: int
  uiReadOnly :: bool

record functionArity =
  faNumParams :: nat
  faVararg :: bool

record functionResult =
  frSingle :: bool

record compiledLabel =
  clPc :: nat
  clDepth :: int
  clLine :: nat

record compiledGoto =
  cgName :: bytes
  cgPc :: nat
  cgDepth :: int
  cgLine :: nat

record TableCtor2 =
  t2Key1Const :: int
  t2Key2Const :: int
  t2Key1 :: bytes
  t2Key2 :: bytes

record TableCtorN =
  tnKeyConsts :: "int list"
  tnKeys :: "bytes list"

datatype (plugins only: size code) FuncProto =
  FuncProto (poName: bytes) (poLineDefined: nat) (poNumParams: nat) (poIsVarArg: bool)
    (poUsesVarargBytecode: bool) (poMaxStack: int) (poCode: "32 word list") (poConstants: "Const list")
    (poTableCtors2: "TableCtor2 list") (poTableCtorsN: "TableCtorN list") (poUpvalues: "upvalInfo list")
    (poReadOnlyLocals: "int \<Rightarrow> bytes option") (poProtos: "FuncProto list") (poLineInfo: "nat list")
    (poLeafNoCall: bool) (poNoGlobalOps: bool) (poJITDisabled: bool)

text \<open>The compiler of one function, with the prototype it is filling in. \<open>fIsVarArg\<close> is the
compiler's flag; the prototype's own flag \<open>fProtoIsVarArg\<close> is only set by \<open>finish\<close>.\<close>

record fstate =
  fName :: bytes
  fLineDefined :: nat
  fNumParams :: nat
  fProtoIsVarArg :: bool
  fUsesVararg :: bool
  fJITDisabled :: bool
  fCode :: "32 word list"
  fLineInfo :: "nat list"
  fConstants :: "Const list"
  fTableCtors2 :: "TableCtor2 list"
  fTableCtorsN :: "TableCtorN list"
  fProtos :: "FuncProto list"
  fLocals :: "localVar list"
  fUpvals :: "upvalInfo list"
  fReadOnlyLocals :: "int \<Rightarrow> bytes option"
  fNextReg :: int
  fMaxReg :: int
  fDepth :: int
  fLoops :: "loopInfo list"
  fIsVarArg :: bool
  fLabels :: "bytes \<Rightarrow> compiledLabel option"
  fLabelDepths :: "bytes \<Rightarrow> int option"
  fGotos :: "compiledGoto list"
  fArityScopes :: "(bytes \<Rightarrow> functionArity option option) list"
  fResultScopes :: "(bytes \<Rightarrow> functionResult option option) list"

record compiler =
  cFn :: fstate
  cParents :: "fstate list"
  cFuncArities :: "bytes \<Rightarrow> functionArity option"
  cFuncResults :: "bytes \<Rightarrow> functionResult option"
  cDeclaredGlobals :: "bytes set"

text \<open>The errors the compiler reports, with the line; \<open>ENilNode\<close> stands for the panic on a node that
the parser never leaves out, and \<open>EFuel\<close> for running out of recursion depth, which
\<open>Compiler_Total\<close> excludes.\<close>

datatype cerror =
    EUnsupportedExpr nat
  | EUnsupportedStmt nat
  | EInvalidNumber nat bytes
  | EBinaryOp nat bytes
  | EUnaryOp nat bytes
  | EUndefinedVariable nat bytes
  | EAssignTarget nat
  | ECompoundOp nat bytes
  | ECompoundTarget nat
  | EIncDecTarget nat
  | ECallStmt nat
  | EGoStmt nat
  | EDeferStmt nat
  | EBreakOutsideLoop nat
  | EContinueOutsideLoop nat
  | EGotoTarget nat bytes
  | ESelectWithoutCases nat
  | ESelectTooManyCases nat
  | EDenseLength nat nat nat
  | EDenseDType nat bytes
  | ERegisterAllocation nat
  | ELabelControl
  | ENilNode
  | EFuel

subsection \<open>Steps of the compiler\<close>

datatype 'a cres = COk 'a compiler | CErr cerror

type_synonym 'a cm = "compiler \<Rightarrow> 'a cres"

definition returnC :: "'a \<Rightarrow> 'a cm" where
  "returnC a = (\<lambda>c. COk a c)"

definition failC :: "cerror \<Rightarrow> 'a cm" where
  "failC e = (\<lambda>c. CErr e)"

definition bindC :: "'a cm \<Rightarrow> ('a \<Rightarrow> 'b cm) \<Rightarrow> 'b cm" where
  "bindC m f = (\<lambda>c. case m c of COk a c' \<Rightarrow> f a c' | CErr e \<Rightarrow> CErr e)"

definition thenC :: "'a cm \<Rightarrow> 'b cm \<Rightarrow> 'b cm" where
  "thenC m k = bindC m (\<lambda>_. k)"

text \<open>A read of the compiler, a change of it, a read and a change of the function's own part.\<close>

definition askC :: "(compiler \<Rightarrow> 'a) \<Rightarrow> 'a cm" where
  "askC f = (\<lambda>c. COk (f c) c)"

definition updC :: "(compiler \<Rightarrow> compiler) \<Rightarrow> unit cm" where
  "updC f = (\<lambda>c. COk () (f c))"

definition askF :: "(fstate \<Rightarrow> 'a) \<Rightarrow> 'a cm" where
  "askF f = askC (\<lambda>c. f (cFn c))"

definition updF :: "(fstate \<Rightarrow> fstate) \<Rightarrow> unit cm" where
  "updF f = updC (cFn_update f)"

definition whenC :: "bool \<Rightarrow> unit cm \<Rightarrow> unit cm" where
  "whenC b m = (if b then m else returnC ())"

fun forEachC :: "('a \<Rightarrow> unit cm) \<Rightarrow> 'a list \<Rightarrow> unit cm" where
  "forEachC f [] = returnC ()"
| "forEachC f (x # xs) = thenC (f x) (forEachC f xs)"

definition seqC :: "unit cm list \<Rightarrow> unit cm" where
  "seqC ms = forEachC (\<lambda>m. m) ms"

text \<open>For evaluation: a step runs only when it is given the state.\<close>

lemma steps_code [code]:
  "returnC a c = COk a c" "failC e c = CErr e"
  "bindC m f c = (case m c of COk a c' \<Rightarrow> f a c' | CErr e \<Rightarrow> CErr e)"
  "thenC m k c = (case m c of COk a c' \<Rightarrow> k c' | CErr e \<Rightarrow> CErr e)"
  "askC g c = COk (g c) c" "updC h c = COk () (h c)"
  "askF g' c = COk (g' (cFn c)) c" "updF h' c = COk () (cFn_update h' c)"
  by (simp_all add: returnC_def failC_def bindC_def thenC_def askC_def updC_def askF_def updF_def)

subsection \<open>Registers\<close>

definition growMax :: "fstate \<Rightarrow> fstate" where
  "growMax f = (if fMaxReg f < fNextReg f then f\<lparr>fMaxReg := fNextReg f\<rparr> else f)"

definition allocRegs :: "int \<Rightarrow> int cm" where
  "allocRegs n =
     bindC (askF fNextReg) (\<lambda>base. thenC (updF (\<lambda>f. growMax (f\<lparr>fNextReg := fNextReg f + n\<rparr>))) (returnC base))"

definition allocReg :: "int cm" where
  "allocReg =
     bindC (askF fNextReg) (\<lambda>r. thenC (updF (\<lambda>f. growMax (f\<lparr>fNextReg := fNextReg f + 1\<rparr>))) (returnC r))"

definition freeRegs :: "int \<Rightarrow> unit cm" where
  "freeRegs n = updF (fNextReg_update (\<lambda>r. r - n))"

definition freeReg :: "unit cm" where
  "freeReg = freeRegs 1"

text \<open>\<open>c.nextReg = r\<close>, and the same with the maximum raised.\<close>

definition setNextReg :: "int \<Rightarrow> unit cm" where
  "setNextReg r = updF (fNextReg_update (\<lambda>_. r))"

definition raiseNextReg :: "int \<Rightarrow> unit cm" where
  "raiseNextReg r = updF (\<lambda>f. growMax (f\<lparr>fNextReg := r\<rparr>))"

subsection \<open>Emitting code\<close>

definition emit :: "32 word \<Rightarrow> nat \<Rightarrow> nat cm" where
  "emit inst line =
     bindC (askF (\<lambda>f. length (fCode f))) (\<lambda>pos.
     thenC (updF (\<lambda>f. f\<lparr>fCode := fCode f @ [inst], fLineInfo := fLineInfo f @ [line],
                       fUsesVararg := (fUsesVararg f \<or> DecodeOp inst = OP_VARARG)\<rparr>))
       (returnC pos))"

definition emitABC :: "Opcode \<Rightarrow> int \<Rightarrow> int \<Rightarrow> int \<Rightarrow> nat \<Rightarrow> unit cm" where
  "emitABC op a b cc line = bindC (emit (EncodeABC op a b cc) line) (\<lambda>_. returnC ())"

definition emitABx :: "Opcode \<Rightarrow> int \<Rightarrow> int \<Rightarrow> nat \<Rightarrow> unit cm" where
  "emitABx op a bx line = bindC (emit (EncodeABx op a bx) line) (\<lambda>_. returnC ())"

definition emitAsBx :: "Opcode \<Rightarrow> int \<Rightarrow> int \<Rightarrow> nat \<Rightarrow> nat cm" where
  "emitAsBx op a sbx line = emit (EncodeAsBx op a sbx) line"

definition emitInt :: "int \<Rightarrow> int \<Rightarrow> nat \<Rightarrow> unit cm" where
  "emitInt r i line = bindC (emitAsBx OP_LOADINT r i line) (\<lambda>_. returnC ())"

definition emitJump :: "nat \<Rightarrow> nat cm" where
  "emitJump line = emit (EncodesBx OP_JMP 0) line"

definition emitReturn :: "int \<Rightarrow> int \<Rightarrow> unit cm" where
  "emitReturn a b = emitABC OP_RETURN a b 0 0"

definition disableJIT :: "unit cm" where
  "disableJIT = updF (fJITDisabled_update (\<lambda>_. True))"

definition emitSpreadOp :: "Opcode \<Rightarrow> int \<Rightarrow> int \<Rightarrow> int \<Rightarrow> nat \<Rightarrow> unit cm" where
  "emitSpreadOp op a b cc line = thenC disableJIT (emitABC op a b cc line)"

definition currentPC :: "nat cm" where
  "currentPC = askF (\<lambda>f. length (fCode f))"

definition patchCode :: "nat \<Rightarrow> 32 word \<Rightarrow> unit cm" where
  "patchCode pos inst = updF (\<lambda>f. f\<lparr>fCode := (fCode f)[pos := inst]\<rparr>)"

definition patchJumpTo :: "nat \<Rightarrow> nat \<Rightarrow> unit cm" where
  "patchJumpTo jmpPos target = patchCode jmpPos (EncodesBx OP_JMP (int target - int jmpPos - 1))"

definition patchJump :: "nat \<Rightarrow> unit cm" where
  "patchJump jmpPos = bindC currentPC (patchJumpTo jmpPos)"

subsection \<open>Constants\<close>

definition noMemory :: memory where
  "noMemory = \<lparr>mStr = (\<lambda>_. []), mFrame = (\<lambda>_. None)\<rparr>"

fun constEqual :: "Const \<Rightarrow> Const \<Rightarrow> bool" where
  "constEqual (KStr s) (KStr t) = (s = t)"
| "constEqual (KNum v) (KNum w) = (Equal noMemory v w \<and> Type noMemory v = Type noMemory w)"
| "constEqual k l = False"

fun constIndex :: "Const \<Rightarrow> Const list \<Rightarrow> nat option" where
  "constIndex v [] = None"
| "constIndex v (k # ks) = (if constEqual k v then Some 0 else map_option Suc (constIndex v ks))"

definition addConst :: "Const \<Rightarrow> int cm" where
  "addConst v =
     bindC (askF fConstants) (\<lambda>ks. case constIndex v ks of
       Some i \<Rightarrow> returnC (int i)
     | None \<Rightarrow> thenC (updF (fConstants_update (\<lambda>ks. ks @ [v]))) (returnC (int (length ks))))"

definition stringConst :: "bytes \<Rightarrow> int cm" where
  "stringConst s = addConst (KStr s)"

definition intConst :: "int \<Rightarrow> int cm" where
  "intConst i = addConst (KNum (IntValue (word_of_int i)))"

definition floatConst :: "f64 \<Rightarrow> int cm" where
  "floatConst f = addConst (KNum (FloatValue f))"

subsection \<open>Local variables and upvalues\<close>

definition addLocalWithReadOnly :: "bytes \<Rightarrow> bool \<Rightarrow> int cm" where
  "addLocalWithReadOnly name readOnly =
     bindC allocReg (\<lambda>reg.
     thenC (updF (\<lambda>f. f\<lparr>fLocals := \<lparr>lvName = name, lvReg = reg, lvDepth = fDepth f,
                                     lvCaptured = False, lvReadOnly = readOnly\<rparr> # fLocals f,
                        fReadOnlyLocals := (if readOnly then (fReadOnlyLocals f)(reg := Some name) else fReadOnlyLocals f)\<rparr>))
       (returnC reg))"

definition addLocal :: "bytes \<Rightarrow> int cm" where
  "addLocal name = addLocalWithReadOnly name False"

fun findLocal :: "bytes \<Rightarrow> localVar list \<Rightarrow> localVar option" where
  "findLocal name [] = None"
| "findLocal name (l # ls) = (if lvName l = name then Some l else findLocal name ls)"

text \<open>The register of a local, or -1, and whether it is read only.\<close>

definition resolveLocalInfo :: "bytes \<Rightarrow> fstate \<Rightarrow> int \<times> bool" where
  "resolveLocalInfo name f =
     (case findLocal name (fLocals f) of Some l \<Rightarrow> (lvReg l, lvReadOnly l) | None \<Rightarrow> (-1, False))"

definition resolveLocal :: "bytes \<Rightarrow> fstate \<Rightarrow> int" where
  "resolveLocal name f = fst (resolveLocalInfo name f)"

fun upvalIndex :: "bool \<Rightarrow> int \<Rightarrow> upvalInfo list \<Rightarrow> nat option" where
  "upvalIndex inStack index [] = None"
| "upvalIndex inStack index (u # us) =
     (if uiInStack u = inStack \<and> uiIndex u = index then Some 0 else map_option Suc (upvalIndex inStack index us))"

definition addUpvalue :: "bytes \<Rightarrow> bool \<Rightarrow> int \<Rightarrow> bool \<Rightarrow> fstate \<Rightarrow> int \<times> fstate" where
  "addUpvalue name inStack index readOnly f =
     (case upvalIndex inStack index (fUpvals f) of
        Some i \<Rightarrow> (int i, f)
      | None \<Rightarrow> (int (length (fUpvals f)),
                 f\<lparr>fUpvals := fUpvals f @ [\<lparr>uiName = name, uiInStack = inStack, uiIndex = index, uiReadOnly = readOnly\<rparr>]\<rparr>))"

fun markCaptured :: "bytes \<Rightarrow> localVar list \<Rightarrow> localVar list" where
  "markCaptured name [] = []"
| "markCaptured name (l # ls) = (if lvName l = name then l\<lparr>lvCaptured := True\<rparr> # ls else l # markCaptured name ls)"

text \<open>The function, its parents, and what the lookup changes in them.\<close>

fun resolveUpvalueIn :: "bytes \<Rightarrow> fstate \<Rightarrow> fstate list \<Rightarrow> (int \<times> bool) \<times> fstate \<times> fstate list" where
  "resolveUpvalueIn name f [] = ((-1, False), f, [])"
| "resolveUpvalueIn name f (p # ps) =
     (case findLocal name (fLocals p) of
        Some l \<Rightarrow>
          (let (idx, f') = addUpvalue name True (lvReg l) (lvReadOnly l) f
           in ((idx, lvReadOnly l), f', p\<lparr>fLocals := markCaptured name (fLocals p)\<rparr> # ps))
      | None \<Rightarrow>
          (case resolveUpvalueIn name p ps of ((parentUpIdx, readOnly), p', ps') \<Rightarrow>
             if 0 \<le> parentUpIdx then
               (let (idx, f') = addUpvalue name False parentUpIdx readOnly f in ((idx, readOnly), f', p' # ps'))
             else ((-1, False), f, p' # ps')))"

definition resolveUpvalueInfo :: "bytes \<Rightarrow> (int \<times> bool) cm" where
  "resolveUpvalueInfo name c =
     (case resolveUpvalueIn name (cFn c) (cParents c) of
       (info, f, ps) \<Rightarrow> COk info (c\<lparr>cFn := f, cParents := ps\<rparr>))"

definition resolveUpvalue :: "bytes \<Rightarrow> int cm" where
  "resolveUpvalue name = bindC (resolveUpvalueInfo name) (\<lambda>info. returnC (fst info))"

subsection \<open>Scopes\<close>

definition enterScope :: "unit cm" where
  "enterScope = updF (\<lambda>f. f\<lparr>fDepth := fDepth f + 1, fArityScopes := Map.empty # fArityScopes f,
                             fResultScopes := Map.empty # fResultScopes f\<rparr>)"

text \<open>Undo what a scope recorded: a name it saw for the first time goes, the others return.\<close>

definition restoreScope :: "(bytes \<Rightarrow> 'a option option) \<Rightarrow> (bytes \<Rightarrow> 'a option) \<Rightarrow> (bytes \<Rightarrow> 'a option)" where
  "restoreScope scope known = (\<lambda>name. case scope name of Some prev \<Rightarrow> prev | None \<Rightarrow> known name)"

definition scopeLocals :: "fstate \<Rightarrow> localVar list" where
  "scopeLocals f = takeWhile (\<lambda>l. fDepth f \<le> lvDepth l) (fLocals f)"

definition dropScopeLocals :: "unit cm" where
  "dropScopeLocals =
     bindC (askF scopeLocals) (\<lambda>ls.
     thenC (updF (fLocals_update (drop (length ls)))) (whenC (ls \<noteq> []) (freeRegs (int (length ls)))))"

definition popScopes :: "unit cm" where
  "popScopes =
     thenC (updC (\<lambda>c. case fArityScopes (cFn c) of
         [] \<Rightarrow> c
       | s # ss \<Rightarrow> c\<lparr>cFuncArities := restoreScope s (cFuncArities c), cFn := (cFn c)\<lparr>fArityScopes := ss\<rparr>\<rparr>))
    (thenC (updC (\<lambda>c. case fResultScopes (cFn c) of
         [] \<Rightarrow> c
       | s # ss \<Rightarrow> c\<lparr>cFuncResults := restoreScope s (cFuncResults c), cFn := (cFn c)\<lparr>fResultScopes := ss\<rparr>\<rparr>))
       (updF (fDepth_update (\<lambda>d. d - 1))))"

definition leaveScope :: "unit cm" where
  "leaveScope =
     bindC (askF scopeLocals) (\<lambda>ls.
     bindC (askF fNextReg) (\<lambda>nextReg.
     let captured = filter lvCaptured ls in
     thenC (whenC (captured \<noteq> []) (emitABC OP_CLOSE (foldl min nextReg (map lvReg captured)) 0 0 0))
    (thenC dropScopeLocals popScopes)))"

subsection \<open>Globals and what is known of functions\<close>

definition isMainTopLevel :: "compiler \<Rightarrow> bool" where
  "isMainTopLevel c \<longleftrightarrow> cParents c = [] \<and> fDepth (cFn c) = 0"

definition declareGlobal :: "bytes \<Rightarrow> unit cm" where
  "declareGlobal name = updC (cDeclaredGlobals_update (insert name))"

definition isDeclaredGlobal :: "bytes \<Rightarrow> compiler \<Rightarrow> bool" where
  "isDeclaredGlobal name c \<longleftrightarrow> name \<in> cDeclaredGlobals c"

text \<open>The scope remembers the value a name had when the scope first changes it.\<close>

definition recordIn :: "bytes \<Rightarrow> 'a option \<Rightarrow> (bytes \<Rightarrow> 'a option option) list \<Rightarrow> (bytes \<Rightarrow> 'a option option) list" where
  "recordIn name prev scopes =
     (case scopes of [] \<Rightarrow> []
      | s # ss \<Rightarrow> (case s name of Some x \<Rightarrow> s # ss | None \<Rightarrow> s(name := Some prev) # ss))"

definition setFunctionArity :: "bytes \<Rightarrow> functionArity \<Rightarrow> unit cm" where
  "setFunctionArity name arity = updC (\<lambda>c. if name = [] then c else
     c\<lparr>cFn := (cFn c)\<lparr>fArityScopes := recordIn name (cFuncArities c name) (fArityScopes (cFn c))\<rparr>,
       cFuncArities := (cFuncArities c)(name := Some arity)\<rparr>)"

definition setFunctionResult :: "bytes \<Rightarrow> functionResult \<Rightarrow> unit cm" where
  "setFunctionResult name result = updC (\<lambda>c. if name = [] then c else
     c\<lparr>cFn := (cFn c)\<lparr>fResultScopes := recordIn name (cFuncResults c name) (fResultScopes (cFn c))\<rparr>,
       cFuncResults := (cFuncResults c)(name := Some result)\<rparr>)"

subsection \<open>Loops\<close>

definition pushLoop :: "unit cm" where
  "pushLoop = updF (\<lambda>f. f\<lparr>fLoops := \<lparr>liBreakJumps = [], liContinueJumps = [], liScopeDepth = fDepth f\<rparr> # fLoops f\<rparr>)"

text \<open>Only called with a loop on the stack.\<close>

definition popLoop :: "loopInfo cm" where
  "popLoop = bindC (askF fLoops) (\<lambda>loops. case loops of
     [] \<Rightarrow> failC ENilNode
   | l # ls \<Rightarrow> thenC (updF (fLoops_update (\<lambda>_. ls))) (returnC l))"

definition currentLoop :: "fstate \<Rightarrow> loopInfo option" where
  "currentLoop f = (case fLoops f of [] \<Rightarrow> None | l # ls \<Rightarrow> Some l)"

definition updateLoop :: "(loopInfo \<Rightarrow> loopInfo) \<Rightarrow> unit cm" where
  "updateLoop g = updF (fLoops_update (\<lambda>loops. case loops of [] \<Rightarrow> [] | l # ls \<Rightarrow> g l # ls))"

definition addBreakJump :: "nat \<Rightarrow> unit cm" where
  "addBreakJump pos = updateLoop (liBreakJumps_update (\<lambda>ps. ps @ [pos]))"

definition addContinueJump :: "nat \<Rightarrow> unit cm" where
  "addContinueJump pos = updateLoop (liContinueJumps_update (\<lambda>ps. ps @ [pos]))"

definition patchBreaks :: "loopInfo \<Rightarrow> unit cm" where
  "patchBreaks info = forEachC patchJump (liBreakJumps info)"

definition patchContinues :: "loopInfo \<Rightarrow> nat \<Rightarrow> unit cm" where
  "patchContinues info target = forEachC (\<lambda>pos. patchJumpTo pos target) (liContinueJumps info)"

definition emitCloseCapturedAboveDepth :: "int \<Rightarrow> unit cm" where
  "emitCloseCapturedAboveDepth depth =
     bindC (askF (\<lambda>f. filter lvCaptured (takeWhile (\<lambda>l. depth < lvDepth l) (fLocals f)))) (\<lambda>ls.
       case ls of [] \<Rightarrow> returnC () | l # _ \<Rightarrow> emitABC OP_CLOSE (lvReg l) 0 0 0)"

definition emitCloseForJump :: "unit cm" where
  "emitCloseForJump =
     bindC (askF currentLoop) (\<lambda>loop. case loop of
       None \<Rightarrow> returnC ()
     | Some l \<Rightarrow> emitCloseCapturedAboveDepth (liScopeDepth l))"

subsection \<open>Creating and finishing a compiler\<close>

definition predeclaredGlobalNames :: "bytes list" where
  "predeclaredGlobalNames = [
     ''arg'', ''assert'', ''cap'', ''close'', ''collectgarbage'', ''coroutine'', ''dofile'',
     ''error'', ''getmetatable'', ''ipairs'', ''len'', ''load'', ''loadfile'', ''loadstring'',
     ''next'', ''package'', ''pairs'', ''pcall'', ''print'', ''rawequal'', ''rawget'', ''rawlen'',
     ''rawset'', ''require'', ''select'', ''setmetatable'', ''spread'', ''tonumber'',
     ''tostring'', ''type'', ''unpack'', ''xpcall'',
     ''array'', ''base64'', ''binary'', ''bit32'', ''bytes'', ''channel'', ''cmd'',
     ''context'', ''crypto'', ''csv'', ''debug'', ''dialect'', ''encoding'', ''eval'', ''fs'',
     ''http'', ''io'', ''json'', ''llm'', ''math'', ''matrix'', ''os'', ''path'', ''process'',
     ''rand'', ''regexp'', ''runtime'', ''serve'', ''soa'', ''string'', ''sync'',
     ''table'', ''testkit'', ''time'', ''utf8'']"

definition newFunction :: "bytes \<Rightarrow> nat \<Rightarrow> bool \<Rightarrow> fstate" where
  "newFunction name line isVarArg =
     \<lparr>fName = name, fLineDefined = line, fNumParams = 0, fProtoIsVarArg = False, fUsesVararg = False, fJITDisabled = False,
      fCode = [], fLineInfo = [], fConstants = [], fTableCtors2 = [], fTableCtorsN = [], fProtos = [],
      fLocals = [], fUpvals = [], fReadOnlyLocals = Map.empty, fNextReg = 0, fMaxReg = 0, fDepth = 0,
      fLoops = [], fIsVarArg = isVarArg, fLabels = Map.empty, fLabelDepths = Map.empty, fGotos = [],
      fArityScopes = [], fResultScopes = []\<rparr>"

definition newCompiler :: "bytes \<Rightarrow> nat \<Rightarrow> bool \<Rightarrow> compiler" where
  "newCompiler name line isVarArg =
     \<lparr>cFn = newFunction name line isVarArg, cParents = [], cFuncArities = Map.empty,
      cFuncResults = Map.empty, cDeclaredGlobals = set predeclaredGlobalNames\<rparr>"

text \<open>Start a child, and go back to its parent with the child's final state.\<close>

definition pushFunction :: "bytes \<Rightarrow> nat \<Rightarrow> bool \<Rightarrow> unit cm" where
  "pushFunction name line isVarArg =
     updC (\<lambda>c. c\<lparr>cFn := newFunction name line isVarArg, cParents := cFn c # cParents c\<rparr>)"

definition popFunction :: "fstate cm" where
  "popFunction c =
     (case cParents c of
        [] \<Rightarrow> CErr ENilNode
      | p # ps \<Rightarrow> COk (cFn c) (c\<lparr>cFn := p, cParents := ps\<rparr>))"

definition protoHasNoCalls :: "32 word list \<Rightarrow> bool" where
  "protoHasNoCalls code = list_all (\<lambda>inst. DecodeOp inst \<notin>
     {OP_CALL, OP_CALLTABLE, OP_YIELD, OP_RESUME, OP_TFORCALL, OP_GO, OP_DEFER}) code"

definition protoHasNoGlobalOps :: "32 word list \<Rightarrow> bool" where
  "protoHasNoGlobalOps code = list_all (\<lambda>inst. DecodeOp inst \<notin> {OP_GETGLOBAL, OP_SETGLOBAL, OP_SETGLOBALRO}) code"

definition finish :: "bytes \<Rightarrow> nat \<Rightarrow> fstate \<Rightarrow> FuncProto" where
  "finish name numParams f =
     FuncProto name (fLineDefined f) numParams (fIsVarArg f) (fUsesVararg f) (fMaxReg f + 2) (fCode f)
       (fConstants f) (fTableCtors2 f) (fTableCtorsN f) (fUpvals f) (fReadOnlyLocals f) (fProtos f)
       (fLineInfo f) (protoHasNoCalls (fCode f)) (protoHasNoGlobalOps (fCode f)) (fJITDisabled f)"

definition patchGotos :: "unit cm" where
  "patchGotos =
     bindC (askF fGotos) (\<lambda>gotos. forEachC (\<lambda>g.
       bindC (askF (\<lambda>f. fLabels f (cgName g))) (\<lambda>label. case label of
         None \<Rightarrow> failC (EGotoTarget (cgLine g) (cgName g))
       | Some l \<Rightarrow> patchJumpTo (cgPc g) (clPc l))) gotos)"

end
