(* ===== verification/Compiler_Analysis.thy ===== *)
theory Compiler_Analysis
  imports Compiler_State Inspect
begin

section \<open>What the compiler asks of the tree (internal/vm, internal/runtime/freevars.go)\<close>

text \<open>
  The questions the compiler puts to a syntax tree before it emits code: the shapes of calls and
  operands, which functions have one result, which statements always return, which names a nested
  function refers to, how deep labels lie. They change nothing, so they are plain functions of the
  tree. A map of names is a set or a function; a list built by appending is a list.
\<close>

subsection \<open>Shapes of expressions\<close>

fun unwrapParenExpr :: "Expr \<Rightarrow> Expr" where
  "unwrapParenExpr (ParenExpr p e) = unwrapParenExpr e"
| "unwrapParenExpr e = e"

definition isStringLiteral :: "Expr \<Rightarrow> bytes \<Rightarrow> bool" where
  "isStringLiteral e value = (case unwrapParenExpr e of StringLit p v \<Rightarrow> v = value | _ \<Rightarrow> False)"

definition typeNumberCallArg :: "Expr \<Rightarrow> Expr option" where
  "typeNumberCallArg e =
     (case unwrapParenExpr e of
        CallExpr p f [a] \<Rightarrow> (case unwrapParenExpr f of IdentExpr q n \<Rightarrow> if n = ''type'' then Some a else None | _ \<Rightarrow> None)
      | _ \<Rightarrow> None)"

definition typeNumberComparisonArg :: "Expr \<Rightarrow> Expr \<Rightarrow> Expr option" where
  "typeNumberComparisonArg left right =
     (case typeNumberCallArg left of
        Some a \<Rightarrow> if isStringLiteral right ''number'' then Some a
                  else (case typeNumberCallArg right of Some b \<Rightarrow> if isStringLiteral left ''number'' then Some b else None | None \<Rightarrow> None)
      | None \<Rightarrow> (case typeNumberCallArg right of Some b \<Rightarrow> if isStringLiteral left ''number'' then Some b else None | None \<Rightarrow> None))"

fun flattenConcat :: "Expr \<Rightarrow> Expr list" where
  "flattenConcat (BinaryExpr p l op r) =
     (if op = ''..'' then flattenConcat l @ flattenConcat r else [BinaryExpr p l op r])"
| "flattenConcat e = [e]"

fun isNilLiteral :: "Expr \<Rightarrow> bool" where
  "isNilLiteral (NilLit p) = True"
| "isNilLiteral e = False"

fun exprIsIndexTarget :: "Expr \<Rightarrow> bool" where
  "exprIsIndexTarget (IndexExpr p t i) = True"
| "exprIsIndexTarget e = False"

definition staticStringFieldName :: "Expr \<Rightarrow> bytes option" where
  "staticStringFieldName key = (case key of StringLit p v \<Rightarrow> Some v | IdentExpr p n \<Rightarrow> Some n | _ \<Rightarrow> None)"

definition globalSpreadExpr :: "Expr \<Rightarrow> Expr option" where
  "globalSpreadExpr call =
     (case call of CallExpr p (IdentExpr q n) [a] \<Rightarrow> if n = ''spread'' then Some a else None | _ \<Rightarrow> None)"

definition isTableSpreadCall :: "Expr \<Rightarrow> bool" where
  "isTableSpreadCall call =
     (case call of CallExpr p (FieldExpr q (IdentExpr r n) f) a \<Rightarrow> n = ''table'' \<and> f = ''spread'' | _ \<Rightarrow> False)"

definition explicitSpreadExpr :: "Expr \<Rightarrow> Expr option" where
  "explicitSpreadExpr e =
     (case globalSpreadExpr e of Some a \<Rightarrow> Some a | None \<Rightarrow> if isTableSpreadCall e then Some e else None)"

definition hasExplicitSpread :: "Expr list \<Rightarrow> bool" where
  "hasExplicitSpread exprs = list_ex (\<lambda>e. explicitSpreadExpr e \<noteq> None) exprs"

definition hasExplicitSpreadTableField :: "TableField list \<Rightarrow> bool" where
  "hasExplicitSpreadTableField fs =
     list_ex (\<lambda>f. case f of TableField None v \<Rightarrow> explicitSpreadExpr v \<noteq> None | _ \<Rightarrow> False) fs"

definition staticCoroutineBuiltinOp :: "Expr \<Rightarrow> Opcode option" where
  "staticCoroutineBuiltinOp call =
     (case call of
        CallExpr p (FieldExpr q (IdentExpr r n) f) a \<Rightarrow>
          if n \<noteq> ''coroutine'' then None
          else if f = ''yield'' then Some OP_YIELD
          else if f = ''resume'' then Some OP_RESUME
          else None
      | _ \<Rightarrow> None)"

definition denseLiteralArrayConstructor :: "bytes \<Rightarrow> bytes option" where
  "denseLiteralArrayConstructor dtype =
     (if dtype \<in> {''f64'', ''f32''} then Some ''f64''
      else if dtype \<in> {''i64'', ''i32''} then Some ''i64''
      else if dtype = ''bool'' then Some ''bool''
      else None)"

text \<open>The walks that stop at the first find, over \<open>ast.Inspect\<close>: the state is \<open>found\<close>.\<close>

definition findNode :: "(Node \<Rightarrow> bool) \<Rightarrow> (Node \<Rightarrow> bool) \<Rightarrow> bool \<Rightarrow> Node \<Rightarrow> bool \<times> bool" where
  "findNode prune wanted found n =
     (if found then (False, found) else if prune n then (False, found)
      else if wanted n then (False, True) else (True, found))"

fun isShortCircuit :: "Node \<Rightarrow> bool" where
  "isShortCircuit (ExprNode (BinaryExpr p l op r)) \<longleftrightarrow> op = ''&&'' \<or> op = ''||''"
| "isShortCircuit n \<longleftrightarrow> False"

fun isReturnNode :: "Node \<Rightarrow> bool" where
  "isReturnNode (StmtNode (ReturnStmt p vs)) = True"
| "isReturnNode n = False"

fun isFuncLitNode :: "Node \<Rightarrow> bool" where
  "isFuncLitNode (ExprNode (FuncLitExpr p ps b)) = True"
| "isFuncLitNode n = False"

fun isTableLitNode :: "Node \<Rightarrow> bool" where
  "isTableLitNode (ExprNode (TableLitExpr p fs)) = True"
| "isTableLitNode n = False"

definition exprContainsShortCircuit :: "Expr \<Rightarrow> bool" where
  "exprContainsShortCircuit e = Inspect (ExprNode e) (findNode (\<lambda>_. False) isShortCircuit) False"

definition blockContainsReturn :: "BlockStmt \<Rightarrow> bool" where
  "blockContainsReturn b = Inspect (BlockNode b) (findNode (\<lambda>_. False) isReturnNode) False"

definition exprContainsTableLiteral :: "Expr \<Rightarrow> bool" where
  "exprContainsTableLiteral e = Inspect (ExprNode e) (findNode isFuncLitNode isTableLitNode) False"

subsection \<open>Combinators of the walks\<close>

definition anyOf :: "('a \<Rightarrow> bool) list \<Rightarrow> 'a \<Rightarrow> bool" where
  "anyOf fs x = list_ex (\<lambda>f. f x) fs"

definition ifPresent :: "('a \<Rightarrow> bool) option \<Rightarrow> 'a \<Rightarrow> bool" where
  "ifPresent f x = (case f of None \<Rightarrow> False | Some g \<Rightarrow> g x)"

definition none :: "'a \<Rightarrow> bool" where
  "none x = False"

definition present :: "bool option \<Rightarrow> bool" where
  "present x = (case x of None \<Rightarrow> False | Some b \<Rightarrow> b)"

definition optionList :: "'a list option \<Rightarrow> 'a list" where
  "optionList xs = (case xs of None \<Rightarrow> [] | Some ys \<Rightarrow> ys)"

subsection \<open>Free variables\<close>

record freeVars =
  fvDefined :: "bytes set"
  fvUsed :: "bytes set"

definition skip :: "freeVars \<Rightarrow> freeVars" where
  "skip fv = fv"

definition fvAll :: "(freeVars \<Rightarrow> freeVars) list \<Rightarrow> freeVars \<Rightarrow> freeVars" where
  "fvAll fs = fold (\<lambda>f. f) fs"

definition fvOpt :: "(freeVars \<Rightarrow> freeVars) option \<Rightarrow> freeVars \<Rightarrow> freeVars" where
  "fvOpt f = (case f of None \<Rightarrow> skip | Some g \<Rightarrow> g)"

definition useVar :: "bytes \<Rightarrow> freeVars \<Rightarrow> freeVars" where
  "useVar name fv = fv\<lparr>fvUsed := insert name (fvUsed fv)\<rparr>"

definition defineVars :: "bytes list \<Rightarrow> freeVars \<Rightarrow> freeVars" where
  "defineVars names fv = fv\<lparr>fvDefined := set names \<union> fvDefined fv\<rparr>"

text \<open>The collector of a nested function starts with its parameters; what it leaves free is used here.\<close>

definition useFree :: "bytes list \<Rightarrow> (freeVars \<Rightarrow> freeVars) \<Rightarrow> freeVars \<Rightarrow> freeVars" where
  "useFree params body fv =
     (let inner = body \<lparr>fvDefined = set params, fvUsed = {}\<rparr>
      in fv\<lparr>fvUsed := fvUsed fv \<union> (fvUsed inner - fvDefined inner)\<rparr>)"

primrec fvExpr :: "Expr \<Rightarrow> freeVars \<Rightarrow> freeVars"
  and fvField :: "TableField \<Rightarrow> freeVars \<Rightarrow> freeVars"
  and fvStmt :: "Stmt \<Rightarrow> freeVars \<Rightarrow> freeVars"
  and fvElseIf :: "ElseIfClause \<Rightarrow> freeVars \<Rightarrow> freeVars"
  and fvBlock :: "BlockStmt \<Rightarrow> freeVars \<Rightarrow> freeVars"
where
  "fvExpr (NumberLit p v) = skip"
| "fvExpr (StringLit p v) = skip"
| "fvExpr (InterpolatedStringExpr p ps) = skip"
| "fvExpr (BoolLit p b) = skip"
| "fvExpr (NilLit p) = skip"
| "fvExpr (VarArgExpr p) = skip"
| "fvExpr (IdentExpr p n) = useVar n"
| "fvExpr (TaggedStringExpr p t b f) = skip"
| "fvExpr (TaggedBlockExpr p t c b r e h f) = skip"
| "fvExpr (BinaryExpr p l op r) = fvAll [fvExpr l, fvExpr r]"
| "fvExpr (UnaryExpr p op e) = fvExpr e"
| "fvExpr (ParenExpr p e) = fvExpr e"
| "fvExpr (IndexExpr p t i) = fvAll [fvExpr t, fvExpr i]"
| "fvExpr (FieldExpr p t f) = fvExpr t"
| "fvExpr (CallExpr p f a) = fvAll (fvExpr f # map fvExpr a)"
| "fvExpr (MethodCallExpr p ob m a) = fvAll (fvExpr ob # map fvExpr a)"
| "fvExpr (FuncLitExpr p ps b) = useFree (map fpName ps) (fvBlock b)"
| "fvExpr (ListLitExpr p vs) = skip"
| "fvExpr (TableLitExpr p fs) = fvAll (map fvField fs)"
| "fvExpr (DenseLitExpr p d n vs) = skip"
| "fvExpr (RecvExpr p c) = skip"
| "fvExpr (MakeChanExpr p sz) = skip"
| "fvField (TableField k v) = fvAll [fvOpt (map_option fvExpr k), fvExpr v]"
| "fvStmt (AssignStmt p ts vs) = fvAll (map fvExpr ts @ map fvExpr vs)"
| "fvStmt (DeclareStmt p ns vs ro) = fvAll (map fvExpr vs @ [defineVars ns])"
| "fvStmt (CompoundAssignStmt p t op v) = fvAll [fvExpr t, fvExpr v]"
| "fvStmt (IncDecStmt p t op) = fvExpr t"
| "fvStmt (CallStmt p c) = fvExpr c"
| "fvStmt (GoStmt p c) = skip"
| "fvStmt (DeferStmt p c) = skip"
| "fvStmt (SendStmt p c v) = skip"
| "fvStmt (SelectStmt p cs d) = skip"
| "fvStmt (IfStmt p c b es e) = fvAll ([fvExpr c, fvBlock b] @ map fvElseIf es @ [fvOpt (map_option fvBlock e)])"
| "fvStmt (ForNumStmt p i c q b) = fvAll [fvStmt i, fvExpr c, fvStmt q, fvBlock b]"
| "fvStmt (ForRangeStmt p k v i b) = fvAll [fvExpr i, defineVars (k # (if v = [] then [] else [v])), fvBlock b]"
| "fvStmt (ForStmt p c b) = fvAll [fvOpt (map_option fvExpr c), fvBlock b]"
| "fvStmt (ReturnStmt p vs) = fvAll (map fvExpr vs)"
| "fvStmt (BreakStmt p) = skip"
| "fvStmt (ContinueStmt p) = skip"
| "fvStmt (LabelStmt p n) = skip"
| "fvStmt (GotoStmt p n) = skip"
| "fvStmt (EvaluateStmt p n b) = skip"
| "fvStmt (FuncDeclStmt p n ps b) = fvAll [defineVars [n], useFree (map fpName ps) (fvBlock b)]"
| "fvStmt (NestedBlock b) = fvBlock b"
| "fvElseIf (ElseIfClause p c b) = fvAll [fvExpr c, fvBlock b]"
| "fvBlock (BlockStmt p ss) = fvAll (map fvStmt ss)"

definition FreeVars :: "BlockStmt \<Rightarrow> bytes list \<Rightarrow> bytes set" where
  "FreeVars b params =
     (let fv = fvBlock b \<lparr>fvDefined = set params, fvUsed = {}\<rparr> in fvUsed fv - fvDefined fv)"

subsection \<open>Names that nested functions capture\<close>

definition functionBodyCapturesAny :: "BlockStmt \<Rightarrow> FuncParam list \<Rightarrow> bytes set \<Rightarrow> bool" where
  "functionBodyCapturesAny body params names \<longleftrightarrow> FreeVars body (map fpName params) \<inter> names \<noteq> {}"

primrec exprCaptures :: "Expr \<Rightarrow> bytes set \<Rightarrow> bool"
  and fieldCaptures :: "TableField \<Rightarrow> bytes set \<Rightarrow> bool"
  and stmtCaptures :: "Stmt \<Rightarrow> bytes set \<Rightarrow> bool"
  and caseCaptures :: "SelectCase \<Rightarrow> bytes set \<Rightarrow> bool"
  and elseIfCaptures :: "ElseIfClause \<Rightarrow> bytes set \<Rightarrow> bool"
  and blockCaptures :: "BlockStmt \<Rightarrow> bytes set \<Rightarrow> bool"
where
  "exprCaptures (NumberLit p v) = none"
| "exprCaptures (StringLit p v) = none"
| "exprCaptures (InterpolatedStringExpr p ps) = none"
| "exprCaptures (BoolLit p b) = none"
| "exprCaptures (NilLit p) = none"
| "exprCaptures (VarArgExpr p) = none"
| "exprCaptures (IdentExpr p n) = none"
| "exprCaptures (TaggedStringExpr p t b f) = none"
| "exprCaptures (TaggedBlockExpr p t c b r e h f) = none"
| "exprCaptures (BinaryExpr p l op r) = anyOf [exprCaptures l, exprCaptures r]"
| "exprCaptures (UnaryExpr p op e) = exprCaptures e"
| "exprCaptures (ParenExpr p e) = exprCaptures e"
| "exprCaptures (IndexExpr p t i) = anyOf [exprCaptures t, exprCaptures i]"
| "exprCaptures (FieldExpr p t f) = exprCaptures t"
| "exprCaptures (CallExpr p f a) = anyOf (exprCaptures f # map exprCaptures a)"
| "exprCaptures (MethodCallExpr p ob m a) = anyOf (exprCaptures ob # map exprCaptures a)"
| "exprCaptures (FuncLitExpr p ps b) = functionBodyCapturesAny b ps"
| "exprCaptures (ListLitExpr p vs) = anyOf (map exprCaptures vs)"
| "exprCaptures (TableLitExpr p fs) = anyOf (map fieldCaptures fs)"
| "exprCaptures (DenseLitExpr p d n vs) = anyOf (map exprCaptures vs)"
| "exprCaptures (RecvExpr p c) = exprCaptures c"
| "exprCaptures (MakeChanExpr p sz) = ifPresent (map_option exprCaptures sz)"
| "fieldCaptures (TableField k v) = anyOf [ifPresent (map_option exprCaptures k), exprCaptures v]"
| "stmtCaptures (AssignStmt p ts vs) = anyOf (map exprCaptures ts @ map exprCaptures vs)"
| "stmtCaptures (DeclareStmt p ns vs ro) = anyOf (map exprCaptures vs)"
| "stmtCaptures (CompoundAssignStmt p t op v) = anyOf [exprCaptures t, exprCaptures v]"
| "stmtCaptures (IncDecStmt p t op) = exprCaptures t"
| "stmtCaptures (CallStmt p c) = exprCaptures c"
| "stmtCaptures (GoStmt p c) = exprCaptures c"
| "stmtCaptures (DeferStmt p c) = exprCaptures c"
| "stmtCaptures (SendStmt p c v) = anyOf [exprCaptures c, ifPresent (map_option exprCaptures v)]"
| "stmtCaptures (SelectStmt p cs d) = anyOf (map caseCaptures cs @ [ifPresent (map_option blockCaptures d)])"
| "stmtCaptures (IfStmt p c b es e) = anyOf ([exprCaptures c, blockCaptures b] @ map elseIfCaptures es @ [ifPresent (map_option blockCaptures e)])"
| "stmtCaptures (ForNumStmt p i c q b) = anyOf [stmtCaptures i, exprCaptures c, stmtCaptures q, blockCaptures b]"
| "stmtCaptures (ForRangeStmt p k v i b) = anyOf [exprCaptures i, blockCaptures b]"
| "stmtCaptures (ForStmt p c b) = anyOf [ifPresent (map_option exprCaptures c), blockCaptures b]"
| "stmtCaptures (ReturnStmt p vs) = anyOf (map exprCaptures vs)"
| "stmtCaptures (BreakStmt p) = none"
| "stmtCaptures (ContinueStmt p) = none"
| "stmtCaptures (LabelStmt p n) = none"
| "stmtCaptures (GotoStmt p n) = none"
| "stmtCaptures (EvaluateStmt p n b) = none"
| "stmtCaptures (FuncDeclStmt p n ps b) = functionBodyCapturesAny b ps"
| "stmtCaptures (NestedBlock b) = blockCaptures b"
| "caseCaptures (SelectCase p n m c v b) = anyOf [exprCaptures c, ifPresent (map_option exprCaptures v), blockCaptures b]"
| "elseIfCaptures (ElseIfClause p c b) = anyOf [exprCaptures c, blockCaptures b]"
| "blockCaptures (BlockStmt p ss) = anyOf (map stmtCaptures ss)"

definition forRangeBodyCapturesVars :: "bytes \<Rightarrow> bytes \<Rightarrow> BlockStmt \<Rightarrow> bool" where
  "forRangeBodyCapturesVars key value body =
     blockCaptures body (set (key # (if value = [] then [] else [value])))"

subsection \<open>Functions, results and returns\<close>

text \<open>The number of fixed parameters and whether a variadic one follows.\<close>

fun countFixedFunctionParams :: "FuncParam list \<Rightarrow> nat \<times> bool" where
  "countFixedFunctionParams [] = (0, False)"
| "countFixedFunctionParams (p # ps) =
     (if fpIsVarArg p then (0, True) else case countFixedFunctionParams ps of (n, v) \<Rightarrow> (Suc n, v))"

primrec stmtAlwaysReturns :: "Stmt \<Rightarrow> bool"
  and elseIfAlwaysReturns :: "ElseIfClause \<Rightarrow> bool"
  and blockAlwaysReturns :: "BlockStmt \<Rightarrow> bool"
where
  "stmtAlwaysReturns (AssignStmt p ts vs) = False"
| "stmtAlwaysReturns (DeclareStmt p ns vs ro) = False"
| "stmtAlwaysReturns (CompoundAssignStmt p t op v) = False"
| "stmtAlwaysReturns (IncDecStmt p t op) = False"
| "stmtAlwaysReturns (CallStmt p c) = False"
| "stmtAlwaysReturns (GoStmt p c) = False"
| "stmtAlwaysReturns (DeferStmt p c) = False"
| "stmtAlwaysReturns (SendStmt p c v) = False"
| "stmtAlwaysReturns (SelectStmt p cs d) = False"
| "stmtAlwaysReturns (IfStmt p c b es e) = (blockAlwaysReturns b \<and> present (map_option blockAlwaysReturns e) \<and> list_all id (map elseIfAlwaysReturns es))"
| "stmtAlwaysReturns (ForNumStmt p i c q b) = False"
| "stmtAlwaysReturns (ForRangeStmt p k v i b) = False"
| "stmtAlwaysReturns (ForStmt p c b) = False"
| "stmtAlwaysReturns (ReturnStmt p vs) = True"
| "stmtAlwaysReturns (BreakStmt p) = False"
| "stmtAlwaysReturns (ContinueStmt p) = False"
| "stmtAlwaysReturns (LabelStmt p n) = False"
| "stmtAlwaysReturns (GotoStmt p n) = False"
| "stmtAlwaysReturns (EvaluateStmt p n b) = False"
| "stmtAlwaysReturns (FuncDeclStmt p n ps b) = False"
| "stmtAlwaysReturns (NestedBlock b) = blockAlwaysReturns b"
| "elseIfAlwaysReturns (ElseIfClause p c b) = blockAlwaysReturns b"
| "blockAlwaysReturns (BlockStmt p ss) = list_ex id (map stmtAlwaysReturns ss)"

primrec collectReturnStmts :: "Stmt \<Rightarrow> Expr list list"
  and elseIfReturns :: "ElseIfClause \<Rightarrow> Expr list list"
  and caseReturns :: "SelectCase \<Rightarrow> Expr list list"
  and blockReturns :: "BlockStmt \<Rightarrow> Expr list list"
where
  "collectReturnStmts (AssignStmt p ts vs) = []"
| "collectReturnStmts (DeclareStmt p ns vs ro) = []"
| "collectReturnStmts (CompoundAssignStmt p t op v) = []"
| "collectReturnStmts (IncDecStmt p t op) = []"
| "collectReturnStmts (CallStmt p c) = []"
| "collectReturnStmts (GoStmt p c) = []"
| "collectReturnStmts (DeferStmt p c) = []"
| "collectReturnStmts (SendStmt p c v) = []"
| "collectReturnStmts (SelectStmt p cs d) = concat (map caseReturns cs) @ optionList (map_option blockReturns d)"
| "collectReturnStmts (IfStmt p c b es e) = blockReturns b @ concat (map elseIfReturns es) @ optionList (map_option blockReturns e)"
| "collectReturnStmts (ForNumStmt p i c q b) = collectReturnStmts i @ collectReturnStmts q @ blockReturns b"
| "collectReturnStmts (ForRangeStmt p k v i b) = blockReturns b"
| "collectReturnStmts (ForStmt p c b) = blockReturns b"
| "collectReturnStmts (ReturnStmt p vs) = [vs]"
| "collectReturnStmts (BreakStmt p) = []"
| "collectReturnStmts (ContinueStmt p) = []"
| "collectReturnStmts (LabelStmt p n) = []"
| "collectReturnStmts (GotoStmt p n) = []"
| "collectReturnStmts (EvaluateStmt p n b) = []"
| "collectReturnStmts (FuncDeclStmt p n ps b) = []"
| "collectReturnStmts (NestedBlock b) = blockReturns b"
| "elseIfReturns (ElseIfClause p c b) = blockReturns b"
| "caseReturns (SelectCase p n m c v b) = blockReturns b"
| "blockReturns (BlockStmt p ss) = concat (map collectReturnStmts ss)"

definition stringFuncs :: "bytes list" where
  "stringFuncs = [''format'', ''sub'', ''len'', ''upper'', ''lower'', ''reverse'', ''rep'', ''split'', ''trim'',
     ''trimLeft'', ''trimRight'', ''hasPrefix'', ''hasSuffix'', ''contains'', ''count'', ''replaceAll'']"

definition utf8Funcs :: "bytes list" where
  "utf8Funcs = [''char'', ''codes'', ''offset'', ''valid'', ''validate'', ''sanitize'', ''reverse'', ''sub'',
     ''upper'', ''lower'', ''charclass'']"

text \<open>The builtins and library functions that return exactly one value.\<close>

definition builtinSingle :: "bytes \<Rightarrow> bool" where
  "builtinSingle name \<longleftrightarrow> name \<in> {''tonumber'', ''type'', ''len'', ''tostring'', ''error'', ''assert''}"

definition librarySingle :: "bytes \<Rightarrow> bytes \<Rightarrow> nat \<Rightarrow> bool" where
  "librarySingle recv field argc \<longleftrightarrow>
     (if recv = ''bit32'' \<or> recv = ''math'' then True
      else if recv = ''string'' then field \<in> set stringFuncs
      else if recv = ''time'' then field \<in> {''now'', ''since''}
      else if recv = ''utf8'' then field \<in> set utf8Funcs \<or> (field = ''codepoint'' \<and> argc \<le> 2)
      else False)"

definition knownSingle :: "(bytes \<Rightarrow> functionResult option) \<Rightarrow> bytes \<Rightarrow> bool" where
  "knownSingle known name = (case known name of Some r \<Rightarrow> frSingle r | None \<Rightarrow> False)"

definition callKnownSingleResult :: "bytes \<Rightarrow> Expr \<Rightarrow> (bytes \<Rightarrow> functionResult option) \<Rightarrow> bool" where
  "callKnownSingleResult currentName call known =
     (case call of
        CallExpr p f a \<Rightarrow>
          (case f of
             IdentExpr q n \<Rightarrow> (n = currentName \<and> currentName \<noteq> []) \<or> knownSingle known n \<or> builtinSingle n
           | FieldExpr q (IdentExpr r recv) field \<Rightarrow> librarySingle recv field (length a)
           | _ \<Rightarrow> False)
      | _ \<Rightarrow> False)"

definition exprKnownSingleResult :: "bytes \<Rightarrow> Expr \<Rightarrow> (bytes \<Rightarrow> functionResult option) \<Rightarrow> bool" where
  "exprKnownSingleResult currentName e known =
     (case e of
        CallExpr p f a \<Rightarrow> callKnownSingleResult currentName e known
      | MethodCallExpr p ob m a \<Rightarrow> False
      | VarArgExpr p \<Rightarrow> False
      | _ \<Rightarrow> True)"

definition returnStmtKnownSingleResult :: "bytes \<Rightarrow> Expr list \<Rightarrow> (bytes \<Rightarrow> functionResult option) \<Rightarrow> bool" where
  "returnStmtKnownSingleResult currentName vals known =
     (case vals of [e] \<Rightarrow> exprKnownSingleResult currentName e known | _ \<Rightarrow> False)"

definition functionBodyKnownSingleResult :: "bytes \<Rightarrow> BlockStmt \<Rightarrow> (bytes \<Rightarrow> functionResult option) \<Rightarrow> bool" where
  "functionBodyKnownSingleResult name body known \<longleftrightarrow>
     blockAlwaysReturns body \<and> blockReturns body \<noteq> []
     \<and> list_all (\<lambda>vals. returnStmtKnownSingleResult name vals known) (blockReturns body)"

definition builtinFixedArityCall :: "bytes \<Rightarrow> bytes \<Rightarrow> nat \<Rightarrow> bool" where
  "builtinFixedArityCall name field argc \<longleftrightarrow>
     (if name = ''tonumber'' then field = [] \<and> (argc = 1 \<or> argc = 2)
      else if name \<in> {''type'', ''len'', ''pairs'', ''ipairs''} then field = [] \<and> argc = 1
      else if name = ''math'' then
        (if field \<in> {''abs'', ''ceil'', ''floor'', ''sqrt'', ''sin'', ''cos'', ''tan'', ''asin'', ''acos'', ''log'',
                     ''exp'', ''deg'', ''rad'', ''tointeger''} then argc = 1
         else if field \<in> {''atan'', ''fmod''} then argc = 1 \<or> argc = 2
         else if field \<in> {''floorDiv'', ''min'', ''max'', ''random''} then argc = 2
         else False)
      else if name = ''string'' then
        (if field \<in> {''len'', ''upper'', ''lower'', ''reverse''} then argc = 1
         else if field \<in> {''sub'', ''byte''} then argc = 2 \<or> argc = 3
         else if field \<in> {''split'', ''find'', ''match'', ''trim'', ''trimLeft'', ''trimRight'', ''hasPrefix'',
                          ''hasSuffix'', ''contains'', ''count''} then argc = 2 \<or> argc = 3
         else if field = ''replaceAll'' then argc = 3
         else False)
      else False)"

subsection \<open>Labels\<close>

type_synonym labelMap = "bytes \<Rightarrow> int option"

definition keep :: "int \<Rightarrow> labelMap \<Rightarrow> labelMap" where
  "keep depth m = m"

definition deeper :: "int \<Rightarrow> (int \<Rightarrow> labelMap \<Rightarrow> labelMap) \<Rightarrow> int \<Rightarrow> labelMap \<Rightarrow> labelMap" where
  "deeper k f depth m = f (depth + k) m"

definition labelAll :: "(int \<Rightarrow> labelMap \<Rightarrow> labelMap) list \<Rightarrow> int \<Rightarrow> labelMap \<Rightarrow> labelMap" where
  "labelAll fs depth m = fold (\<lambda>f. f depth) fs m"

definition labelOpt :: "(int \<Rightarrow> labelMap \<Rightarrow> labelMap) option \<Rightarrow> int \<Rightarrow> labelMap \<Rightarrow> labelMap" where
  "labelOpt f = (case f of None \<Rightarrow> keep | Some g \<Rightarrow> deeper 1 g)"

primrec labelDepthsStmt :: "Stmt \<Rightarrow> int \<Rightarrow> labelMap \<Rightarrow> labelMap"
  and labelDepthsElseIf :: "ElseIfClause \<Rightarrow> int \<Rightarrow> labelMap \<Rightarrow> labelMap"
  and labelDepthsBlock :: "BlockStmt \<Rightarrow> int \<Rightarrow> labelMap \<Rightarrow> labelMap"
where
  "labelDepthsStmt (AssignStmt p ts vs) = keep"
| "labelDepthsStmt (DeclareStmt p ns vs ro) = keep"
| "labelDepthsStmt (CompoundAssignStmt p t op v) = keep"
| "labelDepthsStmt (IncDecStmt p t op) = keep"
| "labelDepthsStmt (CallStmt p c) = keep"
| "labelDepthsStmt (GoStmt p c) = keep"
| "labelDepthsStmt (DeferStmt p c) = keep"
| "labelDepthsStmt (SendStmt p c v) = keep"
| "labelDepthsStmt (SelectStmt p cs d) = keep"
| "labelDepthsStmt (IfStmt p c b es e) = labelAll ([deeper 1 (labelDepthsBlock b)] @ map labelDepthsElseIf es @ [labelOpt (map_option labelDepthsBlock e)])"
| "labelDepthsStmt (ForNumStmt p i c q b) = deeper 2 (labelDepthsBlock b)"
| "labelDepthsStmt (ForRangeStmt p k v i b) = deeper 2 (labelDepthsBlock b)"
| "labelDepthsStmt (ForStmt p c b) = deeper 1 (labelDepthsBlock b)"
| "labelDepthsStmt (ReturnStmt p vs) = keep"
| "labelDepthsStmt (BreakStmt p) = keep"
| "labelDepthsStmt (ContinueStmt p) = keep"
| "labelDepthsStmt (LabelStmt p n) = (\<lambda>depth m. m(n := Some depth))"
| "labelDepthsStmt (GotoStmt p n) = keep"
| "labelDepthsStmt (EvaluateStmt p n b) = keep"
| "labelDepthsStmt (FuncDeclStmt p n ps b) = keep"
| "labelDepthsStmt (NestedBlock b) = deeper 1 (labelDepthsBlock b)"
| "labelDepthsElseIf (ElseIfClause p c b) = deeper 1 (labelDepthsBlock b)"
| "labelDepthsBlock (BlockStmt p ss) = labelAll (map labelDepthsStmt ss)"

subsection \<open>Loops that return table literals\<close>

primrec stmtHasLoopReturnTable :: "Stmt \<Rightarrow> bool \<Rightarrow> bool"
  and elseIfHasLoopReturnTable :: "ElseIfClause \<Rightarrow> bool \<Rightarrow> bool"
  and caseHasLoopReturnTable :: "SelectCase \<Rightarrow> bool \<Rightarrow> bool"
  and blockHasLoopReturnTable :: "BlockStmt \<Rightarrow> bool \<Rightarrow> bool"
where
  "stmtHasLoopReturnTable (AssignStmt p ts vs) = none"
| "stmtHasLoopReturnTable (DeclareStmt p ns vs ro) = none"
| "stmtHasLoopReturnTable (CompoundAssignStmt p t op v) = none"
| "stmtHasLoopReturnTable (IncDecStmt p t op) = none"
| "stmtHasLoopReturnTable (CallStmt p c) = none"
| "stmtHasLoopReturnTable (GoStmt p c) = none"
| "stmtHasLoopReturnTable (DeferStmt p c) = none"
| "stmtHasLoopReturnTable (SendStmt p c v) = none"
| "stmtHasLoopReturnTable (SelectStmt p cs d) = anyOf (map caseHasLoopReturnTable cs)"
| "stmtHasLoopReturnTable (IfStmt p c b es e) = anyOf ([blockHasLoopReturnTable b] @ map elseIfHasLoopReturnTable es @ [ifPresent (map_option blockHasLoopReturnTable e)])"
| "stmtHasLoopReturnTable (ForNumStmt p i c q b) = (\<lambda>inLoop. blockHasLoopReturnTable b True)"
| "stmtHasLoopReturnTable (ForRangeStmt p k v i b) = (\<lambda>inLoop. blockHasLoopReturnTable b True)"
| "stmtHasLoopReturnTable (ForStmt p c b) = (\<lambda>inLoop. blockHasLoopReturnTable b True)"
| "stmtHasLoopReturnTable (ReturnStmt p vs) = (\<lambda>inLoop. inLoop \<and> list_ex exprContainsTableLiteral vs)"
| "stmtHasLoopReturnTable (BreakStmt p) = none"
| "stmtHasLoopReturnTable (ContinueStmt p) = none"
| "stmtHasLoopReturnTable (LabelStmt p n) = none"
| "stmtHasLoopReturnTable (GotoStmt p n) = none"
| "stmtHasLoopReturnTable (EvaluateStmt p n b) = none"
| "stmtHasLoopReturnTable (FuncDeclStmt p n ps b) = none"
| "stmtHasLoopReturnTable (NestedBlock b) = blockHasLoopReturnTable b"
| "elseIfHasLoopReturnTable (ElseIfClause p c b) = blockHasLoopReturnTable b"
| "caseHasLoopReturnTable (SelectCase p n m c v b) = blockHasLoopReturnTable b"
| "blockHasLoopReturnTable (BlockStmt p ss) = anyOf (map stmtHasLoopReturnTable ss)"

end
