(* ===== verification/Compiler_Expr.thy ===== *)
theory Compiler_Expr
  imports Compiler_Analysis
begin

section \<open>Compiling expressions (internal/vm/compiler_expr.go, compiler_call.go, compiler_table.go)\<close>

text \<open>
  One definition per method of the compiler. The methods call each other on subtrees; the ones a
  subtree is handed to are the four entry points of the record \<open>compilers\<close>, and \<open>compileAt n\<close> in
  \<open>Compiler\<close> closes the recursion with \<open>n\<close> levels. \<open>rCallMulti\<close> is
  \<open>compileCallExprMulti\<close> or \<open>compileMethodCallExprMulti\<close>, by the kind of its argument, and
  \<open>rCondJump\<close> is \<open>compileCondJump\<close>, or \<open>compileCondJumpInv\<close> when its flag is set.
\<close>

record compilers =
  rExprTo :: "Expr \<Rightarrow> int \<Rightarrow> unit cm"
  rCallMulti :: "Expr \<Rightarrow> int \<Rightarrow> int \<Rightarrow> unit cm"
  rCondJump :: "bool \<Rightarrow> Expr \<Rightarrow> nat \<Rightarrow> nat cm"
  rStmt :: "Stmt \<Rightarrow> unit cm"

subsection \<open>Operands\<close>

text \<open>A local is its own register; anything else is compiled into a fresh one.\<close>

definition compileExprReg :: "compilers \<Rightarrow> Expr \<Rightarrow> (int \<times> bool) cm" where
  "compileExprReg R e =
     bindC (askF (\<lambda>f. case e of IdentExpr p n \<Rightarrow> resolveLocal n f | _ \<Rightarrow> -1)) (\<lambda>r.
       if 0 \<le> r then returnC (r, False)
       else bindC allocReg (\<lambda>r. thenC (rExprTo R e r) (returnC (r, True))))"

definition compileNumberLit :: "nat \<Rightarrow> bytes \<Rightarrow> int \<Rightarrow> unit cm" where
  "compileNumberLit line v dest =
     (case goParseInt0 v of
        Some i \<Rightarrow>
          if -32767 \<le> i \<and> i \<le> 32767 then emitInt dest i line
          else bindC (intConst i) (\<lambda>k. emitABx OP_LOADK dest k line)
      | None \<Rightarrow>
          (case goParseFloat v of
             Some x \<Rightarrow> bindC (floatConst x) (\<lambda>k. emitABx OP_LOADK dest k line)
           | None \<Rightarrow> failC (EInvalidNumber line v)))"

definition compileIdentExpr :: "nat \<Rightarrow> bytes \<Rightarrow> int \<Rightarrow> unit cm" where
  "compileIdentExpr line name dest =
     bindC (askF (resolveLocal name)) (\<lambda>reg.
       if 0 \<le> reg then whenC (reg \<noteq> dest) (emitABC OP_MOVE dest reg 0 line)
       else bindC (resolveUpvalue name) (\<lambda>upIdx.
         if 0 \<le> upIdx then emitABC OP_GETUPVAL dest upIdx 0 line
         else bindC (stringConst name) (\<lambda>nameK. emitABx OP_GETGLOBAL dest nameK line)))"

definition freeIf :: "bool \<Rightarrow> unit cm" where
  "freeIf isTemp = whenC isTemp freeReg"

subsection \<open>Operators\<close>

definition binaryOpcode :: "bytes \<Rightarrow> Opcode option" where
  "binaryOpcode op =
     (if op = ''+'' then Some OP_ADD else if op = ''-'' then Some OP_SUB
      else if op = ''*'' then Some OP_MUL else if op = ''/'' then Some OP_DIV
      else if op = ''%'' then Some OP_MOD else if op = ''**'' then Some OP_POW
      else if op = ''&'' then Some OP_BAND else if op = ''|'' then Some OP_BOR
      else if op = ''^'' then Some OP_BXOR else if op = ''&^'' then Some OP_BANDN
      else if op = ''<<'' then Some OP_SHL else if op = ''>>'' then Some OP_SHR
      else None)"

text \<open>Two operands in registers, what is done with them, and the temporaries freed again.\<close>

definition withOperands :: "compilers \<Rightarrow> Expr \<Rightarrow> Expr \<Rightarrow> (int \<Rightarrow> int \<Rightarrow> 'a cm) \<Rightarrow> 'a cm" where
  "withOperands R left right body =
     bindC (compileExprReg R left) (\<lambda>(leftReg, leftIsTemp).
     bindC (compileExprReg R right) (\<lambda>(rightReg, rightIsTemp).
     bindC (body leftReg rightReg) (\<lambda>res.
     thenC (freeIf rightIsTemp) (thenC (freeIf leftIsTemp) (returnC res)))))"

definition compileShortCircuit :: "compilers \<Rightarrow> nat \<Rightarrow> int \<Rightarrow> Expr \<Rightarrow> Expr \<Rightarrow> int \<Rightarrow> unit cm" where
  "compileShortCircuit R line whenTrue left right dest =
     thenC (rExprTo R left dest)
    (thenC (emitABC OP_TESTSET dest dest whenTrue line)
    (bindC (emitJump line) (\<lambda>skipJump.
     thenC (rExprTo R right dest) (patchJump skipJump))))"

definition compileAnd :: "compilers \<Rightarrow> nat \<Rightarrow> Expr \<Rightarrow> Expr \<Rightarrow> int \<Rightarrow> unit cm" where
  "compileAnd R line left right dest = compileShortCircuit R line 0 left right dest"

definition compileOr :: "compilers \<Rightarrow> nat \<Rightarrow> Expr \<Rightarrow> Expr \<Rightarrow> int \<Rightarrow> unit cm" where
  "compileOr R line left right dest = compileShortCircuit R line 1 left right dest"

definition compileIsNumberComparison :: "compilers \<Rightarrow> Expr \<Rightarrow> int \<Rightarrow> bool \<Rightarrow> nat \<Rightarrow> unit cm" where
  "compileIsNumberComparison R arg dest invert line =
     bindC (compileExprReg R arg) (\<lambda>(argReg, argIsTemp). seqC [
       emitABC OP_ISNUMBER dest argReg 0 line,
       whenC invert (emitABC OP_NOT dest dest 0 line),
       freeIf argIsTemp])"

text \<open>A comparison that skips or falls into a jump to the false result.\<close>

definition compileComparison :: "compilers \<Rightarrow> nat \<Rightarrow> Expr \<Rightarrow> Expr \<Rightarrow> int \<Rightarrow> Opcode \<Rightarrow> int \<Rightarrow> bool \<Rightarrow> unit cm" where
  "compileComparison R line left right dest op a swap =
     withOperands R (if swap then right else left) (if swap then left else right) (\<lambda>leftReg rightReg.
       thenC (emitABC op a leftReg rightReg line)
      (bindC (emitJump line) (\<lambda>jmpToFalse.
       thenC (emitABC OP_LOADBOOL dest 1 1 line)
      (bindC currentPC (\<lambda>falsePos.
       thenC (emitABC OP_LOADBOOL dest 0 0 line) (patchJumpTo jmpToFalse falsePos))))))"

definition compileConcat :: "compilers \<Rightarrow> nat \<Rightarrow> Expr \<Rightarrow> int \<Rightarrow> unit cm" where
  "compileConcat R line e dest =
     (let parts = flattenConcat e in
      bindC (askF fNextReg) (\<lambda>base. seqC [
        forEachC (\<lambda>part. bindC allocReg (rExprTo R part)) parts,
        emitABC OP_CONCAT dest base (base + int (length parts) - 1) line,
        freeRegs (int (length parts))]))"

definition compileBinaryExpr :: "compilers \<Rightarrow> nat \<Rightarrow> Expr \<Rightarrow> bytes \<Rightarrow> Expr \<Rightarrow> Expr \<Rightarrow> int \<Rightarrow> unit cm" where
  "compileBinaryExpr R line left op right e dest =
     (if op = ''&&'' then compileAnd R line left right dest
      else if op = ''||'' then compileOr R line left right dest
      else if op = ''=='' then
        (case typeNumberComparisonArg left right of
           Some arg \<Rightarrow> compileIsNumberComparison R arg dest False line
         | None \<Rightarrow> compileComparison R line left right dest OP_EQ 0 False)
      else if op = ''!='' then
        (case typeNumberComparisonArg left right of
           Some arg \<Rightarrow> compileIsNumberComparison R arg dest True line
         | None \<Rightarrow> compileComparison R line left right dest OP_EQ 1 False)
      else if op = ''<'' then compileComparison R line left right dest OP_LT 0 False
      else if op = ''<='' then compileComparison R line left right dest OP_LE 0 False
      else if op = ''>'' then compileComparison R line left right dest OP_LT 0 True
      else if op = ''>='' then compileComparison R line left right dest OP_LE 0 True
      else if op = ''..'' then compileConcat R line e dest
      else case binaryOpcode op of
        None \<Rightarrow> failC (EBinaryOp line op)
      | Some opcode \<Rightarrow> withOperands R left right (\<lambda>leftReg rightReg. emitABC opcode dest leftReg rightReg line))"

definition unaryOpcode :: "bytes \<Rightarrow> Opcode option" where
  "unaryOpcode op =
     (if op = ''-'' then Some OP_UNM else if op = ''^'' then Some OP_BNOT
      else if op = ''!'' then Some OP_NOT else if op = ''#'' then Some OP_LEN else None)"

definition compileUnaryExpr :: "compilers \<Rightarrow> nat \<Rightarrow> bytes \<Rightarrow> Expr \<Rightarrow> int \<Rightarrow> unit cm" where
  "compileUnaryExpr R line op operand dest =
     (case unaryOpcode op of
        None \<Rightarrow> failC (EUnaryOp line op)
      | Some opcode \<Rightarrow> bindC allocReg (\<lambda>operandReg. seqC [
          rExprTo R operand operandReg,
          emitABC opcode dest operandReg 0 line,
          freeReg]))"

subsection \<open>Fields and methods\<close>

text \<open>A constant index that does not fit a byte is loaded into a register.\<close>

definition emitGetField :: "int \<Rightarrow> int \<Rightarrow> int \<Rightarrow> nat \<Rightarrow> unit cm" where
  "emitGetField dest tableReg fieldK line =
     (if fieldK \<le> 0xFF then emitABC OP_GETFIELD dest tableReg fieldK line
      else bindC allocReg (\<lambda>keyReg. seqC [
        emitABx OP_LOADK keyReg fieldK line,
        emitABC OP_GETTABLE dest tableReg keyReg line,
        freeReg]))"

definition emitSetField :: "int \<Rightarrow> int \<Rightarrow> int \<Rightarrow> nat \<Rightarrow> unit cm" where
  "emitSetField tableReg fieldK valueReg line =
     (if fieldK \<le> 0xFF then emitABC OP_SETFIELD tableReg fieldK valueReg line
      else bindC allocReg (\<lambda>keyReg. seqC [
        emitABx OP_LOADK keyReg fieldK line,
        emitABC OP_SETTABLE tableReg keyReg valueReg line,
        freeReg]))"

definition emitMethodLookup :: "int \<Rightarrow> int \<Rightarrow> int \<Rightarrow> nat \<Rightarrow> unit cm" where
  "emitMethodLookup selfReg objReg methodK line =
     (if methodK \<le> 0xFF then seqC [
        emitABC OP_MOVE (selfReg + 1) objReg 0 line,
        emitABC OP_GETFIELD selfReg objReg methodK line]
      else bindC allocReg (\<lambda>methodReg. seqC [
        emitABx OP_LOADK methodReg methodK line,
        emitABC OP_SELF selfReg objReg methodReg line,
        freeReg]))"

definition compileIndexExpr :: "compilers \<Rightarrow> nat \<Rightarrow> Expr \<Rightarrow> Expr \<Rightarrow> int \<Rightarrow> unit cm" where
  "compileIndexExpr R line table index dest =
     bindC (compileExprReg R table) (\<lambda>(tableReg, tableIsTemp).
     bindC allocReg (\<lambda>keyReg. seqC [
       rExprTo R index keyReg,
       emitABC OP_GETTABLE dest tableReg keyReg line,
       freeReg,
       freeIf tableIsTemp]))"

definition compileFieldExpr :: "compilers \<Rightarrow> nat \<Rightarrow> Expr \<Rightarrow> bytes \<Rightarrow> int \<Rightarrow> unit cm" where
  "compileFieldExpr R line table field dest =
     bindC (compileExprReg R table) (\<lambda>(tableReg, tableIsTemp).
     bindC (stringConst field) (\<lambda>fieldK. seqC [
       emitGetField dest tableReg fieldK line,
       freeIf tableIsTemp]))"

subsection \<open>Calls\<close>

text \<open>The C operand of a call: one more than the number of results, 0 for all of them.\<close>

definition resultCount :: "int \<Rightarrow> int" where
  "resultCount nResults = (if nResults = -1 then 0 else nResults + 1)"

text \<open>After a call the results are kept allocated.\<close>

definition keepResults :: "int \<Rightarrow> int \<Rightarrow> unit cm" where
  "keepResults dest nResults =
     whenC (0 < nResults) (bindC (askF fNextReg) (\<lambda>r. whenC (r < dest + nResults) (raiseNextReg (dest + nResults))))"

text \<open>A last argument that passes all of its values on, if it is one.\<close>

definition finalArg :: "compilers \<Rightarrow> nat \<Rightarrow> bool \<Rightarrow> Expr \<Rightarrow> int \<Rightarrow> unit cm option" where
  "finalArg R line jit arg argReg =
     (case arg of
        CallExpr p f a \<Rightarrow> Some (thenC (whenC jit disableJIT) (rCallMulti R arg argReg (-1)))
      | MethodCallExpr p ob m a \<Rightarrow> Some (thenC (whenC jit disableJIT) (rCallMulti R arg argReg (-1)))
      | VarArgExpr p \<Rightarrow> Some (emitABC OP_VARARG argReg 0 0 line)
      | _ \<Rightarrow> None)"

definition isAnyCall :: "Expr \<Rightarrow> bool" where
  "isAnyCall e = (case e of CallExpr p f a \<Rightarrow> True | MethodCallExpr p ob m a \<Rightarrow> True | _ \<Rightarrow> False)"

definition callTargetsFixedArityFunction :: "Expr \<Rightarrow> Expr list \<Rightarrow> compiler \<Rightarrow> bool" where
  "callTargetsFixedArityFunction fn args c =
     (case fn of
        IdentExpr p n \<Rightarrow>
          (if fName (cFn c) \<noteq> [] \<and> \<not> fProtoIsVarArg (cFn c) \<and> n = fName (cFn c) then length args = fNumParams (cFn c)
           else case cFuncArities c n of
             Some arity \<Rightarrow> \<not> faVararg arity \<and> length args = faNumParams arity
           | None \<Rightarrow> builtinFixedArityCall n [] (length args))
      | FieldExpr p (IdentExpr q recv) field \<Rightarrow> builtinFixedArityCall recv field (length args)
      | _ \<Rightarrow> False)"

definition callExprKnownSingleResult :: "Expr \<Rightarrow> compiler \<Rightarrow> bool" where
  "callExprKnownSingleResult call c =
     (case call of
        CallExpr p f a \<Rightarrow>
          fName (cFn c) \<noteq> ''<main>'' \<and>
          (case f of
             IdentExpr q n \<Rightarrow> knownSingle (cFuncResults c) n \<or> builtinSingle n
           | FieldExpr q (IdentExpr r recv) field \<Rightarrow> librarySingle recv field (length a)
           | _ \<Rightarrow> False)
      | _ \<Rightarrow> False)"

text \<open>The arguments of a call; the result says whether the last one passes on all its values.\<close>

fun callArgs :: "compilers \<Rightarrow> Expr \<Rightarrow> Expr list \<Rightarrow> nat \<Rightarrow> Expr list \<Rightarrow> bool cm" where
  "callArgs R fn args line [] = returnC False"
| "callArgs R fn args line (arg # rest) =
     bindC allocReg (\<lambda>argReg.
     bindC (askF fNextReg) (\<lambda>savedArgTop.
     bindC (askC (\<lambda>c. rest = [] \<and> \<not> callTargetsFixedArityFunction fn args c)) (\<lambda>expandFinalArg.
     bindC (askC (callExprKnownSingleResult arg)) (\<lambda>single.
     let final = (if expandFinalArg then finalArg R line True arg argReg else None) in
     if final \<noteq> None \<and> single then
       thenC (seqC [rExprTo R arg argReg, setNextReg savedArgTop]) (callArgs R fn args line rest)
     else case final of
       Some m \<Rightarrow> thenC m (returnC True)
     | None \<Rightarrow>
         thenC
          (if isAnyCall arg then
             bindC (askF fNextReg) (\<lambda>saved.
             bindC allocReg (\<lambda>scratch. seqC [
               rExprTo R arg scratch,
               emitABC OP_MOVE argReg scratch 0 line,
               setNextReg saved]))
           else seqC [rExprTo R arg argReg, setNextReg savedArgTop])
          (callArgs R fn args line rest)))))"

text \<open>The arguments of a coroutine builtin and of a method call.\<close>

fun plainArgs :: "compilers \<Rightarrow> bool \<Rightarrow> nat \<Rightarrow> Expr list \<Rightarrow> bool cm" where
  "plainArgs R jit line [] = returnC False"
| "plainArgs R jit line (arg # rest) =
     bindC allocReg (\<lambda>argReg.
     bindC (askF fNextReg) (\<lambda>savedArgTop.
     case (if rest = [] then finalArg R line jit arg argReg else None) of
       Some m \<Rightarrow> thenC m (returnC True)
     | None \<Rightarrow> thenC (seqC [rExprTo R arg argReg, setNextReg savedArgTop]) (plainArgs R jit line rest)))"

definition compileCoroutineBuiltinCall :: "compilers \<Rightarrow> Expr list \<Rightarrow> int \<Rightarrow> int \<Rightarrow> nat \<Rightarrow> Opcode \<Rightarrow> unit cm" where
  "compileCoroutineBuiltinCall R args dest nResults line op =
     bindC (askF fNextReg) (\<lambda>savedReg.
     thenC (setNextReg dest)
    (bindC allocReg (\<lambda>funcReg.
     bindC (plainArgs R True line args) (\<lambda>lastArgIsMulti. seqC [
       emitABC op funcReg (if lastArgIsMulti then 0 else int (length args) + 1) (resultCount nResults) line,
       setNextReg savedReg]))))"

text \<open>Appending to a table under construction: the index register counts the next slot.\<close>

definition compileAppendSingle :: "int \<Rightarrow> int \<Rightarrow> int \<Rightarrow> nat \<Rightarrow> unit cm" where
  "compileAppendSingle tableReg idxReg valueReg line =
     thenC (emitABC OP_SETTABLE tableReg idxReg valueReg line)
    (bindC allocReg (\<lambda>oneReg. seqC [
       emitInt oneReg 1 line,
       emitABC OP_ADD idxReg idxReg oneReg line,
       freeReg]))"

definition compileAppendSpread :: "compilers \<Rightarrow> int \<Rightarrow> int \<Rightarrow> Expr \<Rightarrow> nat \<Rightarrow> unit cm" where
  "compileAppendSpread R tableReg idxReg e line =
     (case e of
        CallExpr p f a \<Rightarrow>
          bindC (askF fNextReg) (\<lambda>valueReg. seqC [
            rCallMulti R e valueReg (-1),
            emitSpreadOp OP_SETLISTDYN tableReg idxReg valueReg line,
            setNextReg valueReg])
      | MethodCallExpr p ob m a \<Rightarrow>
          bindC (askF fNextReg) (\<lambda>valueReg. seqC [
            rCallMulti R e valueReg (-1),
            emitSpreadOp OP_SETLISTDYN tableReg idxReg valueReg line,
            setNextReg valueReg])
      | VarArgExpr p \<Rightarrow>
          bindC (askF fNextReg) (\<lambda>valueReg. seqC [
            emitABC OP_VARARG valueReg 0 0 line,
            emitSpreadOp OP_SETLISTDYN tableReg idxReg valueReg line])
      | _ \<Rightarrow>
          bindC allocReg (\<lambda>valueReg. seqC [
            rExprTo R e valueReg,
            compileAppendSingle tableReg idxReg valueReg line,
            freeReg]))"

definition compileAppendValue :: "compilers \<Rightarrow> int \<Rightarrow> int \<Rightarrow> Expr \<Rightarrow> nat \<Rightarrow> unit cm" where
  "compileAppendValue R tableReg idxReg e line =
     (case explicitSpreadExpr e of
        Some spreadExpr \<Rightarrow> compileAppendSpread R tableReg idxReg spreadExpr line
      | None \<Rightarrow> bindC allocReg (\<lambda>valueReg. seqC [
          rExprTo R e valueReg,
          compileAppendSingle tableReg idxReg valueReg line,
          freeReg]))"

definition compileExplicitSpreadArgList :: "compilers \<Rightarrow> int \<Rightarrow> int \<Rightarrow> Expr list \<Rightarrow> nat \<Rightarrow> unit cm" where
  "compileExplicitSpreadArgList R tableReg idxReg args line =
     forEachC (\<lambda>arg. compileAppendValue R tableReg idxReg arg line) args"

definition emitArgCount :: "int \<Rightarrow> int \<Rightarrow> nat \<Rightarrow> unit cm" where
  "emitArgCount tableReg idxReg line =
     bindC allocReg (\<lambda>countReg.
     bindC allocReg (\<lambda>oneReg.
     thenC (emitInt oneReg 1 line)
    (thenC (emitABC OP_SUB countReg idxReg oneReg line)
    (bindC (stringConst ''n'') (\<lambda>k. seqC [
       emitSetField tableReg k countReg line,
       freeRegs 2])))))"

definition compileCallExprWithExplicitSpread :: "compilers \<Rightarrow> nat \<Rightarrow> Expr \<Rightarrow> Expr list \<Rightarrow> int \<Rightarrow> int \<Rightarrow> unit cm" where
  "compileCallExprWithExplicitSpread R line fn args dest nResults =
     bindC (askF fNextReg) (\<lambda>savedReg.
     thenC (setNextReg dest)
    (bindC allocReg (\<lambda>funcReg.
     thenC (rExprTo R fn funcReg)
    (bindC allocReg (\<lambda>argsTableReg.
     bindC allocReg (\<lambda>idxReg. seqC [
       emitABC OP_NEWTABLE argsTableReg (int (length args)) 1 line,
       emitInt idxReg 1 line,
       compileExplicitSpreadArgList R argsTableReg idxReg args line,
       emitArgCount argsTableReg idxReg line,
       emitSpreadOp OP_CALLTABLE funcReg argsTableReg (resultCount nResults) line,
       setNextReg savedReg,
       keepResults dest nResults]))))))"

definition compileExplicitSpreadExprMulti :: "compilers \<Rightarrow> Expr \<Rightarrow> int \<Rightarrow> int \<Rightarrow> nat \<Rightarrow> unit cm" where
  "compileExplicitSpreadExprMulti R e dest nResults line =
     thenC disableJIT
      (if isAnyCall e then rCallMulti R e dest nResults
       else case e of
         VarArgExpr p \<Rightarrow>
           if nResults = -1 then emitABC OP_VARARG dest 0 0 line
           else emitABC OP_VARARG dest (nResults + 1) 0 line
       | _ \<Rightarrow>
           if nResults = 0 then
             bindC allocReg (\<lambda>tmp. seqC [rExprTo R e tmp, freeReg])
           else thenC (rExprTo R e dest)
            (if nResults = -1 then emitSpreadOp OP_SETTOP (dest + 1) 0 0 line
             else forEachC (\<lambda>i. emitABC OP_LOADNIL (dest + i) 0 0 line) [1..nResults - 1]))"

definition compileCallExprMulti :: "compilers \<Rightarrow> Expr \<Rightarrow> nat \<Rightarrow> Expr \<Rightarrow> Expr list \<Rightarrow> int \<Rightarrow> int \<Rightarrow> unit cm" where
  "compileCallExprMulti R call line fn args dest nResults =
     (case globalSpreadExpr call of
        Some spreadExpr \<Rightarrow> compileExplicitSpreadExprMulti R spreadExpr dest nResults line
      | None \<Rightarrow>
          if hasExplicitSpread args then compileCallExprWithExplicitSpread R line fn args dest nResults
          else case staticCoroutineBuiltinOp call of
            Some op \<Rightarrow> compileCoroutineBuiltinCall R args dest nResults line op
          | None \<Rightarrow>
              bindC (askF fNextReg) (\<lambda>savedReg.
              thenC (setNextReg dest)
             (bindC allocReg (\<lambda>funcReg.
              thenC (rExprTo R fn funcReg)
             (bindC (callArgs R fn args line args) (\<lambda>lastArgIsMulti. seqC [
                emitABC OP_CALL funcReg (if lastArgIsMulti then 0 else int (length args) + 1) (resultCount nResults) line,
                setNextReg savedReg,
                keepResults dest nResults]))))))"

definition compileMethodCallExprWithExplicitSpread ::
  "compilers \<Rightarrow> nat \<Rightarrow> Expr \<Rightarrow> bytes \<Rightarrow> Expr list \<Rightarrow> int \<Rightarrow> int \<Rightarrow> unit cm" where
  "compileMethodCallExprWithExplicitSpread R line object method args dest nResults =
     bindC (askF fNextReg) (\<lambda>savedReg.
     thenC (setNextReg dest)
    (bindC allocReg (\<lambda>selfReg.
     bindC allocReg (\<lambda>_.
     bindC allocReg (\<lambda>objReg.
     thenC (rExprTo R object objReg)
    (bindC (stringConst method) (\<lambda>methodK.
     thenC (emitMethodLookup selfReg objReg methodK line)
    (thenC freeReg
    (bindC allocReg (\<lambda>argsTableReg.
     bindC allocReg (\<lambda>idxReg. seqC [
       emitABC OP_NEWTABLE argsTableReg (int (length args) + 1) 1 line,
       emitInt idxReg 1 line,
       compileAppendSingle argsTableReg idxReg (selfReg + 1) line,
       compileExplicitSpreadArgList R argsTableReg idxReg args line,
       emitArgCount argsTableReg idxReg line,
       emitSpreadOp OP_CALLTABLE selfReg argsTableReg (resultCount nResults) line,
       setNextReg savedReg,
       keepResults dest nResults])))))))))))"

definition compileMethodCallExprMulti :: "compilers \<Rightarrow> nat \<Rightarrow> Expr \<Rightarrow> bytes \<Rightarrow> Expr list \<Rightarrow> int \<Rightarrow> int \<Rightarrow> unit cm" where
  "compileMethodCallExprMulti R line object method args dest nResults =
     (if hasExplicitSpread args then compileMethodCallExprWithExplicitSpread R line object method args dest nResults
      else
       bindC (askF fNextReg) (\<lambda>savedReg.
       thenC (setNextReg dest)
      (bindC allocReg (\<lambda>selfReg.
       bindC allocReg (\<lambda>_.
       bindC allocReg (\<lambda>objReg.
       thenC (rExprTo R object objReg)
      (bindC (stringConst method) (\<lambda>methodK.
       thenC (emitMethodLookup selfReg objReg methodK line)
      (thenC freeReg
      (bindC (plainArgs R False line args) (\<lambda>lastArgIsMulti. seqC [
         emitABC OP_CALL selfReg (if lastArgIsMulti then 0 else int (length args) + 2) (resultCount nResults) line,
         setNextReg savedReg,
         keepResults dest nResults])))))))))))"

text \<open>A call of either kind.\<close>

definition compileAnyCallMulti :: "compilers \<Rightarrow> Expr \<Rightarrow> int \<Rightarrow> int \<Rightarrow> unit cm" where
  "compileAnyCallMulti R e dest nResults =
     (case e of
        CallExpr p f a \<Rightarrow> compileCallExprMulti R e (pLine p) f a dest nResults
      | MethodCallExpr p ob m a \<Rightarrow> compileMethodCallExprMulti R (pLine p) ob m a dest nResults
      | _ \<Rightarrow> failC ENilNode)"

end
