(* ===== verification/Compiler_Table.thy ===== *)
theory Compiler_Table
  imports Compiler_Expr
begin

section \<open>Table constructors and the expression dispatcher (internal/vm/compiler_table.go, compiler_dense.go)\<close>

subsection \<open>Static constructors\<close>

text \<open>A field with a static string key: the key, its constant and the value.\<close>

record staticStringField =
  sfKey :: bytes
  sfKeyConst :: int
  sfValue :: Expr

definition findCtor :: "('a \<Rightarrow> bool) \<Rightarrow> 'a list \<Rightarrow> nat option" where
  "findCtor p ctors = (case filter (\<lambda>i. p (ctors ! i)) [0..<length ctors] of [] \<Rightarrow> None | i # _ \<Rightarrow> Some i)"

text \<open>The index of a constructor, or -1 when the table of constructors is full.\<close>

definition addTableCtor2 :: "int \<Rightarrow> int \<Rightarrow> bytes \<Rightarrow> bytes \<Rightarrow> int cm" where
  "addTableCtor2 key1Const key2Const key1 key2 =
     bindC (askF fTableCtors2) (\<lambda>ctors.
       case findCtor (\<lambda>t. t2Key1Const t = key1Const \<and> t2Key2Const t = key2Const) ctors of
         Some i \<Rightarrow> returnC (int i)
       | None \<Rightarrow>
           if 256 \<le> length ctors then returnC (-1)
           else thenC (updF (fTableCtors2_update (\<lambda>ts. ts @ [\<lparr>t2Key1Const = key1Const, t2Key2Const = key2Const,
                                                             t2Key1 = key1, t2Key2 = key2\<rparr>])))
                 (returnC (int (length ctors))))"

definition addTableCtorN :: "staticStringField list \<Rightarrow> int cm" where
  "addTableCtorN fs =
     bindC (askF fTableCtorsN) (\<lambda>ctors.
       case findCtor (\<lambda>t. tnKeyConsts t = map sfKeyConst fs) ctors of
         Some i \<Rightarrow> returnC (int i)
       | None \<Rightarrow>
           if 256 \<le> length ctors then returnC (-1)
           else thenC (updF (fTableCtorsN_update (\<lambda>ts. ts @ [\<lparr>tnKeyConsts = map sfKeyConst fs, tnKeys = map sfKey fs\<rparr>])))
                 (returnC (int (length ctors))))"

text \<open>The fields of a two-field constructor, \<open>None\<close> when the literal is not one. The keys met on the
way stay in the constant pool either way.\<close>

fun twoFields :: "staticStringField list \<Rightarrow> TableField list \<Rightarrow> staticStringField list option cm" where
  "twoFields acc [] = returnC (Some acc)"
| "twoFields acc (TableField key value # rest) =
     (case key of
        None \<Rightarrow> returnC None
      | Some k \<Rightarrow>
          if isNilLiteral value then twoFields acc rest
          else case staticStringFieldName k of
            None \<Rightarrow> returnC None
          | Some name \<Rightarrow> bindC (stringConst name) (\<lambda>kc.
              let acc' = acc @ [\<lparr>sfKey = name, sfKeyConst = kc, sfValue = value\<rparr>] in
              if 2 < length acc' then returnC None else twoFields acc' rest))"

definition compileTwoFieldTableLitExpr :: "compilers \<Rightarrow> TableField list \<Rightarrow> int \<Rightarrow> nat \<Rightarrow> bool cm" where
  "compileTwoFieldTableLitExpr R fs dest line =
     bindC (twoFields [] fs) (\<lambda>result.
       case result of
         Some [f1, f2] \<Rightarrow>
           if sfKey f1 = sfKey f2 then returnC False
           else bindC (addTableCtor2 (sfKeyConst f1) (sfKeyConst f2) (sfKey f1) (sfKey f2)) (\<lambda>ctor.
             if ctor < 0 \<or> 255 < ctor then returnC False
             else
               bindC (askF fNextReg) (\<lambda>valueBase.
               bindC allocReg (\<lambda>val1.
               bindC allocReg (\<lambda>val2.
               thenC (seqC [
                 rExprTo R (sfValue f1) val1,
                 rExprTo R (sfValue f2) val2,
                 emitABC OP_NEWOBJECT2 dest ctor valueBase line,
                 setNextReg valueBase]) (returnC True)))))
       | _ \<Rightarrow> returnC False)"

text \<open>Values that only read locals and literals.\<close>

fun smallFixedCtorValueSafe :: "fstate \<Rightarrow> Expr \<Rightarrow> bool" where
  "smallFixedCtorValueSafe f (NumberLit p v) = True"
| "smallFixedCtorValueSafe f (StringLit p v) = True"
| "smallFixedCtorValueSafe f (BoolLit p b) = True"
| "smallFixedCtorValueSafe f (NilLit p) = True"
| "smallFixedCtorValueSafe f (IdentExpr p n) = (0 \<le> resolveLocal n f)"
| "smallFixedCtorValueSafe f (BinaryExpr p l op r) = (smallFixedCtorValueSafe f l \<and> smallFixedCtorValueSafe f r)"
| "smallFixedCtorValueSafe f (UnaryExpr p op e) = smallFixedCtorValueSafe f e"
| "smallFixedCtorValueSafe f (ParenExpr p e) = smallFixedCtorValueSafe f e"
| "smallFixedCtorValueSafe f e = False"

fun smallFixedFields :: "staticStringField list \<Rightarrow> TableField list \<Rightarrow> staticStringField list option cm" where
  "smallFixedFields acc [] = returnC (Some acc)"
| "smallFixedFields acc (TableField key value # rest) =
     (case key of
        None \<Rightarrow> returnC None
      | Some k \<Rightarrow>
          if isNilLiteral value then smallFixedFields acc rest
          else case staticStringFieldName k of
            None \<Rightarrow> returnC None
          | Some name \<Rightarrow>
              if name \<in> set (map sfKey acc) then returnC None
              else bindC (askF (\<lambda>f. smallFixedCtorValueSafe f value)) (\<lambda>safe.
                if \<not> safe then returnC None
                else bindC (stringConst name) (\<lambda>kc.
                  let acc' = acc @ [\<lparr>sfKey = name, sfKeyConst = kc, sfValue = value\<rparr>] in
                  if 8 < length acc' then returnC None else smallFixedFields acc' rest)))"

definition compileSmallFixedTableLitExpr :: "compilers \<Rightarrow> TableField list \<Rightarrow> int \<Rightarrow> nat \<Rightarrow> bool cm" where
  "compileSmallFixedTableLitExpr R fs dest line =
     bindC (smallFixedFields [] fs) (\<lambda>result.
       case result of
         None \<Rightarrow> returnC False
       | Some vals \<Rightarrow>
           if length vals \<le> 2 then returnC False
           else bindC (addTableCtorN vals) (\<lambda>ctor.
             if ctor < 0 \<or> 255 < ctor then returnC False
             else
               bindC (askF fNextReg) (\<lambda>valueBase.
               thenC (seqC [
                 forEachC (\<lambda>_. bindC allocReg (\<lambda>_. returnC ())) vals,
                 forEachC (\<lambda>(i, v). rExprTo R (sfValue v) (valueBase + i)) (zip [0..int (length vals) - 1] vals),
                 emitABC OP_NEWOBJECTN dest ctor valueBase line,
                 setNextReg valueBase]) (returnC True))))"

subsection \<open>General table literals\<close>

text \<open>The array elements waiting in registers, and how many elements came before.\<close>

record arrayBatch =
  abIdx :: int
  abBase :: int
  abCount :: int

definition emptyBatch :: arrayBatch where
  "emptyBatch = \<lparr>abIdx = 0, abBase = -1, abCount = 0\<rparr>"

definition batchNumber :: "arrayBatch \<Rightarrow> int" where
  "batchNumber b = (abIdx b - abCount b) div 50 + 1"

definition clearBatch :: "arrayBatch \<Rightarrow> arrayBatch" where
  "clearBatch b = b\<lparr>abCount := 0, abBase := -1\<rparr>"

definition flushArrayBatch :: "int \<Rightarrow> nat \<Rightarrow> arrayBatch \<Rightarrow> arrayBatch cm" where
  "flushArrayBatch dest line b =
     (if 0 < abCount b then
        thenC (seqC [
          whenC (0 \<le> abBase b \<and> abBase b \<noteq> dest + 1)
            (forEachC (\<lambda>i. emitABC OP_MOVE (dest + 1 + i) (abBase b + i) 0 line) [0..abCount b - 1]),
          emitABC OP_SETLIST dest (abCount b) (batchNumber b) line])
        (returnC (clearBatch b))
      else returnC b)"

text \<open>A positional field. The last one may be a call or the varargs, stored up to the top.\<close>

definition openBatch :: "arrayBatch \<Rightarrow> int \<Rightarrow> arrayBatch" where
  "openBatch b nextReg = (if abBase b = -1 then b\<lparr>abBase := nextReg\<rparr> else b)"

definition countElement :: "arrayBatch \<Rightarrow> arrayBatch" where
  "countElement b = b\<lparr>abIdx := abIdx b + 1, abCount := abCount b + 1\<rparr>"

definition compileArrayField :: "compilers \<Rightarrow> int \<Rightarrow> nat \<Rightarrow> bool \<Rightarrow> Expr \<Rightarrow> arrayBatch \<Rightarrow> arrayBatch cm" where
  "compileArrayField R dest line isLastField value b0 =
     bindC (askF fNextReg) (\<lambda>nextReg.
     let b = openBatch b0 nextReg in
     bindC allocReg (\<lambda>valueReg.
     case (if isLastField then finalArg R line False value valueReg else None) of
       Some m \<Rightarrow>
         let b' = countElement b in
         thenC (seqC [
           m,
           emitABC OP_SETLIST dest 0 (batchNumber b') line,
           setNextReg (abBase b')])
         (returnC (clearBatch b'))
     | None \<Rightarrow>
         thenC (seqC [rExprTo R value valueReg, setNextReg (valueReg + 1)])
        (let b' = countElement b in
         if 50 \<le> abCount b' then
           bindC (flushArrayBatch dest line b') (\<lambda>b''.
           thenC (whenC (0 \<le> abBase b') (setNextReg (abBase b'))) (returnC b''))
         else returnC b')))"

text \<open>A field with a string key, and one with any other key.\<close>

definition compileStringField :: "compilers \<Rightarrow> int \<Rightarrow> nat \<Rightarrow> bytes \<Rightarrow> Expr \<Rightarrow> unit cm" where
  "compileStringField R dest line key value =
     (if isNilLiteral value then returnC ()
      else bindC (stringConst key) (\<lambda>fieldK.
        bindC allocReg (\<lambda>valReg. seqC [
          rExprTo R value valReg,
          emitSetField dest fieldK valReg line,
          freeReg])))"

definition compileKeyedField :: "compilers \<Rightarrow> int \<Rightarrow> nat \<Rightarrow> Expr \<Rightarrow> Expr \<Rightarrow> unit cm" where
  "compileKeyedField R dest line key value =
     (case staticStringFieldName key of
        Some name \<Rightarrow> compileStringField R dest line name value
      | None \<Rightarrow>
          bindC allocReg (\<lambda>keyReg.
          thenC (rExprTo R key keyReg)
         (bindC allocReg (\<lambda>valReg. seqC [
            rExprTo R value valReg,
            emitABC OP_SETTABLE dest keyReg valReg line,
            freeRegs 2]))))"

fun compileTableFields :: "compilers \<Rightarrow> int \<Rightarrow> nat \<Rightarrow> arrayBatch \<Rightarrow> TableField list \<Rightarrow> arrayBatch cm" where
  "compileTableFields R dest line b [] = returnC b"
| "compileTableFields R dest line b (TableField key value # rest) =
     (case key of
        None \<Rightarrow>
          bindC (compileArrayField R dest line (rest = []) value b) (\<lambda>b'. compileTableFields R dest line b' rest)
      | Some k \<Rightarrow>
          bindC (if 0 < abCount b then
                   bindC (flushArrayBatch dest line b) (\<lambda>b'.
                   thenC (freeRegs (abCount b')) (returnC (b'\<lparr>abBase := -1\<rparr>)))
                 else returnC b) (\<lambda>b'.
          thenC (compileKeyedField R dest line k value) (compileTableFields R dest line b' rest)))"

definition arrayFieldCount :: "TableField list \<Rightarrow> int" where
  "arrayFieldCount fs = int (length (filter (\<lambda>f. case f of TableField k v \<Rightarrow> k = None) fs))"

definition hashFieldCount :: "TableField list \<Rightarrow> int" where
  "hashFieldCount fs = int (length (filter (\<lambda>f. case f of TableField k v \<Rightarrow> k \<noteq> None \<and> \<not> isNilLiteral v) fs))"

definition compileGeneralTableLit :: "compilers \<Rightarrow> TableField list \<Rightarrow> int \<Rightarrow> nat \<Rightarrow> unit cm" where
  "compileGeneralTableLit R fs dest line =
     bindC (askF fNextReg) (\<lambda>entryNextReg.
     thenC (emitABC OP_NEWTABLE dest (arrayFieldCount fs) (hashFieldCount fs) line)
    (bindC (compileTableFields R dest line emptyBatch fs) (\<lambda>b.
     bindC (flushArrayBatch dest line b) (\<lambda>b'. seqC [
       whenC (0 < abCount b \<and> 0 \<le> abBase b') (setNextReg (abBase b')),
       setNextReg entryNextReg]))))"

definition compileTableLitExprWithExplicitSpread :: "compilers \<Rightarrow> TableField list \<Rightarrow> int \<Rightarrow> nat \<Rightarrow> unit cm" where
  "compileTableLitExprWithExplicitSpread R fs dest line =
     thenC (emitABC OP_NEWTABLE dest (arrayFieldCount fs) (hashFieldCount fs) line)
    (bindC (askF fNextReg) (\<lambda>tempBase.
     bindC allocReg (\<lambda>idxReg. seqC [
       emitInt idxReg 1 line,
       forEachC (\<lambda>f. case f of TableField key value \<Rightarrow>
         (case key of
            None \<Rightarrow> compileAppendValue R dest idxReg value line
          | Some k \<Rightarrow> compileKeyedField R dest line k value)) fs,
       setNextReg tempBase])))"

definition fieldValue :: "TableField \<Rightarrow> Expr" where
  "fieldValue f = (case f of TableField k v \<Rightarrow> v)"

definition compileTableLitExpr :: "compilers \<Rightarrow> TableField list \<Rightarrow> int \<Rightarrow> nat \<Rightarrow> unit cm" where
  "compileTableLitExpr R fs dest line =
     thenC (whenC (list_ex (\<lambda>f. exprContainsShortCircuit (fieldValue f)) fs) disableJIT)
      (if hasExplicitSpreadTableField fs then compileTableLitExprWithExplicitSpread R fs dest line
       else bindC (compileTwoFieldTableLitExpr R fs dest line) (\<lambda>ok.
         if ok then returnC ()
         else bindC (compileSmallFixedTableLitExpr R fs dest line) (\<lambda>ok.
           if ok then returnC () else compileGeneralTableLit R fs dest line)))"

definition compileListLitExpr :: "compilers \<Rightarrow> Expr list \<Rightarrow> int \<Rightarrow> nat \<Rightarrow> unit cm" where
  "compileListLitExpr R vals dest line = compileTableLitExpr R (map (TableField None) vals) dest line"

definition compileDenseLitExpr :: "compilers \<Rightarrow> nat \<Rightarrow> bytes \<Rightarrow> nat \<Rightarrow> Expr list \<Rightarrow> int \<Rightarrow> unit cm" where
  "compileDenseLitExpr R line dtype len vals dest =
     (if 0 < len \<and> length vals \<noteq> len then failC (EDenseLength line len (length vals))
      else case denseLiteralArrayConstructor dtype of
        None \<Rightarrow> failC (EDenseDType line dtype)
      | Some method \<Rightarrow>
          bindC (askF fNextReg) (\<lambda>savedReg.
          thenC (setNextReg dest)
         (bindC allocReg (\<lambda>funcReg.
          bindC (stringConst ''array'') (\<lambda>k.
          thenC (emitABx OP_GETGLOBAL funcReg k line)
         (bindC (stringConst method) (\<lambda>m. seqC [
            emitGetField funcReg funcReg m line,
            forEachC (\<lambda>v. bindC allocReg (\<lambda>argReg.
              bindC (askF fNextReg) (\<lambda>savedArgTop. seqC [rExprTo R v argReg, setNextReg savedArgTop]))) vals,
            emitABC OP_CALL funcReg (int (length vals) + 1) 2 line,
            setNextReg savedReg,
            bindC (askF fNextReg) (\<lambda>r. whenC (r < dest + 1) (raiseNextReg (dest + 1)))])))))))"

subsection \<open>Channels\<close>

definition compileRecvExpr :: "compilers \<Rightarrow> nat \<Rightarrow> Expr \<Rightarrow> int \<Rightarrow> unit cm" where
  "compileRecvExpr R line channel dest =
     bindC (askF fNextReg) (\<lambda>base.
     bindC allocReg (\<lambda>chReg. seqC [
       rExprTo R channel chReg,
       emitABC OP_RECV dest chReg 0 line,
       setNextReg base]))"

definition compileRecvOKExpr :: "compilers \<Rightarrow> nat \<Rightarrow> Expr \<Rightarrow> int \<Rightarrow> int \<Rightarrow> unit cm" where
  "compileRecvOKExpr R line channel dest okDest =
     bindC (askF fNextReg) (\<lambda>base.
     thenC (whenC (base \<le> dest) (setNextReg (dest + 1)))
    (bindC (askF fNextReg) (\<lambda>r.
     thenC (whenC (r \<le> okDest) (setNextReg (okDest + 1)))
    (thenC (updF growMax)
    (bindC allocReg (\<lambda>chReg. seqC [
       rExprTo R channel chReg,
       emitABC OP_RECVOK dest chReg okDest line,
       setNextReg base]))))))"

definition compileMakeChanExpr :: "compilers \<Rightarrow> nat \<Rightarrow> Expr option \<Rightarrow> int \<Rightarrow> unit cm" where
  "compileMakeChanExpr R line sz dest =
     (case sz of
        Some e \<Rightarrow>
          bindC (askF fNextReg) (\<lambda>base.
          bindC allocReg (\<lambda>sizeReg. seqC [
            rExprTo R e sizeReg,
            emitABC OP_MAKECHAN dest sizeReg 1 line,
            setNextReg base]))
      | None \<Rightarrow> emitABC OP_MAKECHAN dest 0 0 line)"

subsection \<open>Functions\<close>

text \<open>The parameters become the first locals; a named variadic one collects the rest in a table.\<close>

fun declareParams :: "nat \<Rightarrow> FuncParam list \<Rightarrow> unit cm" where
  "declareParams line [] = returnC ()"
| "declareParams line (p # ps) =
     (if fpIsVarArg p then
        (if fpName p \<noteq> [] \<and> fpName p \<noteq> ''...'' then
           bindC (addLocal (fpName p)) (\<lambda>reg. seqC [
             emitABC OP_NEWTABLE reg 0 0 line,
             emitABC OP_VARARG (reg + 1) 0 0 line,
             emitABC OP_SETLIST reg 0 1 line])
         else returnC ())
      else bindC (addLocal (fpName p)) (\<lambda>_. declareParams line ps))"

definition funcDecls :: "Stmt list \<Rightarrow> (bytes \<times> FuncParam list \<times> BlockStmt) list" where
  "funcDecls stmts = concat (map (\<lambda>s. case s of FuncDeclStmt p n ps b \<Rightarrow> [(n, ps, b)] | _ \<Rightarrow> []) stmts)"

definition arityOf :: "FuncParam list \<Rightarrow> functionArity" where
  "arityOf ps = (case countFixedFunctionParams ps of (n, v) \<Rightarrow> \<lparr>faNumParams = n, faVararg = v\<rparr>)"

definition collectFunctionArities :: "Stmt list \<Rightarrow> unit cm" where
  "collectFunctionArities stmts = forEachC (\<lambda>(n, ps, b). setFunctionArity n (arityOf ps)) (funcDecls stmts)"

text \<open>One pass over the functions, which says whether anything changed; at most one pass more than
there are functions.\<close>

fun resultsPass :: "(bytes \<times> FuncParam list \<times> BlockStmt) list \<Rightarrow> bool cm" where
  "resultsPass [] = returnC False"
| "resultsPass ((n, ps, b) # fs) =
     bindC (askC (\<lambda>c. (cFuncResults c n, \<lparr>frSingle = functionBodyKnownSingleResult n b (cFuncResults c)\<rparr>))) (\<lambda>(old, new).
     if (case old of Some r \<Rightarrow> r | None \<Rightarrow> \<lparr>frSingle = False\<rparr>) \<noteq> new then
       thenC (setFunctionResult n new) (thenC (resultsPass fs) (returnC True))
     else resultsPass fs)"

fun resultsPasses :: "nat \<Rightarrow> (bytes \<times> FuncParam list \<times> BlockStmt) list \<Rightarrow> unit cm" where
  "resultsPasses 0 fs = returnC ()"
| "resultsPasses (Suc k) fs = bindC (resultsPass fs) (\<lambda>changed. if changed then resultsPasses k fs else returnC ())"

definition collectFunctionResults :: "Stmt list \<Rightarrow> unit cm" where
  "collectFunctionResults stmts =
     (let fs = funcDecls stmts in
      thenC (forEachC (\<lambda>(n, ps, b). setFunctionResult n \<lparr>frSingle = False\<rparr>) fs)
        (resultsPasses (length fs + 1) fs))"

definition collectLabelDepths :: "Stmt list \<Rightarrow> unit cm" where
  "collectLabelDepths stmts =
     updF (\<lambda>f. f\<lparr>fLabelDepths := labelAll (map labelDepthsStmt stmts) (fDepth f) (fLabelDepths f)\<rparr>)"

definition endsWithReturn :: "32 word list \<Rightarrow> bool" where
  "endsWithReturn code \<longleftrightarrow> code \<noteq> [] \<and> DecodeOp (last code) = OP_RETURN"

definition compileFunction :: "compilers \<Rightarrow> bytes \<Rightarrow> FuncParam list \<Rightarrow> BlockStmt \<Rightarrow> nat \<Rightarrow> int cm" where
  "compileFunction R name params body line =
     (case countFixedFunctionParams params of (numFixedParams, isVarArg) \<Rightarrow>
      thenC (seqC [
        setFunctionArity name \<lparr>faNumParams = numFixedParams, faVararg = isVarArg\<rparr>,
        pushFunction name line isVarArg,
        enterScope,
        declareParams line params,
        updF (fNumParams_update (\<lambda>_. numFixedParams)),
        whenC (blockContainsReturn body \<and> \<not> blockAlwaysReturns body) disableJIT,
        whenC (blockHasLoopReturnTable body False) disableJIT,
        collectFunctionArities (blockStmts body),
        collectFunctionResults (blockStmts body),
        collectLabelDepths (blockStmts body),
        forEachC (rStmt R) (blockStmts body),
        patchGotos,
        leaveScope,
        bindC (askF fCode) (\<lambda>code. whenC (\<not> endsWithReturn code) (emitReturn 0 1))])
     (bindC popFunction (\<lambda>child.
      bindC (askF (\<lambda>f. length (fProtos f))) (\<lambda>idx.
      thenC (updF (fProtos_update (\<lambda>ps. ps @ [finish name numFixedParams child]))) (returnC (int idx))))))"

definition compileFuncLitExpr :: "compilers \<Rightarrow> nat \<Rightarrow> FuncParam list \<Rightarrow> BlockStmt \<Rightarrow> int \<Rightarrow> unit cm" where
  "compileFuncLitExpr R line params body dest =
     bindC (compileFunction R ''<anonymous>'' params body line) (\<lambda>protoIdx. emitABx OP_CLOSURE dest protoIdx line)"

subsection \<open>The dispatcher\<close>

definition compileExprTo :: "compilers \<Rightarrow> Expr \<Rightarrow> int \<Rightarrow> unit cm" where
  "compileExprTo R e dest =
     (case e of
        NumberLit p v \<Rightarrow> compileNumberLit (pLine p) v dest
      | StringLit p v \<Rightarrow> bindC (stringConst v) (\<lambda>k. emitABx OP_LOADK dest k (pLine p))
      | BoolLit p b \<Rightarrow> emitABC OP_LOADBOOL dest (if b then 1 else 0) 0 (pLine p)
      | NilLit p \<Rightarrow> emitABC OP_LOADNIL dest 0 0 (pLine p)
      | IdentExpr p n \<Rightarrow> compileIdentExpr (pLine p) n dest
      | BinaryExpr p l op r \<Rightarrow> compileBinaryExpr R (pLine p) l op r e dest
      | UnaryExpr p op x \<Rightarrow> compileUnaryExpr R (pLine p) op x dest
      | ParenExpr p x \<Rightarrow> rExprTo R x dest
      | CallExpr p f a \<Rightarrow> compileCallExprMulti R e (pLine p) f a dest 1
      | MethodCallExpr p ob m a \<Rightarrow> compileMethodCallExprMulti R (pLine p) ob m a dest 1
      | IndexExpr p t i \<Rightarrow> compileIndexExpr R (pLine p) t i dest
      | FieldExpr p t fld \<Rightarrow> compileFieldExpr R (pLine p) t fld dest
      | TableLitExpr p fs \<Rightarrow> compileTableLitExpr R fs dest (pLine p)
      | ListLitExpr p vs \<Rightarrow> compileListLitExpr R vs dest (pLine p)
      | DenseLitExpr p d n vs \<Rightarrow> compileDenseLitExpr R (pLine p) d n vs dest
      | FuncLitExpr p ps b \<Rightarrow> compileFuncLitExpr R (pLine p) ps b dest
      | VarArgExpr p \<Rightarrow> emitABC OP_VARARG dest 2 0 (pLine p)
      | RecvExpr p ch \<Rightarrow> compileRecvExpr R (pLine p) ch dest
      | MakeChanExpr p sz \<Rightarrow> compileMakeChanExpr R (pLine p) sz dest
      | _ \<Rightarrow> failC (EUnsupportedExpr (pLine (exprPos e))))"

end
