(* ===== verification/Bytecode_Valid.thy ===== *)
theory Bytecode_Valid
  imports Compiler_Table
begin

section \<open>Well-formed bytecode (the register and operand roles of internal/vm/opcode.go)\<close>

text \<open>
  What the comments of \<open>opcode.go\<close> say an instruction reads and writes, and what a prototype must
  satisfy for the interpreter to run it without leaving its tables: every register below the frame
  size, every constant, upvalue, prototype and constructor index in its table, every jump inside the
  code. The conditions are stated on decoded operands; the encoders cut an operand to its field,
  which only makes it smaller, so an instruction with valid operands is valid.
\<close>

subsection \<open>Operand roles\<close>

definition bxOps :: "Opcode set" where
  "bxOps = {OP_LOADK, OP_GETGLOBAL, OP_SETGLOBAL, OP_CLOSURE, OP_SETGLOBALRO, OP_CHECKCONST}"

definition sbxOps :: "Opcode set" where
  "sbxOps = {OP_LOADINT, OP_JMP, OP_FORPREP, OP_FORLOOP, OP_TFORLOOP}"

definition jumpOps :: "Opcode set" where
  "jumpOps = {OP_JMP, OP_FORPREP, OP_FORLOOP, OP_TFORLOOP}"

text \<open>The highest register an instruction with the fields A, B and C names. Of a call with a variable
number of arguments or results the fixed part counts.\<close>

definition callTop :: "int \<Rightarrow> int \<Rightarrow> int \<Rightarrow> int" where
  "callTop a b c = max (a + max (b - 1) 0) (a + c - 2)"

definition highestReg :: "Opcode \<Rightarrow> int \<Rightarrow> int \<Rightarrow> int \<Rightarrow> int" where
  "highestReg op a b c =
     (if op = OP_LOADNIL \<or> op = OP_SETLIST then a + b
      else if op \<in> {OP_MOVE, OP_APPEND, OP_UNM, OP_BNOT, OP_NOT, OP_LEN, OP_TESTSET, OP_SEND, OP_RECV, OP_ISNUMBER,
                    OP_GETFIELD} then max a b
      else if op = OP_SETFIELD then max a c
      else if op \<in> {OP_GETTABLE, OP_SETTABLE, OP_ADD, OP_SUB, OP_MUL, OP_DIV, OP_MOD, OP_POW, OP_BAND, OP_BOR, OP_BXOR,
                    OP_BANDN, OP_SHL, OP_SHR, OP_CONCAT, OP_RECVOK, OP_TRYSEND, OP_TRYRECV, OP_SETLISTDYN}
        then max a (max b c)
      else if op \<in> {OP_SELF, OP_TRYRECVOK} then max (a + 1) (max b c)
      else if op \<in> {OP_EQ, OP_LT, OP_LE} then max b c
      else if op \<in> {OP_CALL, OP_YIELD, OP_RESUME} then callTop a b c
      else if op = OP_CALLTABLE then max (max a b) (a + c - 2)
      else if op = OP_RETURN \<or> op = OP_VARARG then max a (a + b - 2)
      else if op = OP_GO \<or> op = OP_DEFER then a + max (b - 1) 0
      else if op = OP_TFORCALL then a + 2 + c
      else if op = OP_MAKECHAN then (if c \<noteq> 0 then max a b else a)
      else if op = OP_SELECT then max (a + 2) (b + 3 * c - 1)
      else if op = OP_NEWOBJECT2 then max a (c + 1)
      else a)"

text \<open>The lowest register an instruction writes, if it writes one.\<close>

definition lowestWritten :: "Opcode \<Rightarrow> int \<Rightarrow> int \<Rightarrow> int \<Rightarrow> int option" where
  "lowestWritten op a b c =
     (if op \<in> {OP_SETGLOBAL, OP_SETUPVAL, OP_SETTABLE, OP_SETFIELD, OP_SETLIST, OP_APPEND, OP_EQ, OP_LT, OP_LE,
               OP_TEST, OP_JMP, OP_RETURN, OP_CLOSE, OP_GO, OP_SEND, OP_SETTOP, OP_DEFER, OP_SETGLOBALRO, OP_CHECKCONST}
        then None
      else if op = OP_TRYSEND then Some c
      else if op = OP_SETLISTDYN then Some b
      else if op \<in> {OP_RECVOK, OP_TRYRECV, OP_TRYRECVOK} then Some (min a c)
      else Some a)"

definition writtenFrom :: "32 word \<Rightarrow> int option" where
  "writtenFrom inst =
     lowestWritten (DecodeOp inst) (DecodeA inst)
       (if DecodeOp inst \<in> bxOps \<union> sbxOps then 0 else DecodeB inst)
       (if DecodeOp inst \<in> bxOps \<union> sbxOps then 0 else DecodeC inst)"

subsection \<open>Valid instructions\<close>

text \<open>The sizes an instruction is checked against: registers, constants, upvalues, prototypes,
two-field constructors, the numbers of keys of the other constructors, and instructions.\<close>

record dims =
  dReg :: int
  dK :: nat
  dU :: nat
  dP :: nat
  d2 :: nat
  dN :: "nat list"
  dLen :: nat

definition abcOK :: "dims \<Rightarrow> Opcode \<Rightarrow> int \<Rightarrow> int \<Rightarrow> int \<Rightarrow> bool" where
  "abcOK D op a b c \<longleftrightarrow>
     op \<le> OP_ISNUMBER \<and> op \<notin> bxOps \<union> sbxOps \<and> 0 \<le> a \<and> 0 \<le> b \<and> 0 \<le> c \<and> highestReg op a b c < dReg D \<and>
     (op = OP_GETFIELD \<longrightarrow> c < int (dK D)) \<and> (op = OP_SETFIELD \<longrightarrow> b < int (dK D)) \<and>
     (op \<in> {OP_GETUPVAL, OP_SETUPVAL} \<longrightarrow> b < int (dU D)) \<and>
     (op = OP_NEWOBJECT2 \<longrightarrow> b < int (d2 D)) \<and>
     (op = OP_NEWOBJECTN \<longrightarrow> b < 256 \<and> b < int (length (dN D)) \<and> c + int (dN D ! nat b) - 1 < dReg D)"

definition abxOK :: "dims \<Rightarrow> Opcode \<Rightarrow> int \<Rightarrow> int \<Rightarrow> bool" where
  "abxOK D op a bx \<longleftrightarrow>
     op \<in> bxOps \<and> 0 \<le> a \<and> a < dReg D \<and> 0 \<le> bx \<and> bx < int (if op = OP_CLOSURE then dP D else dK D)"

text \<open>A jump is relative to the next instruction. Its field holds offsets up to 32768, so that the
condition is stated for code short enough to be jumped over.\<close>

definition asbxOK :: "dims \<Rightarrow> nat \<Rightarrow> Opcode \<Rightarrow> int \<Rightarrow> int \<Rightarrow> bool" where
  "asbxOK D pc op a sbx \<longleftrightarrow>
     op \<in> sbxOps \<and> 0 \<le> a \<and>
     (if op \<in> {OP_FORPREP, OP_FORLOOP} then a + 3 else if op = OP_TFORLOOP then a + 1 else a) < dReg D \<and>
     (op \<in> jumpOps \<longrightarrow> dLen D \<le> 32767 \<longrightarrow> 0 \<le> int pc + 1 + sbx \<and> int pc + 1 + sbx \<le> int (dLen D))"

definition instOK :: "dims \<Rightarrow> nat \<Rightarrow> 32 word \<Rightarrow> bool" where
  "instOK D pc inst =
     (let op = DecodeOp inst; a = DecodeA inst in
      if op \<in> bxOps then abxOK D op a (DecodeBx inst)
      else if op \<in> sbxOps then asbxOK D pc op a (DecodesBx inst)
      else abcOK D op a (DecodeB inst) (DecodeC inst))"

subsection \<open>Valid prototypes\<close>

definition ctorsOK :: "nat \<Rightarrow> TableCtor2 list \<Rightarrow> TableCtorN list \<Rightarrow> bool" where
  "ctorsOK k twos many \<longleftrightarrow>
     list_all (\<lambda>t. 0 \<le> t2Key1Const t \<and> t2Key1Const t < int k \<and> 0 \<le> t2Key2Const t \<and> t2Key2Const t < int k) twos \<and>
     list_all (\<lambda>t. list_all (\<lambda>i. 0 \<le> i \<and> i < int k) (tnKeyConsts t)) many"

text \<open>The upvalue descriptors of a nested function name a register of the enclosing one or an upvalue
of it.\<close>

definition upvalFits :: "int \<Rightarrow> nat \<Rightarrow> upvalInfo \<Rightarrow> bool" where
  "upvalFits regs upvals u \<longleftrightarrow> 0 \<le> uiIndex u \<and> (if uiInStack u then uiIndex u < regs else uiIndex u < int upvals)"

definition codeOK :: "dims \<Rightarrow> 32 word list \<Rightarrow> bool" where
  "codeOK D code \<longleftrightarrow> (\<forall>i<length code. instOK D i (code ! i))"

primrec validProto :: "FuncProto \<Rightarrow> bool" where
  "validProto (FuncProto name line numParams vararg usesVararg regs code ks twos many ups ro ps lines leaf noGlobals noJIT) \<longleftrightarrow>
     length lines = length code \<and> endsWithReturn code \<and>
     codeOK \<lparr>dReg = regs, dK = length ks, dU = length ups, dP = length ps, d2 = length twos,
             dN = map (\<lambda>t. length (tnKeyConsts t)) many, dLen = length code\<rparr> code \<and>
     ctorsOK (length ks) twos many \<and>
     list_all (\<lambda>p. list_all (upvalFits regs (length ups)) (poUpvalues p)) ps \<and>
     list_all (\<lambda>b. b) (map validProto ps)"

subsection \<open>Valid operands make valid instructions\<close>

definition dims_le :: "dims \<Rightarrow> dims \<Rightarrow> bool" where
  "dims_le D E \<longleftrightarrow> dReg D \<le> dReg E \<and> dK D \<le> dK E \<and> dU D \<le> dU E \<and> dP D \<le> dP E \<and> d2 D \<le> d2 E \<and>
     (\<exists>ns. dN E = dN D @ ns) \<and> dLen D \<le> dLen E"

lemma abcOK_mono:
  assumes "abcOK D op a b c" "dims_le D E"
  shows "abcOK E op a b c"
proof -
  have "\<And>x. x < dReg D \<Longrightarrow> x < dReg E" "\<And>x. x < int (dK D) \<Longrightarrow> x < int (dK E)" "\<And>x. x < int (dU D) \<Longrightarrow> x < int (dU E)"
    "\<And>x. x < int (d2 D) \<Longrightarrow> x < int (d2 E)"
    using assms(2) by (auto simp: dims_le_def)
  moreover have "0 \<le> i \<Longrightarrow> i < int (length (dN D)) \<Longrightarrow> x + int (dN D ! nat i) - 1 < dReg D \<Longrightarrow>
      i < int (length (dN E)) \<and> x + int (dN E ! nat i) - 1 < dReg E" for i x
    using assms(2) by (auto simp: dims_le_def nth_append nat_less_iff)
  ultimately show ?thesis using assms(1) unfolding abcOK_def by blast
qed

lemma abxOK_mono: "abxOK D op a bx \<Longrightarrow> dims_le D E \<Longrightarrow> abxOK E op a bx"
  by (auto simp: abxOK_def dims_le_def split: if_splits)

lemma asbxOK_mono: "asbxOK D pc op a sbx \<Longrightarrow> dims_le D E \<Longrightarrow> asbxOK E pc op a sbx"
  by (auto simp: asbxOK_def dims_le_def)

lemma instOK_mono: "instOK D pc inst \<Longrightarrow> dims_le D E \<Longrightarrow> instOK E pc inst"
  unfolding instOK_def Let_def by (auto intro: abcOK_mono abxOK_mono asbxOK_mono)

lemma mod_below: "0 \<le> x \<Longrightarrow> 0 < n \<Longrightarrow> 0 \<le> x mod n \<and> x mod n \<le> (x :: int)"
  by (simp add: zmod_le_nonneg_dividend)

text \<open>Smaller operands name no higher register.\<close>

lemma if_le: "x \<le> y \<Longrightarrow> x' \<le> (y' :: int) \<Longrightarrow> (if p then x else x') \<le> (if p then y else y')"
  by simp

lemma highestReg_mono:
  assumes "0 \<le> a'" "a' \<le> a" "0 \<le> b'" "b' \<le> b" "0 \<le> c'" "c' \<le> (c :: int)"
  shows "highestReg op a' b' c' \<le> highestReg op a b c"
proof -
  have call: "callTop a' b' c' \<le> callTop a b c" unfolding callTop_def by (intro max.mono add_mono diff_mono assms order_refl)
  have chan: "(if c' \<noteq> 0 then max a' b' else a') \<le> (if c \<noteq> 0 then max a b else a)" using assms by auto
  show ?thesis unfolding highestReg_def
    by (intro if_le call chan; (intro max.mono add_mono diff_mono mult_left_mono assms order_refl; simp)?)
qed

lemma abcOK_smaller:
  assumes "abcOK D op a b c" "0 \<le> a'" "a' \<le> a" "0 \<le> b'" "b' \<le> b" "0 \<le> c'" "c' \<le> c" "op = OP_NEWOBJECTN \<Longrightarrow> b' = b"
  shows "abcOK D op a' b' c'"
  using assms highestReg_mono [of a' a b' b c' c op] unfolding abcOK_def by auto

lemma instOK_ABC:
  assumes "abcOK D op a b c"
  shows "instOK D pc (EncodeABC op a b c)"
proof -
  have "0 \<le> a" "0 \<le> b" "0 \<le> c" "op \<notin> bxOps" "op \<notin> sbxOps" using assms by (auto simp: abcOK_def)
  moreover have "op = OP_NEWOBJECTN \<Longrightarrow> b mod 256 = b" using assms by (auto simp: abcOK_def)
  ultimately show ?thesis
    using abcOK_smaller [OF assms] mod_below [of a 256] mod_below [of b 256] mod_below [of c 256]
    by (simp add: instOK_def Let_def)
qed

lemma instOK_ABx: "abxOK D op a bx \<Longrightarrow> instOK D pc (EncodeABx op a bx)"
  using mod_below [of a 256] mod_below [of bx 65536] by (auto simp: instOK_def abxOK_def split: if_splits)

lemma bx_sbx: "op \<in> sbxOps \<Longrightarrow> op \<notin> bxOps"
  by (auto simp: sbxOps_def bxOps_def)

lemma instOK_AsBx:
  assumes "asbxOK D pc op a sbx" "pc < dLen D"
  shows "instOK D pc (EncodeAsBx op a sbx)"
proof -
  have sb: "op \<in> sbxOps" and a: "0 \<le> a" using assms by (auto simp: asbxOK_def)
  have "DecodesBx (EncodeAsBx op a sbx) = sbx" if "op \<in> jumpOps" "dLen D \<le> 32767"
    by (rule sBx_roundtrip) (use assms that in \<open>auto simp: asbxOK_def\<close>)
  then show ?thesis
    using assms(1) sb a bx_sbx [OF sb] mod_below [of a 256]
    by (auto simp: instOK_def asbxOK_def split: if_splits simp del: decode_AsBx(3))
qed

text \<open>When the frame has at most 256 registers an instruction writes where its operands say.\<close>

definition keepsBelow :: "int \<Rightarrow> 32 word \<Rightarrow> bool" where
  "keepsBelow d inst \<longleftrightarrow> (case writtenFrom inst of None \<Rightarrow> True | Some r \<Rightarrow> d \<le> r)"

definition writesAbove :: "int \<Rightarrow> Opcode \<Rightarrow> int \<Rightarrow> int \<Rightarrow> int \<Rightarrow> bool" where
  "writesAbove d op a b c \<longleftrightarrow> (case lowestWritten op a b c of None \<Rightarrow> True | Some r \<Rightarrow> d \<le> r)"

lemma highestReg_A: "op \<notin> {OP_EQ, OP_LT, OP_LE} \<Longrightarrow> 0 \<le> b \<Longrightarrow> 0 \<le> c \<Longrightarrow> a \<le> highestReg op a b c"
  by (auto simp: highestReg_def callTop_def)

lemma highestReg_BC:
  "b \<le> highestReg OP_SETLISTDYN a b c" "c \<le> highestReg OP_TRYSEND a b c" "c \<le> highestReg OP_RECVOK a b c"
  "c \<le> highestReg OP_TRYRECV a b c" "c \<le> highestReg OP_TRYRECVOK a b c"
  by (simp_all add: highestReg_def)

lemma mod_small: "0 \<le> x \<Longrightarrow> x \<le> y \<Longrightarrow> y < z \<Longrightarrow> z \<le> 256 \<Longrightarrow> x mod 256 = (x :: int)"
  by simp

lemma written_ABC:
  assumes "abcOK D op a b c" "dReg D \<le> 256" "lowestWritten op a b c = Some r"
  shows "lowestWritten op (a mod 256) (b mod 256) (c mod 256) = Some r"
proof -
  have ok: "0 \<le> a" "0 \<le> b" "0 \<le> c" "highestReg op a b c < dReg D" using assms(1) by (auto simp: abcOK_def)
  have a: "a mod 256 = a" if "op \<notin> {OP_EQ, OP_LT, OP_LE}"
    using highestReg_A [OF that ok(2,3), of a] ok assms(2) by (intro mod_small)
  have b: "b mod 256 = b" if "op = OP_SETLISTDYN"
    using highestReg_BC(1) [of b a c] ok assms(2) that by (intro mod_small [of b "highestReg op a b c"]) auto
  have c: "c mod 256 = c" if "op = OP_TRYSEND \<or> op = OP_RECVOK \<or> op = OP_TRYRECV \<or> op = OP_TRYRECVOK"
    using highestReg_BC(2-5) [of c a b] ok assms(2) that by (intro mod_small [of c "highestReg op a b c"]) auto
  show ?thesis using assms(3) a b c unfolding lowestWritten_def by (auto split: if_splits)
qed

lemma keepsBelow_ABC:
  assumes "abcOK D op a b c" "dReg D \<le> 256" "writesAbove d op a b c"
  shows "keepsBelow d (EncodeABC op a b c)"
proof -
  have "op \<notin> bxOps \<union> sbxOps" using assms(1) by (simp add: abcOK_def)
  then have w: "writtenFrom (EncodeABC op a b c) = lowestWritten op (a mod 256) (b mod 256) (c mod 256)"
    by (simp add: writtenFrom_def)
  have n: "lowestWritten op a b c = None \<Longrightarrow> lowestWritten op (a mod 256) (b mod 256) (c mod 256) = None"
    by (auto simp: lowestWritten_def split: if_splits)
  show ?thesis using written_ABC [OF assms(1,2)] n assms(3) unfolding keepsBelow_def w writesAbove_def
    by (cases "lowestWritten op a b c") auto
qed

lemma keepsBelow_ABx:
  assumes "abxOK D op a bx" "dReg D \<le> 256" "writesAbove d op a 0 0"
  shows "keepsBelow d (EncodeABx op a bx)"
proof -
  have "op \<in> bxOps" "a mod 256 = a" using assms by (auto simp: abxOK_def)
  then show ?thesis using assms(3) by (simp add: keepsBelow_def writtenFrom_def writesAbove_def)
qed

lemma keepsBelow_AsBx:
  assumes "asbxOK D pc op a sbx" "dReg D \<le> 256" "writesAbove d op a 0 0"
  shows "keepsBelow d (EncodeAsBx op a sbx)"
proof -
  have "op \<in> sbxOps" "a mod 256 = a" using assms by (auto simp: asbxOK_def split: if_splits)
  then show ?thesis using assms(3) by (simp add: keepsBelow_def writtenFrom_def writesAbove_def)
qed

text \<open>The conditions opcode by opcode.\<close>

lemma abcOK_ops [simp]:
  "abcOK D OP_LOADNIL a b c \<longleftrightarrow> 0 \<le> a \<and> 0 \<le> b \<and> 0 \<le> c \<and> a + b < dReg D"
  "abcOK D OP_LOADBOOL a b c \<longleftrightarrow> 0 \<le> a \<and> 0 \<le> b \<and> 0 \<le> c \<and> a < dReg D"
  "abcOK D OP_MOVE a b c \<longleftrightarrow> 0 \<le> a \<and> 0 \<le> b \<and> 0 \<le> c \<and> max a b < dReg D"
  "abcOK D OP_GETUPVAL a b c \<longleftrightarrow> 0 \<le> a \<and> 0 \<le> b \<and> 0 \<le> c \<and> a < dReg D \<and> b < int (dU D)"
  "abcOK D OP_SETUPVAL a b c \<longleftrightarrow> 0 \<le> a \<and> 0 \<le> b \<and> 0 \<le> c \<and> a < dReg D \<and> b < int (dU D)"
  "abcOK D OP_NEWTABLE a b c \<longleftrightarrow> 0 \<le> a \<and> 0 \<le> b \<and> 0 \<le> c \<and> a < dReg D"
  "abcOK D OP_NEWOBJECT2 a b c \<longleftrightarrow> 0 \<le> a \<and> 0 \<le> b \<and> 0 \<le> c \<and> max a (c + 1) < dReg D \<and> b < int (d2 D)"
  "abcOK D OP_GETFIELD a b c \<longleftrightarrow> 0 \<le> a \<and> 0 \<le> b \<and> 0 \<le> c \<and> max a b < dReg D \<and> c < int (dK D)"
  "abcOK D OP_SETFIELD a b c \<longleftrightarrow> 0 \<le> a \<and> 0 \<le> b \<and> 0 \<le> c \<and> max a c < dReg D \<and> b < int (dK D)"
  "abcOK D OP_SETLIST a b c \<longleftrightarrow> 0 \<le> a \<and> 0 \<le> b \<and> 0 \<le> c \<and> a + b < dReg D"
  "abcOK D OP_SELF a b c \<longleftrightarrow> 0 \<le> a \<and> 0 \<le> b \<and> 0 \<le> c \<and> max (a + 1) (max b c) < dReg D"
  "abcOK D OP_TEST a b c \<longleftrightarrow> 0 \<le> a \<and> 0 \<le> b \<and> 0 \<le> c \<and> a < dReg D"
  "abcOK D OP_TESTSET a b c \<longleftrightarrow> 0 \<le> a \<and> 0 \<le> b \<and> 0 \<le> c \<and> max a b < dReg D"
  "abcOK D OP_CALL a b c \<longleftrightarrow> 0 \<le> a \<and> 0 \<le> b \<and> 0 \<le> c \<and> callTop a b c < dReg D"
  "abcOK D OP_YIELD a b c \<longleftrightarrow> 0 \<le> a \<and> 0 \<le> b \<and> 0 \<le> c \<and> callTop a b c < dReg D"
  "abcOK D OP_RESUME a b c \<longleftrightarrow> 0 \<le> a \<and> 0 \<le> b \<and> 0 \<le> c \<and> callTop a b c < dReg D"
  "abcOK D OP_CALLTABLE a b c \<longleftrightarrow> 0 \<le> a \<and> 0 \<le> b \<and> 0 \<le> c \<and> max (max a b) (a + c - 2) < dReg D"
  "abcOK D OP_RETURN a b c \<longleftrightarrow> 0 \<le> a \<and> 0 \<le> b \<and> 0 \<le> c \<and> max a (a + b - 2) < dReg D"
  "abcOK D OP_CLOSE a b c \<longleftrightarrow> 0 \<le> a \<and> 0 \<le> b \<and> 0 \<le> c \<and> a < dReg D"
  "abcOK D OP_TFORCALL a b c \<longleftrightarrow> 0 \<le> a \<and> 0 \<le> b \<and> 0 \<le> c \<and> a + 2 + c < dReg D"
  "abcOK D OP_VARARG a b c \<longleftrightarrow> 0 \<le> a \<and> 0 \<le> b \<and> 0 \<le> c \<and> max a (a + b - 2) < dReg D"
  "abcOK D OP_GO a b c \<longleftrightarrow> 0 \<le> a \<and> 0 \<le> b \<and> 0 \<le> c \<and> a + max (b - 1) 0 < dReg D"
  "abcOK D OP_DEFER a b c \<longleftrightarrow> 0 \<le> a \<and> 0 \<le> b \<and> 0 \<le> c \<and> a + max (b - 1) 0 < dReg D"
  "abcOK D OP_MAKECHAN a b c \<longleftrightarrow> 0 \<le> a \<and> 0 \<le> b \<and> 0 \<le> c \<and> (if c \<noteq> 0 then max a b else a) < dReg D"
  "abcOK D OP_SEND a b c \<longleftrightarrow> 0 \<le> a \<and> 0 \<le> b \<and> 0 \<le> c \<and> max a b < dReg D"
  "abcOK D OP_RECV a b c \<longleftrightarrow> 0 \<le> a \<and> 0 \<le> b \<and> 0 \<le> c \<and> max a b < dReg D"
  "abcOK D OP_RECVOK a b c \<longleftrightarrow> 0 \<le> a \<and> 0 \<le> b \<and> 0 \<le> c \<and> max a (max b c) < dReg D"
  "abcOK D OP_TRYSEND a b c \<longleftrightarrow> 0 \<le> a \<and> 0 \<le> b \<and> 0 \<le> c \<and> max a (max b c) < dReg D"
  "abcOK D OP_TRYRECV a b c \<longleftrightarrow> 0 \<le> a \<and> 0 \<le> b \<and> 0 \<le> c \<and> max a (max b c) < dReg D"
  "abcOK D OP_TRYRECVOK a b c \<longleftrightarrow> 0 \<le> a \<and> 0 \<le> b \<and> 0 \<le> c \<and> max (a + 1) (max b c) < dReg D"
  "abcOK D OP_SELECT a b c \<longleftrightarrow> 0 \<le> a \<and> 0 \<le> b \<and> 0 \<le> c \<and> max (a + 2) (b + 3 * c - 1) < dReg D"
  "abcOK D OP_NEWOBJECTN a b c \<longleftrightarrow> 0 \<le> a \<and> 0 \<le> b \<and> 0 \<le> c \<and> a < dReg D \<and>
     b < 256 \<and> b < int (length (dN D)) \<and> c + int (dN D ! nat b) - 1 < dReg D"
  "abcOK D OP_SETLISTDYN a b c \<longleftrightarrow> 0 \<le> a \<and> 0 \<le> b \<and> 0 \<le> c \<and> max a (max b c) < dReg D"
  "abcOK D OP_SETTOP a b c \<longleftrightarrow> 0 \<le> a \<and> 0 \<le> b \<and> 0 \<le> c \<and> a < dReg D"
  "abcOK D OP_ISNUMBER a b c \<longleftrightarrow> 0 \<le> a \<and> 0 \<le> b \<and> 0 \<le> c \<and> max a b < dReg D"
  "abcOK D OP_UNM a b c \<longleftrightarrow> 0 \<le> a \<and> 0 \<le> b \<and> 0 \<le> c \<and> max a b < dReg D"
  "abcOK D OP_BNOT a b c \<longleftrightarrow> 0 \<le> a \<and> 0 \<le> b \<and> 0 \<le> c \<and> max a b < dReg D"
  "abcOK D OP_NOT a b c \<longleftrightarrow> 0 \<le> a \<and> 0 \<le> b \<and> 0 \<le> c \<and> max a b < dReg D"
  "abcOK D OP_LEN a b c \<longleftrightarrow> 0 \<le> a \<and> 0 \<le> b \<and> 0 \<le> c \<and> max a b < dReg D"
  "abcOK D OP_EQ a b c \<longleftrightarrow> 0 \<le> a \<and> 0 \<le> b \<and> 0 \<le> c \<and> max b c < dReg D"
  "abcOK D OP_LT a b c \<longleftrightarrow> 0 \<le> a \<and> 0 \<le> b \<and> 0 \<le> c \<and> max b c < dReg D"
  "abcOK D OP_LE a b c \<longleftrightarrow> 0 \<le> a \<and> 0 \<le> b \<and> 0 \<le> c \<and> max b c < dReg D"
  "abcOK D OP_GETTABLE a b c \<longleftrightarrow> 0 \<le> a \<and> 0 \<le> b \<and> 0 \<le> c \<and> max a (max b c) < dReg D"
  "abcOK D OP_SETTABLE a b c \<longleftrightarrow> 0 \<le> a \<and> 0 \<le> b \<and> 0 \<le> c \<and> max a (max b c) < dReg D"
  "abcOK D OP_ADD a b c \<longleftrightarrow> 0 \<le> a \<and> 0 \<le> b \<and> 0 \<le> c \<and> max a (max b c) < dReg D"
  "abcOK D OP_SUB a b c \<longleftrightarrow> 0 \<le> a \<and> 0 \<le> b \<and> 0 \<le> c \<and> max a (max b c) < dReg D"
  "abcOK D OP_MUL a b c \<longleftrightarrow> 0 \<le> a \<and> 0 \<le> b \<and> 0 \<le> c \<and> max a (max b c) < dReg D"
  "abcOK D OP_DIV a b c \<longleftrightarrow> 0 \<le> a \<and> 0 \<le> b \<and> 0 \<le> c \<and> max a (max b c) < dReg D"
  "abcOK D OP_MOD a b c \<longleftrightarrow> 0 \<le> a \<and> 0 \<le> b \<and> 0 \<le> c \<and> max a (max b c) < dReg D"
  "abcOK D OP_POW a b c \<longleftrightarrow> 0 \<le> a \<and> 0 \<le> b \<and> 0 \<le> c \<and> max a (max b c) < dReg D"
  "abcOK D OP_BAND a b c \<longleftrightarrow> 0 \<le> a \<and> 0 \<le> b \<and> 0 \<le> c \<and> max a (max b c) < dReg D"
  "abcOK D OP_BOR a b c \<longleftrightarrow> 0 \<le> a \<and> 0 \<le> b \<and> 0 \<le> c \<and> max a (max b c) < dReg D"
  "abcOK D OP_BXOR a b c \<longleftrightarrow> 0 \<le> a \<and> 0 \<le> b \<and> 0 \<le> c \<and> max a (max b c) < dReg D"
  "abcOK D OP_BANDN a b c \<longleftrightarrow> 0 \<le> a \<and> 0 \<le> b \<and> 0 \<le> c \<and> max a (max b c) < dReg D"
  "abcOK D OP_SHL a b c \<longleftrightarrow> 0 \<le> a \<and> 0 \<le> b \<and> 0 \<le> c \<and> max a (max b c) < dReg D"
  "abcOK D OP_SHR a b c \<longleftrightarrow> 0 \<le> a \<and> 0 \<le> b \<and> 0 \<le> c \<and> max a (max b c) < dReg D"
  "abcOK D OP_CONCAT a b c \<longleftrightarrow> 0 \<le> a \<and> 0 \<le> b \<and> 0 \<le> c \<and> max a (max b c) < dReg D"
  by (simp_all add: abcOK_def highestReg_def bxOps_def sbxOps_def)

lemma abxOK_ops [simp]:
  "abxOK D OP_LOADK a bx \<longleftrightarrow> 0 \<le> a \<and> a < dReg D \<and> 0 \<le> bx \<and> bx < int (dK D)"
  "abxOK D OP_GETGLOBAL a bx \<longleftrightarrow> 0 \<le> a \<and> a < dReg D \<and> 0 \<le> bx \<and> bx < int (dK D)"
  "abxOK D OP_SETGLOBAL a bx \<longleftrightarrow> 0 \<le> a \<and> a < dReg D \<and> 0 \<le> bx \<and> bx < int (dK D)"
  "abxOK D OP_CLOSURE a bx \<longleftrightarrow> 0 \<le> a \<and> a < dReg D \<and> 0 \<le> bx \<and> bx < int (dP D)"
  "abxOK D OP_SETGLOBALRO a bx \<longleftrightarrow> 0 \<le> a \<and> a < dReg D \<and> 0 \<le> bx \<and> bx < int (dK D)"
  "abxOK D OP_CHECKCONST a bx \<longleftrightarrow> 0 \<le> a \<and> a < dReg D \<and> 0 \<le> bx \<and> bx < int (dK D)"
  by (auto simp: abxOK_def bxOps_def)

lemma writesAbove_ops [simp]:
  "writesAbove d OP_LOADNIL a b c \<longleftrightarrow> d \<le> a"
  "writesAbove d OP_LOADBOOL a b c \<longleftrightarrow> d \<le> a"
  "writesAbove d OP_MOVE a b c \<longleftrightarrow> d \<le> a"
  "writesAbove d OP_GETUPVAL a b c \<longleftrightarrow> d \<le> a"
  "writesAbove d OP_SETUPVAL a b c"
  "writesAbove d OP_NEWTABLE a b c \<longleftrightarrow> d \<le> a"
  "writesAbove d OP_NEWOBJECT2 a b c \<longleftrightarrow> d \<le> a"
  "writesAbove d OP_GETFIELD a b c \<longleftrightarrow> d \<le> a"
  "writesAbove d OP_SETFIELD a b c"
  "writesAbove d OP_SETLIST a b c"
  "writesAbove d OP_SELF a b c \<longleftrightarrow> d \<le> a"
  "writesAbove d OP_TEST a b c"
  "writesAbove d OP_TESTSET a b c \<longleftrightarrow> d \<le> a"
  "writesAbove d OP_CALL a b c \<longleftrightarrow> d \<le> a"
  "writesAbove d OP_YIELD a b c \<longleftrightarrow> d \<le> a"
  "writesAbove d OP_RESUME a b c \<longleftrightarrow> d \<le> a"
  "writesAbove d OP_CALLTABLE a b c \<longleftrightarrow> d \<le> a"
  "writesAbove d OP_RETURN a b c"
  "writesAbove d OP_CLOSE a b c"
  "writesAbove d OP_TFORCALL a b c \<longleftrightarrow> d \<le> a"
  "writesAbove d OP_VARARG a b c \<longleftrightarrow> d \<le> a"
  "writesAbove d OP_GO a b c"
  "writesAbove d OP_DEFER a b c"
  "writesAbove d OP_MAKECHAN a b c \<longleftrightarrow> d \<le> a"
  "writesAbove d OP_SEND a b c"
  "writesAbove d OP_RECV a b c \<longleftrightarrow> d \<le> a"
  "writesAbove d OP_RECVOK a b c \<longleftrightarrow> d \<le> min a c"
  "writesAbove d OP_TRYSEND a b c \<longleftrightarrow> d \<le> c"
  "writesAbove d OP_TRYRECV a b c \<longleftrightarrow> d \<le> min a c"
  "writesAbove d OP_TRYRECVOK a b c \<longleftrightarrow> d \<le> min a c"
  "writesAbove d OP_SELECT a b c \<longleftrightarrow> d \<le> a"
  "writesAbove d OP_NEWOBJECTN a b c \<longleftrightarrow> d \<le> a"
  "writesAbove d OP_SETLISTDYN a b c \<longleftrightarrow> d \<le> b"
  "writesAbove d OP_SETTOP a b c"
  "writesAbove d OP_ISNUMBER a b c \<longleftrightarrow> d \<le> a"
  "writesAbove d OP_UNM a b c \<longleftrightarrow> d \<le> a"
  "writesAbove d OP_BNOT a b c \<longleftrightarrow> d \<le> a"
  "writesAbove d OP_NOT a b c \<longleftrightarrow> d \<le> a"
  "writesAbove d OP_LEN a b c \<longleftrightarrow> d \<le> a"
  "writesAbove d OP_EQ a b c"
  "writesAbove d OP_LT a b c"
  "writesAbove d OP_LE a b c"
  "writesAbove d OP_GETTABLE a b c \<longleftrightarrow> d \<le> a"
  "writesAbove d OP_SETTABLE a b c"
  "writesAbove d OP_ADD a b c \<longleftrightarrow> d \<le> a"
  "writesAbove d OP_SUB a b c \<longleftrightarrow> d \<le> a"
  "writesAbove d OP_MUL a b c \<longleftrightarrow> d \<le> a"
  "writesAbove d OP_DIV a b c \<longleftrightarrow> d \<le> a"
  "writesAbove d OP_MOD a b c \<longleftrightarrow> d \<le> a"
  "writesAbove d OP_POW a b c \<longleftrightarrow> d \<le> a"
  "writesAbove d OP_BAND a b c \<longleftrightarrow> d \<le> a"
  "writesAbove d OP_BOR a b c \<longleftrightarrow> d \<le> a"
  "writesAbove d OP_BXOR a b c \<longleftrightarrow> d \<le> a"
  "writesAbove d OP_BANDN a b c \<longleftrightarrow> d \<le> a"
  "writesAbove d OP_SHL a b c \<longleftrightarrow> d \<le> a"
  "writesAbove d OP_SHR a b c \<longleftrightarrow> d \<le> a"
  "writesAbove d OP_CONCAT a b c \<longleftrightarrow> d \<le> a"
  "writesAbove d OP_LOADK a b c \<longleftrightarrow> d \<le> a"
  "writesAbove d OP_GETGLOBAL a b c \<longleftrightarrow> d \<le> a"
  "writesAbove d OP_SETGLOBAL a b c"
  "writesAbove d OP_CLOSURE a b c \<longleftrightarrow> d \<le> a"
  "writesAbove d OP_SETGLOBALRO a b c"
  "writesAbove d OP_CHECKCONST a b c"
  by (simp_all add: writesAbove_def lowestWritten_def)

end
