(* ===== verification/Compiler_Stmt.thy ===== *)
theory Compiler_Stmt
  imports Compiler_Table
begin

section \<open>Compiling statements (internal/vm/compiler_stmt.go, compiler_control.go)\<close>

text \<open>One definition per method, over the entry points of \<open>compilers\<close> for the subtrees.\<close>

definition enumerate0 :: "'a list \<Rightarrow> (int \<times> 'a) list" where
  "enumerate0 xs = zip [0..int (length xs) - 1] xs"

text \<open>A block of statements in a scope of its own.\<close>

definition scoped :: "unit cm \<Rightarrow> unit cm" where
  "scoped m = thenC enterScope (thenC m leaveScope)"

definition compileBody :: "compilers \<Rightarrow> BlockStmt \<Rightarrow> unit cm" where
  "compileBody R body = scoped (forEachC (rStmt R) (blockStmts body))"

subsection \<open>Conditions\<close>

definition compileIsNumberCondJump :: "compilers \<Rightarrow> Expr \<Rightarrow> bool \<Rightarrow> bool \<Rightarrow> nat \<Rightarrow> nat cm" where
  "compileIsNumberCondJump R arg invert jumpWhenTrue line =
     bindC allocReg (\<lambda>condReg.
     thenC (rExprTo R arg condReg)
    (thenC (emitABC OP_ISNUMBER condReg condReg 0 line)
    (thenC freeReg
    (thenC (emitABC OP_TEST condReg 0 (if jumpWhenTrue \<noteq> invert then 1 else 0) line) (emitJump line)))))"

definition compileCondCmp :: "compilers \<Rightarrow> nat \<Rightarrow> Expr \<Rightarrow> Expr \<Rightarrow> Opcode \<Rightarrow> int \<Rightarrow> bool \<Rightarrow> nat cm" where
  "compileCondCmp R line left right op a swap =
     withOperands R (if swap then right else left) (if swap then left else right) (\<lambda>leftReg rightReg.
       thenC (emitABC op a leftReg rightReg line) (emitJump line))"

text \<open>The comparison of a condition: the opcode, the expected outcome and whether the sides swap.\<close>

definition condOpcode :: "bytes \<Rightarrow> (Opcode \<times> int \<times> bool) option" where
  "condOpcode op =
     (if op = ''<'' then Some (OP_LT, 0, False) else if op = ''<='' then Some (OP_LE, 0, False)
      else if op = ''>'' then Some (OP_LT, 0, True) else if op = ''>='' then Some (OP_LE, 0, True)
      else if op = ''=='' then Some (OP_EQ, 0, False) else if op = ''!='' then Some (OP_EQ, 1, False)
      else None)"

definition compileTruthJump :: "compilers \<Rightarrow> bool \<Rightarrow> Expr \<Rightarrow> nat \<Rightarrow> nat cm" where
  "compileTruthJump R inverted e line =
     bindC allocReg (\<lambda>condReg.
     thenC (compileExprTo R e condReg)
    (thenC freeReg
    (thenC (emitABC OP_TEST condReg 0 (if inverted then 1 else 0) line) (emitJump line))))"

definition compileCondJump :: "compilers \<Rightarrow> bool \<Rightarrow> Expr \<Rightarrow> nat \<Rightarrow> nat cm" where
  "compileCondJump R inverted e line =
     (case e of
        BinaryExpr p l op r \<Rightarrow>
          (case condOpcode op of
             None \<Rightarrow> compileTruthJump R inverted e line
           | Some (opcode, a, swap) \<Rightarrow>
               (case (if opcode = OP_EQ then typeNumberComparisonArg l r else None) of
                  Some arg \<Rightarrow> compileIsNumberCondJump R arg (a = 1) inverted line
                | None \<Rightarrow> compileCondCmp R (pLine p) l r opcode (if inverted then 1 - a else a) swap))
      | UnaryExpr p op x \<Rightarrow>
          if op = ''!'' then rCondJump R (\<not> inverted) x line else compileTruthJump R inverted e line
      | _ \<Rightarrow> compileTruthJump R inverted e line)"

subsection \<open>Lists of values\<close>

text \<open>\<open>compileAdjustedExprList\<close>, with the number of results still to come. Values beyond the last
result are not compiled.\<close>

fun adjustedExprs :: "compilers \<Rightarrow> nat \<Rightarrow> nat \<Rightarrow> Expr list \<Rightarrow> unit cm" where
  "adjustedExprs R line 0 vals = returnC ()"
| "adjustedExprs R line (Suc k) vals =
     bindC allocReg (\<lambda>reg.
       case vals of
         [] \<Rightarrow> thenC (emitABC OP_LOADNIL reg 0 0 line) (adjustedExprs R line k [])
       | v # rest \<Rightarrow>
           let single = thenC (seqC [rExprTo R v reg, setNextReg (reg + 1)]) (adjustedExprs R line k rest) in
           if rest \<noteq> [] then single
           else case v of
             RecvExpr p ch \<Rightarrow>
               if k = 0 then single
               else bindC allocReg (\<lambda>okReg.
                 if okReg \<noteq> reg + 1 then failC (ERegisterAllocation line)
                 else compileRecvOKExpr R (pLine p) ch reg okReg)
           | CallExpr p f a \<Rightarrow> rCallMulti R v reg (int (Suc k))
           | MethodCallExpr p ob m a \<Rightarrow> rCallMulti R v reg (int (Suc k))
           | VarArgExpr p \<Rightarrow> seqC [
               emitABC OP_VARARG reg (int (Suc k) + 1) 0 line,
               raiseNextReg (reg + int (Suc k))]
           | _ \<Rightarrow> single)"

definition compileAdjustedExprList :: "compilers \<Rightarrow> Expr list \<Rightarrow> nat \<Rightarrow> nat \<Rightarrow> unit cm" where
  "compileAdjustedExprList R vals nResults line = adjustedExprs R line nResults vals"

text \<open>The one value of a list that fills several names by itself.\<close>

definition soleRecv :: "'a list \<Rightarrow> Expr list \<Rightarrow> (nat \<times> Expr) option" where
  "soleRecv names vals =
     (case vals of [RecvExpr p ch] \<Rightarrow> if length names = 2 then Some (pLine p, ch) else None | _ \<Rightarrow> None)"

definition soleCall :: "'a list \<Rightarrow> Expr list \<Rightarrow> Expr option" where
  "soleCall names vals =
     (case vals of [v] \<Rightarrow> if 1 < length names \<and> isAnyCall v then Some v else None | _ \<Rightarrow> None)"

subsection \<open>Declarations\<close>

definition declareLocals :: "int \<Rightarrow> bytes list \<Rightarrow> bool \<Rightarrow> nat \<Rightarrow> unit cm" where
  "declareLocals tempBase names readOnly line =
     forEachC (\<lambda>(i, name). bindC (addLocalWithReadOnly name readOnly) (\<lambda>reg.
       whenC (reg \<noteq> tempBase + i) (emitABC OP_MOVE reg (tempBase + i) 0 line))) (enumerate0 names)"

definition setGlobals :: "int \<Rightarrow> bytes list \<Rightarrow> bool \<Rightarrow> nat \<Rightarrow> unit cm" where
  "setGlobals tempBase names readOnly line =
     forEachC (\<lambda>(i, name).
       thenC (declareGlobal name)
         (bindC (stringConst name) (\<lambda>nameK.
           emitABx (if readOnly then OP_SETGLOBALRO else OP_SETGLOBAL) (tempBase + i) nameK line))) (enumerate0 names)"

definition compileDeclareGlobals :: "compilers \<Rightarrow> nat \<Rightarrow> bytes list \<Rightarrow> Expr list \<Rightarrow> bool \<Rightarrow> unit cm" where
  "compileDeclareGlobals R line names vals readOnly =
     bindC (askF fNextReg) (\<lambda>tempBase.
     thenC
      (case soleRecv names vals of
         Some (recvLine, ch) \<Rightarrow> compileRecvOKExpr R recvLine ch tempBase (tempBase + 1)
       | None \<Rightarrow>
           (case soleCall names vals of
              Some call \<Rightarrow> seqC [
                rCallMulti R call tempBase (int (length names)),
                raiseNextReg (tempBase + int (length names))]
            | None \<Rightarrow> compileAdjustedExprList R vals (length names) line))
      (seqC [setGlobals tempBase names readOnly line, setNextReg tempBase]))"

definition compileDeclareRecvOK :: "compilers \<Rightarrow> nat \<Rightarrow> bytes list \<Rightarrow> bool \<Rightarrow> nat \<Rightarrow> Expr \<Rightarrow> unit cm" where
  "compileDeclareRecvOK R line names readOnly recvLine ch =
     bindC (askF fNextReg) (\<lambda>tempBase. seqC [
       compileRecvOKExpr R recvLine ch tempBase (tempBase + 1),
       raiseNextReg (tempBase + 2),
       freeRegs 2,
       declareLocals tempBase names readOnly line])"

definition compileDeclareMultiCall :: "compilers \<Rightarrow> bytes list \<Rightarrow> bool \<Rightarrow> Expr \<Rightarrow> unit cm" where
  "compileDeclareMultiCall R names readOnly call =
     bindC (askF fNextReg) (\<lambda>base. seqC [
       rCallMulti R call base (int (length names)),
       setNextReg base,
       forEachC (\<lambda>name. bindC (addLocalWithReadOnly name readOnly) (\<lambda>_. returnC ())) names])"

definition compileDeclareStmt :: "compilers \<Rightarrow> nat \<Rightarrow> bytes list \<Rightarrow> Expr list \<Rightarrow> bool \<Rightarrow> unit cm" where
  "compileDeclareStmt R line names vals readOnly =
     bindC (askC isMainTopLevel) (\<lambda>mainTop.
     if mainTop then compileDeclareGlobals R line names vals readOnly
     else case soleRecv names vals of
       Some (recvLine, ch) \<Rightarrow> compileDeclareRecvOK R line names readOnly recvLine ch
     | None \<Rightarrow>
         (case soleCall names vals of
            Some call \<Rightarrow> compileDeclareMultiCall R names readOnly call
          | None \<Rightarrow>
              bindC (askF fNextReg) (\<lambda>tempBase. seqC [
                compileAdjustedExprList R vals (length names) line,
                freeRegs (int (length names)),
                declareLocals tempBase names readOnly line])))"

subsection \<open>Assignments\<close>

definition checkConst :: "bool \<Rightarrow> int \<Rightarrow> bytes \<Rightarrow> nat \<Rightarrow> unit cm" where
  "checkConst readOnly reg name line =
     whenC readOnly (bindC (stringConst name) (\<lambda>k. emitABx OP_CHECKCONST reg k line))"

definition compileAssignTarget :: "compilers \<Rightarrow> Expr \<Rightarrow> int \<Rightarrow> nat \<Rightarrow> unit cm" where
  "compileAssignTarget R target valueReg line =
     (case target of
        IdentExpr p name \<Rightarrow>
          bindC (askF (resolveLocalInfo name)) (\<lambda>(reg, readOnly).
          if 0 \<le> reg then
            thenC (checkConst readOnly reg name line) (whenC (reg \<noteq> valueReg) (emitABC OP_MOVE reg valueReg 0 line))
          else bindC (resolveUpvalueInfo name) (\<lambda>(upIdx, ro).
            if 0 \<le> upIdx then emitABC OP_SETUPVAL valueReg upIdx 0 line
            else bindC (stringConst name) (\<lambda>nameK.
              bindC (askC (isDeclaredGlobal name)) (\<lambda>declared.
                if \<not> declared then failC (EUndefinedVariable line name)
                else emitABx OP_SETGLOBAL valueReg nameK line))))
      | IndexExpr p table index \<Rightarrow>
          bindC (compileExprReg R table) (\<lambda>(tableReg, tableIsTemp).
          bindC allocReg (\<lambda>keyReg. seqC [
            rExprTo R index keyReg,
            emitABC OP_SETTABLE tableReg keyReg valueReg line,
            freeReg,
            freeIf tableIsTemp]))
      | FieldExpr p table field \<Rightarrow>
          bindC (compileExprReg R table) (\<lambda>(tableReg, tableIsTemp).
          bindC (stringConst field) (\<lambda>fieldK. seqC [
            emitSetField tableReg fieldK valueReg line,
            freeIf tableIsTemp]))
      | _ \<Rightarrow> failC (EAssignTarget line))"

definition assignTargets :: "compilers \<Rightarrow> int \<Rightarrow> Expr list \<Rightarrow> nat \<Rightarrow> unit cm" where
  "assignTargets R tempBase targets line =
     forEachC (\<lambda>(i, target). compileAssignTarget R target (tempBase + i) line) (enumerate0 targets)"

definition compileAssignRecvOK :: "compilers \<Rightarrow> nat \<Rightarrow> Expr list \<Rightarrow> nat \<Rightarrow> Expr \<Rightarrow> unit cm" where
  "compileAssignRecvOK R line targets recvLine ch =
     bindC (askF fNextReg) (\<lambda>tempBase. seqC [
       compileRecvOKExpr R recvLine ch tempBase (tempBase + 1),
       raiseNextReg (tempBase + 2),
       assignTargets R tempBase targets line,
       setNextReg tempBase])"

definition compileAssignMultiCall :: "compilers \<Rightarrow> nat \<Rightarrow> Expr list \<Rightarrow> Expr \<Rightarrow> unit cm" where
  "compileAssignMultiCall R line targets call =
     bindC (askF fNextReg) (\<lambda>tempBase. seqC [
       rCallMulti R call tempBase (int (length targets)),
       raiseNextReg (tempBase + int (length targets)),
       freeRegs (int (length targets)),
       assignTargets R tempBase targets line])"

definition compileAssignStmt :: "compilers \<Rightarrow> nat \<Rightarrow> Expr list \<Rightarrow> Expr list \<Rightarrow> unit cm" where
  "compileAssignStmt R line targets vals =
     thenC (whenC (1 < length targets \<and> list_ex exprIsIndexTarget targets) disableJIT)
      (case soleRecv targets vals of
         Some (recvLine, ch) \<Rightarrow> compileAssignRecvOK R line targets recvLine ch
       | None \<Rightarrow>
           (case soleCall targets vals of
              Some call \<Rightarrow> compileAssignMultiCall R line targets call
            | None \<Rightarrow>
                bindC (askF fNextReg) (\<lambda>tempBase. seqC [
                  compileAdjustedExprList R vals (length targets) line,
                  assignTargets R tempBase targets line,
                  setNextReg tempBase])))"

definition compoundOpcode :: "bytes \<Rightarrow> Opcode option" where
  "compoundOpcode op =
     (if op = ''+='' then Some OP_ADD else if op = ''-='' then Some OP_SUB
      else if op = ''*='' then Some OP_MUL else if op = ''/='' then Some OP_DIV
      else if op = ''%='' then Some OP_MOD else if op = ''**='' then Some OP_POW
      else if op = ''..='' then Some OP_CONCAT else None)"

definition emitCompoundOp :: "compilers \<Rightarrow> Opcode \<Rightarrow> int \<Rightarrow> Expr \<Rightarrow> nat \<Rightarrow> unit cm" where
  "emitCompoundOp R opcode targetReg value line =
     (if opcode = OP_CONCAT then
        bindC allocReg (\<lambda>tmpB.
        thenC (emitABC OP_MOVE tmpB targetReg 0 line)
       (bindC allocReg (\<lambda>tmpC. seqC [
          rExprTo R value tmpC,
          emitABC OP_CONCAT targetReg tmpB tmpC line,
          freeRegs 2])))
      else
        bindC allocReg (\<lambda>valReg. seqC [
          rExprTo R value valReg,
          emitABC opcode targetReg targetReg valReg line,
          freeReg]))"

definition compileCompoundAssignStmt :: "compilers \<Rightarrow> nat \<Rightarrow> Expr \<Rightarrow> bytes \<Rightarrow> Expr \<Rightarrow> unit cm" where
  "compileCompoundAssignStmt R line target op value =
     (case compoundOpcode op of
        None \<Rightarrow> failC (ECompoundOp line op)
      | Some opcode \<Rightarrow>
          (case target of
             IdentExpr p name \<Rightarrow>
               bindC (askF (resolveLocalInfo name)) (\<lambda>(reg, readOnly).
               if 0 \<le> reg then thenC (checkConst readOnly reg name line) (emitCompoundOp R opcode reg value line)
               else bindC (resolveUpvalueInfo name) (\<lambda>(upIdx, ro).
                 if 0 \<le> upIdx then
                   bindC allocReg (\<lambda>tmp. seqC [
                     emitABC OP_GETUPVAL tmp upIdx 0 line,
                     emitCompoundOp R opcode tmp value line,
                     emitABC OP_SETUPVAL tmp upIdx 0 line,
                     freeReg])
                 else
                   bindC (stringConst name) (\<lambda>nameK.
                   bindC allocReg (\<lambda>tmp. seqC [
                     emitABx OP_GETGLOBAL tmp nameK line,
                     emitCompoundOp R opcode tmp value line,
                     emitABx OP_SETGLOBAL tmp nameK line,
                     freeReg]))))
           | IndexExpr p table index \<Rightarrow>
               bindC (compileExprReg R table) (\<lambda>(tableReg, tableIsTemp).
               bindC allocReg (\<lambda>keyReg.
               thenC (rExprTo R index keyReg)
              (bindC allocReg (\<lambda>oldReg. seqC [
                 emitABC OP_GETTABLE oldReg tableReg keyReg line,
                 emitCompoundOp R opcode oldReg value line,
                 emitABC OP_SETTABLE tableReg keyReg oldReg line,
                 freeRegs 2,
                 freeIf tableIsTemp]))))
           | FieldExpr p table field \<Rightarrow>
               bindC (compileExprReg R table) (\<lambda>(tableReg, tableIsTemp).
               bindC (stringConst field) (\<lambda>fieldK.
               bindC allocReg (\<lambda>oldReg. seqC [
                 emitGetField oldReg tableReg fieldK line,
                 emitCompoundOp R opcode oldReg value line,
                 emitSetField tableReg fieldK oldReg line,
                 freeReg,
                 freeIf tableIsTemp])))
           | _ \<Rightarrow> failC (ECompoundTarget line)))"

definition compileIncDecStmt :: "compilers \<Rightarrow> nat \<Rightarrow> Expr \<Rightarrow> bytes \<Rightarrow> unit cm" where
  "compileIncDecStmt R line target op =
     (let opcode = (if op = ''++'' then OP_ADD else OP_SUB) in
      bindC allocReg (\<lambda>oneReg.
      thenC (emitInt oneReg 1 line)
       (case target of
          IdentExpr p name \<Rightarrow>
            bindC (askF (resolveLocalInfo name)) (\<lambda>(reg, readOnly).
            if 0 \<le> reg then seqC [
              checkConst readOnly reg name line,
              emitABC opcode reg reg oneReg line,
              freeReg]
            else bindC (resolveUpvalueInfo name) (\<lambda>(upIdx, ro).
              if 0 \<le> upIdx then
                bindC allocReg (\<lambda>tmp. seqC [
                  emitABC OP_GETUPVAL tmp upIdx 0 line,
                  emitABC opcode tmp tmp oneReg line,
                  emitABC OP_SETUPVAL tmp upIdx 0 line,
                  freeReg,
                  freeReg])
              else
                bindC (stringConst name) (\<lambda>nameK.
                bindC allocReg (\<lambda>tmp. seqC [
                  emitABx OP_GETGLOBAL tmp nameK line,
                  emitABC opcode tmp tmp oneReg line,
                  emitABx OP_SETGLOBAL tmp nameK line,
                  freeReg,
                  freeReg]))))
        | IndexExpr p table index \<Rightarrow>
            bindC allocReg (\<lambda>tableReg.
            thenC (rExprTo R table tableReg)
           (bindC allocReg (\<lambda>keyReg.
            thenC (rExprTo R index keyReg)
           (bindC allocReg (\<lambda>oldReg. seqC [
              emitABC OP_GETTABLE oldReg tableReg keyReg line,
              emitABC opcode oldReg oldReg oneReg line,
              emitABC OP_SETTABLE tableReg keyReg oldReg line,
              freeRegs 3,
              freeReg])))))
        | FieldExpr p table field \<Rightarrow>
            bindC allocReg (\<lambda>tableReg.
            thenC (rExprTo R table tableReg)
           (bindC (stringConst field) (\<lambda>fieldK.
            bindC allocReg (\<lambda>oldReg. seqC [
              emitGetField oldReg tableReg fieldK line,
              emitABC opcode oldReg oldReg oneReg line,
              emitSetField tableReg fieldK oldReg line,
              freeRegs 2,
              freeReg]))))
        | _ \<Rightarrow> failC (EIncDecTarget line))))"

subsection \<open>Calls as statements\<close>

text \<open>Arguments that stay allocated until the statement ends.\<close>

fun statementArgs :: "compilers \<Rightarrow> bool \<Rightarrow> nat \<Rightarrow> Expr list \<Rightarrow> bool cm" where
  "statementArgs R checkSingle line [] = returnC False"
| "statementArgs R checkSingle line (arg # rest) =
     bindC allocReg (\<lambda>argReg.
     bindC (askC (callExprKnownSingleResult arg)) (\<lambda>single.
     let final = (if rest = [] then finalArg R line True arg argReg else None) in
     if final = None \<or> (checkSingle \<and> single) then
       thenC (rExprTo R arg argReg) (statementArgs R checkSingle line rest)
     else thenC (case final of Some m \<Rightarrow> m | None \<Rightarrow> returnC ()) (returnC True)))"

definition compileStatementCall :: "compilers \<Rightarrow> Opcode \<Rightarrow> int \<Rightarrow> bool \<Rightarrow> nat \<Rightarrow> Expr \<Rightarrow> Expr list \<Rightarrow> unit cm" where
  "compileStatementCall R op cc checkSingle line fn args =
     bindC (askF fNextReg) (\<lambda>base.
     bindC allocReg (\<lambda>funcReg.
     thenC (rExprTo R fn funcReg)
    (bindC (statementArgs R checkSingle line args) (\<lambda>lastArgIsMulti. seqC [
       emitABC op funcReg (if lastArgIsMulti then 0 else int (length args) + 1) cc line,
       setNextReg base]))))"

definition compilePlainCallExprDiscard :: "compilers \<Rightarrow> Expr \<Rightarrow> Expr \<Rightarrow> Expr list \<Rightarrow> nat \<Rightarrow> unit cm" where
  "compilePlainCallExprDiscard R call fn args line =
     (if hasExplicitSpread args then bindC (askF fNextReg) (\<lambda>r. rCallMulti R call r 0)
      else case staticCoroutineBuiltinOp call of
        Some op \<Rightarrow> bindC (askF fNextReg) (\<lambda>r. compileCoroutineBuiltinCall R args r (-1) line op)
      | None \<Rightarrow> compileStatementCall R OP_CALL 1 True line fn args)"

definition compileCallStmt :: "compilers \<Rightarrow> nat \<Rightarrow> Expr \<Rightarrow> unit cm" where
  "compileCallStmt R line call =
     (case call of
        CallExpr p f a \<Rightarrow> compilePlainCallExprDiscard R call f a line
      | MethodCallExpr p ob m a \<Rightarrow> bindC (askF fNextReg) (\<lambda>r. rCallMulti R call r 0)
      | _ \<Rightarrow> failC (ECallStmt line))"

text \<open>A method call of a \<open>go\<close> or \<open>defer\<close> statement; only the latter frees the object's register before
the arguments.\<close>

definition compileMethodStatement :: "compilers \<Rightarrow> Opcode \<Rightarrow> bool \<Rightarrow> nat \<Rightarrow> Expr \<Rightarrow> bytes \<Rightarrow> Expr list \<Rightarrow> unit cm" where
  "compileMethodStatement R op freeObject line object method args =
     bindC (askF fNextReg) (\<lambda>base.
     bindC allocReg (\<lambda>selfReg.
     bindC allocReg (\<lambda>_.
     bindC allocReg (\<lambda>objReg.
     thenC (rExprTo R object objReg)
    (bindC (stringConst method) (\<lambda>methodK. seqC [
       emitMethodLookup selfReg objReg methodK line,
       whenC freeObject freeReg,
       forEachC (\<lambda>arg. bindC allocReg (rExprTo R arg)) args,
       emitABC op selfReg (int (length args) + 2) 0 line,
       setNextReg base]))))))"

definition compileGoCallExpr :: "compilers \<Rightarrow> nat \<Rightarrow> Expr \<Rightarrow> Expr list \<Rightarrow> unit cm" where
  "compileGoCallExpr R line fn args = compileStatementCall R OP_GO 0 False line fn args"

definition compileGoMethodCallExpr :: "compilers \<Rightarrow> nat \<Rightarrow> Expr \<Rightarrow> bytes \<Rightarrow> Expr list \<Rightarrow> unit cm" where
  "compileGoMethodCallExpr R line object method args = compileMethodStatement R OP_GO False line object method args"

definition compileGoStmt :: "compilers \<Rightarrow> nat \<Rightarrow> Expr \<Rightarrow> unit cm" where
  "compileGoStmt R line call =
     (case call of
        CallExpr p f a \<Rightarrow> compileGoCallExpr R line f a
      | MethodCallExpr p ob m a \<Rightarrow> compileGoMethodCallExpr R line ob m a
      | _ \<Rightarrow> failC (EGoStmt line))"

definition compileDeferCallExpr :: "compilers \<Rightarrow> nat \<Rightarrow> Expr \<Rightarrow> Expr list \<Rightarrow> unit cm" where
  "compileDeferCallExpr R line fn args = compileStatementCall R OP_DEFER 0 False line fn args"

definition compileDeferMethodCallExpr :: "compilers \<Rightarrow> nat \<Rightarrow> Expr \<Rightarrow> bytes \<Rightarrow> Expr list \<Rightarrow> unit cm" where
  "compileDeferMethodCallExpr R line object method args = compileMethodStatement R OP_DEFER True line object method args"

definition compileDeferStmt :: "compilers \<Rightarrow> nat \<Rightarrow> Expr \<Rightarrow> unit cm" where
  "compileDeferStmt R line call =
     thenC disableJIT
      (case call of
         CallExpr p f a \<Rightarrow> compileDeferCallExpr R line f a
       | MethodCallExpr p ob m a \<Rightarrow> compileDeferMethodCallExpr R line ob m a
       | _ \<Rightarrow> failC (EDeferStmt line))"

subsection \<open>Channels\<close>

definition compileSendStmt :: "compilers \<Rightarrow> nat \<Rightarrow> Expr \<Rightarrow> Expr option \<Rightarrow> unit cm" where
  "compileSendStmt R line channel value =
     bindC (askF fNextReg) (\<lambda>base.
     bindC allocReg (\<lambda>chReg.
       case value of
         Some v \<Rightarrow>
           thenC (rExprTo R channel chReg)
          (bindC allocReg (\<lambda>valReg. seqC [
             rExprTo R v valReg,
             emitABC OP_SEND chReg valReg 0 line,
             setNextReg base]))
       | None \<Rightarrow>
           (case channel of
              RecvExpr p ch \<Rightarrow> seqC [
                rExprTo R ch chReg,
                emitABC OP_RECV chReg chReg 0 line,
                setNextReg base]
            | _ \<Rightarrow> failC ENilNode)))"

text \<open>The names a receive case binds, then its body.\<close>

definition compileCaseBody :: "compilers \<Rightarrow> nat \<Rightarrow> bytes \<Rightarrow> bytes \<Rightarrow> bool \<Rightarrow> int \<Rightarrow> int \<Rightarrow> BlockStmt \<Rightarrow> unit cm" where
  "compileCaseBody R line recvName recvOkName isRecv recvReg recvOKReg body =
     scoped (seqC [
       whenC (isRecv \<and> recvName \<noteq> [])
         (bindC (addLocal recvName) (\<lambda>localReg. emitABC OP_MOVE localReg recvReg 0 line)),
       whenC (isRecv \<and> recvOkName \<noteq> [])
         (bindC (addLocal recvOkName) (\<lambda>localReg. emitABC OP_MOVE localReg recvOKReg 0 line)),
       forEachC (rStmt R) (blockStmts body)])"

text \<open>The attempt of one case: the register with its readiness, the value and the receive flag.\<close>

definition compileTryCase :: "compilers \<Rightarrow> SelectCase \<Rightarrow> int \<Rightarrow> (int \<times> int \<times> int) cm" where
  "compileTryCase R cls readyReg =
     (case cls of SelectCase p recvName recvOkName channel sendValue body \<Rightarrow>
        (case sendValue of
           None \<Rightarrow>
             bindC allocReg (\<lambda>recvReg.
             if recvOkName \<noteq> [] then
               bindC allocReg (\<lambda>r.
               if r \<noteq> recvReg + 1 then failC (ERegisterAllocation (pLine p))
               else
                 bindC allocReg (\<lambda>recvOKReg.
                 bindC allocReg (\<lambda>chReg.
                 thenC (rExprTo R channel chReg)
                (thenC (emitABC OP_TRYRECVOK recvReg chReg recvOKReg (pLine p))
                   (returnC (recvReg + 1, recvReg, recvOKReg))))))
             else
               bindC allocReg (\<lambda>chReg.
               thenC (rExprTo R channel chReg)
              (thenC (emitABC OP_TRYRECV recvReg chReg readyReg (pLine p))
                 (returnC (readyReg, recvReg, 0)))))
         | Some v \<Rightarrow>
             bindC allocReg (\<lambda>chReg.
             thenC (rExprTo R channel chReg)
            (bindC allocReg (\<lambda>valReg.
             thenC (rExprTo R v valReg)
            (thenC (emitABC OP_TRYSEND chReg valReg readyReg (pLine p))
               (returnC (readyReg, 0, 0))))))))"

fun tryCases :: "compilers \<Rightarrow> nat \<Rightarrow> int \<Rightarrow> SelectCase list \<Rightarrow> nat list cm" where
  "tryCases R line base [] = returnC []"
| "tryCases R line base (SelectCase p recvName recvOkName channel sendValue body # rest) =
     bindC (askF fNextReg) (\<lambda>caseBase.
     bindC allocReg (\<lambda>readyReg0.
     bindC (compileTryCase R (SelectCase p recvName recvOkName channel sendValue body) readyReg0)
       (\<lambda>(readyReg, recvReg, recvOKReg).
     thenC (setNextReg (caseBase + 1))
    (thenC (emitABC OP_TEST readyReg 0 0 (pLine p))
    (bindC (emitJump (pLine p)) (\<lambda>skipJump.
     thenC (compileCaseBody R (pLine p) recvName recvOkName (sendValue = None) recvReg recvOKReg body)
    (bindC (emitJump line) (\<lambda>endJump.
     thenC (patchJump skipJump)
    (thenC (setNextReg base)
    (bindC (tryCases R line base rest) (\<lambda>endJumps. returnC (endJump # endJumps))))))))))))"

definition compileNonblockingSelectStmt :: "compilers \<Rightarrow> nat \<Rightarrow> SelectCase list \<Rightarrow> BlockStmt \<Rightarrow> unit cm" where
  "compileNonblockingSelectStmt R line cases dflt =
     bindC (askF fNextReg) (\<lambda>base.
     bindC (tryCases R line base cases) (\<lambda>endJumps. seqC [
       compileBody R dflt,
       forEachC patchJump endJumps,
       setNextReg base]))"

text \<open>A case of a blocking select loads its mode, channel and value.\<close>

definition loadSelectCase :: "compilers \<Rightarrow> SelectCase \<Rightarrow> unit cm" where
  "loadSelectCase R cls =
     (case cls of SelectCase p recvName recvOkName channel sendValue body \<Rightarrow>
        bindC allocReg (\<lambda>modeReg.
        bindC allocReg (\<lambda>chReg.
        bindC allocReg (\<lambda>valReg.
          case sendValue of
            None \<Rightarrow> seqC [
              emitInt modeReg 0 (pLine p),
              rExprTo R channel chReg,
              emitABC OP_LOADNIL valReg 0 0 (pLine p)]
          | Some v \<Rightarrow> seqC [
              emitInt modeReg 1 (pLine p),
              rExprTo R channel chReg,
              rExprTo R v valReg]))))"

fun selectedCases :: "compilers \<Rightarrow> nat \<Rightarrow> int \<Rightarrow> int \<Rightarrow> int \<Rightarrow> int \<Rightarrow> SelectCase list \<Rightarrow> nat list cm" where
  "selectedCases R line selectedReg recvReg recvOKReg i [] = returnC []"
| "selectedCases R line selectedReg recvReg recvOKReg i (SelectCase p recvName recvOkName channel sendValue body # rest) =
     bindC allocReg (\<lambda>idxReg.
     thenC (emitInt idxReg (i + 1) (pLine p))
    (thenC (emitABC OP_EQ 0 selectedReg idxReg (pLine p))
    (bindC (emitJump (pLine p)) (\<lambda>nextJump.
     thenC freeReg
    (thenC (compileCaseBody R (pLine p) recvName recvOkName (sendValue = None) recvReg recvOKReg body)
    (bindC (emitJump line) (\<lambda>endJump.
     thenC (patchJump nextJump)
    (bindC (selectedCases R line selectedReg recvReg recvOKReg (i + 1) rest) (\<lambda>endJumps.
       returnC (endJump # endJumps))))))))))"

definition compileBlockingSelectStmt :: "compilers \<Rightarrow> nat \<Rightarrow> SelectCase list \<Rightarrow> unit cm" where
  "compileBlockingSelectStmt R line cases =
     (if cases = [] then failC (ESelectWithoutCases line)
      else if 85 < length cases then failC (ESelectTooManyCases line)
      else
        bindC (askF fNextReg) (\<lambda>base.
        bindC allocReg (\<lambda>selectedReg.
        bindC allocReg (\<lambda>recvReg.
        bindC allocReg (\<lambda>recvOKReg.
        bindC (askF fNextReg) (\<lambda>caseBase.
        thenC (forEachC (loadSelectCase R) cases)
       (thenC (emitABC OP_SELECT selectedReg caseBase (int (length cases)) line)
       (bindC (selectedCases R line selectedReg recvReg recvOKReg 0 cases) (\<lambda>endJumps. seqC [
          forEachC patchJump endJumps,
          setNextReg base])))))))))"

definition compileSelectStmt :: "compilers \<Rightarrow> nat \<Rightarrow> SelectCase list \<Rightarrow> BlockStmt option \<Rightarrow> unit cm" where
  "compileSelectStmt R line cases dflt =
     (case dflt of
        None \<Rightarrow> compileBlockingSelectStmt R line cases
      | Some d \<Rightarrow> compileNonblockingSelectStmt R line cases d)"

subsection \<open>Conditionals and loops\<close>

fun compileElseIfs :: "compilers \<Rightarrow> ElseIfClause list \<Rightarrow> nat list cm" where
  "compileElseIfs R [] = returnC []"
| "compileElseIfs R (ElseIfClause p cond body # rest) =
     bindC (rCondJump R False cond (pLine p)) (\<lambda>nextJump.
     thenC (compileBody R body)
    (bindC (emitJump (pLine p)) (\<lambda>endJump.
     thenC (patchJump nextJump)
    (bindC (compileElseIfs R rest) (\<lambda>endJumps. returnC (endJump # endJumps))))))"

definition compileIfStmt :: "compilers \<Rightarrow> nat \<Rightarrow> Expr \<Rightarrow> BlockStmt \<Rightarrow> ElseIfClause list \<Rightarrow> BlockStmt option \<Rightarrow> unit cm" where
  "compileIfStmt R line cond body elseIfs elseBody =
     bindC (rCondJump R False cond line) (\<lambda>elseJump.
     thenC (compileBody R body)
    (bindC (if elseIfs \<noteq> [] \<or> elseBody \<noteq> None then bindC (emitJump line) (\<lambda>j. returnC [j]) else returnC [])
      (\<lambda>endJumps.
     thenC (patchJump elseJump)
    (bindC (compileElseIfs R elseIfs) (\<lambda>moreJumps. seqC [
       (case elseBody of Some b \<Rightarrow> compileBody R b | None \<Rightarrow> returnC ()),
       forEachC patchJump (endJumps @ moreJumps)])))))"

text \<open>\<open>for i := a; i < b; i++\<close> and its variants: the variable, the value it starts with, the
comparison, the limit, and the step (\<open>None\<close> for \<open>i++\<close>).\<close>

definition simpleStep :: "bytes \<Rightarrow> Stmt \<Rightarrow> Expr option option" where
  "simpleStep varName post =
     (case post of
        IncDecStmt p (IdentExpr q n) op \<Rightarrow> if op = ''++'' \<and> n = varName then Some None else None
      | CompoundAssignStmt p (IdentExpr q n) op v \<Rightarrow> if op = ''+='' \<and> n = varName then Some (Some v) else None
      | AssignStmt p [IdentExpr q n] [BinaryExpr r (IdentExpr s m) op v] \<Rightarrow>
          if n = varName \<and> op = ''+'' \<and> m = varName then Some (Some v) else None
      | _ \<Rightarrow> None)"

definition detectSimpleNumericFor :: "Stmt \<Rightarrow> Expr \<Rightarrow> Stmt \<Rightarrow> (bytes \<times> Expr \<times> bytes \<times> Expr \<times> Expr option) option" where
  "detectSimpleNumericFor init cond post =
     (case init of
        DeclareStmt p [varName] [start] ro \<Rightarrow>
          (case cond of
             BinaryExpr q (IdentExpr r n) op limit \<Rightarrow>
               if n = varName \<and> (op = ''<'' \<or> op = ''<='') then
                 map_option (\<lambda>step. (varName, start, op, limit, step)) (simpleStep varName post)
               else None
           | _ \<Rightarrow> None)
      | _ \<Rightarrow> None)"

definition compileOptimizedForNum ::
  "compilers \<Rightarrow> nat \<Rightarrow> bytes \<Rightarrow> Expr \<Rightarrow> bytes \<Rightarrow> Expr \<Rightarrow> Expr option \<Rightarrow> BlockStmt \<Rightarrow> unit cm" where
  "compileOptimizedForNum R line varName start op limit step body =
     thenC enterScope
    (bindC (allocRegs 4) (\<lambda>baseReg.
     thenC (rExprTo R start baseReg)
    (thenC
      (if op = ''<'' then
         bindC allocReg (\<lambda>limitTmp.
         thenC (rExprTo R limit limitTmp)
        (bindC allocReg (\<lambda>oneReg. seqC [
           emitInt oneReg 1 line,
           emitABC OP_SUB (baseReg + 1) limitTmp oneReg line,
           freeRegs 2])))
       else rExprTo R limit (baseReg + 1))
    (thenC (case step of None \<Rightarrow> emitInt (baseReg + 2) 1 line | Some v \<Rightarrow> rExprTo R v (baseReg + 2))
    (thenC (updF (\<lambda>f. f\<lparr>fLocals := \<lparr>lvName = varName, lvReg = baseReg + 3, lvDepth = fDepth f,
                                     lvCaptured = False, lvReadOnly = False\<rparr> # fLocals f\<rparr>))
    (thenC pushLoop
    (bindC (emitAsBx OP_FORPREP baseReg 0 line) (\<lambda>forprepPos.
     bindC currentPC (\<lambda>loopBodyStart.
     thenC (compileBody R body)
    (bindC currentPC (\<lambda>continueTarget.
     bindC (emitAsBx OP_FORLOOP baseReg (int loopBodyStart - int continueTarget - 1) line) (\<lambda>_.
     thenC (patchCode forprepPos (EncodeAsBx OP_FORPREP baseReg (int continueTarget - int forprepPos - 1)))
    (bindC popLoop (\<lambda>info. seqC [
       patchBreaks info,
       patchContinues info continueTarget,
       leaveScope]))))))))))))))"

text \<open>The condition of a loop and its exit jump, then the body.\<close>

definition loopCond :: "compilers \<Rightarrow> Expr option \<Rightarrow> nat \<Rightarrow> unit cm" where
  "loopCond R cond line =
     (case cond of
        Some e \<Rightarrow> bindC (rCondJump R False e line) addBreakJump
      | None \<Rightarrow> returnC ())"

definition compileGeneralForNum :: "compilers \<Rightarrow> nat \<Rightarrow> Stmt \<Rightarrow> Expr \<Rightarrow> Stmt \<Rightarrow> BlockStmt \<Rightarrow> unit cm" where
  "compileGeneralForNum R line init cond post body =
     thenC enterScope
    (thenC (rStmt R init)
    (thenC pushLoop
    (bindC currentPC (\<lambda>loopTop.
     thenC (loopCond R (Some cond) line)
    (thenC (compileBody R body)
    (bindC currentPC (\<lambda>continueTarget.
     thenC (rStmt R post)
    (bindC (emitJump line) (\<lambda>loopBack.
     thenC (patchJumpTo loopBack loopTop)
    (bindC popLoop (\<lambda>info. seqC [
       patchBreaks info,
       patchContinues info continueTarget,
       leaveScope])))))))))))"

definition compileForNumStmt :: "compilers \<Rightarrow> nat \<Rightarrow> Stmt \<Rightarrow> Expr \<Rightarrow> Stmt \<Rightarrow> BlockStmt \<Rightarrow> unit cm" where
  "compileForNumStmt R line init cond post body =
     (case detectSimpleNumericFor init cond post of
        Some (varName, start, op, limit, step) \<Rightarrow> compileOptimizedForNum R line varName start op limit step body
      | None \<Rightarrow> compileGeneralForNum R line init cond post body)"

definition compileForStmt :: "compilers \<Rightarrow> nat \<Rightarrow> Expr option \<Rightarrow> BlockStmt \<Rightarrow> unit cm" where
  "compileForStmt R line cond body =
     thenC pushLoop
    (bindC currentPC (\<lambda>loopTop.
     thenC (loopCond R cond line)
    (thenC (compileBody R body)
    (bindC currentPC (\<lambda>continueTarget.
     bindC (emitJump line) (\<lambda>loopBack.
     thenC (patchJumpTo loopBack loopTop)
    (bindC popLoop (\<lambda>info. seqC [
       patchBreaks info,
       patchContinues info continueTarget]))))))))"

definition pushLocal :: "bytes \<Rightarrow> int \<Rightarrow> unit cm" where
  "pushLocal name reg = updF (\<lambda>f. f\<lparr>fLocals := \<lparr>lvName = name, lvReg = reg, lvDepth = fDepth f,
                                                lvCaptured = False, lvReadOnly = False\<rparr> # fLocals f\<rparr>)"

fun allocUpTo :: "nat \<Rightarrow> int \<Rightarrow> unit cm" where
  "allocUpTo 0 limit = returnC ()"
| "allocUpTo (Suc k) limit =
     bindC (askF fNextReg) (\<lambda>r. if r < limit then bindC allocReg (\<lambda>_. allocUpTo k limit) else returnC ())"

text \<open>Two registers at most are missing, since three were allocated for the iterator.\<close>

definition compileForRangeStmt :: "compilers \<Rightarrow> nat \<Rightarrow> bytes \<Rightarrow> bytes \<Rightarrow> Expr \<Rightarrow> BlockStmt \<Rightarrow> unit cm" where
  "compileForRangeStmt R line key value iter body =
     thenC enterScope
    (bindC (allocRegs 3) (\<lambda>iterBase.
     thenC
      (if isAnyCall iter then rCallMulti R iter iterBase 3
       else thenC (rExprTo R iter iterBase) (emitABC OP_LOADNIL (iterBase + 1) 1 0 line))
    (let nVars = (if value = [] then 1 else 2);
         captures = forRangeBodyCapturesVars key value body
     in
     thenC (allocUpTo 5 (iterBase + 3 + nVars))
    (thenC (whenC (\<not> captures) (seqC [
        pushLocal key (iterBase + 3),
        whenC (value \<noteq> []) (pushLocal value (iterBase + 4))]))
    (thenC pushLoop
    (bindC currentPC (\<lambda>loopTop.
     thenC (emitABC OP_TFORCALL iterBase 0 nVars line)
    (bindC (emitAsBx OP_TFORLOOP (iterBase + 2) 0 line) (\<lambda>tforloopPos.
     bindC (emitJump line) (\<lambda>exitJump.
     bindC currentPC (\<lambda>bodyStart.
     thenC (scoped (seqC [
        whenC captures (seqC [
          bindC (addLocal key) (\<lambda>keyReg. emitABC OP_MOVE keyReg (iterBase + 3) 0 line),
          whenC (value \<noteq> [])
            (bindC (addLocal value) (\<lambda>valueReg. emitABC OP_MOVE valueReg (iterBase + 4) 0 line))]),
        forEachC (rStmt R) (blockStmts body)]))
    (bindC currentPC (\<lambda>continueTarget.
     bindC (emitJump line) (\<lambda>loopBack.
     thenC (patchJumpTo loopBack loopTop)
    (thenC (patchCode tforloopPos (EncodeAsBx OP_TFORLOOP (iterBase + 2) (int bodyStart - int tforloopPos - 1)))
    (thenC (patchJump exitJump)
    (bindC popLoop (\<lambda>info. seqC [
       patchBreaks info,
       patchContinues info continueTarget,
       leaveScope,
       whenC captures (setNextReg iterBase)]))))))))))))))))))"

subsection \<open>Jumps, returns and functions\<close>

definition compileReturnStmt :: "compilers \<Rightarrow> nat \<Rightarrow> Expr list \<Rightarrow> unit cm" where
  "compileReturnStmt R line vals =
     (if vals = [] then emitReturn 0 1
      else
        bindC (askC (callExprKnownSingleResult (last vals))) (\<lambda>single.
        let final = (\<lambda>reg. if single then None else finalArg R line False (last vals) reg) in
        bindC (askF fNextReg) (\<lambda>base. seqC [
          forEachC (\<lambda>(i, v). bindC allocReg (\<lambda>reg.
            case (if i = int (length vals) - 1 then final reg else None) of
              Some m \<Rightarrow> m
            | None \<Rightarrow> rExprTo R v reg)) (enumerate0 vals),
          emitReturn base (if final 0 \<noteq> None then 0 else int (length vals) + 1),
          setNextReg base])))"

definition compileBreakStmt :: "nat \<Rightarrow> unit cm" where
  "compileBreakStmt line =
     bindC (askF currentLoop) (\<lambda>loop. case loop of
       None \<Rightarrow> failC (EBreakOutsideLoop line)
     | Some l \<Rightarrow> thenC emitCloseForJump (bindC (emitJump line) addBreakJump))"

definition compileContinueStmt :: "nat \<Rightarrow> unit cm" where
  "compileContinueStmt line =
     bindC (askF currentLoop) (\<lambda>loop. case loop of
       None \<Rightarrow> failC (EContinueOutsideLoop line)
     | Some l \<Rightarrow> thenC emitCloseForJump (bindC (emitJump line) addContinueJump))"

definition compileLabelStmt :: "nat \<Rightarrow> bytes \<Rightarrow> unit cm" where
  "compileLabelStmt line name =
     updF (\<lambda>f. f\<lparr>fLabels := (fLabels f)(name := Some \<lparr>clPc = length (fCode f), clDepth = fDepth f, clLine = line\<rparr>)\<rparr>)"

definition compileGotoStmt :: "nat \<Rightarrow> bytes \<Rightarrow> unit cm" where
  "compileGotoStmt line name =
     bindC (askF (\<lambda>f. fLabels f name)) (\<lambda>label. case label of
       Some l \<Rightarrow>
         thenC (emitCloseCapturedAboveDepth (clDepth l))
           (bindC (emitJump line) (\<lambda>jmp. patchJumpTo jmp (clPc l)))
     | None \<Rightarrow>
         bindC (askF (\<lambda>f. fLabelDepths f name)) (\<lambda>target.
         thenC (case target of Some d \<Rightarrow> emitCloseCapturedAboveDepth d | None \<Rightarrow> returnC ())
           (bindC (emitJump line) (\<lambda>jmp.
             updF (\<lambda>f. f\<lparr>fGotos := fGotos f @ [\<lparr>cgName = name, cgPc = jmp, cgDepth = fDepth f, cgLine = line\<rparr>]\<rparr>)))))"

definition compileFuncDeclStmt :: "compilers \<Rightarrow> nat \<Rightarrow> bytes \<Rightarrow> FuncParam list \<Rightarrow> BlockStmt \<Rightarrow> unit cm" where
  "compileFuncDeclStmt R line name params body =
     bindC (askC isMainTopLevel) (\<lambda>mainTop.
     thenC (whenC mainTop (declareGlobal name))
    (bindC (compileFunction R name params body line) (\<lambda>protoIdx.
     bindC (askF (resolveLocal name)) (\<lambda>reg.
       if 0 \<le> reg then emitABx OP_CLOSURE reg protoIdx line
       else bindC (resolveUpvalue name) (\<lambda>upIdx.
         if 0 \<le> upIdx then
           bindC allocReg (\<lambda>tmpReg. seqC [
             emitABx OP_CLOSURE tmpReg protoIdx line,
             emitABC OP_SETUPVAL tmpReg upIdx 0 line,
             freeReg])
         else
           bindC allocReg (\<lambda>tmpReg.
           thenC (emitABx OP_CLOSURE tmpReg protoIdx line)
          (bindC (stringConst name) (\<lambda>nameK. seqC [
             emitABx OP_SETGLOBAL tmpReg nameK line,
             freeReg]))))))))"

definition compileBlockStmt :: "compilers \<Rightarrow> BlockStmt \<Rightarrow> unit cm" where
  "compileBlockStmt R b =
     scoped (seqC [
       collectFunctionArities (blockStmts b),
       forEachC (rStmt R) (blockStmts b)])"

definition compileStmt :: "compilers \<Rightarrow> Stmt \<Rightarrow> unit cm" where
  "compileStmt R s =
     (case s of
        DeclareStmt p ns vs ro \<Rightarrow> compileDeclareStmt R (pLine p) ns vs ro
      | AssignStmt p ts vs \<Rightarrow> compileAssignStmt R (pLine p) ts vs
      | CompoundAssignStmt p t op v \<Rightarrow> compileCompoundAssignStmt R (pLine p) t op v
      | IncDecStmt p t op \<Rightarrow> compileIncDecStmt R (pLine p) t op
      | CallStmt p call \<Rightarrow> compileCallStmt R (pLine p) call
      | IfStmt p cond b es e \<Rightarrow> compileIfStmt R (pLine p) cond b es e
      | ForNumStmt p i cond q b \<Rightarrow> compileForNumStmt R (pLine p) i cond q b
      | ForStmt p cond b \<Rightarrow> compileForStmt R (pLine p) cond b
      | ForRangeStmt p k v i b \<Rightarrow> compileForRangeStmt R (pLine p) k v i b
      | ReturnStmt p vs \<Rightarrow> compileReturnStmt R (pLine p) vs
      | BreakStmt p \<Rightarrow> compileBreakStmt (pLine p)
      | ContinueStmt p \<Rightarrow> compileContinueStmt (pLine p)
      | LabelStmt p n \<Rightarrow> compileLabelStmt (pLine p) n
      | GotoStmt p n \<Rightarrow> compileGotoStmt (pLine p) n
      | FuncDeclStmt p n ps b \<Rightarrow> compileFuncDeclStmt R (pLine p) n ps b
      | NestedBlock b \<Rightarrow> compileBlockStmt R b
      | GoStmt p call \<Rightarrow> compileGoStmt R (pLine p) call
      | DeferStmt p call \<Rightarrow> compileDeferStmt R (pLine p) call
      | SendStmt p ch v \<Rightarrow> compileSendStmt R (pLine p) ch v
      | SelectStmt p cs d \<Rightarrow> compileSelectStmt R (pLine p) cs d
      | EvaluateStmt p n b \<Rightarrow> returnC ())"

end
