(* ===== verification/Compiler_Hoare.thy ===== *)
theory Compiler_Hoare
  imports Bytecode_Valid Compiler_Stmt
begin

section \<open>A Hoare calculus for the compiler's steps\<close>

text \<open>
  \<open>triple G v m Q\<close>: from a well-formed compiler whose current function has the measurements \<open>v\<close>, the
  step \<open>m\<close>, if it does not report an error, leaves a well-formed compiler and a result that satisfy
  \<open>Q\<close>. The measurements (\<open>view\<close>) are the numbers the compiler computes with: the next and the
  highest register, the sizes of its tables, the registers and depths of the locals and the depth.
  Well-formedness says that the code emitted so far is valid for these sizes. The ghost \<open>G\<close> holds a
  register count that is still to be reached (a call names its result registers before they are
  allocated), and a position and a register: the code from that position on writes no register below
  that one. Enclosing functions only gain upvalues and captured marks.
\<close>

named_theorems triple_intros \<open>introduction rules: a step of the compiler keeps the code valid\<close>

subsection \<open>Measurements\<close>

record view =
  vNext :: int
  vMax :: int
  vLen :: nat
  vK :: nat
  vU :: nat
  vP :: nat
  v2 :: nat
  vN :: "nat list"
  vLocals :: "(int \<times> int) list"
  vDepth :: int

definition lvKey :: "localVar \<Rightarrow> int \<times> int" where
  "lvKey l = (lvReg l, lvDepth l)"

definition viewOf :: "fstate \<Rightarrow> view" where
  "viewOf f = \<lparr>vNext = fNextReg f, vMax = fMaxReg f, vLen = length (fCode f), vK = length (fConstants f),
     vU = length (fUpvals f), vP = length (fProtos f), v2 = length (fTableCtors2 f),
     vN = map (\<lambda>t. length (tnKeyConsts t)) (fTableCtorsN f), vLocals = map lvKey (fLocals f), vDepth = fDepth f\<rparr>"

lemma viewOf_sel [simp]:
  "vNext (viewOf f) = fNextReg f" "vMax (viewOf f) = fMaxReg f" "vLen (viewOf f) = length (fCode f)"
  "vK (viewOf f) = length (fConstants f)" "vU (viewOf f) = length (fUpvals f)" "vP (viewOf f) = length (fProtos f)"
  "v2 (viewOf f) = length (fTableCtors2 f)" "vN (viewOf f) = map (\<lambda>t. length (tnKeyConsts t)) (fTableCtorsN f)"
  "vLocals (viewOf f) = map lvKey (fLocals f)" "vDepth (viewOf f) = fDepth f"
  by (simp_all add: viewOf_def)

text \<open>One more than the register of the newest local.\<close>

fun localTop :: "(int \<times> int) list \<Rightarrow> int" where
  "localTop [] = 0"
| "localTop ((r, d) # ls) = r + 1"

definition vTop :: "view \<Rightarrow> int" where
  "vTop v = localTop (vLocals v)"

definition okLocals :: "int \<Rightarrow> (int \<times> int) list \<Rightarrow> bool" where
  "okLocals depth ls \<longleftrightarrow> sorted_wrt (\<lambda>l m. fst m < fst l) ls \<and> (\<forall>l\<in>set ls. 0 \<le> fst l \<and> snd l \<le> depth)"

definition okView :: "view \<Rightarrow> bool" where
  "okView v \<longleftrightarrow> okLocals (vDepth v) (vLocals v) \<and> vTop v \<le> vNext v \<and> vNext v \<le> vMax v"

lemma okLocals_Cons: "okLocals d ((r, e) # ls) \<longleftrightarrow> 0 \<le> r \<and> e \<le> d \<and> localTop ls \<le> r \<and> okLocals d ls"
  by (cases ls) (auto simp: okLocals_def)

lemma localTop_member: "okLocals d ls \<Longrightarrow> (r, e) \<in> set ls \<Longrightarrow> 0 \<le> r \<and> r < localTop ls"
  by (cases ls) (auto simp: okLocals_def)

lemma localTop_nonneg: "okLocals d ls \<Longrightarrow> 0 \<le> localTop ls"
  by (cases ls) (auto simp: okLocals_def)

lemma okLocals_deeper: "okLocals d ls \<Longrightarrow> d \<le> e \<Longrightarrow> okLocals e ls"
  by (auto simp: okLocals_def)

lemma okLocals_append: "okLocals d (new @ old) \<Longrightarrow> okLocals d old"
  by (auto simp: okLocals_def sorted_wrt_append)

lemma localTop_append: "okLocals d (new @ old) \<Longrightarrow> localTop old \<le> localTop (new @ old)"
  by (cases new; cases old) (auto simp: okLocals_def)

lemma okView_next: "okView v \<Longrightarrow> 0 \<le> vTop v \<and> vTop v \<le> vNext v \<and> vNext v \<le> vMax v"
  by (auto simp: okView_def vTop_def localTop_nonneg)

record ghost =
  gX :: int
  gS :: nat
  gD :: int

definition vLimit :: "ghost \<Rightarrow> view \<Rightarrow> int" where
  "vLimit G v = max (vMax v) (gX G) + 2"

definition dimsOf :: "ghost \<Rightarrow> view \<Rightarrow> dims" where
  "dimsOf G v = \<lparr>dReg = vLimit G v, dK = vK v, dU = vU v, dP = vP v, d2 = v2 v, dN = vN v, dLen = vLen v\<rparr>"

lemma dimsOf_sel [simp]:
  "dReg (dimsOf G v) = vLimit G v" "dK (dimsOf G v) = vK v" "dU (dimsOf G v) = vU v" "dP (dimsOf G v) = vP v"
  "d2 (dimsOf G v) = v2 v" "dN (dimsOf G v) = vN v" "dLen (dimsOf G v) = vLen v"
  by (simp_all add: dimsOf_def)

subsection \<open>Well-formed compilers\<close>

definition okInst :: "ghost \<Rightarrow> view \<Rightarrow> nat \<Rightarrow> 32 word \<Rightarrow> bool" where
  "okInst G v i inst \<longleftrightarrow>
     instOK (dimsOf G v) i inst \<and> (gS G \<le> i \<longrightarrow> vLimit G v \<le> 256 \<longrightarrow> keepsBelow (gD G) inst)"

definition okCode :: "ghost \<Rightarrow> view \<Rightarrow> 32 word list \<Rightarrow> bool" where
  "okCode G v code \<longleftrightarrow> (\<forall>i<length code. okInst G v i (code ! i))"

definition okJumps :: "nat \<Rightarrow> loopInfo list \<Rightarrow> (bytes \<Rightarrow> compiledLabel option) \<Rightarrow> compiledGoto list \<Rightarrow> bool" where
  "okJumps n loops labels gotos \<longleftrightarrow>
     (\<forall>l\<in>set loops. \<forall>p\<in>set (liBreakJumps l) \<union> set (liContinueJumps l). p < n) \<and>
     (\<forall>name l. labels name = Some l \<longrightarrow> clPc l \<le> n) \<and> (\<forall>g\<in>set gotos. cgPc g < n)"

definition okProtos :: "int \<Rightarrow> nat \<Rightarrow> FuncProto list \<Rightarrow> bool" where
  "okProtos regs upvals ps \<longleftrightarrow>
     list_all validProto ps \<and> list_all (\<lambda>p. list_all (upvalFits regs upvals) (poUpvalues p)) ps"

definition okF :: "ghost \<Rightarrow> fstate \<Rightarrow> bool" where
  "okF G f \<longleftrightarrow> okCode G (viewOf f) (fCode f) \<and> length (fLineInfo f) = length (fCode f) \<and> okView (viewOf f) \<and>
     okJumps (length (fCode f)) (fLoops f) (fLabels f) (fGotos f) \<and>
     okProtos (fMaxReg f + 2) (length (fUpvals f)) (fProtos f) \<and>
     ctorsOK (length (fConstants f)) (fTableCtors2 f) (fTableCtorsN f)"

fun okChain :: "fstate \<Rightarrow> fstate list \<Rightarrow> bool" where
  "okChain f [] \<longleftrightarrow> fUpvals f = []"
| "okChain f (p # ps) \<longleftrightarrow>
     list_all (upvalFits (fMaxReg p + 2) (length (fUpvals p))) (fUpvals f) \<and> okView (viewOf p) \<and> okChain p ps"

definition okC :: "ghost \<Rightarrow> compiler \<Rightarrow> bool" where
  "okC G c \<longleftrightarrow> okF G (cFn c) \<and> okChain (cFn c) (cParents c)"

text \<open>What compiling a nested function may change in an enclosing one.\<close>

definition parentStep :: "fstate \<Rightarrow> fstate \<Rightarrow> bool" where
  "parentStep p q \<longleftrightarrow> (\<exists>us ls. q = p\<lparr>fLocals := ls, fUpvals := fUpvals p @ us\<rparr> \<and> map lvKey ls = map lvKey (fLocals p))"

text \<open>Every size is at least what it was.\<close>

definition grown :: "view \<Rightarrow> view \<Rightarrow> bool" where
  "grown v w \<longleftrightarrow> vMax v \<le> vMax w \<and> vLen v \<le> vLen w \<and> vK v \<le> vK w \<and> vU v \<le> vU w \<and> vP v \<le> vP w \<and> v2 v \<le> v2 w \<and>
     (\<exists>ns. vN w = vN v @ ns)"

lemma grown_refl [simp]: "grown v v"
  by (simp add: grown_def)

lemma grown_trans [trans]: "grown u v \<Longrightarrow> grown v w \<Longrightarrow> grown u w"
  by (auto simp: grown_def)

lemma grown_upd [simp]:
  "grown v (v\<lparr>vNext := r\<rparr>)" "grown v (v\<lparr>vMax := r\<rparr>) \<longleftrightarrow> vMax v \<le> r" "grown v (v\<lparr>vLen := n\<rparr>) \<longleftrightarrow> vLen v \<le> n"
  "grown v (v\<lparr>vK := n\<rparr>) \<longleftrightarrow> vK v \<le> n" "grown v (v\<lparr>vU := n\<rparr>) \<longleftrightarrow> vU v \<le> n" "grown v (v\<lparr>vP := n\<rparr>) \<longleftrightarrow> vP v \<le> n"
  "grown v (v\<lparr>v2 := n\<rparr>) \<longleftrightarrow> v2 v \<le> n" "grown v (v\<lparr>vN := vN v @ ns\<rparr>)" "grown v (v\<lparr>vLocals := ls\<rparr>)" "grown v (v\<lparr>vDepth := d\<rparr>)"
  by (simp_all add: grown_def)

definition triple :: "ghost \<Rightarrow> view \<Rightarrow> 'a cm \<Rightarrow> ('a \<Rightarrow> view \<Rightarrow> bool) \<Rightarrow> bool" where
  "triple G v m Q \<longleftrightarrow> (\<forall>c a c'. okC G c \<longrightarrow> viewOf (cFn c) = v \<longrightarrow> m c = COk a c' \<longrightarrow>
     okC G c' \<and> list_all2 parentStep (cParents c) (cParents c') \<and> grown v (viewOf (cFn c')) \<and> Q a (viewOf (cFn c')))"

subsection \<open>Growing\<close>

lemma dimsOf_mono: "grown v w \<Longrightarrow> gX G \<le> gX H \<Longrightarrow> dims_le (dimsOf G v) (dimsOf H w)"
  by (auto simp: grown_def dims_le_def vLimit_def)

lemma okInst_grown: "okInst G v i inst \<Longrightarrow> grown v w \<Longrightarrow> okInst G w i inst"
  using instOK_mono [OF _ dimsOf_mono [of v w G G]] by (auto simp: okInst_def grown_def vLimit_def)

lemma okCode_grown: "okCode G v code \<Longrightarrow> grown v w \<Longrightarrow> okCode G w code"
  by (auto simp: okCode_def intro: okInst_grown)

lemma upvalFits_mono: "upvalFits r n u \<Longrightarrow> r \<le> r' \<Longrightarrow> n \<le> n' \<Longrightarrow> upvalFits r' n' u"
  by (auto simp: upvalFits_def split: if_splits)

lemma okProtos_mono: "okProtos r n ps \<Longrightarrow> r \<le> r' \<Longrightarrow> n \<le> n' \<Longrightarrow> okProtos r' n' ps"
  by (auto simp: okProtos_def list_all_iff intro: upvalFits_mono)

lemma ctorsOK_mono: "ctorsOK k twos many \<Longrightarrow> k \<le> k' \<Longrightarrow> ctorsOK k' twos many"
  by (fastforce simp: ctorsOK_def list_all_iff)

lemma okJumps_mono: "okJumps n loops labels gotos \<Longrightarrow> n \<le> n' \<Longrightarrow> okJumps n' loops labels gotos"
  unfolding okJumps_def by (meson less_le_trans order_trans)

lemma parentStep_refl [simp]: "parentStep p p"
  unfolding parentStep_def by (rule exI [of _ "[]"], rule exI [of _ "fLocals p"]) simp

lemma parentStep_trans: "parentStep p q \<Longrightarrow> parentStep q r \<Longrightarrow> parentStep p r"
  by (fastforce simp: parentStep_def)

lemma parentSteps_refl [simp]: "list_all2 parentStep ps ps"
  by (simp add: list_all2_same)

lemma parentSteps_trans: "list_all2 parentStep ps qs \<Longrightarrow> list_all2 parentStep qs rs \<Longrightarrow> list_all2 parentStep ps rs"
  by (rule list_all2_trans) (auto intro: parentStep_trans)

lemma parentStep_view: "parentStep p q \<Longrightarrow> viewOf q = (viewOf p)\<lparr>vU := length (fUpvals q)\<rparr> \<and> vU (viewOf p) \<le> vU (viewOf q)"
  by (auto simp: parentStep_def viewOf_def)

lemma okView_U [simp]: "okView (v\<lparr>vU := n\<rparr>) = okView v"
  by (simp add: okView_def vTop_def)

lemma parentStep_okView: "parentStep p q \<Longrightarrow> okView (viewOf p) \<Longrightarrow> okView (viewOf q)"
  using parentStep_view [of p q] by (metis okView_U)

lemma parentStep_okF: "parentStep p q \<Longrightarrow> okF G p \<Longrightarrow> okF G q"
proof -
  assume s: "parentStep p q" and ok: "okF G p"
  have "grown (viewOf p) (viewOf q)" using s by (auto simp: parentStep_def viewOf_def grown_def)
  moreover have "fCode q = fCode p" "fLineInfo q = fLineInfo p" "fLoops q = fLoops p" "fLabels q = fLabels p"
    "fGotos q = fGotos p" "fMaxReg q = fMaxReg p" "length (fUpvals p) \<le> length (fUpvals q)" "fProtos q = fProtos p"
    "fConstants q = fConstants p" "fTableCtors2 q = fTableCtors2 p" "fTableCtorsN q = fTableCtorsN p"
    using s by (auto simp: parentStep_def)
  ultimately show ?thesis
    using ok parentStep_okView [OF s] okProtos_mono [of "fMaxReg p + 2" "length (fUpvals p)" "fProtos p" "fMaxReg p + 2"]
    by (auto simp: okF_def intro: okCode_grown)
qed

subsection \<open>Composition\<close>

lemma bindC_assoc: "bindC (bindC m f) g = bindC m (\<lambda>a. bindC (f a) g)"
  by (rule ext) (simp add: bindC_def split: cres.split)

lemma bindC_return: "bindC (returnC a) f = f a"
  by (rule ext) (simp add: bindC_def returnC_def)

lemma tripleD:
  "triple G v m Q \<Longrightarrow> m c = COk a c' \<Longrightarrow> okC G c \<Longrightarrow> viewOf (cFn c) = v \<Longrightarrow>
     okC G c' \<and> list_all2 parentStep (cParents c) (cParents c') \<and> grown v (viewOf (cFn c')) \<and> Q a (viewOf (cFn c'))"
  by (auto simp: triple_def)

lemma tripleI:
  assumes "\<And>c a c'. okC G c \<Longrightarrow> viewOf (cFn c) = v \<Longrightarrow> m c = COk a c' \<Longrightarrow>
     okC G c' \<and> list_all2 parentStep (cParents c) (cParents c') \<and> grown v (viewOf (cFn c')) \<and> Q a (viewOf (cFn c'))"
  shows "triple G v m Q"
  using assms unfolding triple_def by blast

lemma triple_ok: "(okView v \<Longrightarrow> triple G v m Q) \<Longrightarrow> triple G v m Q"
  by (auto simp: triple_def okC_def okF_def)

lemma triple_weaken: "triple G v m P \<Longrightarrow> (\<And>a w. okView w \<Longrightarrow> grown v w \<Longrightarrow> P a w \<Longrightarrow> Q a w) \<Longrightarrow> triple G v m Q"
proof (rule tripleI)
  fix c a c'
  assume t: "triple G v m P" and w: "\<And>a w. okView w \<Longrightarrow> grown v w \<Longrightarrow> P a w \<Longrightarrow> Q a w"
    and c: "okC G c" "viewOf (cFn c) = v" "m c = COk a c'"
  from tripleD [OF t c(3,1,2)] w show "okC G c' \<and> list_all2 parentStep (cParents c) (cParents c') \<and> grown v (viewOf (cFn c')) \<and> Q a (viewOf (cFn c'))"
    unfolding okC_def okF_def by blast
qed

lemma triple_return [triple_intros]: "Q a v \<Longrightarrow> triple G v (returnC a) Q"
  by (auto simp: triple_def returnC_def)

lemma triple_fail [triple_intros]: "triple G v (failC e) Q"
  by (auto simp: triple_def failC_def)

lemma triple_bind [triple_intros]: "triple G v m (\<lambda>a w. triple G w (f a) Q) \<Longrightarrow> triple G v (bindC m f) Q"
proof (rule tripleI)
  fix c a c'
  assume t: "triple G v m (\<lambda>a w. triple G w (f a) Q)" and c: "okC G c" "viewOf (cFn c) = v" "bindC m f c = COk a c'"
  from c(3) obtain b d where m: "m c = COk b d" and f: "f b d = COk a c'"
    unfolding bindC_def by (auto split: cres.splits)
  from tripleD [OF t m c(1,2)] have d: "okC G d" "list_all2 parentStep (cParents c) (cParents d)" "grown v (viewOf (cFn d))"
    and next_step: "triple G (viewOf (cFn d)) (f b) Q" by auto
  from tripleD [OF next_step f d(1)] d(2,3)
  show "okC G c' \<and> list_all2 parentStep (cParents c) (cParents c') \<and> grown v (viewOf (cFn c')) \<and> Q a (viewOf (cFn c'))"
    by (auto intro: parentSteps_trans grown_trans)
qed

lemma triple_then [triple_intros]: "triple G v m (\<lambda>_ w. triple G w k Q) \<Longrightarrow> triple G v (thenC m k) Q"
  unfolding thenC_def by (rule triple_bind)

lemma triple_when [triple_intros]:
  "(b \<Longrightarrow> triple G v m Q) \<Longrightarrow> (\<not> b \<Longrightarrow> Q () v) \<Longrightarrow> triple G v (whenC b m) Q"
  by (simp add: whenC_def triple_return)

lemma triple_if [triple_intros]:
  "(b \<Longrightarrow> triple G v m Q) \<Longrightarrow> (\<not> b \<Longrightarrow> triple G v k Q) \<Longrightarrow> triple G v (if b then m else k) Q"
  by simp

lemma triple_pair [triple_intros]:
  "(\<And>a b. p = (a, b) \<Longrightarrow> triple G v (f a b) Q) \<Longrightarrow> triple G v (case p of (a, b) \<Rightarrow> f a b) Q"
  by (cases p) simp

lemma triple_option [triple_intros]:
  "(x = None \<Longrightarrow> triple G v m Q) \<Longrightarrow> (\<And>y. x = Some y \<Longrightarrow> triple G v (f y) Q) \<Longrightarrow>
     triple G v (case x of None \<Rightarrow> m | Some y \<Rightarrow> f y) Q"
  by (cases x) simp_all

lemma triple_seq_Nil [triple_intros]: "Q () v \<Longrightarrow> triple G v (seqC []) Q"
  by (simp add: seqC_def triple_return)

lemma triple_seq_Cons [triple_intros]:
  "triple G v m (\<lambda>_ w. triple G w (seqC ms) Q) \<Longrightarrow> triple G v (seqC (m # ms)) Q"
  by (simp add: seqC_def triple_then)

text \<open>A loop over a list keeps what its body keeps.\<close>

lemma triple_forEach:
  assumes "I v" "\<And>x w. x \<in> set xs \<Longrightarrow> I w \<Longrightarrow> triple G w (f x) (\<lambda>_. I)" "\<And>w. I w \<Longrightarrow> Q () w"
  shows "triple G v (forEachC f xs) Q"
proof -
  have "triple G v (forEachC f xs) (\<lambda>_. I)"
    using assms(1,2)
  proof (induction xs arbitrary: v)
    case (Cons x xs)
    show ?case using Cons.prems Cons.IH
      by (auto intro!: triple_then intro: triple_weaken [OF Cons.prems(2)])
  qed (simp add: triple_return)
  then show ?thesis by (rule triple_weaken) (simp add: assms(3))
qed

text \<open>An indexed loop: the invariant counts the elements done.\<close>

lemma triple_forEach_nth:
  assumes "I 0 v" "\<And>k w. k < length xs \<Longrightarrow> I k w \<Longrightarrow> triple G w (f (xs ! k)) (\<lambda>_. I (Suc k))"
    "\<And>w. I (length xs) w \<Longrightarrow> Q () w"
  shows "triple G v (forEachC f xs) Q"
proof -
  have "triple G v (forEachC f (drop k xs)) (\<lambda>_. I (length xs))" if "k \<le> length xs" "I k v" for k v
    using that
  proof (induction "length xs - k" arbitrary: k v)
    case 0
    then show ?case by (simp add: triple_return)
  next
    case (Suc n)
    then have "k < length xs" by simp
    then show ?case using Suc assms(2) [of k v]
      by (auto simp: Cons_nth_drop_Suc [symmetric] intro!: triple_then elim!: triple_weaken)
  qed
  from this [of 0 v] assms(1,3) show ?thesis by (auto intro: triple_weaken)
qed

text \<open>Registers may be counted before they are reached.\<close>

lemma okF_pending:
  assumes "okF G f" "gX G \<le> y"
  shows "okF (G\<lparr>gX := y\<rparr>) f"
proof -
  have "okInst (G\<lparr>gX := y\<rparr>) (viewOf f) i inst" if "okInst G (viewOf f) i inst" for i inst
    using that instOK_mono [OF _ dimsOf_mono [of "viewOf f" "viewOf f" G "G\<lparr>gX := y\<rparr>"]] assms(2)
    by (auto simp: okInst_def vLimit_def)
  with assms(1) show ?thesis by (auto simp: okF_def okCode_def)
qed

lemma okF_reached:
  assumes "okF (G\<lparr>gX := y\<rparr>) f" "gX G \<le> y" "y \<le> fMaxReg f"
  shows "okF G f"
proof -
  have "dimsOf (G\<lparr>gX := y\<rparr>) (viewOf f) = dimsOf G (viewOf f)" "vLimit (G\<lparr>gX := y\<rparr>) (viewOf f) = vLimit G (viewOf f)"
    using assms(2,3) by (auto simp: dimsOf_def vLimit_def)
  with assms(1) show ?thesis by (simp add: okF_def okCode_def okInst_def)
qed

lemma triple_pending:
  assumes "gX G \<le> y" "triple (G\<lparr>gX := y\<rparr>) v m (\<lambda>a w. y \<le> vMax w \<and> Q a w)"
  shows "triple G v m Q"
  using assms unfolding triple_def okC_def
  by (metis okF_pending okF_reached viewOf_sel(2))

subsection \<open>Reads and updates\<close>

lemma triple_askF:
  "(\<And>f. viewOf f = v \<Longrightarrow> okF G f \<Longrightarrow> Q (g f) v) \<Longrightarrow> triple G v (askF g) Q"
  by (auto simp: triple_def askF_def askC_def okC_def)

lemma triple_askC: "(\<And>c. Q (g c) v) \<Longrightarrow> triple G v (askC g) Q"
  by (auto simp: triple_def askC_def)

lemma triple_updC:
  assumes "\<And>c. okF G (cFn c) \<Longrightarrow> viewOf (cFn c) = v \<Longrightarrow>
      okF G (cFn (g c)) \<and> viewOf (cFn (g c)) = w \<and> fUpvals (cFn (g c)) = fUpvals (cFn c) \<and> cParents (g c) = cParents c"
    and "grown v w" "Q () w"
  shows "triple G v (updC g) Q"
proof (rule tripleI)
  fix c a c'
  assume c: "okC G c" "viewOf (cFn c) = v" "updC g c = COk a c'"
  then have c': "c' = g c" and f: "okF G (cFn c)" by (simp_all add: updC_def okC_def)
  have chain: "okChain f ps \<Longrightarrow> fUpvals f' = fUpvals f \<Longrightarrow> okChain f' ps" for f f' ps by (cases ps) auto
  from assms(1) [OF f c(2)] c(1) assms(2,3) chain show
    "okC G c' \<and> list_all2 parentStep (cParents c) (cParents c') \<and> grown v (viewOf (cFn c')) \<and> Q a (viewOf (cFn c'))"
    unfolding okC_def c' by auto
qed

lemma triple_updF:
  assumes "\<And>f. okF G f \<Longrightarrow> viewOf f = v \<Longrightarrow> okF G (g f) \<and> viewOf (g f) = w \<and> fUpvals (g f) = fUpvals f"
    and "grown v w" "Q () w"
  shows "triple G v (updF g) Q"
  unfolding updF_def by (rule triple_updC) (use assms in auto)

text \<open>An update that leaves the code and the tables alone is judged by the measurements.\<close>

lemma okF_frame:
  assumes "okF G f" "fCode g = fCode f" "fLineInfo g = fLineInfo f" "fLoops g = fLoops f" "fLabels g = fLabels f"
    "fGotos g = fGotos f" "fUpvals g = fUpvals f" "fProtos g = fProtos f" "fConstants g = fConstants f"
    "fTableCtors2 g = fTableCtors2 f" "fTableCtorsN g = fTableCtorsN f" "fMaxReg f \<le> fMaxReg g" "okView (viewOf g)"
  shows "okF G g"
proof -
  have "grown (viewOf f) (viewOf g)" using assms by (auto simp: viewOf_def grown_def)
  then show ?thesis using assms okProtos_mono [of "fMaxReg f + 2" "length (fUpvals f)" "fProtos f" "fMaxReg g + 2"]
    by (auto simp: okF_def intro: okCode_grown)
qed

lemma triple_regs:
  assumes "okView w" "vMax v \<le> vMax w"
    "\<And>f. viewOf f = v \<Longrightarrow> viewOf (g f) = w \<and> fCode (g f) = fCode f \<and> fLineInfo (g f) = fLineInfo f \<and> fLoops (g f) = fLoops f \<and>
      fLabels (g f) = fLabels f \<and> fGotos (g f) = fGotos f \<and> fUpvals (g f) = fUpvals f \<and> fProtos (g f) = fProtos f \<and>
      fConstants (g f) = fConstants f \<and> fTableCtors2 (g f) = fTableCtors2 f \<and> fTableCtorsN (g f) = fTableCtorsN f"
    "Q () w"
  shows "triple G v (updF g) Q"
  unfolding updF_def
proof (rule tripleI)
  fix c a c'
  assume c: "okC G c" "viewOf (cFn c) = v" "updC (cFn_update g) c = COk a c'"
  let ?f = "cFn c"
  have f: "okF G ?f" and c': "c' = cFn_update g c" using c by (simp_all add: okC_def updC_def)
  note g = assms(3) [OF c(2)]
  have max: "fMaxReg ?f \<le> fMaxReg (g ?f)" using assms(2) c(2) g viewOf_sel(2) by metis
  then have "okF G (g ?f)" using g assms(1) by (intro okF_frame [OF f]) auto
  moreover have "grown (viewOf ?f) (viewOf (g ?f))" unfolding grown_def viewOf_sel using g max by simp
  moreover have "okChain (g ?f) (cParents c)" using c(1) g by (cases "cParents c") (auto simp: okC_def)
  ultimately show "okC G c' \<and> list_all2 parentStep (cParents c) (cParents c') \<and> grown v (viewOf (cFn c')) \<and> Q a (viewOf (cFn c'))"
    using assms(4) g c(2) by (simp add: okC_def c')
qed

subsection \<open>Registers\<close>

lemma vTop_upd [simp]:
  "vTop (v\<lparr>vNext := r\<rparr>) = vTop v" "vTop (v\<lparr>vMax := r\<rparr>) = vTop v" "vTop (v\<lparr>vLen := n\<rparr>) = vTop v"
  "vTop (v\<lparr>vK := n\<rparr>) = vTop v" "vTop (v\<lparr>vU := n\<rparr>) = vTop v" "vTop (v\<lparr>vP := n\<rparr>) = vTop v"
  "vTop (v\<lparr>v2 := n\<rparr>) = vTop v" "vTop (v\<lparr>vN := ns\<rparr>) = vTop v" "vTop (v\<lparr>vDepth := r\<rparr>) = vTop v"
  by (simp_all add: vTop_def)

lemma triple_next [triple_intros]: "Q (vNext v) v \<Longrightarrow> triple G v (askF fNextReg) Q"
  by (rule triple_askF) auto

lemma growMax_view: "viewOf (growMax f) = (viewOf f)\<lparr>vMax := max (vMax (viewOf f)) (vNext (viewOf f))\<rparr>"
  by (simp add: growMax_def viewOf_def)

lemma growMax_frame [simp]:
  "fCode (growMax f) = fCode f" "fLineInfo (growMax f) = fLineInfo f" "fLoops (growMax f) = fLoops f"
  "fLabels (growMax f) = fLabels f" "fGotos (growMax f) = fGotos f" "fUpvals (growMax f) = fUpvals f"
  "fProtos (growMax f) = fProtos f" "fConstants (growMax f) = fConstants f" "fTableCtors2 (growMax f) = fTableCtors2 f"
  "fTableCtorsN (growMax f) = fTableCtorsN f"
  by (simp_all add: growMax_def)

text \<open>The registers after an allocation.\<close>

abbreviation vAlloc :: "int \<Rightarrow> view \<Rightarrow> view" where
  "vAlloc r v \<equiv> v\<lparr>vNext := r, vMax := max (vMax v) r\<rparr>"

lemma triple_raise [triple_intros]:
  assumes "vTop v \<le> r" "\<And>m. vMax v \<le> m \<Longrightarrow> r \<le> m \<Longrightarrow> Q () (v\<lparr>vNext := r, vMax := m\<rparr>)"
  shows "triple G v (raiseNextReg r) Q"
proof (rule triple_ok)
  assume ok: "okView v"
  show ?thesis unfolding raiseNextReg_def
  proof (rule triple_regs)
    show "okView (vAlloc r v)" using ok assms(1) by (auto simp: okView_def)
    show "Q () (vAlloc r v)" by (rule assms(2)) simp_all
    fix f assume "viewOf f = v"
    then show "viewOf (growMax (f\<lparr>fNextReg := r\<rparr>)) = vAlloc r v \<and> fCode (growMax (f\<lparr>fNextReg := r\<rparr>)) = fCode f \<and>
        fLineInfo (growMax (f\<lparr>fNextReg := r\<rparr>)) = fLineInfo f \<and> fLoops (growMax (f\<lparr>fNextReg := r\<rparr>)) = fLoops f \<and>
        fLabels (growMax (f\<lparr>fNextReg := r\<rparr>)) = fLabels f \<and> fGotos (growMax (f\<lparr>fNextReg := r\<rparr>)) = fGotos f \<and>
        fUpvals (growMax (f\<lparr>fNextReg := r\<rparr>)) = fUpvals f \<and> fProtos (growMax (f\<lparr>fNextReg := r\<rparr>)) = fProtos f \<and>
        fConstants (growMax (f\<lparr>fNextReg := r\<rparr>)) = fConstants f \<and>
        fTableCtors2 (growMax (f\<lparr>fNextReg := r\<rparr>)) = fTableCtors2 f \<and>
        fTableCtorsN (growMax (f\<lparr>fNextReg := r\<rparr>)) = fTableCtorsN f"
      by (auto simp: viewOf_def growMax_def)
  qed simp
qed

lemma raise_relative: "updF (\<lambda>f. growMax (f\<lparr>fNextReg := fNextReg f + n\<rparr>)) = bindC (askF fNextReg) (\<lambda>r. raiseNextReg (r + n))"
  by (simp add: raiseNextReg_def bindC_def askF_def askC_def updF_def updC_def fun_eq_iff)

lemma triple_allocRegs [triple_intros]:
  "0 \<le> n \<Longrightarrow> (\<And>m. vMax v \<le> m \<Longrightarrow> vNext v + n \<le> m \<Longrightarrow> Q (vNext v) (v\<lparr>vNext := vNext v + n, vMax := m\<rparr>)) \<Longrightarrow>
     triple G v (allocRegs n) Q"
  unfolding allocRegs_def raise_relative
  by (rule triple_ok) (auto intro!: triple_intros dest: okView_next)

lemma triple_alloc [triple_intros]:
  "(\<And>m. vMax v \<le> m \<Longrightarrow> vNext v + 1 \<le> m \<Longrightarrow> Q (vNext v) (v\<lparr>vNext := vNext v + 1, vMax := m\<rparr>)) \<Longrightarrow>
     triple G v allocReg Q"
  using triple_allocRegs [where n = 1 and Q = Q and v = v and G = G] by (simp add: allocReg_def allocRegs_def)

lemma triple_setNext [triple_intros]:
  assumes "vTop v \<le> r" "r \<le> vMax v" "Q () (v\<lparr>vNext := r\<rparr>)"
  shows "triple G v (setNextReg r) Q"
proof (rule triple_ok)
  assume ok: "okView v"
  show ?thesis unfolding setNextReg_def
    by (rule triple_regs [where w = "v\<lparr>vNext := r\<rparr>"]) (use assms ok in \<open>auto simp: okView_def vTop_def viewOf_def\<close>)
qed

lemma triple_free [triple_intros]:
  assumes "0 \<le> n" "vTop v \<le> vNext v - n" "Q () (v\<lparr>vNext := vNext v - n\<rparr>)"
  shows "triple G v (freeRegs n) Q"
proof (rule triple_ok)
  assume ok: "okView v"
  show ?thesis unfolding freeRegs_def
    by (rule triple_regs [where w = "v\<lparr>vNext := vNext v - n\<rparr>"])
      (use assms ok in \<open>auto simp: okView_def vTop_def viewOf_def\<close>)
qed

lemma triple_free1 [triple_intros]:
  "vTop v \<le> vNext v - 1 \<Longrightarrow> Q () (v\<lparr>vNext := vNext v - 1\<rparr>) \<Longrightarrow> triple G v freeReg Q"
  unfolding freeReg_def by (rule triple_free) auto

subsection \<open>Code\<close>

lemma viewOf_emit [simp]:
  "viewOf (f\<lparr>fCode := fCode f @ [inst], fLineInfo := li, fUsesVararg := b\<rparr>) = (viewOf f)\<lparr>vLen := Suc (length (fCode f))\<rparr>"
  by (simp add: viewOf_def)

lemma triple_len: "Q (vLen v) v \<Longrightarrow> triple G v (askF (\<lambda>f. length (fCode f))) Q"
  by (rule triple_askF) auto

lemma triple_emit:
  assumes "\<And>w. w = v\<lparr>vLen := Suc (vLen v)\<rparr> \<Longrightarrow> okInst G w (vLen v) inst" "Q (vLen v) (v\<lparr>vLen := Suc (vLen v)\<rparr>)"
  shows "triple G v (emit inst line) Q"
proof -
  have ok: "okF G (f\<lparr>fCode := fCode f @ [inst], fLineInfo := fLineInfo f @ [line], fUsesVararg := b\<rparr>)" (is "okF G ?g")
    if f: "okF G f" "viewOf f = v" for f b
  proof -
    have "grown (viewOf f) (viewOf ?g)" by (simp add: grown_def)
    then have old: "okCode G (viewOf ?g) (fCode f)" using f by (auto simp: okF_def intro: okCode_grown)
    have "okInst G (viewOf ?g) (length (fCode f)) inst" using f assms(1) by auto
    then have "okCode G (viewOf ?g) (fCode ?g)" using old by (auto simp: okCode_def nth_append less_Suc_eq)
    then show ?thesis using f okJumps_mono [of "length (fCode f)" "fLoops f" "fLabels f" "fGotos f" "Suc (length (fCode f))"]
      by (auto simp: okF_def okView_def)
  qed
  show ?thesis unfolding emit_def
    by (intro triple_bind triple_then triple_len triple_updF [where w = "v\<lparr>vLen := Suc (vLen v)\<rparr>"])
      (auto intro: ok triple_return assms(2))
qed

lemma triple_emitABC [triple_intros]:
  assumes "abcOK (dimsOf G v) op a b c" "writesAbove (gD G) op a b c" "Q () (v\<lparr>vLen := Suc (vLen v)\<rparr>)"
  shows "triple G v (emitABC op a b c line) Q"
proof -
  have "okInst G w i (EncodeABC op a b c)" if "w = v\<lparr>vLen := Suc (vLen v)\<rparr>" for w i
  proof -
    have "grown v w" using that by (simp add: grown_def)
    then have "abcOK (dimsOf G w) op a b c" by (rule abcOK_mono [OF assms(1) dimsOf_mono]) simp
    then show ?thesis using keepsBelow_ABC [of "dimsOf G w"] assms(2) by (auto simp: okInst_def intro: instOK_ABC)
  qed
  then show ?thesis unfolding emitABC_def using assms(3)
    by (intro triple_intros triple_emit) auto
qed

lemma triple_emitABx [triple_intros]:
  assumes "abxOK (dimsOf G v) op a bx" "writesAbove (gD G) op a 0 0" "Q () (v\<lparr>vLen := Suc (vLen v)\<rparr>)"
  shows "triple G v (emitABx op a bx line) Q"
proof -
  have "okInst G w i (EncodeABx op a bx)" if "w = v\<lparr>vLen := Suc (vLen v)\<rparr>" for w i
  proof -
    have "grown v w" using that by (simp add: grown_def)
    then have "abxOK (dimsOf G w) op a bx" by (rule abxOK_mono [OF assms(1) dimsOf_mono]) simp
    then show ?thesis using keepsBelow_ABx [of "dimsOf G w"] assms(2) by (auto simp: okInst_def intro: instOK_ABx)
  qed
  then show ?thesis unfolding emitABx_def using assms(3)
    by (intro triple_intros triple_emit) auto
qed

lemma triple_emitAsBx:
  assumes "asbxOK (dimsOf G (v\<lparr>vLen := Suc (vLen v)\<rparr>)) (vLen v) op a sbx" "writesAbove (gD G) op a 0 0"
    "Q (vLen v) (v\<lparr>vLen := Suc (vLen v)\<rparr>)"
  shows "triple G v (emitAsBx op a sbx line) Q"
  unfolding emitAsBx_def
  by (rule triple_emit) (use assms in \<open>auto simp: okInst_def intro: instOK_AsBx keepsBelow_AsBx\<close>)

text \<open>What the emitted operands must satisfy, for the opcodes with a signed field.\<close>

lemma asbx_ops:
  "OP_LOADINT \<in> sbxOps" "OP_JMP \<in> sbxOps" "OP_FORPREP \<in> sbxOps" "OP_FORLOOP \<in> sbxOps" "OP_TFORLOOP \<in> sbxOps"
  "OP_LOADINT \<notin> jumpOps" "OP_JMP \<in> jumpOps" "OP_FORPREP \<in> jumpOps" "OP_FORLOOP \<in> jumpOps" "OP_TFORLOOP \<in> jumpOps"
  by (simp_all add: sbxOps_def jumpOps_def)

lemma writesAbove_A [simp]:
  "writesAbove d OP_LOADINT a b c \<longleftrightarrow> d \<le> a" "writesAbove d OP_JMP a b c" "writesAbove d OP_FORPREP a b c \<longleftrightarrow> d \<le> a"
  "writesAbove d OP_FORLOOP a b c \<longleftrightarrow> d \<le> a" "writesAbove d OP_TFORLOOP a b c \<longleftrightarrow> d \<le> a"
  by (simp_all add: writesAbove_def lowestWritten_def)

lemma triple_emitInt [triple_intros]:
  "0 \<le> a \<Longrightarrow> a < vLimit G v \<Longrightarrow> gD G \<le> a \<Longrightarrow> Q () (v\<lparr>vLen := Suc (vLen v)\<rparr>) \<Longrightarrow> triple G v (emitInt a i line) Q"
  unfolding emitInt_def
  by (intro triple_intros triple_emitAsBx) (auto simp: asbxOK_def asbx_ops vLimit_def)

lemma jump_ok: "0 < vLimit G v \<Longrightarrow> t \<le> vLen v \<Longrightarrow> asbxOK (dimsOf G v) pc OP_JMP 0 (int t - int pc - 1)"
  by (simp add: asbxOK_def asbx_ops)

lemma okView_limit: "okView v \<Longrightarrow> 0 < vLimit G v"
  using okView_next [of v] by (auto simp: vLimit_def max_def)

lemma triple_emitJump [triple_intros]:
  assumes "Q (vLen v) (v\<lparr>vLen := Suc (vLen v)\<rparr>)"
  shows "triple G v (emitJump line) Q"
proof (rule triple_ok)
  assume "okView v"
  then have "asbxOK (dimsOf G (v\<lparr>vLen := Suc (vLen v)\<rparr>)) (vLen v) OP_JMP 0 0"
    using okView_limit [of v G] by (simp add: asbxOK_def asbx_ops vLimit_def)
  then show ?thesis unfolding emitJump_def EncodesBx_def
    by (intro triple_emit) (auto simp: okInst_def assms intro: instOK_AsBx keepsBelow_AsBx)
qed

lemma triple_currentPC [triple_intros]: "Q (vLen v) v \<Longrightarrow> triple G v currentPC Q"
  unfolding currentPC_def by (rule triple_len)

lemma triple_patch:
  assumes "okInst G v pos inst" "Q () v"
  shows "triple G v (patchCode pos inst) Q"
  unfolding patchCode_def
proof (rule triple_updF [where w = v])
  fix f assume f: "okF G f" "viewOf f = v"
  have same: "viewOf (f\<lparr>fCode := (fCode f)[pos := inst]\<rparr>) = v" using f(2) by (auto simp: viewOf_def)
  have "okInst G v i ((fCode f)[pos := inst] ! i)" if "i < length (fCode f)" for i
    using that f assms(1) by (cases "i = pos") (auto simp: okF_def okCode_def)
  with same f show "okF G (f\<lparr>fCode := (fCode f)[pos := inst]\<rparr>) \<and> viewOf (f\<lparr>fCode := (fCode f)[pos := inst]\<rparr>) = v \<and>
      fUpvals (f\<lparr>fCode := (fCode f)[pos := inst]\<rparr>) = fUpvals f"
    by (auto simp: okF_def okCode_def)
qed (simp_all add: assms(2))

lemma triple_patchAsBx:
  "asbxOK (dimsOf G v) pos op a sbx \<Longrightarrow> pos < vLen v \<Longrightarrow> writesAbove (gD G) op a 0 0 \<Longrightarrow> Q () v \<Longrightarrow>
     triple G v (patchCode pos (EncodeAsBx op a sbx)) Q"
  by (rule triple_patch) (auto simp: okInst_def intro: instOK_AsBx keepsBelow_AsBx)

lemma triple_patchJumpTo [triple_intros]:
  "pos < vLen v \<Longrightarrow> t \<le> vLen v \<Longrightarrow> Q () v \<Longrightarrow> triple G v (patchJumpTo pos t) Q"
  unfolding patchJumpTo_def EncodesBx_def
  by (rule triple_ok) (auto intro!: triple_patchAsBx jump_ok okView_limit)

lemma triple_patchJump [triple_intros]: "pos < vLen v \<Longrightarrow> Q () v \<Longrightarrow> triple G v (patchJump pos) Q"
  unfolding patchJump_def by (auto intro!: triple_intros)

lemma triple_patchJumps [triple_intros]:
  assumes "\<And>pos. pos \<in> set ps \<Longrightarrow> pos < vLen v" "Q () v"
  shows "triple G v (forEachC patchJump ps) Q"
  by (rule triple_forEach [where I = "\<lambda>w. w = v"]) (auto intro!: triple_intros assms)

lemma triple_disableJIT [triple_intros]: "Q () v \<Longrightarrow> triple G v disableJIT Q"
  unfolding disableJIT_def
  by (rule triple_ok, rule triple_regs [where w = v]) (auto simp: viewOf_def)

lemma triple_emitSpreadOp [triple_intros]:
  "abcOK (dimsOf G v) op a b c \<Longrightarrow> writesAbove (gD G) op a b c \<Longrightarrow> Q () (v\<lparr>vLen := Suc (vLen v)\<rparr>) \<Longrightarrow>
     triple G v (emitSpreadOp op a b c line) Q"
  unfolding emitSpreadOp_def by (auto intro!: triple_intros)

lemma triple_emitReturn [triple_intros]:
  "0 \<le> a \<Longrightarrow> 0 \<le> b \<Longrightarrow> max a (a + b - 2) < vLimit G v \<Longrightarrow> Q () (v\<lparr>vLen := Suc (vLen v)\<rparr>) \<Longrightarrow>
     triple G v (emitReturn a b) Q"
  unfolding emitReturn_def
  by (intro triple_intros) auto

subsection \<open>Constants and constructors\<close>

lemma constIndex_bound: "constIndex c ks = Some i \<Longrightarrow> i < length ks"
  by (induction ks arbitrary: i) (auto split: if_splits)

lemma triple_addConst:
  assumes "\<And>k n. vK v \<le> n \<Longrightarrow> 0 \<le> k \<Longrightarrow> k < int n \<Longrightarrow> Q k (v\<lparr>vK := n\<rparr>)"
  shows "triple G v (addConst c) Q"
proof -
  let ?add = "fConstants_update (\<lambda>ks. ks @ [c])"
  have new: "okF G (?add f) \<and> viewOf (?add f) = v\<lparr>vK := Suc (vK v)\<rparr>" if f: "okF G f" "viewOf f = v" for f
  proof -
    have w: "viewOf (?add f) = v\<lparr>vK := Suc (vK v)\<rparr>" using f(2) by (auto simp: viewOf_def)
    have "grown v (v\<lparr>vK := Suc (vK v)\<rparr>)" by (simp add: grown_def)
    with f w okCode_grown [of G v "fCode f" "v\<lparr>vK := Suc (vK v)\<rparr>"] show ?thesis
      using ctorsOK_mono [of "length (fConstants f)" "fTableCtors2 f" "fTableCtorsN f" "Suc (length (fConstants f))"]
      by (auto simp: okF_def okView_def)
  qed
  show ?thesis unfolding addConst_def
  proof (intro triple_bind triple_askF triple_option)
    fix f i assume f: "viewOf f = v" "constIndex c (fConstants f) = Some i"
    then have "i < vK v" using constIndex_bound [of c "fConstants f" i] by auto
    with assms [of "vK v" "int i"] show "triple G v (returnC (int i)) Q" by (auto intro: triple_return)
  next
    fix f assume f: "viewOf f = v"
    have "triple G (v\<lparr>vK := Suc (vK v)\<rparr>) (returnC (int (length (fConstants f)))) Q"
      using assms [of "Suc (vK v)" "int (vK v)"] f by (auto intro: triple_return)
    then show "triple G v (thenC (updF (fConstants_update (\<lambda>ks. ks @ [c]))) (returnC (int (length (fConstants f))))) Q"
      using new by (intro triple_then triple_updF [where w = "v\<lparr>vK := Suc (vK v)\<rparr>"]) auto
  qed
qed

lemma triple_consts [triple_intros]:
  assumes "\<And>k n. vK v \<le> n \<Longrightarrow> 0 \<le> k \<Longrightarrow> k < int n \<Longrightarrow> Q k (v\<lparr>vK := n\<rparr>)"
  shows "triple G v (stringConst t) Q" "triple G v (intConst i) Q" "triple G v (floatConst x) Q"
  unfolding stringConst_def intConst_def floatConst_def by (rule triple_addConst, rule assms; assumption)+

lemma findCtor_sound: "findCtor p ctors = Some i \<Longrightarrow> i < length ctors \<and> p (ctors ! i)"
proof -
  assume "findCtor p ctors = Some i"
  then have "i \<in> set (filter (\<lambda>i. p (ctors ! i)) [0..<length ctors])"
    by (auto simp: findCtor_def simp del: set_filter split: list.splits)
  then show ?thesis by simp
qed

lemma okF_ctors:
  fixes f :: fstate
  shows "okF G f \<Longrightarrow> ctorsOK (length (fConstants f)) (fTableCtors2 f @ twos) (fTableCtorsN f) \<Longrightarrow>
     okF G (fTableCtors2_update (\<lambda>ts. ts @ twos) f)"
  "okF G f \<Longrightarrow> ctorsOK (length (fConstants f)) (fTableCtors2 f) (fTableCtorsN f @ many) \<Longrightarrow>
     okF G (fTableCtorsN_update (\<lambda>ts. ts @ many) f)"
proof -
  have "grown (viewOf f) (viewOf (fTableCtors2_update (\<lambda>ts. ts @ twos) f))"
    "grown (viewOf f) (viewOf (fTableCtorsN_update (\<lambda>ts. ts @ many) f))" by (simp_all add: grown_def)
  then show "okF G f \<Longrightarrow> ctorsOK (length (fConstants f)) (fTableCtors2 f @ twos) (fTableCtorsN f) \<Longrightarrow>
     okF G (fTableCtors2_update (\<lambda>ts. ts @ twos) f)"
    "okF G f \<Longrightarrow> ctorsOK (length (fConstants f)) (fTableCtors2 f) (fTableCtorsN f @ many) \<Longrightarrow>
     okF G (fTableCtorsN_update (\<lambda>ts. ts @ many) f)"
    by (auto simp: okF_def okView_def vTop_def intro: okCode_grown)
qed

lemma triple_addTableCtor2 [triple_intros]:
  assumes "0 \<le> i" "i < int (vK v)" "0 \<le> j" "j < int (vK v)"
    "\<And>k n. v2 v \<le> n \<Longrightarrow> k < int n \<Longrightarrow> Q k (v\<lparr>v2 := n\<rparr>)"
  shows "triple G v (addTableCtor2 i j a b) Q"
  unfolding addTableCtor2_def
proof (intro triple_bind triple_askF triple_option triple_if)
  fix f k assume "viewOf f = v" "findCtor (\<lambda>t. t2Key1Const t = i \<and> t2Key2Const t = j) (fTableCtors2 f) = Some k"
  then show "triple G v (returnC (int k)) Q"
    using assms(5) [of "v2 v" "int k"] findCtor_sound [of _ "fTableCtors2 f" k] by (auto intro!: triple_return)
next
  show "triple G v (returnC (- 1)) Q" using assms(5) [of "v2 v" "-1"] by (auto intro: triple_return)
next
  fix f assume v: "viewOf f = v"
  let ?t = "\<lparr>t2Key1Const = i, t2Key2Const = j, t2Key1 = a, t2Key2 = b\<rparr>"
  have "okF G (fTableCtors2_update (\<lambda>ts. ts @ [?t]) g)" if "okF G g" "viewOf g = v" for g
    using okF_ctors(1) [OF that(1), of "[?t]"] that assms(1-4) by (auto simp: okF_def ctorsOK_def)
  moreover have "viewOf (fTableCtors2_update (\<lambda>ts. ts @ [?t]) g) = v\<lparr>v2 := Suc (v2 v)\<rparr>" if "viewOf g = v" for g
    using that by (auto simp: viewOf_def)
  ultimately show "triple G v (thenC (updF (fTableCtors2_update (\<lambda>ts. ts @ [?t]))) (returnC (int (length (fTableCtors2 f))))) Q"
    using assms(5) [of "Suc (v2 v)" "int (v2 v)"] v
    by (intro triple_then triple_updF [where w = "v\<lparr>v2 := Suc (v2 v)\<rparr>"]) (auto intro: triple_return)
qed

lemma triple_addTableCtorN [triple_intros]:
  assumes "\<And>x. x \<in> set fs \<Longrightarrow> 0 \<le> sfKeyConst x \<and> sfKeyConst x < int (vK v)"
    "\<And>k ns. k < 0 \<or> k < int (length (vN v @ ns)) \<and> (vN v @ ns) ! nat k = length fs \<Longrightarrow> Q k (v\<lparr>vN := vN v @ ns\<rparr>)"
  shows "triple G v (addTableCtorN fs) Q"
  unfolding addTableCtorN_def
proof (intro triple_bind triple_askF triple_option triple_if)
  fix f k assume f: "viewOf f = v" "findCtor (\<lambda>t. tnKeyConsts t = map sfKeyConst fs) (fTableCtorsN f) = Some k"
  then have k: "k < length (fTableCtorsN f)" "tnKeyConsts (fTableCtorsN f ! k) = map sfKeyConst fs"
    using findCtor_sound by blast+
  have "k < length (vN v)" using k(1) f(1) by auto
  moreover have "vN v ! k = length fs"
  proof -
    have "vN v ! k = length (tnKeyConsts (fTableCtorsN f ! k))" using k(1) f(1) by auto
    then show ?thesis by (simp add: k(2))
  qed
  ultimately show "triple G v (returnC (int k)) Q" using assms(2) [of "int k" "[]"] by (auto intro: triple_return)
next
  show "triple G v (returnC (- 1)) Q" using assms(2) [of "-1" "[]"] by (auto intro: triple_return)
next
  fix f assume v: "viewOf f = v"
  let ?t = "\<lparr>tnKeyConsts = map sfKeyConst fs, tnKeys = map sfKey fs\<rparr>"
  have "okF G (fTableCtorsN_update (\<lambda>ts. ts @ [?t]) g)" if "okF G g" "viewOf g = v" for g
    using okF_ctors(2) [OF that(1), of "[?t]"] that assms(1) by (auto simp: okF_def ctorsOK_def list_all_iff)
  moreover have "viewOf (fTableCtorsN_update (\<lambda>ts. ts @ [?t]) g) = v\<lparr>vN := vN v @ [length fs]\<rparr>" if "viewOf g = v" for g
    using that by (auto simp: viewOf_def)
  moreover have "length (fTableCtorsN f) = length (vN v)" using v by auto
  ultimately show "triple G v (thenC (updF (fTableCtorsN_update (\<lambda>ts. ts @ [?t]))) (returnC (int (length (fTableCtorsN f))))) Q"
    using assms(2) [of "int (length (vN v))" "[length fs]"]
    by (intro triple_then triple_updF [where w = "v\<lparr>vN := vN v @ [length fs]\<rparr>"]) (auto intro: triple_return)
qed

subsection \<open>Locals and upvalues\<close>

lemma triple_addLocalWithReadOnly [triple_intros]:
  assumes "\<And>m. vMax v \<le> m \<Longrightarrow> vNext v + 1 \<le> m \<Longrightarrow>
      Q (vNext v) (v\<lparr>vNext := vNext v + 1, vMax := m, vLocals := (vNext v, vDepth v) # vLocals v\<rparr>)"
  shows "triple G v (addLocalWithReadOnly name ro) Q"
proof (rule triple_ok)
  assume ok: "okView v"
  have view: "viewOf (f\<lparr>fLocals := l # fLocals f, fReadOnlyLocals := m\<rparr>) = (viewOf f)\<lparr>vLocals := lvKey l # vLocals (viewOf f)\<rparr>"
    for f l m by (simp add: viewOf_def)
  have add: "triple G w (thenC (updF (\<lambda>f. f\<lparr>fLocals := \<lparr>lvName = name, lvReg = vNext v, lvDepth = fDepth f,
        lvCaptured = False, lvReadOnly = ro\<rparr> # fLocals f,
        fReadOnlyLocals := (if ro then (fReadOnlyLocals f)(vNext v := Some name) else fReadOnlyLocals f)\<rparr>)) (returnC (vNext v))) Q"
    if w: "w = v\<lparr>vNext := vNext v + 1, vMax := m\<rparr>" "vMax v \<le> m" "vNext v + 1 \<le> m" for w m
  proof -
    let ?v = "v\<lparr>vNext := vNext v + 1, vMax := m, vLocals := (vNext v, vDepth v) # vLocals v\<rparr>"
    have ok': "okView ?v" using ok okView_next [OF ok] w by (auto simp: okView_def okLocals_Cons vTop_def)
    have depth: "fDepth f = vDepth v" if "viewOf f = w" for f
      using arg_cong [OF that, of vDepth] w by simp
    show ?thesis
      by (intro triple_then triple_regs [where w = ?v] ok')
        (use assms [OF w(2,3)] w in \<open>auto simp: view lvKey_def depth simp del: viewOf_sel intro: triple_return\<close>)
  qed
  show ?thesis unfolding addLocalWithReadOnly_def
    by (intro triple_bind triple_alloc add) auto
qed

lemma triple_addLocal [triple_intros]:
  "(\<And>m. vMax v \<le> m \<Longrightarrow> vNext v + 1 \<le> m \<Longrightarrow>
      Q (vNext v) (v\<lparr>vNext := vNext v + 1, vMax := m, vLocals := (vNext v, vDepth v) # vLocals v\<rparr>)) \<Longrightarrow>
    triple G v (addLocal name) Q"
  unfolding addLocal_def by (rule triple_addLocalWithReadOnly)

lemma findLocal_member: "findLocal name ls = Some l \<Longrightarrow> lvKey l \<in> set (map lvKey ls)"
  by (induction ls) (auto split: if_splits)

lemma findLocal_reg:
  "okView (viewOf f) \<Longrightarrow> findLocal name (fLocals f) = Some l \<Longrightarrow> 0 \<le> lvReg l \<and> lvReg l < vTop (viewOf f)"
  using findLocal_member [of name "fLocals f" l] localTop_member [of "fDepth f" "map lvKey (fLocals f)" "lvReg l" "lvDepth l"]
  by (auto simp: okView_def vTop_def lvKey_def)

lemma resolveLocalInfo_reg:
  "okView (viewOf f) \<Longrightarrow> fst (resolveLocalInfo name f) < vTop (viewOf f)"
  using findLocal_reg [of f name] okView_next [of "viewOf f"]
  by (auto simp: resolveLocalInfo_def split: option.splits)

lemma triple_resolveLocalInfo [triple_intros]:
  "(\<And>r ro. r < vTop v \<Longrightarrow> Q (r, ro) v) \<Longrightarrow> triple G v (askF (resolveLocalInfo name)) Q"
proof (rule triple_askF)
  fix f assume q: "\<And>r ro. r < vTop v \<Longrightarrow> Q (r, ro) v" and f: "viewOf f = v" "okF G f"
  then show "Q (resolveLocalInfo name f) v"
    using resolveLocalInfo_reg [of f name] q [of "fst (resolveLocalInfo name f)" "snd (resolveLocalInfo name f)"]
    by (auto simp: okF_def)
qed

lemma triple_resolveLocal [triple_intros]:
  "(\<And>r. r < vTop v \<Longrightarrow> Q r v) \<Longrightarrow> triple G v (askF (resolveLocal name)) Q"
  by (rule triple_askF) (auto simp: resolveLocal_def okF_def intro: resolveLocalInfo_reg)

lemma markCaptured_keys [simp]: "map lvKey (markCaptured name ls) = map lvKey ls"
  by (induction ls) (auto simp: lvKey_def)

lemma upvalIndex_bound: "upvalIndex b i us = Some k \<Longrightarrow> k < length us"
  by (induction us arbitrary: k) (auto split: if_splits)

lemma addUpvalue_step:
  assumes "addUpvalue name inStack index ro f = (i, g)" "upvalFits r n \<lparr>uiName = name, uiInStack = inStack, uiIndex = index, uiReadOnly = ro\<rparr>"
    "list_all (upvalFits r n) (fUpvals f)"
  shows "parentStep f g" "0 \<le> i" "i < int (length (fUpvals g))" "list_all (upvalFits r n) (fUpvals g)"
proof -
  let ?u = "\<lparr>uiName = name, uiInStack = inStack, uiIndex = index, uiReadOnly = ro\<rparr>"
  have "parentStep f g \<and> 0 \<le> i \<and> i < int (length (fUpvals g)) \<and> list_all (upvalFits r n) (fUpvals g)"
  proof (cases "upvalIndex inStack index (fUpvals f)")
    case None
    then have g: "g = f\<lparr>fUpvals := fUpvals f @ [?u]\<rparr>" and i: "i = int (length (fUpvals f))"
      using assms(1) by (simp_all add: addUpvalue_def)
    have "parentStep f g" unfolding parentStep_def g by (intro exI [of _ "[?u]"] exI [of _ "fLocals f"]) simp
    then show ?thesis using assms(2,3) by (simp add: g i)
  next
    case (Some k)
    then show ?thesis using assms(1,3) upvalIndex_bound [OF Some] by (simp add: addUpvalue_def)
  qed
  then show "parentStep f g" "0 \<le> i" "i < int (length (fUpvals g))" "list_all (upvalFits r n) (fUpvals g)" by auto
qed

text \<open>A lookup along the enclosing functions leaves each descriptor in range.\<close>

lemma okChain_more: "okChain f ps \<Longrightarrow> fUpvals g = fUpvals f \<Longrightarrow> okChain g ps"
  by (cases ps) auto

lemma okChain_parent:
  "list_all (upvalFits (fMaxReg p + 2) (length (fUpvals p))) us \<Longrightarrow> parentStep p q \<Longrightarrow>
     list_all (upvalFits (fMaxReg q + 2) (length (fUpvals q))) us"
  by (auto simp: parentStep_def list_all_iff intro: upvalFits_mono)

lemma parentStep_captured: "parentStep p (p\<lparr>fLocals := markCaptured name (fLocals p)\<rparr>)"
  unfolding parentStep_def by (rule exI [of _ "[]"], rule exI [of _ "markCaptured name (fLocals p)"]) simp

lemma resolveUpvalueIn_ok:
  assumes "resolveUpvalueIn name f ps = ((i, ro), g, qs)" "okChain f ps"
  shows "okChain g qs \<and> parentStep f g \<and> list_all2 parentStep ps qs \<and> i < int (length (fUpvals g))"
  using assms
proof (induction ps arbitrary: f i ro g qs)
  case Nil
  then show ?case by (cases "fUpvals f") auto
next
  case (Cons p ps)
  have fits: "list_all (upvalFits (fMaxReg p + 2) (length (fUpvals p))) (fUpvals f)" and view: "okView (viewOf p)"
    and chain: "okChain p ps" using Cons.prems(2) by auto
  show ?case
  proof (cases "findLocal name (fLocals p)")
    case (Some l)
    obtain j h where add: "addUpvalue name True (lvReg l) (lvReadOnly l) f = (j, h)" by force
    let ?p = "p\<lparr>fLocals := markCaptured name (fLocals p)\<rparr>"
    have r: "i = j" "g = h" "qs = ?p # ps" using Cons.prems(1) by (auto simp: Some add)
    have "0 \<le> lvReg l" "lvReg l < fMaxReg p + 2" using findLocal_reg [OF view Some] okView_next [OF view] by auto
    then have u: "upvalFits (fMaxReg p + 2) (length (fUpvals p))
        \<lparr>uiName = name, uiInStack = True, uiIndex = lvReg l, uiReadOnly = lvReadOnly l\<rparr>"
      by (simp add: upvalFits_def)
    note new = addUpvalue_step [OF add u fits]
    have "okView (viewOf ?p)" by (rule parentStep_okView [OF parentStep_captured view])
    then show ?thesis using new chain parentStep_captured [of p name] okChain_more [OF chain, of ?p] by (simp add: r)
  next
    case None
    obtain k b p' ps' where rec: "resolveUpvalueIn name p ps = ((k, b), p', ps')" by (metis prod_cases3 surj_pair)
    note IH = Cons.IH [OF rec chain]
    have view': "okView (viewOf p')" using IH view by (auto intro: parentStep_okView)
    have fits': "list_all (upvalFits (fMaxReg p' + 2) (length (fUpvals p'))) (fUpvals f)"
      using fits IH by (auto intro: okChain_parent)
    show ?thesis
    proof (cases "0 \<le> k")
      case True
      obtain j h where add: "addUpvalue name False k b f = (j, h)" by force
      have r: "i = j" "g = h" "qs = p' # ps'" using Cons.prems(1) True by (auto simp: None rec add)
      have u: "upvalFits (fMaxReg p' + 2) (length (fUpvals p'))
          \<lparr>uiName = name, uiInStack = False, uiIndex = k, uiReadOnly = b\<rparr>"
        using True IH by (simp add: upvalFits_def)
      note new = addUpvalue_step [OF add u fits']
      show ?thesis using new IH view' by (simp add: r)
    next
      case False
      then have r: "i = -1" "g = f" "qs = p' # ps'" using Cons.prems(1) by (auto simp: None rec)
      show ?thesis using IH view' fits' by (simp add: r)
    qed
  qed
qed

lemma triple_resolveUpvalueInfo [triple_intros]:
  assumes "\<And>i ro n. vU v \<le> n \<Longrightarrow> i < int n \<Longrightarrow> Q (i, ro) (v\<lparr>vU := n\<rparr>)"
  shows "triple G v (resolveUpvalueInfo name) Q"
proof (rule tripleI)
  fix c a c'
  assume c: "okC G c" "viewOf (cFn c) = v" "resolveUpvalueInfo name c = COk a c'"
  obtain i ro g qs where r: "resolveUpvalueIn name (cFn c) (cParents c) = ((i, ro), g, qs)" by (metis prod_cases3 surj_pair)
  have c': "a = (i, ro)" "c' = c\<lparr>cFn := g, cParents := qs\<rparr>" using c(3) by (simp_all add: resolveUpvalueInfo_def r)
  have ok: "okChain g qs" "parentStep (cFn c) g" "list_all2 parentStep (cParents c) qs" "i < int (length (fUpvals g))"
    using resolveUpvalueIn_ok [OF r] c(1) by (auto simp: okC_def)
  have "okF G g" using c(1) parentStep_okF [OF ok(2)] by (simp add: okC_def)
  then show "okC G c' \<and> list_all2 parentStep (cParents c) (cParents c') \<and> grown v (viewOf (cFn c')) \<and> Q a (viewOf (cFn c'))"
    using ok parentStep_view [OF ok(2)] c(2) assms [of "length (fUpvals g)" i ro] by (auto simp: c' okC_def)
qed

lemma triple_resolveUpvalue [triple_intros]:
  "(\<And>i n. vU v \<le> n \<Longrightarrow> i < int n \<Longrightarrow> Q i (v\<lparr>vU := n\<rparr>)) \<Longrightarrow> triple G v (resolveUpvalue name) Q"
  unfolding resolveUpvalue_def by (auto intro!: triple_intros)

subsection \<open>What the measurements do not show\<close>

lemma triple_globals [triple_intros]:
  assumes "Q () v"
  shows "triple G v (declareGlobal name) Q" "triple G v (setFunctionArity name arity) Q"
    "triple G v (setFunctionResult name result) Q"
proof -
  have f: "okF G (f\<lparr>fArityScopes := x\<rparr>) = okF G f" "okF G (f\<lparr>fResultScopes := y\<rparr>) = okF G f"
    "viewOf (f\<lparr>fArityScopes := x\<rparr>) = viewOf f" "viewOf (f\<lparr>fResultScopes := y\<rparr>) = viewOf f" for f x y
    by (simp_all add: okF_def viewOf_def)
  show "triple G v (declareGlobal name) Q" "triple G v (setFunctionArity name arity) Q"
    "triple G v (setFunctionResult name result) Q"
    unfolding declareGlobal_def setFunctionArity_def setFunctionResult_def
    by (rule triple_updC [where w = v]; use assms in \<open>auto simp: f\<close>)+
qed

lemma triple_collect [triple_intros]:
  assumes "Q () v"
  shows "triple G v (collectFunctionArities stmts) Q" "triple G v (collectFunctionResults stmts) Q"
    "triple G v (collectLabelDepths stmts) Q"
proof -
  have pass: "triple G v (resultsPass fs) (\<lambda>_ w. w = v)" for fs
    by (induction fs rule: resultsPass.induct)
      (auto intro!: triple_intros triple_askC elim: triple_weaken)
  have passes: "triple G v (resultsPasses k fs) (\<lambda>_ w. w = v)" for k fs
    by (induction k) (auto intro!: triple_intros triple_weaken [OF pass])
  show "triple G v (collectFunctionArities stmts) Q" "triple G v (collectFunctionResults stmts) Q"
    unfolding collectFunctionArities_def collectFunctionResults_def Let_def
    by (auto intro!: triple_intros triple_weaken [OF passes] triple_forEach [where I = "\<lambda>w. w = v"] assms
        simp del: resultsPasses.simps)
  show "triple G v (collectLabelDepths stmts) Q" unfolding collectLabelDepths_def
    by (rule triple_ok, rule triple_regs [where w = v]) (auto simp: viewOf_def assms)
qed

subsection \<open>Scopes\<close>

lemma triple_enterScope [triple_intros]:
  assumes "Q () (v\<lparr>vDepth := vDepth v + 1\<rparr>)"
  shows "triple G v enterScope Q"
proof (rule triple_ok)
  assume "okView v"
  then have "okView (v\<lparr>vDepth := vDepth v + 1\<rparr>)" by (auto simp: okView_def intro: okLocals_deeper)
  then show ?thesis unfolding enterScope_def
    by (rule triple_regs) (use assms in \<open>auto simp: viewOf_def\<close>)
qed

lemma foldl_min: "foldl min a xs \<le> (a :: int)"
proof (induction xs arbitrary: a)
  case (Cons x xs)
  show ?case using Cons [of "min a x"] by simp
qed simp

lemma foldl_min_nonneg: "0 \<le> a \<Longrightarrow> (\<And>x. x \<in> set xs \<Longrightarrow> 0 \<le> x) \<Longrightarrow> 0 \<le> foldl min (a :: int) xs"
  by (induction xs arbitrary: a) auto

text \<open>Closing upvalues writes no register and names one of a local.\<close>

lemma close_ok: "0 \<le> r \<Longrightarrow> r < vLimit G v \<Longrightarrow> abcOK (dimsOf G v) OP_CLOSE r 0 0 \<and> writesAbove d OP_CLOSE r 0 0"
  by simp

lemma local_reg: "okView (viewOf f) \<Longrightarrow> l \<in> set (fLocals f) \<Longrightarrow> 0 \<le> lvReg l \<and> lvReg l < vTop (viewOf f)"
  using localTop_member [of "fDepth f" "map lvKey (fLocals f)" "lvReg l" "lvDepth l"]
  by (auto simp: okView_def vTop_def lvKey_def image_iff)

lemma takeWhile_keys: "map lvKey (takeWhile (\<lambda>l. P (lvDepth l)) ls) = takeWhile (\<lambda>k. P (snd k)) (map lvKey ls)"
  by (induction ls) (auto simp: lvKey_def)

lemma takeWhile_split: "(\<And>x. x \<in> set xs \<Longrightarrow> P x) \<Longrightarrow> (\<And>y. y \<in> set ys \<Longrightarrow> \<not> P y) \<Longrightarrow> takeWhile P (xs @ ys) = xs"
  by (cases ys) (auto simp: takeWhile_eq_Nil_iff)

text \<open>The locals of the innermost scope.\<close>

definition inScope :: "(int \<times> int) list \<Rightarrow> (int \<times> int) list \<Rightarrow> int \<Rightarrow> bool" where
  "inScope new old d \<longleftrightarrow> (\<forall>l\<in>set new. d \<le> snd l) \<and> (\<forall>l\<in>set old. snd l < d)"

lemma scopeLocals_length:
  assumes "vLocals (viewOf f) = new @ old" "inScope new old (vDepth (viewOf f))"
  shows "length (scopeLocals f) = length new"
proof -
  have "map lvKey (scopeLocals f) = takeWhile (\<lambda>k. fDepth f \<le> snd k) (new @ old)"
    using assms(1) by (simp add: scopeLocals_def takeWhile_keys)
  also have "\<dots> = new" using assms(2) by (intro takeWhile_split) (auto simp: inScope_def)
  finally show ?thesis by (metis length_map)
qed

lemma triple_popScopes:
  assumes "okLocals (vDepth v - 1) (vLocals v)" "Q () (v\<lparr>vDepth := vDepth v - 1\<rparr>)"
  shows "triple G v popScopes Q"
proof (rule triple_ok)
  assume ok: "okView v"
  have f: "okF G (f\<lparr>fArityScopes := x\<rparr>) = okF G f" "okF G (f\<lparr>fResultScopes := y\<rparr>) = okF G f"
    "viewOf (f\<lparr>fArityScopes := x\<rparr>) = viewOf f" "viewOf (f\<lparr>fResultScopes := y\<rparr>) = viewOf f" for f x y
    by (simp_all add: okF_def viewOf_def)
  show ?thesis unfolding popScopes_def
    by (intro triple_then triple_updC [where w = v] triple_regs [where w = "v\<lparr>vDepth := vDepth v - 1\<rparr>"])
      (use assms ok in \<open>auto simp: f okView_def viewOf_def split: list.splits\<close>)
qed

lemma triple_dropScopeLocals:
  assumes "vLocals v = new @ old" "inScope new old (vDepth v)" "localTop old \<le> vNext v - int (length new)"
    "Q () (v\<lparr>vLocals := old, vNext := vNext v - int (length new)\<rparr>)"
  shows "triple G v dropScopeLocals Q"
proof (rule triple_ok)
  assume ok: "okView v"
  let ?v = "v\<lparr>vLocals := old\<rparr>"
  have v: "okView ?v" "vTop ?v = localTop old"
    using ok assms(1) localTop_append [of "vDepth v" new old]
    by (auto simp: okView_def vTop_def intro: okLocals_append)
  have drop: "viewOf (fLocals_update (drop (length new)) f) = ?v" if "viewOf f = v" for f
  proof -
    have "map lvKey (fLocals f) = new @ old" using that assms(1) viewOf_sel(9) [of f] by simp
    then have "map lvKey (drop (length new) (fLocals f)) = old" by (simp add: drop_map [symmetric])
    then show ?thesis using that by (auto simp: viewOf_def)
  qed
  show ?thesis unfolding dropScopeLocals_def
  proof (intro triple_bind triple_askF triple_then)
    fix f assume f: "viewOf f = v"
    have len: "length (scopeLocals f) = length new" using scopeLocals_length [of f] assms(1,2) f by simp
    then have none: "scopeLocals f = [] \<longleftrightarrow> new = []" by (metis length_0_conv)
    show "triple G v (updF (fLocals_update (drop (length (scopeLocals f)))))
        (\<lambda>_ w. triple G w (whenC (scopeLocals f \<noteq> []) (freeRegs (int (length (scopeLocals f))))) Q)"
      unfolding len none
      by (rule triple_regs [where w = ?v]) (use v drop assms in \<open>auto intro!: triple_intros\<close>)
  qed
qed

lemma triple_leaveScope:
  assumes "vLocals v = new @ old" "inScope new old (vDepth v)" "localTop old \<le> vNext v - int (length new)"
    "\<And>n. vLen v \<le> n \<Longrightarrow>
       Q () (v\<lparr>vLen := n, vLocals := old, vNext := vNext v - int (length new), vDepth := vDepth v - 1\<rparr>)"
  shows "triple G v leaveScope Q"
proof (rule triple_ok)
  assume ok: "okView v"
  have old: "okLocals (vDepth v - 1) old"
    using ok assms(1,2) okLocals_append [of "vDepth v" new old] by (auto simp: okView_def okLocals_def inScope_def)
  have drop: "triple G (v\<lparr>vLen := n\<rparr>) (thenC dropScopeLocals popScopes) Q" if "vLen v \<le> n" for n
  proof (rule triple_then, rule triple_dropScopeLocals)
    show "triple G (v\<lparr>vLen := n, vLocals := old, vNext := vNext (v\<lparr>vLen := n\<rparr>) - int (length new)\<rparr>) popScopes Q"
      by (rule triple_popScopes) (use old assms(4) [OF that] in simp_all)
  qed (use assms in simp_all)
  show ?thesis unfolding leaveScope_def Let_def
  proof (intro triple_bind triple_askF triple_then)
    fix f g assume f: "viewOf f = v" and g: "viewOf g = v"
    let ?r = "foldl min (fNextReg g) (map lvReg (filter lvCaptured (scopeLocals f)))"
    have "x \<in> set (fLocals f)" if "x \<in> set (scopeLocals f)" for x
      using that by (auto simp: scopeLocals_def dest: set_takeWhileD)
    moreover have "fNextReg g = fNextReg f" using f g viewOf_sel(1) by metis
    ultimately have r: "0 \<le> ?r" using local_reg [of f] ok f okView_next [OF ok] by (intro foldl_min_nonneg) auto
    have "?r \<le> vNext v" using foldl_min g by auto
    then have lim: "?r < vLimit G v" using okView_next [OF ok] by (auto simp: vLimit_def)
    show "triple G v (whenC (filter lvCaptured (scopeLocals f) \<noteq> []) (emitABC OP_CLOSE ?r 0 0 0))
        (\<lambda>_ w. triple G w (thenC dropScopeLocals popScopes) Q)"
      using close_ok [OF r lim] drop [of "Suc (vLen v)"] drop [of "vLen v"]
      by (auto intro!: triple_intros)
  qed
qed

lemma triple_closeAbove [triple_intros]:
  assumes "\<And>n. vLen v \<le> n \<Longrightarrow> Q () (v\<lparr>vLen := n\<rparr>)"
  shows "triple G v (emitCloseCapturedAboveDepth depth) Q"
proof (rule triple_ok)
  assume ok: "okView v"
  show ?thesis unfolding emitCloseCapturedAboveDepth_def
  proof (intro triple_bind triple_askF)
    fix f assume f: "viewOf f = v"
    let ?ls = "filter lvCaptured (takeWhile (\<lambda>l. depth < lvDepth l) (fLocals f))"
    have "abcOK (dimsOf G v) OP_CLOSE (lvReg l) 0 0 \<and> writesAbove (gD G) OP_CLOSE (lvReg l) 0 0" if "l \<in> set ?ls" for l
      using that local_reg [of f l] f ok okView_next [OF ok]
      by (intro close_ok) (auto dest!: set_takeWhileD simp: vLimit_def)
    then show "triple G v (case ?ls of [] \<Rightarrow> returnC () | l # _ \<Rightarrow> emitABC OP_CLOSE (lvReg l) 0 0 0) Q"
      using assms [of "vLen v"] assms [of "Suc (vLen v)"]
      by (cases ?ls) (auto intro!: triple_intros)
  qed
qed

lemma triple_closeForJump [triple_intros]:
  assumes "\<And>n. vLen v \<le> n \<Longrightarrow> Q () (v\<lparr>vLen := n\<rparr>)"
  shows "triple G v emitCloseForJump Q"
  unfolding emitCloseForJump_def using assms [of "vLen v"] assms
  by (intro triple_bind triple_askF triple_option) (auto intro!: triple_intros)

subsection \<open>Loops and labels\<close>

text \<open>Updates of the loops, labels and gotos.\<close>

lemma triple_jumps:
  assumes "\<And>f. viewOf f = v \<Longrightarrow> okJumps (vLen v) (fLoops f) (fLabels f) (fGotos f) \<Longrightarrow>
      okJumps (vLen v) (fLoops (g f)) (fLabels (g f)) (fGotos (g f)) \<and> viewOf (g f) = v \<and> fCode (g f) = fCode f \<and>
      fLineInfo (g f) = fLineInfo f \<and> fUpvals (g f) = fUpvals f \<and> fProtos (g f) = fProtos f \<and> fConstants (g f) = fConstants f \<and>
      fTableCtors2 (g f) = fTableCtors2 f \<and> fTableCtorsN (g f) = fTableCtorsN f \<and> fMaxReg (g f) = fMaxReg f"
    "Q () v"
  shows "triple G v (updF g) Q"
proof (rule triple_updF [where w = v])
  fix f assume f: "okF G f" "viewOf f = v"
  then have "okJumps (vLen v) (fLoops f) (fLabels f) (fGotos f)" by (auto simp: okF_def)
  with assms(1) [OF f(2)] f show "okF G (g f) \<and> viewOf (g f) = v \<and> fUpvals (g f) = fUpvals f"
    by (auto simp: okF_def)
qed (simp_all add: assms(2))

lemma triple_pushLoop [triple_intros]: "Q () v \<Longrightarrow> triple G v pushLoop Q"
  unfolding pushLoop_def by (rule triple_jumps) (auto simp: okJumps_def viewOf_def)

definition jumpsBelow :: "nat \<Rightarrow> loopInfo \<Rightarrow> bool" where
  "jumpsBelow n l \<longleftrightarrow> (\<forall>p\<in>set (liBreakJumps l) \<union> set (liContinueJumps l). p < n)"

lemma triple_popLoop [triple_intros]:
  assumes "\<And>l. jumpsBelow (vLen v) l \<Longrightarrow> Q l v"
  shows "triple G v popLoop Q"
  unfolding popLoop_def
proof (intro triple_bind triple_askF)
  fix f assume f: "viewOf f = v" "okF G f"
  show "triple G v (case fLoops f of [] \<Rightarrow> failC ENilNode | l # ls \<Rightarrow> thenC (updF (fLoops_update (\<lambda>_. ls))) (returnC l)) Q"
  proof (cases "fLoops f")
    case (Cons l ls)
    have below: "okJumps (vLen v) (l # ls) Map.empty []" using f Cons by (auto simp: okF_def okJumps_def)
    then have "jumpsBelow (vLen v) l" by (auto simp: okJumps_def jumpsBelow_def)
    with assms below show ?thesis unfolding Cons list.case
      by (intro triple_then triple_jumps triple_return) (auto simp: okJumps_def viewOf_def)
  qed (auto intro: triple_intros)
qed

lemma triple_updateLoop:
  assumes "\<And>l. jumpsBelow (vLen v) l \<Longrightarrow> jumpsBelow (vLen v) (g l)" "Q () v"
  shows "triple G v (updateLoop g) Q"
  unfolding updateLoop_def
proof (rule triple_jumps)
  fix f :: fstate
  show "viewOf f = v \<Longrightarrow> okJumps (vLen v) (fLoops f) (fLabels f) (fGotos f) \<Longrightarrow>
      okJumps (vLen v) (fLoops (fLoops_update (case_list [] (\<lambda>l. (#) (g l))) f)) (fLabels (fLoops_update (case_list [] (\<lambda>l. (#) (g l))) f))
        (fGotos (fLoops_update (case_list [] (\<lambda>l. (#) (g l))) f)) \<and>
      viewOf (fLoops_update (case_list [] (\<lambda>l. (#) (g l))) f) = v \<and>
      fCode (fLoops_update (case_list [] (\<lambda>l. (#) (g l))) f) = fCode f \<and>
      fLineInfo (fLoops_update (case_list [] (\<lambda>l. (#) (g l))) f) = fLineInfo f \<and>
      fUpvals (fLoops_update (case_list [] (\<lambda>l. (#) (g l))) f) = fUpvals f \<and>
      fProtos (fLoops_update (case_list [] (\<lambda>l. (#) (g l))) f) = fProtos f \<and>
      fConstants (fLoops_update (case_list [] (\<lambda>l. (#) (g l))) f) = fConstants f \<and>
      fTableCtors2 (fLoops_update (case_list [] (\<lambda>l. (#) (g l))) f) = fTableCtors2 f \<and>
      fTableCtorsN (fLoops_update (case_list [] (\<lambda>l. (#) (g l))) f) = fTableCtorsN f \<and>
      fMaxReg (fLoops_update (case_list [] (\<lambda>l. (#) (g l))) f) = fMaxReg f"
    using assms(1) by (cases "fLoops f") (auto simp: okJumps_def jumpsBelow_def viewOf_def)
qed (rule assms(2))

lemma triple_addJumps [triple_intros]:
  assumes "pos < vLen v" "Q () v"
  shows "triple G v (addBreakJump pos) Q" "triple G v (addContinueJump pos) Q"
  unfolding addBreakJump_def addContinueJump_def
  by (rule triple_updateLoop; use assms in \<open>auto simp: jumpsBelow_def\<close>)+

lemma triple_patchLoop [triple_intros]:
  assumes "jumpsBelow (vLen v) l" "Q () v"
  shows "triple G v (patchBreaks l) Q" "t \<le> vLen v \<Longrightarrow> triple G v (patchContinues l t) Q"
  unfolding patchBreaks_def patchContinues_def using assms
  by (auto intro!: triple_intros triple_forEach [where I = "\<lambda>w. w = v"] simp: jumpsBelow_def)

lemma triple_patchGotos [triple_intros]: "Q () v \<Longrightarrow> triple G v patchGotos Q"
  unfolding patchGotos_def
proof (intro triple_bind triple_askF)
  fix f assume q: "Q () v" and f: "viewOf f = v" "okF G f"
  show "triple G v (forEachC (\<lambda>g. bindC (askF (\<lambda>f. fLabels f (cgName g))) (\<lambda>label. case label of
       None \<Rightarrow> failC (EGotoTarget (cgLine g) (cgName g)) | Some l \<Rightarrow> patchJumpTo (cgPc g) (clPc l))) (fGotos f)) Q"
    by (rule triple_forEach [where I = "\<lambda>w. w = v"])
      (use q f in \<open>auto intro!: triple_intros triple_askF simp: okF_def okJumps_def dest!: arg_cong [where f = vLen]\<close>)
qed

lemma triple_label [triple_intros]: "Q () v \<Longrightarrow> triple G v (compileLabelStmt line name) Q"
  unfolding compileLabelStmt_def by (rule triple_jumps) (auto simp: okJumps_def viewOf_def)

lemma triple_goto [triple_intros]:
  assumes "\<And>n. vLen v \<le> n \<Longrightarrow> Q () (v\<lparr>vLen := n\<rparr>)"
  shows "triple G v (compileGotoStmt line name) Q"
  unfolding compileGotoStmt_def
proof (intro triple_bind triple_askF triple_option triple_then)
  fix f l assume f: "viewOf f = v" "okF G f" "fLabels f name = Some l"
  then have "clPc l \<le> vLen v" by (auto simp: okF_def okJumps_def)
  then show "triple G v (emitCloseCapturedAboveDepth (clDepth l))
      (\<lambda>_ w. triple G w (bindC (emitJump line) (\<lambda>jmp. patchJumpTo jmp (clPc l))) Q)"
    by (auto intro!: triple_intros assms)
next
  have later: "triple G w (bindC (emitJump line) (\<lambda>jmp. updF (\<lambda>f. f\<lparr>fGotos := fGotos f @
      [\<lparr>cgName = name, cgPc = jmp, cgDepth = fDepth f, cgLine = line\<rparr>]\<rparr>))) Q"
    if "w = v\<lparr>vLen := n\<rparr>" "vLen v \<le> n" for w n
    by (intro triple_bind triple_emitJump triple_jumps)
      (use that assms [of "Suc n"] in \<open>auto simp: okJumps_def viewOf_def\<close>)
  show "triple G v (returnC ()) (\<lambda>_ w. triple G w (bindC (emitJump line) (\<lambda>jmp. updF (\<lambda>f. f\<lparr>fGotos := fGotos f @
      [\<lparr>cgName = name, cgPc = jmp, cgDepth = fDepth f, cgLine = line\<rparr>]\<rparr>))) Q)"
    by (rule triple_return) (rule later [of v "vLen v"], auto)
  show "triple G v (emitCloseCapturedAboveDepth d) (\<lambda>_ w. triple G w (bindC (emitJump line) (\<lambda>jmp. updF (\<lambda>f. f\<lparr>fGotos :=
      fGotos f @ [\<lparr>cgName = name, cgPc = jmp, cgDepth = fDepth f, cgLine = line\<rparr>]\<rparr>))) Q)" for d
    by (rule triple_closeAbove) (rule later [OF refl])
qed

subsection \<open>Nested functions\<close>

definition freshGhost :: ghost where
  "freshGhost = \<lparr>gX = 0, gS = 0, gD = 0\<rparr>"

definition freshView :: view where
  "freshView = \<lparr>vNext = 0, vMax = 0, vLen = 0, vK = 0, vU = 0, vP = 0, v2 = 0, vN = [], vLocals = [], vDepth = 0\<rparr>"

lemma newFunction_ok: "viewOf (newFunction name line va) = freshView" "okF freshGhost (newFunction name line va)"
  by (simp_all add: viewOf_def freshView_def newFunction_def okF_def okCode_def okView_def vTop_def okLocals_def
      okJumps_def okProtos_def ctorsOK_def)

lemma finish_valid:
  assumes "okF freshGhost f" "endsWithReturn (fCode f)"
  shows "validProto (finish name n f)"
proof -
  have "0 \<le> fMaxReg f" using assms(1) okView_next [of "viewOf f"] by (simp add: okF_def)
  then have "dimsOf freshGhost (viewOf f) = \<lparr>dReg = fMaxReg f + 2, dK = length (fConstants f), dU = length (fUpvals f),
      dP = length (fProtos f), d2 = length (fTableCtors2 f), dN = map (\<lambda>t. length (tnKeyConsts t)) (fTableCtorsN f),
      dLen = length (fCode f)\<rparr>"
    by (simp add: dimsOf_def vLimit_def freshGhost_def)
  with assms show ?thesis
    by (simp add: finish_def okF_def okCode_def okInst_def codeOK_def okProtos_def list_all_iff)
qed

lemma okF_addProto:
  assumes "okF G f" "validProto p" "list_all (upvalFits (fMaxReg f + 2) (length (fUpvals f))) (poUpvalues p)"
  shows "okF G (fProtos_update (\<lambda>ps. ps @ [p]) f)" (is "okF G ?g")
proof -
  have "grown (viewOf f) (viewOf ?g)" by (simp add: grown_def)
  then show ?thesis using assms by (auto simp: okF_def okView_def vTop_def okProtos_def intro: okCode_grown)
qed

definition addProto :: "bytes \<Rightarrow> nat \<Rightarrow> int cm" where
  "addProto name n = bindC popFunction (\<lambda>child. bindC (askF (\<lambda>f. length (fProtos f))) (\<lambda>idx.
     thenC (updF (fProtos_update (\<lambda>ps. ps @ [finish name n child]))) (returnC (int idx))))"

lemma triple_child:
  assumes body: "triple freshGhost freshView body (\<lambda>_ _. True)"
    and ends: "\<And>c u c'. body c = COk u c' \<Longrightarrow> endsWithReturn (fCode (cFn c'))"
    and Q: "\<And>n. vU v \<le> n \<Longrightarrow> Q (int (vP v)) (v\<lparr>vU := n, vP := Suc (vP v)\<rparr>)"
  shows "triple G v (thenC (pushFunction name line va) (thenC body (addProto nm np))) Q"
proof (rule tripleI)
  fix c a c'
  assume c: "okC G c" "viewOf (cFn c) = v"
    and run: "thenC (pushFunction name line va) (thenC body (addProto nm np)) c = COk a c'"
  let ?c1 = "c\<lparr>cFn := newFunction name line va, cParents := cFn c # cParents c\<rparr>"
  have chain: "okChain (cFn c) (cParents c)" and f: "okF G (cFn c)" using c(1) by (simp_all add: okC_def)
  have c1: "okC freshGhost ?c1" using chain f newFunction_ok by (simp add: okC_def okF_def newFunction_def)
  obtain u c2 where b: "body ?c1 = COk u c2" and rest: "addProto nm np c2 = COk a c'"
    using run by (auto simp: pushFunction_def thenC_def bindC_def updC_def split: cres.splits)
  from tripleD [OF body b c1] have c2: "okC freshGhost c2" and ps: "list_all2 parentStep (cFn c # cParents c) (cParents c2)"
    by (simp_all add: newFunction_ok)
  from ps obtain p qs where qs: "cParents c2 = p # qs" "parentStep (cFn c) p" "list_all2 parentStep (cParents c) qs"
    by (auto simp: list_all2_Cons1)
  let ?child = "finish nm np (cFn c2)"
  have c': "a = int (length (fProtos p))" "c' = c2\<lparr>cFn := fProtos_update (\<lambda>ps. ps @ [?child]) p, cParents := qs\<rparr>"
    using rest by (auto simp: addProto_def popFunction_def qs bindC_def thenC_def askF_def askC_def updF_def updC_def returnC_def)
  have chain2: "list_all (upvalFits (fMaxReg p + 2) (length (fUpvals p))) (fUpvals (cFn c2))" "okChain p qs"
    using c2 by (auto simp: okC_def qs)
  have "validProto ?child" using c2 ends [OF b] by (intro finish_valid) (simp_all add: okC_def)
  then have ok: "okF G (fProtos_update (\<lambda>ps. ps @ [?child]) p)"
    by (intro okF_addProto parentStep_okF [OF qs(2) f]) (use chain2 in \<open>simp_all add: finish_def\<close>)
  obtain n where view: "viewOf p = v\<lparr>vU := n\<rparr>" "vU v \<le> n"
    using parentStep_view [OF qs(2)] c(2) by auto
  have "viewOf (fProtos_update (\<lambda>ps. ps @ [?child]) p) = (viewOf p)\<lparr>vP := Suc (vP (viewOf p))\<rparr>" by (simp add: viewOf_def)
  moreover have "a = int (vP (viewOf p))" by (simp add: c')
  ultimately have "viewOf (fProtos_update (\<lambda>ps. ps @ [?child]) p) = v\<lparr>vU := n, vP := Suc (vP v)\<rparr>" "a = int (vP v)"
    by (simp_all add: view(1))
  then show "okC G c' \<and> list_all2 parentStep (cParents c) (cParents c') \<and> grown v (viewOf (cFn c')) \<and> Q a (viewOf (cFn c'))"
    using ok okChain_more [OF chain2(2)] qs(3) Q [OF view(2)] view(2) by (simp add: c' okC_def grown_def)
qed

end
