(* ===== verification/Compiler_Valid.thy ===== *)
theory Compiler_Valid
  imports Compiler_Hoare
begin

section \<open>Compiled expressions are valid bytecode\<close>

text \<open>
  The locale \<open>valid_entries\<close> states what the four entry points of the recursive compiler keep, and
  every method is proved to keep it on trees built from them; \<open>Compiler_Valid_Stmt\<close> adds the
  statements and closes the recursion. An expression compiled into a register leaves the registers
  below it alone and allocates at most the register itself.
\<close>

subsection \<open>Programs whose value lists fill their names\<close>

text \<open>A call that stands for several values allocates a register for each of them, except a global
spread and the coroutine builtins.\<close>

definition plainCall :: "Expr \<Rightarrow> bool" where
  "plainCall e = (case e of
     CallExpr p f a \<Rightarrow> globalSpreadExpr e = None \<and> (hasExplicitSpread a \<or> staticCoroutineBuiltinOp e = None)
   | MethodCallExpr p ob m a \<Rightarrow> True
   | _ \<Rightarrow> False)"

text \<open>The last value of a list with too few values for its names: a receive fills two names, and a
call after other values must be one that allocates its results.\<close>

definition fillsNames :: "nat \<Rightarrow> Expr list \<Rightarrow> bool" where
  "fillsNames n vals \<longleftrightarrow>
     (vals \<noteq> [] \<and> length vals < n \<longrightarrow>
       (case last vals of
          RecvExpr p ch \<Rightarrow> n = length vals + 1
        | CallExpr p f a \<Rightarrow> length vals = 1 \<or> plainCall (last vals)
        | _ \<Rightarrow> True))"

primrec fitsExpr :: "Expr \<Rightarrow> bool"
  and fitsPart :: "InterpolatedStringPart \<Rightarrow> bool"
  and fitsConfig :: "ConfigField \<Rightarrow> bool"
  and fitsField :: "TableField \<Rightarrow> bool"
  and fitsStmt :: "Stmt \<Rightarrow> bool"
  and fitsCase :: "SelectCase \<Rightarrow> bool"
  and fitsElseIf :: "ElseIfClause \<Rightarrow> bool"
  and fitsBlock :: "BlockStmt \<Rightarrow> bool" where
  "fitsExpr (NumberLit p v) = True"
| "fitsExpr (StringLit p v) = True"
| "fitsExpr (InterpolatedStringExpr p ps) = True"
| "fitsExpr (BoolLit p b) = True"
| "fitsExpr (NilLit p) = True"
| "fitsExpr (VarArgExpr p) = True"
| "fitsExpr (IdentExpr p n) = True"
| "fitsExpr (TaggedStringExpr p t b f) = True"
| "fitsExpr (TaggedBlockExpr p t c b r e h f) = True"
| "fitsExpr (BinaryExpr p l op r) = (fitsExpr l \<and> fitsExpr r)"
| "fitsExpr (UnaryExpr p op e) = fitsExpr e"
| "fitsExpr (ParenExpr p e) = fitsExpr e"
| "fitsExpr (IndexExpr p t i) = (fitsExpr t \<and> fitsExpr i)"
| "fitsExpr (FieldExpr p t f) = fitsExpr t"
| "fitsExpr (CallExpr p f a) = (fitsExpr f \<and> list_all (\<lambda>b. b) (map fitsExpr a))"
| "fitsExpr (MethodCallExpr p ob m a) = (fitsExpr ob \<and> list_all (\<lambda>b. b) (map fitsExpr a))"
| "fitsExpr (FuncLitExpr p ps b) = fitsBlock b"
| "fitsExpr (ListLitExpr p vs) = list_all (\<lambda>b. b) (map fitsExpr vs)"
| "fitsExpr (TableLitExpr p fs) = list_all (\<lambda>b. b) (map fitsField fs)"
| "fitsExpr (DenseLitExpr p d n vs) = list_all (\<lambda>b. b) (map fitsExpr vs)"
| "fitsExpr (RecvExpr p c) = fitsExpr c"
| "fitsExpr (MakeChanExpr p sz) = pred_option (\<lambda>b. b) (map_option fitsExpr sz)"
| "fitsPart (InterpolatedStringPart t e) = True"
| "fitsConfig (ConfigField p k v) = True"
| "fitsField (TableField k v) = (pred_option (\<lambda>b. b) (map_option fitsExpr k) \<and> fitsExpr v)"
| "fitsStmt (AssignStmt p ts vs) = (list_all (\<lambda>b. b) (map fitsExpr ts) \<and> list_all (\<lambda>b. b) (map fitsExpr vs) \<and> fillsNames (length ts) vs)"
| "fitsStmt (DeclareStmt p ns vs r) = (list_all (\<lambda>b. b) (map fitsExpr vs) \<and> fillsNames (length ns) vs)"
| "fitsStmt (CompoundAssignStmt p t op v) = (fitsExpr t \<and> fitsExpr v)"
| "fitsStmt (IncDecStmt p t op) = fitsExpr t"
| "fitsStmt (CallStmt p c) = fitsExpr c"
| "fitsStmt (GoStmt p c) = fitsExpr c"
| "fitsStmt (DeferStmt p c) = fitsExpr c"
| "fitsStmt (SendStmt p c v) = (fitsExpr c \<and> pred_option (\<lambda>b. b) (map_option fitsExpr v))"
| "fitsStmt (SelectStmt p cs d) = (list_all (\<lambda>b. b) (map fitsCase cs) \<and> pred_option (\<lambda>b. b) (map_option fitsBlock d))"
| "fitsStmt (IfStmt p c b es e) =
     (fitsExpr c \<and> fitsBlock b \<and> list_all (\<lambda>b. b) (map fitsElseIf es) \<and> pred_option (\<lambda>b. b) (map_option fitsBlock e))"
| "fitsStmt (ForNumStmt p i c q b) = (fitsStmt i \<and> fitsExpr c \<and> fitsStmt q \<and> fitsBlock b)"
| "fitsStmt (ForRangeStmt p k v i b) = (fitsExpr i \<and> fitsBlock b)"
| "fitsStmt (ForStmt p c b) = (pred_option (\<lambda>b. b) (map_option fitsExpr c) \<and> fitsBlock b)"
| "fitsStmt (ReturnStmt p vs) = list_all (\<lambda>b. b) (map fitsExpr vs)"
| "fitsStmt (BreakStmt p) = True"
| "fitsStmt (ContinueStmt p) = True"
| "fitsStmt (LabelStmt p n) = True"
| "fitsStmt (GotoStmt p n) = True"
| "fitsStmt (EvaluateStmt p n b) = True"
| "fitsStmt (FuncDeclStmt p n ps b) = fitsBlock b"
| "fitsStmt (NestedBlock b) = fitsBlock b"
| "fitsCase (SelectCase p rn rok ch sv b) = (fitsExpr ch \<and> pred_option (\<lambda>b. b) (map_option fitsExpr sv) \<and> fitsBlock b)"
| "fitsElseIf (ElseIfClause p c b) = (fitsExpr c \<and> fitsBlock b)"
| "fitsBlock (BlockStmt p ss) = list_all (\<lambda>b. b) (map fitsStmt ss)"

subsection \<open>What an expression leaves\<close>

definition sameScope :: "view \<Rightarrow> view \<Rightarrow> bool" where
  "sameScope v w \<longleftrightarrow> vMax v \<le> vMax w \<and> vLocals w = vLocals v \<and> vDepth w = vDepth v"

definition afterExpr :: "view \<Rightarrow> int \<Rightarrow> view \<Rightarrow> bool" where
  "afterExpr v dest w \<longleftrightarrow> sameScope v w \<and> vNext v \<le> vNext w \<and> vNext w \<le> max (vNext v) (dest + 1)"

definition exprPre :: "ghost \<Rightarrow> view \<Rightarrow> int \<Rightarrow> bool" where
  "exprPre G v dest \<longleftrightarrow> vTop v \<le> dest \<and> dest \<le> vNext v \<and> gD G \<le> dest"

text \<open>A call for \<open>n\<close> results: they may lie beyond the allocated registers only when the call allocates
them itself.\<close>

definition callPre :: "ghost \<Rightarrow> view \<Rightarrow> Expr \<Rightarrow> int \<Rightarrow> int \<Rightarrow> bool" where
  "callPre G v e dest n \<longleftrightarrow> exprPre G v dest \<and> -1 \<le> n \<and> (plainCall e \<or> n \<le> 1 \<or> dest + n \<le> vLimit G v)"

definition afterCall :: "view \<Rightarrow> Expr \<Rightarrow> int \<Rightarrow> int \<Rightarrow> view \<Rightarrow> bool" where
  "afterCall v e dest n w \<longleftrightarrow> sameScope v w \<and> vNext v \<le> vNext w \<and> vNext w \<le> max (vNext v) (dest + max 1 n) \<and>
     (plainCall e \<longrightarrow> 0 < n \<longrightarrow> dest + n \<le> vNext w)"

text \<open>A statement may add locals of the current depth, each in a register of its own.\<close>

definition afterStmt :: "view \<Rightarrow> view \<Rightarrow> bool" where
  "afterStmt v w \<longleftrightarrow> vMax v \<le> vMax w \<and> vDepth w = vDepth v \<and>
     (\<exists>new. vLocals w = new @ vLocals v \<and> (\<forall>l\<in>set new. snd l = vDepth v) \<and> vNext v + int (length new) \<le> vNext w)"

definition floorFree :: "ghost \<Rightarrow> bool" where
  "floorFree G \<longleftrightarrow> gD G \<le> 0"

lemma triple_start:
  "(0 \<le> vTop v \<Longrightarrow> vTop v \<le> vNext v \<Longrightarrow> vNext v \<le> vMax v \<Longrightarrow> triple G v m Q) \<Longrightarrow> triple G v m Q"
  by (rule triple_ok) (auto dest: okView_next)

lemmas pre_defs = exprPre_def callPre_def
lemmas post_defs = afterExpr_def afterCall_def sameScope_def vTop_def vLimit_def

lemma grown_K: "grown v w \<Longrightarrow> int (vK v) \<le> int (vK w)"
  and grown_len: "grown v w \<Longrightarrow> vLen v \<le> vLen w"
  by (simp_all add: grown_def)

text \<open>A call whose results fit, and what it leaves.\<close>

definition fitPre :: "ghost \<Rightarrow> view \<Rightarrow> int \<Rightarrow> int \<Rightarrow> bool" where
  "fitPre G v dest n \<longleftrightarrow> exprPre G v dest \<and> -1 \<le> n \<and> dest + n \<le> vLimit G v"

definition afterResults :: "view \<Rightarrow> int \<Rightarrow> int \<Rightarrow> view \<Rightarrow> bool" where
  "afterResults v dest n w \<longleftrightarrow> sameScope v w \<and> vNext v \<le> vNext w \<and> vNext w \<le> max (vNext v) (dest + max 1 n) \<and>
     (0 < n \<longrightarrow> dest + n \<le> vNext w)"

lemmas result_defs = fitPre_def afterResults_def

text \<open>Results beyond the registers counted so far are counted as pending.\<close>

lemma triple_results:
  assumes "exprPre G v dest" "-1 \<le> n"
    "\<And>H. fitPre H v dest n \<Longrightarrow> gD H = gD G \<Longrightarrow> triple H v m (\<lambda>_. afterResults v dest n)"
  shows "triple G v m (\<lambda>_. afterResults v dest n)"
proof (rule triple_start)
  assume v: "0 \<le> vTop v" "vTop v \<le> vNext v" "vNext v \<le> vMax v"
  show ?thesis
  proof (cases "dest + n \<le> vLimit G v")
    case True
    then show ?thesis using assms by (simp add: result_defs)
  next
    case False
    then have n: "gX G \<le> dest + n" "0 < n" using assms(1) v by (auto simp: exprPre_def vLimit_def)
    have fit: "fitPre (G\<lparr>gX := dest + n\<rparr>) v dest n"
      using assms(1,2) by (auto simp: fitPre_def exprPre_def vLimit_def)
    show ?thesis
      by (rule triple_pending [OF n(1)], rule triple_weaken [OF assms(3) [OF fit]])
        (use n(2) in \<open>auto simp: afterResults_def dest: okView_next\<close>)
  qed
qed

subsection \<open>Steps as changes of the measurements\<close>

text \<open>The rules of the primitives with the new measurements as a variable, which keeps the conditions
of a long method small.\<close>

named_theorems vc \<open>rules that reduce a triple of a method to conditions on its measurements\<close>

lemmas vc_structure [vc] = triple_return triple_fail triple_bind triple_then triple_when triple_if triple_pair
  triple_option triple_seq_Nil triple_seq_Cons triple_next triple_currentPC triple_disableJIT triple_globals
  triple_patchJumpTo triple_patchJump triple_patchJumps triple_resolveLocal triple_resolveLocalInfo

lemma sameScope_refl [simp]: "sameScope v v"
  by (simp add: sameScope_def)

lemma step_emit [vc]:
  "abcOK (dimsOf G v) op a b c \<Longrightarrow> writesAbove (gD G) op a b c \<Longrightarrow>
     (\<And>w. grown v w \<Longrightarrow> sameScope v w \<Longrightarrow> vNext w = vNext v \<Longrightarrow> Q () w) \<Longrightarrow> triple G v (emitABC op a b c line) Q"
  "abcOK (dimsOf G v) op a b c \<Longrightarrow> writesAbove (gD G) op a b c \<Longrightarrow>
     (\<And>w. grown v w \<Longrightarrow> sameScope v w \<Longrightarrow> vNext w = vNext v \<Longrightarrow> Q () w) \<Longrightarrow> triple G v (emitSpreadOp op a b c line) Q"
  "abxOK (dimsOf G v) op a bx \<Longrightarrow> writesAbove (gD G) op a 0 0 \<Longrightarrow>
     (\<And>w. grown v w \<Longrightarrow> sameScope v w \<Longrightarrow> vNext w = vNext v \<Longrightarrow> Q () w) \<Longrightarrow> triple G v (emitABx op a bx line) Q"
  "0 \<le> a \<Longrightarrow> a < vLimit G v \<Longrightarrow> gD G \<le> a \<Longrightarrow>
     (\<And>w. grown v w \<Longrightarrow> sameScope v w \<Longrightarrow> vNext w = vNext v \<Longrightarrow> Q () w) \<Longrightarrow> triple G v (emitInt a i line) Q"
  "0 \<le> a \<Longrightarrow> 0 \<le> b \<Longrightarrow> max a (a + b - 2) < vLimit G v \<Longrightarrow>
     (\<And>w. grown v w \<Longrightarrow> sameScope v w \<Longrightarrow> vNext w = vNext v \<Longrightarrow> Q () w) \<Longrightarrow> triple G v (emitReturn a b) Q"
  by (auto intro!: triple_intros simp: sameScope_def)

lemma step_jump [vc]:
  "(\<And>w. grown v w \<Longrightarrow> sameScope v w \<Longrightarrow> vNext w = vNext v \<Longrightarrow> vLen v < vLen w \<Longrightarrow> Q (vLen v) w) \<Longrightarrow> triple G v (emitJump line) Q"
  by (rule triple_emitJump) (simp add: sameScope_def)

lemma step_close [vc]:
  "(\<And>w. grown v w \<Longrightarrow> sameScope v w \<Longrightarrow> vNext w = vNext v \<Longrightarrow> Q () w) \<Longrightarrow> triple G v (emitCloseCapturedAboveDepth d) Q"
  "(\<And>w. grown v w \<Longrightarrow> sameScope v w \<Longrightarrow> vNext w = vNext v \<Longrightarrow> Q () w) \<Longrightarrow> triple G v emitCloseForJump Q"
  "(\<And>w. grown v w \<Longrightarrow> sameScope v w \<Longrightarrow> vNext w = vNext v \<Longrightarrow> Q () w) \<Longrightarrow> triple G v (compileGotoStmt line name) Q"
  by (auto intro!: triple_closeAbove triple_closeForJump triple_goto simp: sameScope_def)

lemma step_const [vc]:
  "(\<And>k w. grown v w \<Longrightarrow> sameScope v w \<Longrightarrow> vNext w = vNext v \<Longrightarrow> 0 \<le> k \<Longrightarrow> k < int (vK w) \<Longrightarrow> Q k w) \<Longrightarrow> triple G v (stringConst t) Q"
  "(\<And>k w. grown v w \<Longrightarrow> sameScope v w \<Longrightarrow> vNext w = vNext v \<Longrightarrow> 0 \<le> k \<Longrightarrow> k < int (vK w) \<Longrightarrow> Q k w) \<Longrightarrow> triple G v (intConst i) Q"
  "(\<And>k w. grown v w \<Longrightarrow> sameScope v w \<Longrightarrow> vNext w = vNext v \<Longrightarrow> 0 \<le> k \<Longrightarrow> k < int (vK w) \<Longrightarrow> Q k w) \<Longrightarrow> triple G v (floatConst x) Q"
  by (auto intro!: triple_consts simp: sameScope_def)

lemma step_upvalue [vc]:
  "(\<And>i w. grown v w \<Longrightarrow> sameScope v w \<Longrightarrow> vNext w = vNext v \<Longrightarrow> i < int (vU w) \<Longrightarrow> Q i w) \<Longrightarrow> triple G v (resolveUpvalue name) Q"
  "(\<And>i ro w. grown v w \<Longrightarrow> sameScope v w \<Longrightarrow> vNext w = vNext v \<Longrightarrow> i < int (vU w) \<Longrightarrow> P (i, ro) w) \<Longrightarrow>
     triple G v (resolveUpvalueInfo name) P"
  by (auto intro!: triple_resolveUpvalue triple_resolveUpvalueInfo simp: sameScope_def)

lemma step_alloc [vc]:
  "(\<And>w. grown v w \<Longrightarrow> sameScope v w \<Longrightarrow> vNext w = vNext v + 1 \<Longrightarrow> vNext w \<le> vMax w \<Longrightarrow> Q (vNext v) w) \<Longrightarrow> triple G v allocReg Q"
  "0 \<le> n \<Longrightarrow> (\<And>w. grown v w \<Longrightarrow> sameScope v w \<Longrightarrow> vNext w = vNext v + n \<Longrightarrow> vNext w \<le> vMax w \<Longrightarrow> Q (vNext v) w) \<Longrightarrow>
     triple G v (allocRegs n) Q"
  "vTop v \<le> r \<Longrightarrow> (\<And>w. grown v w \<Longrightarrow> sameScope v w \<Longrightarrow> vNext w = r \<Longrightarrow> r \<le> vMax w \<Longrightarrow> P () w) \<Longrightarrow> triple G v (raiseNextReg r) P"
  by (auto intro!: triple_alloc triple_allocRegs triple_raise simp: sameScope_def grown_def)

lemma step_free [vc]:
  "vTop v \<le> r \<Longrightarrow> r \<le> vMax v \<Longrightarrow> (\<And>w. grown v w \<Longrightarrow> sameScope v w \<Longrightarrow> vNext w = r \<Longrightarrow> Q () w) \<Longrightarrow> triple G v (setNextReg r) Q"
  "0 \<le> n \<Longrightarrow> vTop v \<le> vNext v - n \<Longrightarrow> (\<And>w. grown v w \<Longrightarrow> sameScope v w \<Longrightarrow> vNext w = vNext v - n \<Longrightarrow> Q () w) \<Longrightarrow>
     triple G v (freeRegs n) Q"
  "vTop v \<le> vNext v - 1 \<Longrightarrow> (\<And>w. grown v w \<Longrightarrow> sameScope v w \<Longrightarrow> vNext w = vNext v - 1 \<Longrightarrow> Q () w) \<Longrightarrow> triple G v freeReg Q"
  by (auto intro!: triple_setNext triple_free triple_free1 simp: sameScope_def)

subsection \<open>Operand helpers\<close>

lemma triple_grown: "triple G v m (\<lambda>a w. grown v w \<longrightarrow> Q a w) \<Longrightarrow> triple G v m Q"
  by (erule triple_weaken) simp

lemma triple_keep [vc]:
  assumes "vTop v \<le> dest"
    "\<And>w. grown v w \<Longrightarrow> sameScope v w \<Longrightarrow> vNext v \<le> vNext w \<Longrightarrow> vNext w \<le> max (vNext v) (dest + max 1 n) \<Longrightarrow>
      (0 < n \<longrightarrow> dest + n \<le> vNext w) \<Longrightarrow> Q () w"
  shows "triple G v (keepResults dest n) Q"
  unfolding keepResults_def
  by (rule triple_grown, rule triple_start, intro impI vc assms(2)) (use assms(1) in \<open>auto simp: post_defs\<close>)

lemma triple_getField [vc]:
  assumes "0 \<le> t" "t < vMax v" "0 \<le> k" "k < int (vK v)" "0 \<le> dest" "dest \<le> vMax v" "gD G \<le> dest" "gD G \<le> vNext v"
    "\<And>w. grown v w \<Longrightarrow> sameScope v w \<Longrightarrow> vNext w = vNext v \<Longrightarrow> Q () w"
  shows "triple G v (emitGetField dest t k line) Q"
  unfolding emitGetField_def
  by (rule triple_grown, rule triple_start, intro impI vc assms(9), insert assms(1-8), auto simp: post_defs dest: grown_K)

lemma triple_setField [vc]:
  assumes "0 \<le> t" "t < vMax v" "0 \<le> k" "k < int (vK v)" "0 \<le> r" "r < vMax v" "gD G \<le> vNext v"
    "\<And>w. grown v w \<Longrightarrow> sameScope v w \<Longrightarrow> vNext w = vNext v \<Longrightarrow> Q () w"
  shows "triple G v (emitSetField t k r line) Q"
  unfolding emitSetField_def
  by (rule triple_grown, rule triple_start, intro impI vc assms(8), insert assms(1-7), auto simp: post_defs dest: grown_K)

lemma triple_methodLookup [vc]:
  assumes "0 \<le> ob" "ob < vMax v" "0 \<le> k" "k < int (vK v)" "0 \<le> self" "self < vMax v" "gD G \<le> self" "gD G \<le> vNext v"
    "\<And>w. grown v w \<Longrightarrow> sameScope v w \<Longrightarrow> vNext w = vNext v \<Longrightarrow> Q () w"
  shows "triple G v (emitMethodLookup self ob k line) Q"
  unfolding emitMethodLookup_def
  by (rule triple_grown, rule triple_start, intro impI vc assms(9), insert assms(1-8), auto simp: post_defs dest: grown_K)

lemma triple_numberLit:
  "exprPre G v dest \<Longrightarrow> triple G v (compileNumberLit line txt dest) (\<lambda>_. afterExpr v dest)"
  unfolding compileNumberLit_def
  by (rule triple_start, intro vc) (auto simp: pre_defs post_defs)

lemma triple_identExpr:
  "exprPre G v dest \<Longrightarrow> triple G v (compileIdentExpr line name dest) (\<lambda>_. afterExpr v dest)"
  unfolding compileIdentExpr_def
  by (rule triple_start, intro vc) (auto simp: pre_defs post_defs)

lemma binaryOpcode_ok:
  assumes "binaryOpcode op = Some opcode"
  shows "abcOK D opcode a b c \<longleftrightarrow> 0 \<le> a \<and> 0 \<le> b \<and> 0 \<le> c \<and> max a (max b c) < dReg D" "writesAbove d opcode a b c \<longleftrightarrow> d \<le> a"
  using assms by (auto simp: binaryOpcode_def split: if_splits)

lemma unaryOpcode_ok:
  assumes "unaryOpcode op = Some opcode"
  shows "abcOK D opcode a b c \<longleftrightarrow> 0 \<le> a \<and> 0 \<le> b \<and> 0 \<le> c \<and> max a b < dReg D" "writesAbove d opcode a b c \<longleftrightarrow> d \<le> a"
  using assms by (auto simp: unaryOpcode_def split: if_splits)

lemma flattenConcat_fits: "x \<in> set (flattenConcat e) \<Longrightarrow> fitsExpr e \<Longrightarrow> fitsExpr x"
  by (induction e rule: flattenConcat.induct) (auto split: if_splits)

lemma flattenConcat_nonempty: "flattenConcat e \<noteq> []"
  by (induction e rule: flattenConcat.induct) auto

lemma unwrap_fits: "fitsExpr e \<Longrightarrow> fitsExpr (unwrapParenExpr e)"
  by (induction e rule: unwrapParenExpr.induct) auto

lemma typeNumberCallArg_fits: "typeNumberCallArg e = Some a \<Longrightarrow> fitsExpr e \<Longrightarrow> fitsExpr a"
  using unwrap_fits [of e] by (auto simp: typeNumberCallArg_def split: Expr.splits list.splits if_splits)

lemma typeNumberComparison_fits: "typeNumberComparisonArg l r = Some a \<Longrightarrow> fitsExpr l \<Longrightarrow> fitsExpr r \<Longrightarrow> fitsExpr a"
  by (auto simp: typeNumberComparisonArg_def split: option.splits if_splits intro: typeNumberCallArg_fits)

text \<open>A branch whose condition does not matter.\<close>

lemma triple_branch: "triple G v m Q \<Longrightarrow> triple G v k Q \<Longrightarrow> triple G v (if b then m else k) Q"
  by simp

locale valid_entries =
  fixes R :: compilers
  assumes expr: "fitsExpr e \<Longrightarrow> exprPre G v dest \<Longrightarrow> (\<And>w. grown v w \<Longrightarrow> afterExpr v dest w \<Longrightarrow> Q () w) \<Longrightarrow> triple G v (rExprTo R e dest) Q"
    and call: "fitsExpr e \<Longrightarrow> callPre G v e dest n \<Longrightarrow> (\<And>w. grown v w \<Longrightarrow> afterCall v e dest n w \<Longrightarrow> Q () w) \<Longrightarrow>
      triple G v (rCallMulti R e dest n) Q"
    and cond: "fitsExpr e \<Longrightarrow> gD G \<le> vTop v \<Longrightarrow>
      (\<And>w j. grown v w \<Longrightarrow> sameScope v w \<Longrightarrow> vNext w = vNext v \<Longrightarrow> vLen v \<le> j \<Longrightarrow> j < vLen w \<Longrightarrow> P j w) \<Longrightarrow>
      triple G v (rCondJump R inverted e line) P"
    and stmt: "fitsStmt s \<Longrightarrow> floorFree G \<Longrightarrow> (\<And>w. grown v w \<Longrightarrow> afterStmt v w \<Longrightarrow> Q () w) \<Longrightarrow> triple G v (rStmt R s) Q"
begin

lemma exprReg:
  assumes "fitsExpr e" "gD G \<le> vNext v"
    "\<And>w r t. grown v w \<Longrightarrow> sameScope v w \<Longrightarrow> (t \<Longrightarrow> vNext w = vNext v + 1) \<Longrightarrow> (\<not> t \<Longrightarrow> vNext w = vNext v) \<Longrightarrow> vNext v \<le> vNext w \<Longrightarrow> 0 \<le> r \<Longrightarrow> r < vNext w \<Longrightarrow> r < vMax w \<Longrightarrow>
      Q (r, t) w"
  shows "triple G v (compileExprReg R e) Q"
proof (rule triple_ok)
  assume ok: "okView v"
  have reg: "triple G v (askF (\<lambda>f. case e of IdentExpr p n \<Rightarrow> resolveLocal n f | _ \<Rightarrow> - 1)) P"
    if "\<And>r. r < vTop v \<Longrightarrow> P r v" for P
    using that okView_next [OF ok] by (intro triple_askF) (auto simp: resolveLocal_def okF_def intro: resolveLocalInfo_reg split: Expr.split)
  show ?thesis unfolding compileExprReg_def
    by (rule triple_grown, rule triple_start, intro impI reg vc expr assms(1,3))
      (use okView_next [OF ok] assms(2) in \<open>auto simp: pre_defs post_defs\<close>)
qed

subsection \<open>Operators\<close>

lemma shortCircuit:
  "fitsExpr l \<Longrightarrow> fitsExpr r \<Longrightarrow> exprPre G v dest \<Longrightarrow> triple G v (compileAnd R line l r dest) (\<lambda>_. afterExpr v dest)"
  "fitsExpr l \<Longrightarrow> fitsExpr r \<Longrightarrow> exprPre G v dest \<Longrightarrow> triple G v (compileOr R line l r dest) (\<lambda>_. afterExpr v dest)"
  unfolding compileAnd_def compileOr_def compileShortCircuit_def
  by (rule triple_start, intro vc expr, auto simp: pre_defs post_defs dest!: grown_len)+

lemma isNumber:
  "fitsExpr e \<Longrightarrow> exprPre G v dest \<Longrightarrow>
    triple G v (compileIsNumberComparison R e dest invert line) (\<lambda>_. afterExpr v dest)"
  unfolding compileIsNumberComparison_def freeIf_def
  by (rule triple_start, intro vc exprReg) (auto simp: pre_defs post_defs)

lemma comparison:
  assumes "fitsExpr l" "fitsExpr r" "exprPre G v dest" "op \<in> {OP_EQ, OP_LT, OP_LE}" "a \<in> {0, 1}"
  shows "triple G v (compileComparison R line l r dest op a swap) (\<lambda>_. afterExpr v dest)"
proof -
  have f: "fitsExpr (if swap then r else l)" "fitsExpr (if swap then l else r)" using assms(1,2) by auto
  have "\<And>D b c. abcOK D op a b c \<longleftrightarrow> 0 \<le> b \<and> 0 \<le> c \<and> max b c < dReg D" "\<And>b c d. writesAbove d op a b c"
    using assms(4,5) by auto
  then show ?thesis unfolding compileComparison_def withOperands_def freeIf_def
    by - (rule triple_start, intro vc exprReg f, insert assms(3), auto simp: pre_defs post_defs dest!: grown_len simp del: if_split)
qed

lemma concat:
  assumes "fitsExpr e" "exprPre G v dest"
  shows "triple G v (compileConcat R line e dest) (\<lambda>_. afterExpr v dest)"
proof -
  let ?I = "\<lambda>k w. sameScope v w \<and> vNext w = vNext v + int k \<and> (0 < k \<longrightarrow> vNext w \<le> vMax w)"
  have parts: "triple G v (forEachC (\<lambda>part. bindC allocReg (rExprTo R part)) (flattenConcat e)) P"
    if "\<And>w. ?I (length (flattenConcat e)) w \<Longrightarrow> P () w" for P
  proof (rule triple_forEach_nth [where I = ?I])
    fix k w assume k: "k < length (flattenConcat e)" and w: "?I k w"
    have fits: "fitsExpr (flattenConcat e ! k)" by (rule flattenConcat_fits [OF nth_mem [OF k] assms(1)])
    show "triple G w (bindC allocReg (rExprTo R (flattenConcat e ! k))) (\<lambda>_. ?I (Suc k))"
      by (rule triple_start, intro vc expr fits) (use w assms(2) in \<open>auto simp: pre_defs post_defs\<close>)
  qed (use that in \<open>auto simp: post_defs\<close>)
  obtain n where n: "length (flattenConcat e) = Suc n" using flattenConcat_nonempty by (cases "flattenConcat e") auto
  show ?thesis unfolding compileConcat_def Let_def
    by (rule triple_start, intro vc parts) (use assms n in \<open>auto simp: pre_defs post_defs\<close>)
qed

lemma arithmetic:
  "fitsExpr l \<Longrightarrow> fitsExpr r \<Longrightarrow> exprPre G v dest \<Longrightarrow> binaryOpcode op = Some opcode \<Longrightarrow>
    triple G v (withOperands R l r (\<lambda>a b. emitABC opcode dest a b line)) (\<lambda>_. afterExpr v dest)"
  unfolding withOperands_def freeIf_def
  by (rule triple_start, intro vc exprReg, auto simp: pre_defs post_defs binaryOpcode_ok simp del: if_split)

lemma binary:
  assumes "e = BinaryExpr p l op r" "fitsExpr e" "exprPre G v dest"
  shows "triple G v (compileBinaryExpr R line l op r e dest) (\<lambda>_. afterExpr v dest)"
proof -
  have f: "fitsExpr l" "fitsExpr r" using assms by auto
  show ?thesis unfolding compileBinaryExpr_def
    by (intro triple_if triple_option triple_fail shortCircuit isNumber comparison concat arithmetic f assms)
      (auto intro: typeNumberComparison_fits f)
qed

lemma unary:
  "fitsExpr e \<Longrightarrow> exprPre G v dest \<Longrightarrow> triple G v (compileUnaryExpr R line op e dest) (\<lambda>_. afterExpr v dest)"
  unfolding compileUnaryExpr_def
  by (rule triple_start, intro vc expr, auto simp: pre_defs post_defs unaryOpcode_ok)

lemma index:
  "fitsExpr t \<Longrightarrow> fitsExpr i \<Longrightarrow> exprPre G v dest \<Longrightarrow> triple G v (compileIndexExpr R line t i dest) (\<lambda>_. afterExpr v dest)"
  unfolding compileIndexExpr_def freeIf_def
  by (rule triple_start, intro vc exprReg expr, auto simp: pre_defs post_defs)

lemma field:
  "fitsExpr t \<Longrightarrow> exprPre G v dest \<Longrightarrow> triple G v (compileFieldExpr R line t name dest) (\<lambda>_. afterExpr v dest)"
  unfolding compileFieldExpr_def freeIf_def
  by (rule triple_start, intro vc exprReg, auto simp: pre_defs post_defs dest: grown_K)

subsection \<open>Calls\<close>

lemma resultCount_eq: "-1 \<le> n \<Longrightarrow> resultCount n = n + 1"
  by (simp add: resultCount_def)

lemma final:
  assumes "(if b then finalArg R line jit e reg else None) = Some m" "fitsExpr e" "exprPre G v reg"
  shows "triple G v m (\<lambda>_. afterExpr v reg)"
proof -
  have pre: "callPre G w e reg (-1)" if "sameScope v w" "vNext w = vNext v" for w
    using assms(3) that by (auto simp: pre_defs post_defs)
  have multi: "triple G v (thenC (whenC jit disableJIT) (rCallMulti R e reg (-1))) (\<lambda>_. afterExpr v reg)"
    by (intro vc call assms(2) pre) (auto simp: post_defs)
  have vararg: "triple G v (emitABC OP_VARARG reg 0 0 line) (\<lambda>_. afterExpr v reg)"
    by (rule triple_start, intro vc) (use assms(3) in \<open>auto simp: pre_defs post_defs\<close>)
  show ?thesis using assms(1) multi vararg by (cases e) (auto simp: finalArg_def split: if_splits)
qed

lemma triple_final:
  assumes "fitsExpr e" "exprPre G v reg" "triple G v k Q" "\<And>w. grown v w \<Longrightarrow> b \<Longrightarrow> afterExpr v reg w \<Longrightarrow> triple G w rest Q"
  shows "triple G v (case (if b then finalArg R line jit e reg else None) of None \<Rightarrow> k | Some m \<Rightarrow> thenC m rest) Q"
  by (intro triple_option triple_then assms(3)) (auto split: if_splits intro: triple_weaken [OF final [OF _ assms(1,2)] assms(4)])

text \<open>Arguments fill the registers from the next one on.\<close>

definition argsDone :: "view \<Rightarrow> nat \<Rightarrow> view \<Rightarrow> bool" where
  "argsDone v n w \<longleftrightarrow> sameScope v w \<and> vNext v \<le> vNext w \<and> vNext v + int n \<le> vMax w"

lemmas args_defs = argsDone_def pre_defs post_defs

lemma callArgs:
  "list_all (\<lambda>b. b) (map fitsExpr rest) \<Longrightarrow> gD G \<le> vNext v \<Longrightarrow>
    triple G v (callArgs R fn args line rest) (\<lambda>_. argsDone v (length rest))"
proof (induction rest arbitrary: v)
  case Nil
  show ?case by (rule triple_start) (auto intro!: vc simp: args_defs)
next
  case (Cons arg rest)
  have f: "fitsExpr arg" "list_all (\<lambda>b. b) (map fitsExpr rest)" using Cons.prems(1) by simp_all
  show ?case unfolding callArgs.simps Let_def
    by (rule triple_start, intro triple_branch triple_final vc triple_askC expr f triple_weaken [OF Cons.IH [OF f(2)]])
      (use Cons.prems(2) in \<open>auto simp: args_defs simp del: if_split\<close>)
qed

lemma plainArgs:
  "list_all (\<lambda>b. b) (map fitsExpr rest) \<Longrightarrow> gD G \<le> vNext v \<Longrightarrow>
    triple G v (plainArgs R jit line rest) (\<lambda>_. argsDone v (length rest))"
proof (induction rest arbitrary: v)
  case Nil
  show ?case by (rule triple_start) (auto intro!: vc simp: args_defs)
next
  case (Cons arg rest)
  have f: "fitsExpr arg" "list_all (\<lambda>b. b) (map fitsExpr rest)" using Cons.prems(1) by simp_all
  show ?case unfolding plainArgs.simps
    by (rule triple_start, intro triple_final vc expr f triple_weaken [OF Cons.IH [OF f(2)]])
      (use Cons.prems(2) in \<open>auto simp: args_defs simp del: if_split\<close>)
qed

lemma coroutineCall:
  assumes "list_all (\<lambda>b. b) (map fitsExpr args)" "exprPre G v dest" "-1 \<le> n" "dest + n \<le> vLimit G v" "op = OP_YIELD \<or> op = OP_RESUME"
  shows "triple G v (compileCoroutineBuiltinCall R args dest n line op) (\<lambda>_ w. sameScope v w \<and> vNext w = vNext v)"
proof -
  have op: "\<And>D a b c. abcOK D op a b c \<longleftrightarrow> 0 \<le> a \<and> 0 \<le> b \<and> 0 \<le> c \<and> callTop a b c < dReg D"
    "\<And>d a b c. writesAbove d op a b c \<longleftrightarrow> d \<le> a" using assms(5) by auto
  show ?thesis unfolding compileCoroutineBuiltinCall_def
    by (rule triple_start, intro vc triple_weaken [OF plainArgs [OF assms(1)]])
      (use assms(2-4) resultCount_eq [OF assms(3)] in \<open>auto simp: op callTop_def args_defs\<close>)
qed

lemma appendSingle [vc]:
  assumes "0 \<le> t" "t < vMax v" "0 \<le> i" "i < vMax v" "0 \<le> r" "r < vMax v" "gD G \<le> i" "gD G \<le> vNext v"
    "\<And>w. grown v w \<Longrightarrow> sameScope v w \<Longrightarrow> vNext w = vNext v \<Longrightarrow> Q () w"
  shows "triple G v (compileAppendSingle t i r line) Q"
  unfolding compileAppendSingle_def
  by (rule triple_grown, rule triple_start, intro impI vc assms(9), insert assms(1-8), auto simp: post_defs)

lemma appendValue:
  assumes "fitsExpr e" "0 \<le> t" "t < vMax v" "0 \<le> i" "i < vMax v" "gD G \<le> i" "gD G \<le> vNext v"
    "\<And>w. grown v w \<Longrightarrow> sameScope v w \<Longrightarrow> vNext w = vNext v \<Longrightarrow> Q () w"
  shows "triple G v (compileAppendValue R t i e line) Q"
proof -
  have direct: "triple G v (bindC allocReg (\<lambda>valueReg. seqC [rExprTo R x valueReg, compileAppendSingle t i valueReg line, freeReg])) Q"
    if x: "fitsExpr x" for x
    by (rule triple_grown, rule triple_start, intro impI vc expr assms(8) x) (use assms(2-7) in \<open>auto simp: pre_defs post_defs\<close>)
  have multi: "triple G v (bindC (askF fNextReg) (\<lambda>valueReg. seqC [rCallMulti R x valueReg (-1),
        emitSpreadOp OP_SETLISTDYN t i valueReg line, setNextReg valueReg])) Q" if x: "fitsExpr x" for x
    by (rule triple_grown, rule triple_start, intro impI vc call assms(8) x) (use assms(2-7) in \<open>auto simp: pre_defs post_defs\<close>)
  have vararg: "triple G v (bindC (askF fNextReg) (\<lambda>valueReg. seqC [emitABC OP_VARARG valueReg 0 0 line,
        emitSpreadOp OP_SETLISTDYN t i valueReg line])) Q"
    by (rule triple_grown, rule triple_start, intro impI vc assms(8)) (use assms(2-7) in \<open>auto simp: pre_defs post_defs\<close>)
  have spread: "triple G v (compileAppendSpread R t i x line) Q" if x: "fitsExpr x" for x
    unfolding compileAppendSpread_def using direct multi vararg x by (cases x) auto
  have "fitsExpr x" if "explicitSpreadExpr e = Some x" for x
    using that assms(1)
    by (auto simp: explicitSpreadExpr_def globalSpreadExpr_def split: option.splits if_splits Expr.splits list.splits)
  then show ?thesis unfolding compileAppendValue_def using spread direct assms(1)
    by (auto split: option.splits)
qed

lemma spreadArgs:
  assumes "list_all (\<lambda>b. b) (map fitsExpr args)" "0 \<le> t" "t < vMax v" "0 \<le> i" "i < vMax v" "gD G \<le> i" "gD G \<le> vNext v"
    "\<And>w. grown v w \<Longrightarrow> sameScope v w \<Longrightarrow> vNext w = vNext v \<Longrightarrow> Q () w"
  shows "triple G v (compileExplicitSpreadArgList R t i args line) Q"
  unfolding compileExplicitSpreadArgList_def
  by (rule triple_grown, rule triple_forEach [where I = "\<lambda>w. sameScope v w \<and> vNext w = vNext v"])
    (use assms in \<open>auto intro!: appendValue simp: list_all_iff post_defs\<close>)

lemma argCount:
  assumes "0 \<le> t" "t < vMax v" "0 \<le> i" "i < vMax v" "gD G \<le> vNext v"
    "\<And>w. grown v w \<Longrightarrow> sameScope v w \<Longrightarrow> vNext w = vNext v \<Longrightarrow> Q () w"
  shows "triple G v (emitArgCount t i line) Q"
  unfolding emitArgCount_def
  by (rule triple_grown, rule triple_start, intro impI vc assms(6)) (use assms(1-5) in \<open>auto simp: post_defs dest: grown_K\<close>)

lemma spreadCall:
  assumes "fitsExpr fn" "list_all (\<lambda>b. b) (map fitsExpr args)" "fitPre G v dest n"
  shows "triple G v (compileCallExprWithExplicitSpread R line fn args dest n) (\<lambda>_. afterResults v dest n)"
  unfolding compileCallExprWithExplicitSpread_def
  by (rule triple_start, intro vc expr spreadArgs argCount assms)
    (use assms(3) resultCount_eq [of n] in \<open>auto simp: result_defs pre_defs post_defs\<close>)

lemma directCall:
  assumes "fitsExpr fn" "list_all (\<lambda>b. b) (map fitsExpr args)" "fitPre G v dest n"
  shows "triple G v
    (bindC (askF fNextReg) (\<lambda>savedReg. thenC (setNextReg dest) (bindC allocReg (\<lambda>funcReg. thenC (rExprTo R fn funcReg)
      (bindC (callArgs R fn args line args) (\<lambda>lastArgIsMulti. seqC [
        emitABC OP_CALL funcReg (if lastArgIsMulti then 0 else int (length args) + 1) (resultCount n) line,
        setNextReg savedReg, keepResults dest n])))))) (\<lambda>_. afterResults v dest n)"
  by (rule triple_start, intro vc expr triple_weaken [OF callArgs [OF assms(2)]] assms)
    (use assms(3) resultCount_eq [of n] in \<open>auto simp: result_defs callTop_def args_defs\<close>)

text \<open>The object of a method call, and the method and the object as the first two registers.\<close>

lemma methodObject:
  assumes "fitsExpr ob" "gD G \<le> vNext v"
    "\<And>w. grown v w \<Longrightarrow> sameScope v w \<Longrightarrow> vNext w = vNext v + 2 \<Longrightarrow> vNext v + 3 \<le> vMax w \<Longrightarrow> triple G w (rest (vNext v)) Q"
  shows "triple G v (bindC allocReg (\<lambda>selfReg. bindC allocReg (\<lambda>_. bindC allocReg (\<lambda>objReg.
     thenC (rExprTo R ob objReg) (bindC (stringConst m) (\<lambda>methodK.
     thenC (emitMethodLookup selfReg objReg methodK line) (thenC freeReg (rest selfReg)))))))) Q"
proof -
  let ?prefix = "bindC allocReg (\<lambda>selfReg. bindC allocReg (\<lambda>_. bindC allocReg (\<lambda>objReg.
     thenC (rExprTo R ob objReg) (bindC (stringConst m) (\<lambda>methodK.
     thenC (emitMethodLookup selfReg objReg methodK line) (thenC freeReg (returnC selfReg)))))))"
  have prefix: "triple G v ?prefix (\<lambda>r w. r = vNext v \<and> sameScope v w \<and> vNext w = vNext v + 2 \<and> vNext v + 3 \<le> vMax w)"
    by (rule triple_start, intro vc expr assms(1)) (use assms(2) in \<open>auto simp: pre_defs post_defs\<close>)
  have "triple G v (bindC ?prefix rest) Q"
    by (rule triple_bind, rule triple_weaken [OF prefix]) (auto intro: assms(3))
  then show ?thesis by (simp add: bindC_assoc thenC_def bindC_return)
qed

lemma methodCall:
  assumes "fitsExpr ob" "list_all (\<lambda>b. b) (map fitsExpr args)" "fitPre G v dest n"
  shows "triple G v (compileMethodCallExprMulti R line ob m args dest n) (\<lambda>_. afterResults v dest n)"
  unfolding compileMethodCallExprMulti_def compileMethodCallExprWithExplicitSpread_def
  by (rule triple_start, intro methodObject vc expr spreadArgs argCount triple_weaken [OF plainArgs [OF assms(2)]] assms)
    (use assms(3) resultCount_eq [of n] in \<open>auto simp: result_defs callTop_def args_defs\<close>)

lemma spreadMulti:
  assumes "fitsExpr e" "exprPre G v dest" "-1 \<le> n" "n \<le> 1 \<or> dest + n \<le> vLimit G v"
  shows "triple G v (compileExplicitSpreadExprMulti R e dest n line)
    (\<lambda>_ w. sameScope v w \<and> vNext v \<le> vNext w \<and> vNext w \<le> max (vNext v) (dest + max 1 n))" (is "triple G v _ ?Q")
proof -
  have call': "triple G w (rCallMulti R e dest n) (\<lambda>_ u. afterCall w e dest n u)" if "w = v" for w
    by (rule call) (use assms that in \<open>auto simp: callPre_def\<close>)
  have multi: "triple G v (rCallMulti R e dest n) ?Q"
    by (rule triple_weaken [OF call' [OF refl]]) (auto simp: afterCall_def)
  have vararg: "triple G v (if n = -1 then emitABC OP_VARARG dest 0 0 line else emitABC OP_VARARG dest (n + 1) 0 line) ?Q"
    by (rule triple_start, intro vc) (use assms(2-4) in \<open>auto simp: pre_defs post_defs\<close>)
  have ok: "okView v \<Longrightarrow> 0 \<le> vTop v \<and> vTop v \<le> vNext v \<and> vNext v \<le> vMax v" by (rule okView_next)
  have nils: "triple G w (forEachC (\<lambda>i. emitABC OP_LOADNIL (dest + i) 0 0 line) [1..n - 1]) ?Q"
    if w: "sameScope v w" "vNext v \<le> vNext w" "vNext w \<le> max (vNext v) (dest + 1)" for w
    by (rule triple_start, rule triple_forEach [where I = "\<lambda>u. sameScope w u \<and> vNext u = vNext w"], insert assms(2-4) w ok)
      (auto intro!: vc simp: pre_defs post_defs)
  have other: "triple G v (if n = 0 then bindC allocReg (\<lambda>tmp. seqC [rExprTo R e tmp, freeReg])
      else thenC (rExprTo R e dest)
       (if n = -1 then emitSpreadOp OP_SETTOP (dest + 1) 0 0 line
        else forEachC (\<lambda>i. emitABC OP_LOADNIL (dest + i) 0 0 line) [1..n - 1])) ?Q"
    by (rule triple_start, intro vc expr nils assms(1)) (use assms(2,3) in \<open>auto simp: pre_defs post_defs\<close>)
  have "triple G v (if isAnyCall e then rCallMulti R e dest n
     else case e of VarArgExpr p \<Rightarrow>
         if n = -1 then emitABC OP_VARARG dest 0 0 line else emitABC OP_VARARG dest (n + 1) 0 line
       | _ \<Rightarrow> if n = 0 then bindC allocReg (\<lambda>tmp. seqC [rExprTo R e tmp, freeReg])
           else thenC (rExprTo R e dest)
            (if n = -1 then emitSpreadOp OP_SETTOP (dest + 1) 0 0 line
             else forEachC (\<lambda>i. emitABC OP_LOADNIL (dest + i) 0 0 line) [1..n - 1])) ?Q"
    by (intro triple_branch multi) (cases e; insert other vararg; simp only: Expr.case)
  then show ?thesis unfolding compileExplicitSpreadExprMulti_def
    by (intro triple_then triple_disableJIT)
qed

lemma anyCall:
  assumes "fitsExpr e" "callPre G v e dest n"
  shows "triple G v (compileAnyCallMulti R e dest n) (\<lambda>_. afterCall v e dest n)"
proof (cases e)
  case (CallExpr p f a)
  then have f: "fitsExpr f" "list_all (\<lambda>b. b) (map fitsExpr a)" using assms(1) by simp_all
  have pre: "exprPre G v dest" "-1 \<le> n" using assms(2) by (auto simp: callPre_def)
  have done_ok: "triple G v m (\<lambda>_. afterCall v e dest n)" if "triple G v m (\<lambda>_. afterResults v dest n)" for m
    by (rule triple_weaken [OF that]) (auto simp: afterCall_def afterResults_def)
  have plain: "triple G v (compileCallExprWithExplicitSpread R l f a dest n) (\<lambda>_. afterResults v dest n)" for l
    by (rule triple_results [OF pre spreadCall [OF f]])
  show ?thesis
  proof (cases "globalSpreadExpr e")
    case (Some x)
    then have x: "fitsExpr x" using f by (auto simp: CallExpr globalSpreadExpr_def split: Expr.splits list.splits if_splits)
    have notPlain: "\<not> plainCall e" using Some by (simp add: plainCall_def CallExpr)
    then have n: "n \<le> 1 \<or> dest + n \<le> vLimit G v" using assms(2) by (simp add: callPre_def)
    show ?thesis unfolding compileAnyCallMulti_def CallExpr Expr.case compileCallExprMulti_def
      using Some by (simp add: CallExpr) (rule triple_weaken [OF spreadMulti [OF x pre n]], use notPlain in \<open>auto simp: afterCall_def CallExpr\<close>)
  next
    case None
    have coroutine: "triple G v (compileCoroutineBuiltinCall R a dest n l op) (\<lambda>_. afterCall v e dest n)"
      if "staticCoroutineBuiltinOp e = Some op" "\<not> hasExplicitSpread a" for op l
    proof -
      have op: "op = OP_YIELD \<or> op = OP_RESUME" using that(1)
        by (auto simp: staticCoroutineBuiltinOp_def split: Expr.splits if_splits)
      have notPlain: "\<not> plainCall e" using that by (simp add: plainCall_def CallExpr)
      show ?thesis
      proof (rule triple_start)
        assume "vNext v \<le> vMax v"
        then have "dest + n \<le> vLimit G v" using assms(2) notPlain by (auto simp: pre_defs vLimit_def)
        from coroutineCall [OF f(2) pre this op] show ?thesis
          by (rule triple_weaken) (use notPlain in \<open>auto simp: afterCall_def\<close>)
      qed
    qed
    have direct: "triple G v (bindC (askF fNextReg) (\<lambda>savedReg. thenC (setNextReg dest) (bindC allocReg (\<lambda>funcReg.
        thenC (rExprTo R f funcReg) (bindC (callArgs R f a l a) (\<lambda>lastArgIsMulti. seqC [
          emitABC OP_CALL funcReg (if lastArgIsMulti then 0 else int (length a) + 1) (resultCount n) l,
          setNextReg savedReg, keepResults dest n])))))) (\<lambda>_. afterCall v e dest n)" for l
      by (rule done_ok [OF triple_results [OF pre directCall [OF f]]])
    show ?thesis unfolding compileAnyCallMulti_def CallExpr Expr.case compileCallExprMulti_def
      using None done_ok [OF plain] direct coroutine by (simp add: CallExpr split: option.split)
  qed
next
  case (MethodCallExpr p ob m a)
  then have f: "fitsExpr ob" "list_all (\<lambda>b. b) (map fitsExpr a)" using assms(1) by simp_all
  have pre: "exprPre G v dest" "-1 \<le> n" using assms(2) by (auto simp: callPre_def)
  show ?thesis unfolding compileAnyCallMulti_def MethodCallExpr Expr.case
    by (rule triple_weaken [OF triple_results [OF pre methodCall [OF f]]]) (auto simp: afterCall_def afterResults_def)
qed (auto simp: compileAnyCallMulti_def intro: triple_fail)

end

end
