(* ===== verification/Compiler_Valid_Table.thy ===== *)
theory Compiler_Valid_Table
  imports Compiler_Valid
begin

section \<open>Compiled tables, functions and expressions are valid bytecode\<close>

text \<open>
  The second half of the expressions: table and dense literals, channels, function literals and the
  dispatcher. The elements of an array literal wait in registers of a batch, which \<open>batchOK\<close> keeps
  inside the allocated ones.
\<close>

subsection \<open>Constructors\<close>

definition fieldOK :: "nat \<Rightarrow> staticStringField \<Rightarrow> bool" where
  "fieldOK k x \<longleftrightarrow> fitsExpr (sfValue x) \<and> 0 \<le> sfKeyConst x \<and> sfKeyConst x < int k"

lemma fieldOK_new [simp]:
  "fieldOK k \<lparr>sfKey = name, sfKeyConst = c, sfValue = e\<rparr> \<longleftrightarrow> fitsExpr e \<and> 0 \<le> c \<and> c < int k"
  by (simp add: fieldOK_def)

lemma fieldOK_mono: "fieldOK k x \<Longrightarrow> k \<le> k' \<Longrightarrow> fieldOK k' x"
  by (auto simp: fieldOK_def)

definition ctorHas :: "view \<Rightarrow> int \<Rightarrow> nat \<Rightarrow> bool" where
  "ctorHas v i n \<longleftrightarrow> i < int (length (vN v)) \<and> (0 \<le> i \<longrightarrow> vN v ! nat i = n)"

lemma grown_tables:
  "grown v w \<Longrightarrow> vK v \<le> vK w" "grown v w \<Longrightarrow> v2 v \<le> v2 w" "grown v w \<Longrightarrow> \<forall>i n. ctorHas v i n \<longrightarrow> ctorHas w i n"
  by (auto simp: grown_def ctorHas_def nth_append nat_less_iff)

lemma step_newObjectN:
  "ctorHas v k n \<Longrightarrow> 0 \<le> k \<Longrightarrow> k < 256 \<Longrightarrow> 0 \<le> c \<Longrightarrow> c + int n - 1 < vLimit G v \<Longrightarrow> 0 \<le> a \<Longrightarrow> a < vLimit G v \<Longrightarrow> gD G \<le> a \<Longrightarrow>
     (\<And>w. grown v w \<Longrightarrow> sameScope v w \<Longrightarrow> vNext w = vNext v \<Longrightarrow> Q () w) \<Longrightarrow> triple G v (emitABC OP_NEWOBJECTN a k c line) Q"
  by (rule step_emit) (auto simp: ctorHas_def)

lemma step_ctor2 [vc]:
  assumes "0 \<le> i" "i < int (vK v)" "0 \<le> j" "j < int (vK v)"
    "\<And>k w. grown v w \<Longrightarrow> sameScope v w \<Longrightarrow> vNext w = vNext v \<Longrightarrow> k < int (v2 w) \<Longrightarrow> Q k w"
  shows "triple G v (addTableCtor2 i j a b) Q"
  using assms by (intro triple_addTableCtor2) (auto simp: sameScope_def)

lemma step_ctorN [vc]:
  assumes "\<And>x. x \<in> set fs \<Longrightarrow> fieldOK (vK v) x"
    "\<And>k w. grown v w \<Longrightarrow> sameScope v w \<Longrightarrow> vNext w = vNext v \<Longrightarrow> ctorHas w k (length fs) \<Longrightarrow> Q k w"
  shows "triple G v (addTableCtorN fs) Q"
  using assms by (intro triple_addTableCtorN) (auto simp: sameScope_def fieldOK_def ctorHas_def)

definition fieldsFound :: "view \<Rightarrow> staticStringField list option \<Rightarrow> view \<Rightarrow> bool" where
  "fieldsFound v found w \<longleftrightarrow> sameScope v w \<and> vNext w = vNext v \<and> (\<forall>vals. found = Some vals \<longrightarrow> list_all (fieldOK (vK w)) vals)"

lemma list_all_fieldOK_mono: "list_all (fieldOK k) xs \<Longrightarrow> k \<le> k' \<Longrightarrow> list_all (fieldOK k') xs"
  by (auto simp: list_all_iff intro: fieldOK_mono)

lemma twoFields_found:
  "list_all (fieldOK (vK v)) acc \<Longrightarrow> list_all (\<lambda>b. b) (map fitsField fs) \<Longrightarrow> triple G v (twoFields acc fs) (fieldsFound v)"
proof (induction fs arbitrary: acc v)
  case (Cons f fs)
  obtain key val where f: "f = TableField key val" by (cases f)
  have fits: "fitsExpr val" and rest: "list_all (\<lambda>b. b) (map fitsField fs)" using Cons.prems(2) by (simp_all add: f)
  show ?case
  proof (cases key)
    case (Some k)
    show ?thesis unfolding f Some twoFields.simps option.case Let_def
      by (intro triple_if triple_option triple_bind step_const(1) triple_return triple_weaken [OF Cons.IH [OF _ rest]])
        (use Cons.prems(1) fits in \<open>auto simp: fieldsFound_def sameScope_def intro: list_all_fieldOK_mono dest!: grown_tables(1)\<close>)
  qed (auto simp: f fieldsFound_def intro: triple_return)
qed (auto intro!: triple_return simp: fieldsFound_def)

lemma smallFixedFields_found:
  "list_all (fieldOK (vK v)) acc \<Longrightarrow> list_all (\<lambda>b. b) (map fitsField fs) \<Longrightarrow> triple G v (smallFixedFields acc fs) (fieldsFound v)"
proof (induction fs arbitrary: acc v)
  case (Cons f fs)
  obtain key val where f: "f = TableField key val" by (cases f)
  have fits: "fitsExpr val" and rest: "list_all (\<lambda>b. b) (map fitsField fs)" using Cons.prems(2) by (simp_all add: f)
  show ?case
  proof (cases key)
    case (Some k)
    show ?thesis unfolding f Some smallFixedFields.simps option.case Let_def
      by (intro triple_if triple_option triple_bind triple_askF step_const(1) triple_return triple_weaken [OF Cons.IH [OF _ rest]])
        (use Cons.prems(1) fits in \<open>auto simp: fieldsFound_def sameScope_def intro: list_all_fieldOK_mono dest!: grown_tables(1)\<close>)
  qed (auto simp: f fieldsFound_def intro: triple_return)
qed (auto intro!: triple_return simp: fieldsFound_def)

context valid_entries
begin

lemma twoFieldTable:
  assumes "list_all (\<lambda>b. b) (map fitsField fs)" "exprPre G v dest"
  shows "triple G v (compileTwoFieldTableLitExpr R fs dest line) (\<lambda>_ w. sameScope v w \<and> vNext w = vNext v)"
proof -
  have two: "triple G w (if sfKey x = sfKey y then returnC False
      else bindC (addTableCtor2 (sfKeyConst x) (sfKeyConst y) (sfKey x) (sfKey y)) (\<lambda>ctor.
        if ctor < 0 \<or> 255 < ctor then returnC False
        else bindC (askF fNextReg) (\<lambda>valueBase. bindC allocReg (\<lambda>val1. bindC allocReg (\<lambda>val2.
          thenC (seqC [rExprTo R (sfValue x) val1, rExprTo R (sfValue y) val2,
            emitABC OP_NEWOBJECT2 dest ctor valueBase line, setNextReg valueBase]) (returnC True))))))
      (\<lambda>_ w. sameScope v w \<and> vNext w = vNext v)"
    if "sameScope v w" "vNext w = vNext v" "fieldOK (vK w) x" "fieldOK (vK w) y" for w x y
  proof -
    have f: "fitsExpr (sfValue x)" "fitsExpr (sfValue y)" "0 \<le> sfKeyConst x" "sfKeyConst x < int (vK w)"
      "0 \<le> sfKeyConst y" "sfKeyConst y < int (vK w)" using that by (auto simp: fieldOK_def)
    show ?thesis
      by (rule triple_start, intro triple_branch vc expr f)
        (use that(1,2) assms(2) in \<open>auto simp: pre_defs post_defs dest!: grown_tables(2)\<close>)
  qed
  show ?thesis unfolding compileTwoFieldTableLitExpr_def
  proof (rule triple_bind, rule triple_weaken [OF twoFields_found])
    fix r w assume r: "fieldsFound v r w"
    show "triple G w (case r of Some [x, y] \<Rightarrow>
          if sfKey x = sfKey y then returnC False
          else bindC (addTableCtor2 (sfKeyConst x) (sfKeyConst y) (sfKey x) (sfKey y)) (\<lambda>ctor.
            if ctor < 0 \<or> 255 < ctor then returnC False
            else bindC (askF fNextReg) (\<lambda>valueBase. bindC allocReg (\<lambda>val1. bindC allocReg (\<lambda>val2.
              thenC (seqC [rExprTo R (sfValue x) val1, rExprTo R (sfValue y) val2,
                emitABC OP_NEWOBJECT2 dest ctor valueBase line, setNextReg valueBase]) (returnC True)))))
        | _ \<Rightarrow> returnC False) (\<lambda>_ w. sameScope v w \<and> vNext w = vNext v)"
    proof (cases "\<exists>x y. r = Some [x, y]")
      case True
      then show ?thesis using r two by (auto simp: fieldsFound_def simp del: if_split)
    next
      case False
      then show ?thesis using r by (auto simp: fieldsFound_def intro: triple_return split: option.split list.split)
    qed
  qed (use assms(1) in simp_all)
qed

lemma smallFixedTable:
  assumes "list_all (\<lambda>b. b) (map fitsField fs)" "exprPre G v dest"
  shows "triple G v (compileSmallFixedTableLitExpr R fs dest line) (\<lambda>_ w. sameScope v w \<and> vNext w = vNext v)"
proof -
  have alloc: "triple G w (forEachC (\<lambda>_. bindC allocReg (\<lambda>_. returnC ())) (vals :: staticStringField list)) Q"
    if "\<And>u. grown w u \<Longrightarrow> sameScope w u \<Longrightarrow> vNext u = vNext w + int (length vals) \<Longrightarrow> vNext u \<le> vMax u \<Longrightarrow> Q () u" for w vals Q
  proof (rule triple_grown, rule triple_start,
      rule triple_forEach_nth [where I = "\<lambda>k u. sameScope w u \<and> vNext u = vNext w + int k \<and> vNext u \<le> vMax u"])
    fix k u assume "sameScope w u \<and> vNext u = vNext w + int k \<and> vNext u \<le> vMax u"
    then show "triple G u (bindC allocReg (\<lambda>_. returnC ()))
        (\<lambda>_ y. sameScope w y \<and> vNext y = vNext w + int (Suc k) \<and> vNext y \<le> vMax y)"
      by (intro vc) (auto simp: post_defs)
  qed (use that in \<open>auto simp: sameScope_def\<close>)
  have fill: "triple G w (forEachC (\<lambda>(i, x). rExprTo R (sfValue x) (base + i)) (zip [0..int (length vals) - 1] vals)) Q"
    if "\<And>u. grown w u \<Longrightarrow> sameScope w u \<Longrightarrow> vNext u = vNext w \<Longrightarrow> Q () u" "list_all (fieldOK k) vals" "vTop w \<le> base" "gD G \<le> base"
      "base + int (length vals) \<le> vNext w" for w vals base Q k
  proof (rule triple_grown, rule triple_forEach [where I = "\<lambda>u. sameScope w u \<and> vNext u = vNext w"])
    fix p u assume p: "p \<in> set (zip [0..int (length vals) - 1] vals)" and u: "sameScope w u \<and> vNext u = vNext w"
    obtain i x where ix: "p = (i, x)" "i \<in> set [0..int (length vals) - 1]" "x \<in> set vals"
      using p by (metis surj_pair set_zip_leftD set_zip_rightD)
    have "fitsExpr (sfValue x)" using that(2) ix(3) by (auto simp: list_all_iff fieldOK_def)
    then show "triple G u (case p of (i, x) \<Rightarrow> rExprTo R (sfValue x) (base + i)) (\<lambda>_ u. sameScope w u \<and> vNext u = vNext w)"
      unfolding ix(1) prod.case by (rule expr) (use that(3-5) u ix(2) in \<open>auto simp: pre_defs post_defs\<close>)
  qed (use that(1) in \<open>auto simp: sameScope_def\<close>)
  have many: "triple G w (if length vals \<le> 2 then returnC False
      else bindC (addTableCtorN vals) (\<lambda>ctor.
        if ctor < 0 \<or> 255 < ctor then returnC False
        else bindC (askF fNextReg) (\<lambda>valueBase.
          thenC (seqC [forEachC (\<lambda>_. bindC allocReg (\<lambda>_. returnC ())) vals,
            forEachC (\<lambda>(i, x). rExprTo R (sfValue x) (valueBase + i)) (zip [0..int (length vals) - 1] vals),
            emitABC OP_NEWOBJECTN dest ctor valueBase line, setNextReg valueBase]) (returnC True))))
      (\<lambda>_ w. sameScope v w \<and> vNext w = vNext v)"
    if w: "sameScope v w" "vNext w = vNext v" "list_all (fieldOK (vK w)) vals" for w vals
  proof -
    have f: "x \<in> set vals \<Longrightarrow> fieldOK (vK w) x" for x using w(3) by (auto simp: list_all_iff)
    show ?thesis
      by (rule triple_start, intro step_newObjectN [where n = "length vals"] vc alloc fill [OF _ w(3)] f)
        (use w(1,2) assms(2) in \<open>auto simp: pre_defs post_defs dest!: grown_tables(3)\<close>)
  qed
  show ?thesis unfolding compileSmallFixedTableLitExpr_def
    by (rule triple_bind, rule triple_weaken [OF smallFixedFields_found])
      (use assms(1) many in \<open>auto simp: fieldsFound_def intro!: triple_return split: option.split simp del: if_split\<close>)
qed

end

subsection \<open>Array elements\<close>

definition batchOK :: "int \<Rightarrow> arrayBatch \<Rightarrow> view \<Rightarrow> bool" where
  "batchOK e b w \<longleftrightarrow> e \<le> vNext w \<and> 0 \<le> abCount b \<and> abCount b \<le> abIdx b \<and>
     (abBase b = -1 \<and> abCount b = 0 \<or> e \<le> abBase b \<and> abBase b + abCount b \<le> vNext w)"

lemma batchNumber_nonneg: "abCount b \<le> abIdx b \<Longrightarrow> 0 \<le> batchNumber b"
  by (simp add: batchNumber_def pos_imp_zdiv_nonneg_iff)

lemma bind_askF: "bindC (askF f) k c = k (f (cFn c)) c"
  by (simp add: bindC_def askF_def askC_def)

lemma seq_then: "thenC (seqC (m # ms)) k = thenC m (thenC (seqC ms) k)"
  by (simp add: seqC_def thenC_def bindC_assoc)

text \<open>The table register lies below the batch.\<close>

lemma flush:
  assumes "batchOK e b v" "vTop v \<le> dest" "dest \<le> e" "gD G \<le> dest"
  shows "triple G v (flushArrayBatch dest line b)
    (\<lambda>b' w. sameScope v w \<and> vNext w = vNext v \<and> b' = (if 0 < abCount b then clearBatch b else b))"
proof (rule triple_start)
  assume v: "0 \<le> vTop v" "vTop v \<le> vNext v" "vNext v \<le> vMax v"
  have moves: "triple G v (forEachC (\<lambda>i. emitABC OP_MOVE (dest + 1 + i) (abBase b + i) 0 line) [0..abCount b - 1]) Q"
    if "\<And>w. grown v w \<Longrightarrow> sameScope v w \<Longrightarrow> vNext w = vNext v \<Longrightarrow> Q () w" "0 < abCount b" "0 \<le> abBase b" for Q
    by (rule triple_grown, rule triple_forEach [where I = "\<lambda>w. sameScope v w \<and> vNext w = vNext v"])
      (use v assms that in \<open>auto intro!: vc simp: post_defs batchOK_def\<close>)
  have n: "0 \<le> batchNumber b" using assms(1) by (auto simp: batchOK_def intro: batchNumber_nonneg)
  show ?thesis unfolding flushArrayBatch_def
    by (intro vc moves) (use v assms n in \<open>auto simp: post_defs batchOK_def\<close>)
qed

context valid_entries
begin

lemma arrayField:
  assumes "fitsExpr val" "batchOK e b v" "vTop v \<le> dest" "dest \<le> e" "gD G \<le> dest"
  shows "triple G v (compileArrayField R dest line lastField val b) (\<lambda>b' w. sameScope v w \<and> batchOK e b' w)"
  unfolding compileArrayField_def Let_def seq_then
  by (rule triple_start, intro triple_final vc expr triple_weaken [OF flush [where e = e]] assms(1))
    (use assms(2-5) in \<open>auto simp: pre_defs post_defs batchOK_def openBatch_def countElement_def clearBatch_def
      intro: batchNumber_nonneg\<close>)

lemma stringField:
  assumes "fitsExpr val" "0 \<le> dest" "dest \<le> vNext v" "gD G \<le> vNext v"
    "\<And>w. grown v w \<Longrightarrow> sameScope v w \<Longrightarrow> vNext w = vNext v \<Longrightarrow> Q () w"
  shows "triple G v (compileStringField R dest line key val) Q"
  unfolding compileStringField_def
  by (rule triple_grown, rule triple_start, intro impI triple_branch vc expr assms(1,5))
    (use assms(2-4) in \<open>auto simp: pre_defs post_defs dest!: grown_K\<close>)

lemma keyedField:
  assumes "fitsExpr val" "fitsExpr key" "0 \<le> dest" "dest \<le> vNext v" "gD G \<le> vNext v"
    "\<And>w. grown v w \<Longrightarrow> sameScope v w \<Longrightarrow> vNext w = vNext v \<Longrightarrow> Q () w"
  shows "triple G v (compileKeyedField R dest line key val) Q"
proof -
  have static: "triple G v (compileStringField R dest line name val) Q" for name
    by (rule stringField) (use assms in auto)
  show ?thesis unfolding compileKeyedField_def
    by (rule triple_option, simp_all add: static)
      (rule triple_grown, rule triple_start, intro impI vc expr assms(1,2,6), insert assms(3-5), auto simp: pre_defs post_defs)
qed

lemma tableFields:
  "list_all (\<lambda>b. b) (map fitsField fs) \<Longrightarrow> batchOK e b v \<Longrightarrow> vTop v \<le> dest \<Longrightarrow> dest \<le> e \<Longrightarrow> gD G \<le> dest \<Longrightarrow>
    triple G v (compileTableFields R dest line b fs) (\<lambda>b' w. sameScope v w \<and> batchOK e b' w)"
proof (induction fs arbitrary: b v)
  case Nil
  then show ?case by (auto intro: triple_return)
next
  case (Cons f fs)
  obtain key val where f: "f = TableField key val" by (cases f)
  have fits: "fitsExpr val" "list_all (\<lambda>b. b) (map fitsField fs)" using Cons.prems(1) by (simp_all add: f)
  have rest: "triple G w (compileTableFields R dest line b' fs) (\<lambda>b' w. sameScope v w \<and> batchOK e b' w)"
    if "sameScope v w" "batchOK e b' w" for b' w
    by (rule triple_weaken [OF Cons.IH [OF fits(2)]]) (use Cons.prems(3-5) that in \<open>auto simp: post_defs\<close>)
  show ?case
  proof (cases key)
    case None
    show ?thesis unfolding f None compileTableFields.simps option.case
      by (rule triple_bind, rule triple_weaken [OF arrayField [where e = e]]) (use Cons.prems fits rest in auto)
  next
    case (Some k)
    have k: "fitsExpr k" using Cons.prems(1) by (simp add: f Some)
    show ?thesis unfolding f Some compileTableFields.simps option.case
      by (rule triple_start, intro triple_weaken [OF flush [where e = e]] vc keyedField fits k rest)
        (use Cons.prems(2-5) in \<open>auto simp: post_defs batchOK_def clearBatch_def\<close>)
  qed
qed

lemma generalTable:
  assumes "list_all (\<lambda>b. b) (map fitsField fs)" "exprPre G v dest"
  shows "triple G v (compileGeneralTableLit R fs dest line) (\<lambda>_ w. sameScope v w \<and> vNext w = vNext v)"
  unfolding compileGeneralTableLit_def
  by (rule triple_start, intro vc triple_weaken [OF tableFields [OF assms(1), where e = "vNext v"]]
      triple_weaken [OF flush [where e = "vNext v"]])
    (use assms(2) in \<open>auto simp: pre_defs post_defs batchOK_def emptyBatch_def clearBatch_def arrayFieldCount_def hashFieldCount_def\<close>)

lemma spreadTable:
  assumes "list_all (\<lambda>b. b) (map fitsField fs)" "exprPre G v dest"
  shows "triple G v (compileTableLitExprWithExplicitSpread R fs dest line) (\<lambda>_ w. sameScope v w \<and> vNext w = vNext v)"
proof -
  have field: "triple G w (case f of TableField key val \<Rightarrow> (case key of
        None \<Rightarrow> compileAppendValue R dest i val line | Some k \<Rightarrow> compileKeyedField R dest line k val))
      (\<lambda>_ u. sameScope w u \<and> vNext u = vNext w)"
    if "f \<in> set fs" "0 \<le> dest" "dest < vMax w" "0 \<le> i" "i < vMax w" "dest \<le> vNext w" "gD G \<le> i" "gD G \<le> vNext w" for w f i
  proof (cases f)
    case (TableField key val)
    then have "fitsExpr val" "\<And>k. key = Some k \<Longrightarrow> fitsExpr k" using assms(1) that(1) by (auto simp: list_all_iff)
    then show ?thesis using that unfolding TableField TableField.case
      by (intro triple_option) (auto intro!: appendValue keyedField)
  qed
  have fields: "triple G w (forEachC (\<lambda>f. case f of TableField key val \<Rightarrow> (case key of
        None \<Rightarrow> compileAppendValue R dest i val line | Some k \<Rightarrow> compileKeyedField R dest line k val)) fs) Q"
    if "\<And>u. sameScope w u \<Longrightarrow> vNext u = vNext w \<Longrightarrow> Q () u" "0 \<le> dest" "dest < vMax w" "0 \<le> i" "i < vMax w"
      "dest \<le> vNext w" "gD G \<le> i" "gD G \<le> vNext w" for w i Q
    by (rule triple_forEach [where I = "\<lambda>u. sameScope w u \<and> vNext u = vNext w"])
      (use that in \<open>auto intro!: triple_weaken [OF field] simp: post_defs\<close>)
  show ?thesis unfolding compileTableLitExprWithExplicitSpread_def
    by (rule triple_start, intro vc fields)
      (use assms(2) in \<open>auto simp: pre_defs post_defs arrayFieldCount_def hashFieldCount_def\<close>)
qed

lemma tableLit:
  assumes "list_all (\<lambda>b. b) (map fitsField fs)" "exprPre G v dest"
  shows "triple G v (compileTableLitExpr R fs dest line) (\<lambda>_. afterExpr v dest)"
proof -
  have pre: "exprPre G w dest" if "sameScope v w" "vNext w = vNext v" for w
    using assms(2) that by (auto simp: pre_defs post_defs)
  show ?thesis unfolding compileTableLitExpr_def
    by (intro vc triple_branch triple_weaken [OF spreadTable] triple_weaken [OF twoFieldTable]
        triple_weaken [OF smallFixedTable] triple_weaken [OF generalTable] assms pre)
      (auto simp: post_defs)
qed

lemma listLit:
  "list_all (\<lambda>b. b) (map fitsExpr vs) \<Longrightarrow> exprPre G v dest \<Longrightarrow>
    triple G v (compileListLitExpr R vs dest line) (\<lambda>_. afterExpr v dest)"
  unfolding compileListLitExpr_def by (rule tableLit) (simp_all add: list_all_iff)

lemma denseLit:
  assumes "list_all (\<lambda>b. b) (map fitsExpr vs)" "exprPre G v dest"
  shows "triple G v (compileDenseLitExpr R line dtype len vs dest) (\<lambda>_. afterExpr v dest)"
proof -
  have arg: "triple G w (bindC allocReg (\<lambda>argReg. bindC (askF fNextReg) (\<lambda>savedArgTop.
      seqC [rExprTo R x argReg, setNextReg savedArgTop]))) (\<lambda>_ u. sameScope w u \<and> vNext u = vNext w + 1 \<and> vNext u \<le> vMax u)"
    if "x \<in> set vs" "gD G \<le> vNext w" for w x
    by (rule triple_start, intro vc expr) (use that assms(1) in \<open>auto simp: list_all_iff pre_defs post_defs\<close>)
  have args: "triple G w (forEachC (\<lambda>x. bindC allocReg (\<lambda>argReg. bindC (askF fNextReg) (\<lambda>savedArgTop.
      seqC [rExprTo R x argReg, setNextReg savedArgTop]))) vs) Q"
    if Q: "\<And>u. grown w u \<Longrightarrow> sameScope w u \<Longrightarrow> vNext u = vNext w + int (length vs) \<Longrightarrow> vNext u \<le> vMax u \<Longrightarrow> Q () u"
      and D: "gD G \<le> vNext w" for w Q
  proof (rule triple_grown, rule triple_start,
      rule triple_forEach_nth [where I = "\<lambda>k u. sameScope w u \<and> vNext u = vNext w + int k \<and> vNext u \<le> vMax u"])
    fix k u assume "k < length vs" "sameScope w u \<and> vNext u = vNext w + int k \<and> vNext u \<le> vMax u"
    then show "triple G u (bindC allocReg (\<lambda>argReg. bindC (askF fNextReg) (\<lambda>savedArgTop.
        seqC [rExprTo R (vs ! k) argReg, setNextReg savedArgTop])))
        (\<lambda>_ y. sameScope w y \<and> vNext y = vNext w + int (Suc k) \<and> vNext y \<le> vMax y)"
      using D by (intro triple_weaken [OF arg]) (auto simp: sameScope_def)
  qed (use Q in \<open>auto simp: sameScope_def\<close>)
  show ?thesis unfolding compileDenseLitExpr_def
    by (rule triple_start, intro vc args)
      (use assms(2) in \<open>auto simp: pre_defs post_defs callTop_def dest: grown_K\<close>)
qed

subsection \<open>Channels\<close>

lemma recv:
  "fitsExpr ch \<Longrightarrow> exprPre G v dest \<Longrightarrow> triple G v (compileRecvExpr R line ch dest) (\<lambda>_. afterExpr v dest)"
  unfolding compileRecvExpr_def
  by (rule triple_start, intro vc expr, auto simp: pre_defs post_defs)

lemma makeChan:
  "pred_option (\<lambda>b. b) (map_option fitsExpr sz) \<Longrightarrow> exprPre G v dest \<Longrightarrow>
    triple G v (compileMakeChanExpr R line sz dest) (\<lambda>_. afterExpr v dest)"
  unfolding compileMakeChanExpr_def
  by (rule triple_start, intro vc expr, auto simp: pre_defs post_defs)

text \<open>The registers for both results are raised in one step.\<close>

lemma raise_both:
  "thenC (whenC (base \<le> d) (setNextReg (d + 1))) (bindC (askF fNextReg) (\<lambda>r.
     thenC (whenC (r \<le> e) (setNextReg (e + 1))) (thenC (updF growMax) k))) c =
   thenC (raiseNextReg (max base (max (d + 1) (e + 1)))) k c" if "fNextReg (cFn c) = base"
proof -
  let ?r = "if base \<le> d then d + 1 else base"
  have r: "max base (max (d + 1) (e + 1)) = (if ?r \<le> e then e + 1 else ?r)" by (simp add: max_def)
  show ?thesis unfolding r using that by (cases c; cases "cFn c")
    (simp add: thenC_def bindC_def whenC_def setNextReg_def raiseNextReg_def updF_def updC_def askF_def askC_def returnC_def)
qed

lemma recvOK_raise:
  "compileRecvOKExpr R line ch d e = bindC (askF fNextReg) (\<lambda>base.
     thenC (raiseNextReg (max base (max (d + 1) (e + 1))))
    (bindC allocReg (\<lambda>chReg. seqC [rExprTo R ch chReg, emitABC OP_RECVOK d chReg e line, setNextReg base])))"
  by (rule ext) (simp add: compileRecvOKExpr_def bind_askF raise_both)

lemma recvOK:
  assumes "fitsExpr ch" "0 \<le> d" "0 \<le> e" "gD G \<le> 0"
    "\<And>w. grown v w \<Longrightarrow> sameScope v w \<Longrightarrow> vNext w = vNext v \<Longrightarrow> d < vMax w \<Longrightarrow> e < vMax w \<Longrightarrow> Q () w"
  shows "triple G v (compileRecvOKExpr R line ch d e) Q"
  unfolding recvOK_raise
  by (rule triple_grown, rule triple_start, intro impI vc expr assms(1,5)) (use assms(2-4) in \<open>auto simp: pre_defs post_defs\<close>)

end

subsection \<open>Scopes\<close>

lemma afterStmt_same: "sameScope v w \<Longrightarrow> vNext v \<le> vNext w \<Longrightarrow> afterStmt v w"
  by (auto simp: afterStmt_def sameScope_def)

lemma afterStmt_trans:
  assumes "afterStmt u v" "afterStmt v w"
  shows "afterStmt u w"
proof -
  obtain a where a: "vLocals v = a @ vLocals u" "\<forall>l\<in>set a. snd l = vDepth u" "vNext u + int (length a) \<le> vNext v"
    using assms(1) by (auto simp: afterStmt_def)
  obtain b where b: "vLocals w = b @ vLocals v" "\<forall>l\<in>set b. snd l = vDepth v" "vNext v + int (length b) \<le> vNext w"
    using assms(2) by (auto simp: afterStmt_def)
  have "vLocals w = (b @ a) @ vLocals u" "\<forall>l\<in>set (b @ a). snd l = vDepth u" "vNext u + int (length (b @ a)) \<le> vNext w"
    using a b assms(1) by (auto simp: afterStmt_def)
  then show ?thesis using assms by (auto simp: afterStmt_def intro!: exI [of _ "b @ a"])
qed

lemma afterStmt_local: "afterStmt v (v\<lparr>vNext := vNext v + 1, vMax := m, vLocals := (r, vDepth v) # vLocals v\<rparr>)" if "vMax v \<le> m"
  using that by (auto simp: afterStmt_def intro!: exI [of _ "[(r, vDepth v)]"])

lemma afterStmt_one: "vLocals w = (r, vDepth v) # vLocals v \<Longrightarrow> vMax v \<le> vMax w \<Longrightarrow> vDepth w = vDepth v \<Longrightarrow> vNext v + 1 \<le> vNext w \<Longrightarrow>
    afterStmt v w"
  by (auto simp: afterStmt_def intro!: exI [of _ "[(r, vDepth v)]"])

lemma step_local [vc]:
  assumes "\<And>w. grown v w \<Longrightarrow> afterStmt v w \<Longrightarrow> vMax v \<le> vMax w \<Longrightarrow> vDepth w = vDepth v \<Longrightarrow> vNext w = vNext v + 1 \<Longrightarrow> vNext w \<le> vMax w \<Longrightarrow>
      vLocals w = (vNext v, vDepth v) # vLocals v \<Longrightarrow> Q (vNext v) w"
  shows "triple G v (addLocalWithReadOnly name ro) Q" "triple G v (addLocal name) Q"
  by (auto intro!: triple_addLocalWithReadOnly triple_addLocal assms simp: afterStmt_local grown_def)

text \<open>Leaving the scope in which statements have run drops the locals they declared.\<close>

definition entered :: "view \<Rightarrow> view" where
  "entered v = v\<lparr>vDepth := vDepth v + 1\<rparr>"

lemma entered_sel [simp]:
  "vNext (entered v) = vNext v" "vMax (entered v) = vMax v" "vLocals (entered v) = vLocals v" "vDepth (entered v) = vDepth v + 1"
  "vTop (entered v) = vTop v" "grown (entered v) w = grown v w" "grown v (entered v)"
  by (simp_all add: entered_def grown_def vTop_def)

lemma step_leave:
  assumes "afterStmt (entered v) w" "okView v"
    "\<And>u. grown w u \<Longrightarrow> sameScope v u \<Longrightarrow> vNext v \<le> vNext u \<Longrightarrow> vMax w \<le> vMax u \<Longrightarrow> vNext u \<le> vNext w \<Longrightarrow> Q () u"
  shows "triple G w leaveScope Q"
proof -
  obtain new where new: "vLocals w = new @ vLocals v" "\<forall>l\<in>set new. snd l = vDepth v + 1" "vNext v + int (length new) \<le> vNext w"
    using assms(1) by (auto simp: afterStmt_def)
  have old: "\<forall>l\<in>set (vLocals v). snd l < vDepth v + 1" using assms(2) by (auto simp: okView_def okLocals_def)
  have w: "vDepth w = vDepth v + 1" "vMax v \<le> vMax w" using assms(1) by (auto simp: afterStmt_def)
  show ?thesis
    by (rule triple_grown, rule triple_leaveScope [OF new(1)])
      (use new old w assms okView_next [OF assms(2)] in
        \<open>auto simp: inScope_def vTop_def sameScope_def intro!: assms(3)\<close>)
qed

subsection \<open>Functions\<close>

lemma step_push_local:
  assumes "vTop v \<le> r" "r < vNext v"
    "\<And>w. grown v w \<Longrightarrow> vNext w = vNext v \<Longrightarrow> vMax w = vMax v \<Longrightarrow> vDepth w = vDepth v \<Longrightarrow> vLocals w = (r, vDepth v) # vLocals v \<Longrightarrow> Q () w"
  shows "triple G v (updF (\<lambda>f. f\<lparr>fLocals := \<lparr>lvName = name, lvReg = r, lvDepth = fDepth f,
    lvCaptured = False, lvReadOnly = False\<rparr> # fLocals f\<rparr>)) Q"
proof (rule triple_ok)
  assume ok: "okView v"
  let ?v = "v\<lparr>vLocals := (r, vDepth v) # vLocals v\<rparr>"
  have "okView ?v" using ok okView_next [OF ok] assms(1,2) by (auto simp: okView_def okLocals_Cons vTop_def)
  moreover have "fDepth f = vDepth v" if "viewOf f = v" for f using arg_cong [OF that, of vDepth] by simp
  ultimately show ?thesis
    by (intro triple_regs [where w = ?v]) (use assms(3) [of ?v] in \<open>auto simp: viewOf_def lvKey_def grown_def\<close>)
qed

lemma params:
  "floorFree G \<Longrightarrow> (\<And>w. afterStmt v w \<Longrightarrow> Q () w) \<Longrightarrow> triple G v (declareParams line ps) Q"
proof (induction ps arbitrary: v)
  case Nil
  then show ?case by (auto intro!: triple_return simp: afterStmt_same)
next
  case (Cons p ps)
  have rest: "triple G w (declareParams line ps) Q" if "afterStmt v w" for w
    by (rule Cons.IH) (use Cons.prems that in \<open>auto intro: afterStmt_trans\<close>)
  have vararg: "triple G v (bindC (addLocal (fpName p)) (\<lambda>reg. seqC [emitABC OP_NEWTABLE reg 0 0 line,
      emitABC OP_VARARG (reg + 1) 0 0 line, emitABC OP_SETLIST reg 0 1 line])) Q"
    by (rule triple_start, intro vc Cons.prems(2))
      (use Cons.prems(1) in \<open>auto simp: floorFree_def vTop_def vLimit_def sameScope_def intro: afterStmt_one\<close>)
  show ?case unfolding declareParams.simps
    by (intro triple_branch vararg triple_return triple_bind step_local rest Cons.prems(2)) (simp_all add: afterStmt_same)
qed

lemma seqC_last: "seqC ms c = COk u c' \<Longrightarrow> ms \<noteq> [] \<Longrightarrow> \<exists>c1. last ms c1 = COk () c'"
  by (induction ms arbitrary: c) (auto simp: seqC_def thenC_def bindC_def returnC_def split: cres.splits if_splits)

lemma code_ends:
  assumes "bindC (askF fCode) (\<lambda>code. whenC (\<not> endsWithReturn code) (emitReturn 0 1)) c = COk u c'"
  shows "endsWithReturn (fCode (cFn c'))"
  using assms
  by (auto simp: bind_askF whenC_def returnC_def emitReturn_def emitABC_def emit_def thenC_def bindC_def updF_def updC_def askF_def askC_def
      endsWithReturn_def split: if_splits)

context valid_entries
begin

lemma stmts:
  "list_all (\<lambda>b. b) (map fitsStmt ss) \<Longrightarrow> floorFree G \<Longrightarrow> (\<And>w. grown v w \<Longrightarrow> afterStmt v w \<Longrightarrow> Q () w) \<Longrightarrow>
    triple G v (forEachC (rStmt R) ss) Q"
  by (rule triple_grown, rule triple_forEach [where I = "afterStmt v"])
    (auto intro!: stmt intro: afterStmt_trans simp: list_all_iff afterStmt_same)

lemma body_stmts: "fitsBlock b \<Longrightarrow> list_all (\<lambda>b. b) (map fitsStmt (blockStmts b))"
  by (cases b) simp

lemma compiledFunction:
  assumes "fitsBlock body"
    "\<And>w. grown v w \<Longrightarrow> sameScope v w \<Longrightarrow> vNext w = vNext v \<Longrightarrow> vP v < vP w \<Longrightarrow> Q (int (vP v)) w"
  shows "triple G v (compileFunction R name params body line) Q"
proof -
  obtain n va where n: "countFixedFunctionParams params = (n, va)" by fastforce
  let ?final = "bindC (askF fCode) (\<lambda>code. whenC (\<not> endsWithReturn code) (emitReturn 0 1))"
  let ?rest = "[enterScope, declareParams line params, updF (fNumParams_update (\<lambda>_. n)),
        whenC (blockContainsReturn body \<and> \<not> blockAlwaysReturns body) disableJIT,
        whenC (blockHasLoopReturnTable body False) disableJIT, collectFunctionArities (blockStmts body),
        collectFunctionResults (blockStmts body), collectLabelDepths (blockStmts body),
        forEachC (rStmt R) (blockStmts body), patchGotos, leaveScope, ?final]"
  have G: "floorFree freshGhost" by (simp add: floorFree_def freshGhost_def)
  have num: "triple freshGhost w (updF (fNumParams_update (\<lambda>_. n))) P" if "P () w" for w P
    by (rule triple_ok, rule triple_regs [where w = w]) (use that in \<open>auto simp: viewOf_def\<close>)
  have fin: "triple freshGhost w ?final P" if "\<And>u. P () u" for w P
    by (rule triple_start, intro triple_bind triple_askF vc) (auto simp: vLimit_def that)
  have enter: "triple freshGhost freshView enterScope P" if "P () (entered freshView)" for P
    by (rule triple_enterScope) (use that in \<open>simp add: entered_def\<close>)
  have fresh: "okView freshView" using newFunction_ok by (metis okF_def)
  have body: "triple freshGhost freshView (seqC ?rest) (\<lambda>_ _. True)"
    by (intro triple_seq_Cons triple_seq_Nil enter params [OF G] num triple_when triple_disableJIT triple_collect triple_patchGotos
       stmts [OF body_stmts [OF assms(1)] G] step_leave [OF _ fresh] fin)
      (auto intro: afterStmt_trans)
  have "compileFunction R name params body line = thenC (setFunctionArity name \<lparr>faNumParams = n, faVararg = va\<rparr>)
      (thenC (pushFunction name line va) (thenC (seqC ?rest) (addProto name n)))"
    by (simp only: compileFunction_def n prod.case seq_then addProto_def)
  moreover have "endsWithReturn (fCode (cFn c'))" if "seqC ?rest c = COk u c'" for c u c'
    using seqC_last [OF that] code_ends by auto
  ultimately show ?thesis
    by (simp only:) (intro triple_then triple_globals triple_child body; use assms(2) in \<open>auto simp: grown_def sameScope_def\<close>)
qed

lemma funcLit:
  "fitsBlock body \<Longrightarrow> exprPre G v dest \<Longrightarrow> triple G v (compileFuncLitExpr R line ps body dest) (\<lambda>_. afterExpr v dest)"
  unfolding compileFuncLitExpr_def
  by (rule triple_start, intro vc compiledFunction) (auto simp: pre_defs post_defs)

lemma spreadOf_fits:
  assumes "globalSpreadExpr e = Some x" "fitsExpr e"
  shows "fitsExpr x"
  using assms by (auto simp: globalSpreadExpr_def split: Expr.splits list.splits if_splits)

lemma oneResult:
  assumes "fitsExpr e" "exprPre G v dest"
  shows "triple G v (compileAnyCallMulti R e dest 1) (\<lambda>_. afterExpr v dest)"
  by (rule triple_weaken [OF anyCall [OF assms(1)]]) (use assms(2) in \<open>auto simp: pre_defs post_defs\<close>)

lemma exprTo:
  assumes "fitsExpr e" "exprPre G v dest"
  shows "triple G v (compileExprTo R e dest) (\<lambda>_. afterExpr v dest)"
proof -
  have simple: "0 \<le> i \<Longrightarrow> triple G v (emitABC OP_LOADBOOL dest i 0 l) (\<lambda>_. afterExpr v dest)"
    "triple G v (emitABC OP_LOADNIL dest 0 0 l) (\<lambda>_. afterExpr v dest)"
    "triple G v (emitABC OP_VARARG dest 2 0 l) (\<lambda>_. afterExpr v dest)"
    "triple G v (bindC (stringConst t) (\<lambda>k. emitABx OP_LOADK dest k l)) (\<lambda>_. afterExpr v dest)" for i l t
    by (rule triple_start, intro vc; use assms(2) in \<open>auto simp: pre_defs post_defs\<close>)+
  note cases = simple triple_numberLit triple_identExpr binary unary index field tableLit listLit denseLit funcLit recv makeChan
  note calls = oneResult [OF assms, unfolded compileAnyCallMulti_def]
  have paren: "triple G v (rExprTo R x dest) (\<lambda>_. afterExpr v dest)" if "fitsExpr x" for x
    by (rule expr) (use assms(2) that in auto)
  show ?thesis unfolding compileExprTo_def
    using assms calls
    by (cases e; simp only: Expr.case) (auto intro!: cases paren triple_fail simp del: if_split simp: fitsExpr.simps)
qed

end

end
