(* ===== verification/Compiler_Valid_Stmt.thy ===== *)
theory Compiler_Valid_Stmt
  imports Compiler_Valid_Table
begin

section \<open>Compiled statements are valid bytecode\<close>

text \<open>
  The statements keep the code valid and add at most locals of the current scope, each in a register
  of its own. The last section closes the recursion: every level of the compiler satisfies
  \<open>valid_entries\<close>.
\<close>

subsection \<open>Scopes and loops\<close>

lemmas step_loops [vc] = triple_pushLoop triple_popLoop triple_addJumps triple_patchLoop triple_patchGotos triple_label triple_collect

lemma step_enter [vc]: "Q () (entered v) \<Longrightarrow> triple G v enterScope Q"
  by (rule triple_enterScope) (simp add: entered_def)

lemma step_scoped:
  assumes "triple G (entered v) m (\<lambda>_. afterStmt (entered v))"
    "\<And>w. grown v w \<Longrightarrow> sameScope v w \<Longrightarrow> vNext v \<le> vNext w \<Longrightarrow> Q () w"
  shows "triple G v (scoped m) Q"
  unfolding scoped_def
  by (rule triple_ok, rule triple_grown, intro triple_then step_enter triple_weaken [OF assms(1)] step_leave) (auto intro: assms(2))

context valid_entries
begin

lemma bodyBlock:
  assumes "fitsBlock b" "floorFree G" "\<And>w. grown v w \<Longrightarrow> sameScope v w \<Longrightarrow> vNext v \<le> vNext w \<Longrightarrow> Q () w"
  shows "triple G v (compileBody R b) Q"
  unfolding compileBody_def by (intro step_scoped stmts body_stmts assms)

lemma block:
  assumes "fitsBlock b" "floorFree G" "\<And>w. grown v w \<Longrightarrow> sameScope v w \<Longrightarrow> vNext v \<le> vNext w \<Longrightarrow> Q () w"
  shows "triple G v (compileBlockStmt R b) Q"
  unfolding compileBlockStmt_def by (intro step_scoped vc stmts body_stmts assms)

subsection \<open>Conditions\<close>

lemma truthJump:
  assumes "fitsExpr e" "gD G \<le> vTop v"
    "\<And>w j. grown v w \<Longrightarrow> sameScope v w \<Longrightarrow> vNext w = vNext v \<Longrightarrow> vLen v \<le> j \<Longrightarrow> j < vLen w \<Longrightarrow> P j w"
  shows "triple G v (compileTruthJump R inverted e line) P"
  unfolding compileTruthJump_def
  by (rule triple_grown, rule triple_start, intro impI vc triple_weaken [OF exprTo [OF assms(1)]] assms(3))
    (use assms(2) in \<open>auto simp: pre_defs post_defs dest!: grown_len\<close>)

lemma isNumberJump:
  assumes "fitsExpr e" "gD G \<le> vTop v"
    "\<And>w j. grown v w \<Longrightarrow> sameScope v w \<Longrightarrow> vNext w = vNext v \<Longrightarrow> vLen v \<le> j \<Longrightarrow> j < vLen w \<Longrightarrow> P j w"
  shows "triple G v (compileIsNumberCondJump R e invert jumpWhenTrue line) P"
  unfolding compileIsNumberCondJump_def
  by (rule triple_grown, rule triple_start, intro impI vc expr assms(1,3))
    (use assms(2) in \<open>auto simp: pre_defs post_defs dest!: grown_len\<close>)

lemma condCmp:
  assumes "fitsExpr l" "fitsExpr r" "gD G \<le> vTop v" "op \<in> {OP_EQ, OP_LT, OP_LE}" "a \<in> {0, 1}"
    "\<And>w j. grown v w \<Longrightarrow> sameScope v w \<Longrightarrow> vNext w = vNext v \<Longrightarrow> vLen v \<le> j \<Longrightarrow> j < vLen w \<Longrightarrow> P j w"
  shows "triple G v (compileCondCmp R line l r op a swap) P"
proof -
  have f: "fitsExpr (if swap then r else l)" "fitsExpr (if swap then l else r)" using assms(1,2) by auto
  have "\<And>D b c. abcOK D op a b c \<longleftrightarrow> 0 \<le> b \<and> 0 \<le> c \<and> max b c < dReg D" "\<And>b c d. writesAbove d op a b c"
    using assms(4,5) by auto
  then show ?thesis unfolding compileCondCmp_def withOperands_def freeIf_def
    by - (rule triple_grown, rule triple_start, intro impI vc exprReg f assms(6), insert assms(3),
      auto simp: pre_defs post_defs dest!: grown_len simp del: if_split)
qed

lemma condJump:
  assumes "fitsExpr e" "gD G \<le> vTop v"
    "\<And>w j. grown v w \<Longrightarrow> sameScope v w \<Longrightarrow> vNext w = vNext v \<Longrightarrow> vLen v \<le> j \<Longrightarrow> j < vLen w \<Longrightarrow> P j w"
  shows "triple G v (compileCondJump R inverted e line) P"
proof -
  note truth = truthJump [OF assms]
  show ?thesis
  proof (cases e)
    case (BinaryExpr p l op r)
    then have f: "fitsExpr l" "fitsExpr r" using assms(1) by auto
    have cmp: "triple G v (compileCondCmp R (pLine p) l r opcode (if inverted then 1 - a else a) swap) P"
      if "condOpcode op = Some (opcode, a, swap)" for opcode a swap
      by (rule condCmp) (use that f assms(2,3) in \<open>auto simp: condOpcode_def split: if_splits\<close>)
    have num: "triple G v (compileIsNumberCondJump R arg i inverted line) P"
      if "typeNumberComparisonArg l r = Some arg" for arg i
      by (rule isNumberJump) (use that f assms(2,3) in \<open>auto intro: typeNumberComparison_fits\<close>)
    show ?thesis unfolding compileCondJump_def BinaryExpr Expr.case
      using truth cmp num by (auto simp: BinaryExpr split: option.split)
  next
    case (UnaryExpr p op x)
    have "triple G v (rCondJump R (\<not> inverted) x line) P"
      by (rule cond) (use assms UnaryExpr in auto)
    with truth show ?thesis unfolding compileCondJump_def by (simp add: UnaryExpr)
  qed (insert truth, simp_all add: compileCondJump_def)
qed

end

subsection \<open>Lists of values\<close>

text \<open>Registers reserved for results before they are allocated.\<close>

lemma triple_reserve:
  assumes "\<And>H. gD H = gD G \<Longrightarrow> y \<le> gX H \<Longrightarrow> triple H v m (\<lambda>a w. y \<le> vMax w \<and> Q a w)"
  shows "triple G v m Q"
proof (cases "gX G \<le> y")
  case True
  from triple_pending [OF this assms] show ?thesis by simp
next
  case False
  then show ?thesis by (intro triple_weaken [OF assms]) auto
qed

text \<open>What \<open>fillsNames\<close> says once the values that are one call or receive alone are gone.\<close>

definition fillsRest :: "nat \<Rightarrow> Expr list \<Rightarrow> bool" where
  "fillsRest n vals \<longleftrightarrow>
     (vals \<noteq> [] \<and> length vals < n \<longrightarrow>
       (case last vals of RecvExpr p ch \<Rightarrow> n = length vals + 1 | CallExpr p f a \<Rightarrow> plainCall (last vals) | _ \<Rightarrow> True))"

lemma fillsRest_start: "fillsNames (length names) vals \<Longrightarrow> soleCall names vals = None \<Longrightarrow> fillsRest (length names) vals"
  by (cases vals; cases "tl vals"; cases "last vals") (auto simp: fillsNames_def fillsRest_def soleCall_def isAnyCall_def)

lemma fillsRest_Nil [simp]: "fillsRest n []"
  by (simp add: fillsRest_def)

lemma fillsRest_Cons: "fillsRest (Suc n) (x # xs) \<Longrightarrow> fillsRest n xs"
  by (cases "last xs") (auto simp: fillsRest_def)

definition valuesDone :: "view \<Rightarrow> int \<Rightarrow> view \<Rightarrow> bool" where
  "valuesDone v n w \<longleftrightarrow> sameScope v w \<and> vNext w = vNext v + n \<and> vNext w \<le> vMax w"

context valid_entries
begin

lemma exprList:
  "list_all fitsExpr vals \<Longrightarrow> floorFree G \<Longrightarrow> fillsRest n vals \<Longrightarrow>
    triple G v (adjustedExprs R line n vals) (\<lambda>_. valuesDone v (int n))"
proof (induction n arbitrary: vals v)
  case 0
  show ?case by (rule triple_start) (auto intro!: triple_return simp: valuesDone_def)
next
  case (Suc k)
  have G: "gD G \<le> 0" using Suc.prems(2) by (simp add: floorFree_def)
  have more: "triple G w (adjustedExprs R line k rest) (\<lambda>_. valuesDone v (int (Suc k)))"
    if "sameScope v w" "vNext w = vNext v + 1" "list_all fitsExpr rest" "fillsRest k rest" for w rest
    by (rule triple_weaken [OF Suc.IH [OF that(3) Suc.prems(2) that(4)]]) (use that in \<open>auto simp: valuesDone_def sameScope_def\<close>)
  show ?case
  proof (cases vals)
    case Nil
    show ?thesis unfolding adjustedExprs.simps Nil list.case
      by (rule triple_start, intro vc more) (use G in \<open>auto simp: post_defs\<close>)
  next
    case (Cons x rest)
    have f: "fitsExpr x" "list_all fitsExpr rest" and fill: "fillsRest k rest"
      using Suc.prems by (auto simp: Cons intro: fillsRest_Cons)
    have single: "triple G w (thenC (seqC [rExprTo R y (vNext v), setNextReg (vNext v + 1)]) (adjustedExprs R line k rest))
        (\<lambda>_. valuesDone v (int (Suc k)))" if "y = x" "sameScope v w" "vNext w = vNext v + 1" "vNext w \<le> vMax w" "0 \<le> vTop v" "vTop v \<le> vNext v" for w y
      unfolding that(1) by (intro vc expr more f fill) (use that G in \<open>auto simp: pre_defs post_defs\<close>)
    have call': "triple G w (rCallMulti R y (vNext v) (int (Suc k))) (\<lambda>_. valuesDone v (int (Suc k)))"
      if "y = x" "sameScope v w" "vNext w = vNext v + 1" "vNext w \<le> vMax w" "0 \<le> vTop v" "vTop v \<le> vNext v" "k = 0 \<or> plainCall x" for w y
    proof -
      have "triple G w (rCallMulti R x (vNext v) (int (Suc k))) (\<lambda>_. afterCall w x (vNext v) (int (Suc k)))"
        by (rule call [OF f(1)]) (use that G in \<open>auto simp: pre_defs post_defs\<close>)
      then show ?thesis unfolding that(1)
        by (rule triple_weaken) (use that in \<open>auto simp: afterCall_def valuesDone_def sameScope_def dest: okView_next\<close>)
    qed
    have vararg: "triple G w (seqC [emitABC OP_VARARG (vNext v) (int (Suc k) + 1) 0 line, raiseNextReg (vNext v + int (Suc k))])
        (\<lambda>_. valuesDone v (int (Suc k)))" if "sameScope v w" "vNext w = vNext v + 1" "vNext w \<le> vMax w" "0 \<le> vTop v" "vTop v \<le> vNext v" for w
      by (rule triple_reserve [where y = "vNext v + int (Suc k)"], intro vc) (use that G in \<open>auto simp: post_defs valuesDone_def\<close>)
    have recv': "triple G w (bindC allocReg (\<lambda>okReg. if okReg \<noteq> vNext v + 1 then failC (ERegisterAllocation line)
          else compileRecvOKExpr R l ch (vNext v) okReg)) (\<lambda>_. valuesDone v (int (Suc k)))"
      if "sameScope v w" "vNext w = vNext v + 1" "0 \<le> vTop v" "vTop v \<le> vNext v" "k = 1" "fitsExpr ch" for w ch l
      by (intro vc recvOK that(6)) (use that(1-5) G in \<open>auto simp: post_defs valuesDone_def\<close>)
    have k: "k = 0 \<or> k = 1" if "x = RecvExpr p ch" "rest = []" for p ch
      using Suc.prems(3) that by (auto simp: fillsRest_def Cons)
    have pc: "k = 0 \<or> plainCall x" if "x = CallExpr p g a \<or> x = MethodCallExpr p ob m a" "rest = []" for p g a ob m
      using Suc.prems(3) that by (auto simp: fillsRest_def Cons plainCall_def)
    show ?thesis
    proof (cases "rest = []")
      case True
      show ?thesis unfolding adjustedExprs.simps Cons list.case Let_def True
        by (rule triple_start, rule triple_bind, rule step_alloc(1), cases x; simp only: Expr.case simp_thms if_False;
            intro triple_if single [unfolded True] call' vararg recv') (use f k pc True in auto)
    next
      case False
      then show ?thesis unfolding adjustedExprs.simps Cons list.case Let_def
        by (simp only: simp_thms if_True) (rule triple_start, rule triple_bind, rule step_alloc(1), rule single [OF refl])
    qed
  qed
qed

end

subsection \<open>Declarations\<close>

lemma numbered_member: "(i, x) \<in> set (enumerate0 xs) \<Longrightarrow> 0 \<le> i \<and> i < int (length xs) \<and> x \<in> set xs"
  by (auto simp: enumerate0_def dest: set_zip_leftD set_zip_rightD)

lemma triple_enumerate:
  assumes "\<And>w i x. I w \<Longrightarrow> 0 \<le> i \<Longrightarrow> i < int (length xs) \<Longrightarrow> x \<in> set xs \<Longrightarrow> triple G w (f i x) (\<lambda>_. I)" "I v"
    "\<And>w. I w \<Longrightarrow> Q () w"
  shows "triple G v (forEachC (\<lambda>(i, x). f i x) (enumerate0 xs)) Q"
  by (rule triple_forEach [where I = I]) (use assms in \<open>auto dest: numbered_member\<close>)

lemma soleRecv_some: "soleRecv names vals = Some (l, ch) \<Longrightarrow> length names = 2 \<and> (\<exists>p. vals = [RecvExpr p ch])"
  by (auto simp: soleRecv_def split: list.splits Expr.splits if_splits)

lemma soleCall_some: "soleCall names vals = Some e \<Longrightarrow> vals = [e]"
  by (auto simp: soleCall_def split: list.splits if_splits)

lemma step_declareLocals:
  assumes "0 \<le> t" "t + int (length names) \<le> vMax v" "floorFree G" "\<And>w. grown v w \<Longrightarrow> afterStmt v w \<Longrightarrow> Q () w"
  shows "triple G v (declareLocals t names ro line) Q"
  unfolding declareLocals_def
proof (rule triple_grown, rule triple_enumerate [where I = "afterStmt v"])
  fix w i name assume w: "afterStmt v w" "0 \<le> i" "i < int (length names)"
  then have m: "t + int (length names) \<le> vMax w" using assms(2) by (simp add: afterStmt_def)
  show "triple G w (bindC (addLocalWithReadOnly name ro) (\<lambda>reg. whenC (reg \<noteq> t + i) (emitABC OP_MOVE reg (t + i) 0 line))) (\<lambda>_. afterStmt v)"
    by (rule triple_start, intro vc afterStmt_trans [OF w(1)] afterStmt_one)
      (use assms(1,3) w(2,3) m in \<open>auto simp: floorFree_def post_defs\<close>)
qed (use assms(4) in \<open>auto intro: afterStmt_same\<close>)

lemma step_setGlobals:
  assumes "0 \<le> t" "t + int (length names) \<le> vMax v" "\<And>w. grown v w \<Longrightarrow> sameScope v w \<Longrightarrow> vNext w = vNext v \<Longrightarrow> Q () w"
  shows "triple G v (setGlobals t names ro line) Q"
  unfolding setGlobals_def
  by (rule triple_grown, rule triple_enumerate [where I = "\<lambda>w. sameScope v w \<and> vNext w = vNext v"])
    (use assms in \<open>auto intro!: vc simp: post_defs\<close>)

context valid_entries
begin

text \<open>A call for several results whose registers are allocated afterwards.\<close>

lemma reservedCall:
  assumes "fitsExpr e" "exprPre G v dest" "-1 \<le> n" "dest + n \<le> gX G"
    "\<And>w. grown v w \<Longrightarrow> sameScope v w \<Longrightarrow> vNext v \<le> vNext w \<Longrightarrow> vNext w \<le> max (vNext v) (dest + max 1 n) \<Longrightarrow> Q () w"
  shows "triple G v (rCallMulti R e dest n) Q"
  by (rule call [OF assms(1)]) (use assms(2-5) in \<open>auto simp: callPre_def vLimit_def afterCall_def\<close>)

lemma declareGlobals:
  assumes "list_all fitsExpr vals" "fillsNames (length names) vals" "floorFree G"
  shows "triple G v (compileDeclareGlobals R line names vals ro) (\<lambda>_. afterStmt v)"
proof -
  have G: "gD G \<le> 0" using assms(3) by (simp add: floorFree_def)
  show ?thesis
  proof (cases "soleRecv names vals")
    case (Some r)
    obtain l ch where r: "r = (l, ch)" by (cases r)
    have f: "fitsExpr ch" "length names = 2" using soleRecv_some Some assms(1) unfolding r by fastforce+
    show ?thesis unfolding compileDeclareGlobals_def Some option.case r prod.case
      by (rule triple_start, intro vc recvOK step_setGlobals afterStmt_same f(1)) (use f G in \<open>auto simp: post_defs\<close>)
  next
    case None
    note recv = None
    show ?thesis
    proof (cases "soleCall names vals")
      case (Some e)
      then have f: "fitsExpr e" using soleCall_some assms(1) by fastforce
      show ?thesis unfolding compileDeclareGlobals_def recv Some option.case
        by (rule triple_reserve [where y = "vNext v + int (length names)"], rule triple_start,
            intro vc reservedCall step_setGlobals conjI afterStmt_same f) (use G in \<open>auto simp: pre_defs post_defs\<close>)
    next
      case None
      show ?thesis unfolding compileDeclareGlobals_def recv None option.case compileAdjustedExprList_def
        by (rule triple_start, intro vc triple_weaken [OF exprList [OF assms(1,3) fillsRest_start [OF assms(2) None]]]
            step_setGlobals afterStmt_same) (auto simp: valuesDone_def post_defs)
    qed
  qed
qed

lemma declareMultiCall:
  assumes "fitsExpr e" "floorFree G"
  shows "triple G v (compileDeclareMultiCall R names ro e) (\<lambda>_. afterStmt v)"
proof -
  have add: "triple H w (forEachC (\<lambda>name. bindC (addLocalWithReadOnly name ro) (\<lambda>_. returnC ())) names)
      (\<lambda>_ u. vNext w + int (length names) \<le> vMax u \<and> afterStmt w u)" for H w
    by (rule triple_start, rule triple_forEach_nth [where I = "\<lambda>k u. afterStmt w u \<and> vNext u = vNext w + int k \<and> vNext u \<le> vMax u"])
      (auto intro!: vc intro: afterStmt_same afterStmt_trans)
  show ?thesis unfolding compileDeclareMultiCall_def
    by (rule triple_reserve [where y = "vNext v + int (length names)"], rule triple_start,
        intro vc reservedCall triple_weaken [OF add] assms(1))
      (use assms(2) in \<open>auto simp: floorFree_def pre_defs post_defs afterStmt_def\<close>)
qed

lemma declareStmt:
  assumes "list_all fitsExpr vals" "fillsNames (length names) vals" "floorFree G"
  shows "triple G v (compileDeclareStmt R line names vals ro) (\<lambda>_. afterStmt v)"
proof -
  have G: "gD G \<le> 0" using assms(3) by (simp add: floorFree_def)
  have trans: "afterStmt w u \<Longrightarrow> sameScope v w \<Longrightarrow> vNext v \<le> vNext w \<Longrightarrow> afterStmt v u" for w u
    by (blast intro: afterStmt_trans afterStmt_same)
  have recv: "triple G v (compileDeclareRecvOK R line names ro l ch) (\<lambda>_. afterStmt v)"
    if "fitsExpr ch" "length names = 2" for l ch
    unfolding compileDeclareRecvOK_def
    by (rule triple_start, intro vc recvOK step_declareLocals that(1) assms(3)) (use that G in \<open>auto simp: post_defs intro!: trans\<close>)
  have listed: "triple G v (bindC (askF fNextReg) (\<lambda>tempBase. seqC [
       compileAdjustedExprList R vals (length names) line, freeRegs (int (length names)), declareLocals tempBase names ro line]))
      (\<lambda>_. afterStmt v)" if "soleCall names vals = None"
    unfolding compileAdjustedExprList_def
    by (rule triple_start, intro vc triple_weaken [OF exprList [OF assms(1,3) fillsRest_start [OF assms(2) that]]]
        step_declareLocals assms(3)) (auto simp: valuesDone_def post_defs intro!: trans)
  have call': "triple G v (compileDeclareMultiCall R names ro e) (\<lambda>_. afterStmt v)" if "soleCall names vals = Some e" for e
    by (rule declareMultiCall [OF _ assms(3)]) (use soleCall_some [OF that] assms(1) in simp)
  have recvs: "triple G v (compileDeclareRecvOK R line names ro l ch) (\<lambda>_. afterStmt v)" if "soleRecv names vals = Some (l, ch)" for l ch
    by (rule recv) (use soleRecv_some [OF that] assms(1) in auto)
  show ?thesis unfolding compileDeclareStmt_def
    by (intro triple_bind triple_askC triple_branch declareGlobals assms)
      (auto simp: recvs call' listed split: option.split)
qed

subsection \<open>Assignments\<close>

lemma grown_sizes: "grown v w \<Longrightarrow> int (vK v) \<le> int (vK w) \<and> int (vU v) \<le> int (vU w)"
  by (simp add: grown_def)

lemma constCheck [vc]:
  assumes "0 \<le> r" "r < vMax v" "gD G \<le> 0"
    "\<And>w. grown v w \<Longrightarrow> sameScope v w \<Longrightarrow> vNext w = vNext v \<Longrightarrow> Q () w"
  shows "triple G v (checkConst ro r name line) Q"
  unfolding checkConst_def
  by (rule triple_grown, rule triple_start, intro impI vc assms(4)) (use assms(1-3) in \<open>auto simp: post_defs\<close>)

lemma assignTarget:
  assumes "fitsExpr target" "0 \<le> r" "r < vMax v" "floorFree G"
  shows "triple G v (compileAssignTarget R target r line) (\<lambda>_ w. sameScope v w \<and> vNext w = vNext v)"
proof -
  have G: "gD G \<le> 0" using assms(4) by (simp add: floorFree_def)
  show ?thesis
  proof (cases target)
    case (IdentExpr p name)
    show ?thesis unfolding compileAssignTarget_def IdentExpr Expr.case
      by (rule triple_start, intro vc triple_askC) (use assms(2,3) G in \<open>auto simp: post_defs\<close>)
  next
    case (IndexExpr p t i)
    then have f: "fitsExpr t" "fitsExpr i" using assms(1) by auto
    show ?thesis unfolding compileAssignTarget_def IndexExpr Expr.case freeIf_def
      by (rule triple_start, intro vc exprReg expr f) (use assms(2,3) G in \<open>auto simp: pre_defs post_defs\<close>)
  next
    case (FieldExpr p t fld)
    then have f: "fitsExpr t" using assms(1) by auto
    show ?thesis unfolding compileAssignTarget_def FieldExpr Expr.case freeIf_def
      by (rule triple_start, intro vc exprReg f) (use assms(2,3) G in \<open>auto simp: pre_defs post_defs dest!: grown_K\<close>)
  qed (auto simp: compileAssignTarget_def intro: triple_fail)
qed

lemma targets:
  assumes "list_all fitsExpr ts" "0 \<le> t" "t + int (length ts) \<le> vMax v" "floorFree G"
    "\<And>w. grown v w \<Longrightarrow> sameScope v w \<Longrightarrow> vNext w = vNext v \<Longrightarrow> Q () w"
  shows "triple G v (assignTargets R t ts line) Q"
  unfolding assignTargets_def
proof (rule triple_grown, rule triple_enumerate [where I = "\<lambda>w. sameScope v w \<and> vNext w = vNext v"])
  fix w i x assume w: "sameScope v w \<and> vNext w = vNext v" "0 \<le> i" "i < int (length ts)" "x \<in> set ts"
  have "triple G w (compileAssignTarget R x (t + i) line) (\<lambda>_ u. sameScope w u \<and> vNext u = vNext w)"
    by (rule assignTarget) (use w assms(1-4) in \<open>auto simp: list_all_iff sameScope_def\<close>)
  then show "triple G w (compileAssignTarget R x (t + i) line) (\<lambda>_ u. sameScope v u \<and> vNext u = vNext v)"
    by (rule triple_weaken) (use w in \<open>auto simp: sameScope_def\<close>)
qed (use assms(5) in auto)

lemma assignStmt:
  assumes "list_all fitsExpr ts" "list_all fitsExpr vals" "fillsNames (length ts) vals" "floorFree G"
  shows "triple G v (compileAssignStmt R line ts vals) (\<lambda>_. afterStmt v)"
proof -
  have G: "gD G \<le> 0" using assms(4) by (simp add: floorFree_def)
  have recv: "triple G v (compileAssignRecvOK R line ts l ch) (\<lambda>_. afterStmt v)"
    if "soleRecv ts vals = Some (l, ch)" for l ch
  proof -
    have f: "fitsExpr ch" "length ts = 2" using soleRecv_some [OF that] assms(2) by auto
    show ?thesis unfolding compileAssignRecvOK_def
      by (rule triple_start, intro vc recvOK targets afterStmt_same f(1) assms) (use f(2) G in \<open>auto simp: post_defs\<close>)
  qed
  have call': "triple G v (compileAssignMultiCall R line ts e) (\<lambda>_. afterStmt v)" if "soleCall ts vals = Some e" for e
  proof -
    have f: "fitsExpr e" using soleCall_some [OF that] assms(2) by simp
    have fl: "gD H = gD G \<Longrightarrow> floorFree H" for H using G by (simp add: floorFree_def)
    show ?thesis unfolding compileAssignMultiCall_def
      by (rule triple_reserve [where y = "vNext v + int (length ts)"], rule triple_start,
          intro vc reservedCall targets conjI afterStmt_same f assms(1) fl) (use G in \<open>auto simp: pre_defs post_defs\<close>)
  qed
  have listed: "triple G v (bindC (askF fNextReg) (\<lambda>tempBase. seqC [
       compileAdjustedExprList R vals (length ts) line, assignTargets R tempBase ts line, setNextReg tempBase]))
      (\<lambda>_. afterStmt v)" if "soleCall ts vals = None"
    unfolding compileAdjustedExprList_def
    by (rule triple_start, intro vc triple_weaken [OF exprList [OF assms(2,4) fillsRest_start [OF assms(3) that]]]
        targets assms afterStmt_same) (auto simp: valuesDone_def post_defs)
  have "triple G v (case soleRecv ts vals of Some (l, ch) \<Rightarrow> compileAssignRecvOK R line ts l ch
       | None \<Rightarrow> (case soleCall ts vals of Some call \<Rightarrow> compileAssignMultiCall R line ts call
            | None \<Rightarrow> bindC (askF fNextReg) (\<lambda>tempBase. seqC [
                  compileAdjustedExprList R vals (length ts) line, assignTargets R tempBase ts line, setNextReg tempBase])))
      (\<lambda>_. afterStmt v)"
    using recv call' listed by (auto split: option.split)
  then show ?thesis unfolding compileAssignStmt_def by (intro triple_then triple_when triple_disableJIT)
qed

lemma compoundOp:
  assumes "fitsExpr val" "compoundOpcode op = Some opcode" "0 \<le> r" "r < vMax v" "gD G \<le> 0"
    "\<And>w. grown v w \<Longrightarrow> sameScope v w \<Longrightarrow> vNext w = vNext v \<Longrightarrow> Q () w"
  shows "triple G v (emitCompoundOp R opcode r val line) Q"
proof -
  have arith: "\<And>D b c. abcOK D opcode a b c \<longleftrightarrow> 0 \<le> a \<and> 0 \<le> b \<and> 0 \<le> c \<and> max a (max b c) < dReg D"
    "\<And>d b c. writesAbove d opcode a b c \<longleftrightarrow> d \<le> a" for a
    using assms(2) by (auto simp: compoundOpcode_def split: if_splits)
  show ?thesis unfolding emitCompoundOp_def
    by (rule triple_grown, rule triple_start, intro impI triple_branch vc expr assms(1,6))
      (use assms(3-5) arith in \<open>auto simp: pre_defs post_defs\<close>)
qed

lemma compoundAssign:
  assumes "fitsExpr target" "fitsExpr val" "floorFree G"
  shows "triple G v (compileCompoundAssignStmt R line target op val) (\<lambda>_. afterStmt v)"
proof (cases "compoundOpcode op")
  case None
  then show ?thesis by (simp add: compileCompoundAssignStmt_def triple_fail)
next
  case (Some opcode)
  have G: "gD G \<le> 0" using assms(3) by (simp add: floorFree_def)
  show ?thesis
  proof (cases target)
    case (IdentExpr p name)
    show ?thesis unfolding compileCompoundAssignStmt_def Some option.case IdentExpr Expr.case
      by (rule triple_start, intro vc compoundOp [OF assms(2) Some] afterStmt_same) (use G in \<open>auto simp: post_defs dest!: grown_sizes\<close>)
  next
    case (IndexExpr p t i)
    then have f: "fitsExpr t" "fitsExpr i" using assms(1) by auto
    show ?thesis unfolding compileCompoundAssignStmt_def Some option.case IndexExpr Expr.case freeIf_def
      by (rule triple_start, intro vc exprReg expr compoundOp [OF assms(2) Some] f afterStmt_same) (use G in \<open>auto simp: pre_defs post_defs\<close>)
  next
    case (FieldExpr p t fld)
    then have f: "fitsExpr t" using assms(1) by auto
    show ?thesis unfolding compileCompoundAssignStmt_def Some option.case FieldExpr Expr.case freeIf_def
      by (rule triple_start, intro vc exprReg compoundOp [OF assms(2) Some] f afterStmt_same) (use G in \<open>auto simp: pre_defs post_defs dest!: grown_sizes\<close>)
  qed (auto simp: compileCompoundAssignStmt_def Some intro: triple_fail)
qed

lemma incDec:
  assumes "fitsExpr target" "floorFree G"
  shows "triple G v (compileIncDecStmt R line target op) (\<lambda>_. afterStmt v)"
proof -
  have G: "gD G \<le> 0" using assms(2) by (simp add: floorFree_def)
  let ?op = "if op = ''++'' then OP_ADD else OP_SUB"
  have arith: "\<And>D b c. abcOK D ?op a b c \<longleftrightarrow> 0 \<le> a \<and> 0 \<le> b \<and> 0 \<le> c \<and> max a (max b c) < dReg D"
    "\<And>d b c. writesAbove d ?op a b c \<longleftrightarrow> d \<le> a" for a
    by simp_all
  have bad: "triple G v (bindC allocReg (\<lambda>oneReg. thenC (emitInt oneReg 1 line) (failC (EIncDecTarget line)))) (\<lambda>_. afterStmt v)"
    by (rule triple_start, intro vc) (use G in \<open>auto simp: post_defs\<close>)
  show ?thesis
  proof (cases target)
    case (IdentExpr p name)
    show ?thesis unfolding compileIncDecStmt_def Let_def IdentExpr Expr.case
      by (rule triple_start, intro vc afterStmt_same) (use G arith in \<open>auto simp: post_defs simp del: if_split dest!: grown_sizes\<close>)
  next
    case (IndexExpr p t i)
    then have f: "fitsExpr t" "fitsExpr i" using assms(1) by auto
    show ?thesis unfolding compileIncDecStmt_def Let_def IndexExpr Expr.case
      by (rule triple_start, intro vc expr f afterStmt_same) (use G arith in \<open>auto simp: pre_defs post_defs simp del: if_split\<close>)
  next
    case (FieldExpr p t fld)
    then have f: "fitsExpr t" using assms(1) by auto
    show ?thesis unfolding compileIncDecStmt_def Let_def FieldExpr Expr.case
      by (rule triple_start, intro vc expr f afterStmt_same)
        (use G arith in \<open>auto simp: pre_defs post_defs simp del: if_split dest!: grown_sizes\<close>)
  qed (simp_all add: compileIncDecStmt_def Let_def bad)
qed

end

end
