(* ===== verification/Compiler_Valid_Control.thy ===== *)
theory Compiler_Valid_Control
  imports Compiler_Valid_Stmt
begin

section \<open>Compiled control flow is valid bytecode\<close>

text \<open>
  Call statements, channels, conditionals, loops and jumps; then the recursion of the compiler is
  closed, and a compiled program is a valid prototype.
\<close>

subsection \<open>Calls as statements\<close>

context valid_entries
begin

text \<open>A final argument that stands for several values.\<close>

lemma finalStep:
  assumes "finalArg R line jit e reg = Some m" "fitsExpr e" "exprPre G v reg" "\<And>w. grown v w \<Longrightarrow> afterExpr v reg w \<Longrightarrow> Q () w"
  shows "triple G v m Q"
  by (rule triple_weaken [OF final [OF _ assms(2,3), where b = True]]) (use assms(1,4) in auto)

lemma callArguments:
  "list_all (\<lambda>b. b) (map fitsExpr rest) \<Longrightarrow> gD G \<le> vNext v \<Longrightarrow>
    triple G v (statementArgs R single line rest) (\<lambda>_. argsDone v (length rest))"
proof (induction rest arbitrary: v)
  case Nil
  show ?case by (rule triple_start) (auto intro!: vc simp: args_defs)
next
  case (Cons arg rest)
  have f: "fitsExpr arg" "list_all (\<lambda>b. b) (map fitsExpr rest)" using Cons.prems(1) by simp_all
  have last: "triple G w (thenC (case m of Some m \<Rightarrow> m | None \<Rightarrow> returnC ()) (returnC True)) (\<lambda>_. argsDone v (length (arg # rest)))"
    if "m = (if rest = [] then finalArg R line True arg (vNext v) else None)" "m \<noteq> None"
      "sameScope v w" "vNext w = vNext v + 1" "vNext w \<le> vMax w" "0 \<le> vTop v" "vTop v \<le> vNext v" for w m
  proof -
    note here = that
    obtain m' where m': "m = Some m'" "finalArg R line True arg (vNext v) = Some m'" "rest = []" using here(1,2) by (auto split: if_splits)
    show ?thesis unfolding m'(1) option.case
      by (intro vc finalStep [OF m'(2) f(1)]) (use here(3-) Cons.prems(2) m'(3) in \<open>auto simp: args_defs\<close>)
  qed
  have rest: "triple G w (thenC (rExprTo R arg (vNext v)) (statementArgs R single line rest)) (\<lambda>_. argsDone v (length (arg # rest)))"
    if "sameScope v w" "vNext w = vNext v + 1" "vNext w \<le> vMax w" "0 \<le> vTop v" "vTop v \<le> vNext v" for w
    by (intro vc expr f triple_weaken [OF Cons.IH [OF f(2)]]) (use that Cons.prems(2) in \<open>auto simp: args_defs\<close>)
  show ?case unfolding statementArgs.simps Let_def
    by (rule triple_start, rule triple_bind, rule step_alloc(1), rule triple_bind, rule triple_askC, rule triple_if)
      (rule rest last [OF refl]; auto)+
qed

lemma statementCall:
  assumes "fitsExpr fn" "list_all (\<lambda>b. b) (map fitsExpr args)" "floorFree G" "(op, c) \<in> {(OP_CALL, 1), (OP_GO, 0), (OP_DEFER, 0)}"
  shows "triple G v (compileStatementCall R op c single line fn args) (\<lambda>_. afterStmt v)"
proof -
  have op: "\<And>D a b. 0 \<le> a \<Longrightarrow> 0 \<le> b \<Longrightarrow> a + max (b - 1) 0 < dReg D \<Longrightarrow> abcOK D op a b c"
    "\<And>d a b. d \<le> a \<Longrightarrow> writesAbove d op a b c" using assms(4) by (auto simp: callTop_def)
  show ?thesis unfolding compileStatementCall_def
    by (rule triple_start, intro vc op expr assms(1) triple_weaken [OF callArguments [OF assms(2)]] afterStmt_same)
      (use assms(3) in \<open>auto simp: floorFree_def args_defs\<close>)
qed

lemma callStmt:
  assumes "fitsExpr e" "floorFree G"
  shows "triple G v (compileCallStmt R line e) (\<lambda>_. afterStmt v)"
proof -
  have G: "gD G \<le> 0" using assms(2) by (simp add: floorFree_def)
  have none: "triple G v (bindC (askF fNextReg) (\<lambda>r. rCallMulti R e r 0)) (\<lambda>_. afterStmt v)"
    by (rule triple_start, intro vc call assms(1)) (use G in \<open>auto simp: pre_defs post_defs intro: afterStmt_same\<close>)
  show ?thesis
  proof (cases e)
    case (CallExpr p f a)
    then have fits: "fitsExpr f" "list_all (\<lambda>b. b) (map fitsExpr a)" using assms(1) by simp_all
    have co: "triple G v (bindC (askF fNextReg) (\<lambda>r. compileCoroutineBuiltinCall R a r (-1) line op)) (\<lambda>_. afterStmt v)"
      if "staticCoroutineBuiltinOp e = Some op" for op
    proof -
      have op: "op = OP_YIELD \<or> op = OP_RESUME" using that
        by (auto simp: staticCoroutineBuiltinOp_def split: Expr.splits if_splits)
      show ?thesis
        by (rule triple_start, intro triple_bind triple_next triple_weaken [OF coroutineCall [OF fits(2) _ _ _ op]])
          (use G in \<open>auto simp: pre_defs vLimit_def intro: afterStmt_same\<close>)
    qed
    show ?thesis unfolding compileCallStmt_def CallExpr Expr.case compilePlainCallExprDiscard_def
      using none co statementCall [OF fits assms(2)] by (auto simp: CallExpr split: option.split)
  qed (simp_all add: compileCallStmt_def triple_fail, insert none, simp)
qed

text \<open>A method call of a \<open>go\<close> or \<open>defer\<close> statement.\<close>

lemma methodStatement:
  assumes "fitsExpr ob" "list_all (\<lambda>b. b) (map fitsExpr args)" "floorFree G" "op \<in> {OP_GO, OP_DEFER}"
  shows "triple G v (compileMethodStatement R op free line ob m args) (\<lambda>_. afterStmt v)"
proof -
  have G: "gD G \<le> 0" using assms(3) by (simp add: floorFree_def)
  have op: "\<And>D a b. 0 \<le> a \<Longrightarrow> 0 \<le> b \<Longrightarrow> a + max (b - 1) 0 < dReg D \<Longrightarrow> abcOK D op a b 0" "\<And>d a b. writesAbove d op a b 0"
    using assms(4) by auto
  have args: "triple G w (forEachC (\<lambda>arg. bindC allocReg (rExprTo R arg)) args) Q"
    if "\<And>u. grown w u \<Longrightarrow> sameScope w u \<Longrightarrow> vNext u = vNext w + int (length args) \<Longrightarrow> vNext u \<le> vMax u \<Longrightarrow> Q () u" for w Q
  proof (rule triple_grown, rule triple_start,
      rule triple_forEach_nth [where I = "\<lambda>k u. sameScope w u \<and> vNext u = vNext w + int k \<and> vNext u \<le> vMax u"])
    fix k u assume k: "k < length args" and u: "sameScope w u \<and> vNext u = vNext w + int k \<and> vNext u \<le> vMax u"
    have fits: "fitsExpr (args ! k)" using assms(2) k by (auto simp: list_all_iff)
    show "triple G u (bindC allocReg (rExprTo R (args ! k))) (\<lambda>_ y. sameScope w y \<and> vNext y = vNext w + int (Suc k) \<and> vNext y \<le> vMax y)"
      by (rule triple_start, intro vc expr fits) (use u G in \<open>auto simp: pre_defs post_defs\<close>)
  qed (use that in \<open>auto simp: sameScope_def\<close>)
  show ?thesis unfolding compileMethodStatement_def
    by (rule triple_start, intro vc op args expr assms(1) afterStmt_same) (use G in \<open>auto simp: pre_defs post_defs\<close>)
qed

lemma goStmt:
  assumes "fitsExpr e" "floorFree G"
  shows "triple G v (compileGoStmt R line e) (\<lambda>_. afterStmt v)" "triple G v (compileDeferStmt R line e) (\<lambda>_. afterStmt v)"
  unfolding compileGoStmt_def compileDeferStmt_def
  using assms by (cases e; auto intro!: vc statementCall methodStatement
    simp: compileGoCallExpr_def compileGoMethodCallExpr_def compileDeferCallExpr_def compileDeferMethodCallExpr_def)+

subsection \<open>Channels\<close>

lemma sendStmt:
  assumes "fitsExpr ch" "pred_option (\<lambda>b. b) (map_option fitsExpr val)" "floorFree G"
  shows "triple G v (compileSendStmt R line ch val) (\<lambda>_. afterStmt v)"
proof -
  have G: "gD G \<le> 0" using assms(3) by (simp add: floorFree_def)
  have recv: "triple G w (seqC [rExprTo R c (vNext v), emitABC OP_RECV (vNext v) (vNext v) 0 line, setNextReg (vNext v)]) (\<lambda>_. afterStmt v)"
    if "fitsExpr c" "sameScope v w" "vNext w = vNext v + 1" "vNext w \<le> vMax w" "0 \<le> vTop v" "vTop v \<le> vNext v" for w c
    by (intro vc expr that(1) afterStmt_same) (use that G in \<open>auto simp: pre_defs post_defs\<close>)
  show ?thesis
  proof (cases val)
    case None
    show ?thesis unfolding compileSendStmt_def None option.case
      by (rule triple_start, rule triple_bind, rule triple_next, rule triple_bind, rule step_alloc(1))
        (use assms(1) recv in \<open>auto split: Expr.split intro!: triple_fail\<close>)
  next
    case (Some x)
    then have f: "fitsExpr x" using assms(2) by simp
    show ?thesis unfolding compileSendStmt_def Some option.case
      by (rule triple_start, intro vc expr f assms(1) afterStmt_same) (use G in \<open>auto simp: pre_defs post_defs\<close>)
  qed
qed

end

definition jumpsDone :: "view \<Rightarrow> nat list \<Rightarrow> view \<Rightarrow> bool" where
  "jumpsDone v js w \<longleftrightarrow> sameScope v w \<and> vNext v \<le> vNext w \<and> (\<forall>j\<in>set js. j < vLen w)"

context valid_entries
begin

lemma caseBody:
  assumes "fitsBlock b" "floorFree G" "0 \<le> r" "r < vMax v" "0 \<le> k" "k < vMax v"
    "\<And>w. grown v w \<Longrightarrow> sameScope v w \<Longrightarrow> vNext v \<le> vNext w \<Longrightarrow> Q () w"
  shows "triple G v (compileCaseBody R line name okName isRecv r k b) Q"
proof -
  have move: "triple G w (whenC c (bindC (addLocal x) (\<lambda>l. emitABC OP_MOVE l m 0 line))) (\<lambda>_. afterStmt w)"
    if "0 \<le> m" "m < vMax w" for w c x m
    by (rule triple_start, intro vc) (use that assms(2) in \<open>auto simp: floorFree_def post_defs intro: afterStmt_same afterStmt_one\<close>)
  show ?thesis unfolding compileCaseBody_def
    by (intro step_scoped assms(7) triple_seq_Cons triple_seq_Nil triple_weaken [OF move] stmts body_stmts assms(1,2))
      (use assms(3-6) in \<open>auto simp: afterStmt_def\<close>)
qed

lemma tryCase:
  assumes "fitsExpr ch" "pred_option (\<lambda>b. b) (map_option fitsExpr sv)" "floorFree G" "0 \<le> ready" "ready < vNext v"
  shows "triple G v (compileTryCase R (SelectCase p name okName ch sv b) ready)
    (\<lambda>(x, y, z) w. sameScope v w \<and> vNext v \<le> vNext w \<and> 0 \<le> x \<and> x < vMax w \<and> 0 \<le> y \<and> y < vMax w \<and> 0 \<le> z \<and> z < vMax w)"
proof -
  have G: "gD G \<le> 0" using assms(3) by (simp add: floorFree_def)
  show ?thesis
  proof (cases sv)
    case None
    show ?thesis unfolding compileTryCase_def SelectCase.case None option.case
      by (rule triple_start, intro triple_branch vc expr assms(1)) (use assms(4,5) G in \<open>auto simp: pre_defs post_defs\<close>)
  next
    case (Some x)
    then have f: "fitsExpr x" using assms(2) by simp
    show ?thesis unfolding compileTryCase_def SelectCase.case Some option.case
      by (rule triple_start, intro vc expr f assms(1)) (use assms(4,5) G in \<open>auto simp: pre_defs post_defs\<close>)
  qed
qed

lemma tryCases:
  "list_all (\<lambda>b. b) (map fitsCase cs) \<Longrightarrow> floorFree G \<Longrightarrow> vTop v \<le> base \<Longrightarrow> base \<le> vMax v \<Longrightarrow>
    triple G v (tryCases R line base cs) (\<lambda>js w. sameScope v w \<and> (\<forall>j\<in>set js. j < vLen w))"
proof (induction cs arbitrary: v)
  case Nil
  show ?case by (auto intro: triple_return)
next
  case (Cons c cs)
  obtain p name okName ch sv b where c: "c = SelectCase p name okName ch sv b" by (cases c)
  have f: "fitsExpr ch" "pred_option (\<lambda>b. b) (map_option fitsExpr sv)" "fitsBlock b" "list_all (\<lambda>b. b) (map fitsCase cs)"
    using Cons.prems(1) by (simp_all add: c)
  show ?case unfolding c tryCases.simps
    by (rule triple_start, intro vc triple_weaken [OF tryCase [OF f(1,2) Cons.prems(2)]] caseBody f Cons.prems(2)
        triple_weaken [OF Cons.IH [OF f(4) Cons.prems(2)]])
      (use Cons.prems(2-4) in \<open>auto simp: floorFree_def post_defs dest!: grown_len\<close>)
qed

lemma nonblockingSelect:
  assumes "list_all (\<lambda>b. b) (map fitsCase cs)" "fitsBlock d" "floorFree G"
  shows "triple G v (compileNonblockingSelectStmt R line cs d) (\<lambda>_. afterStmt v)"
  unfolding compileNonblockingSelectStmt_def
  by (rule triple_start, intro vc triple_weaken [OF tryCases [OF assms(1,3)]] bodyBlock assms(2,3) afterStmt_same)
    (auto simp: post_defs dest!: grown_len)

lemma loadCase:
  assumes "fitsCase c" "floorFree G"
  shows "triple G v (loadSelectCase R c) (\<lambda>_ w. sameScope v w \<and> vNext w = vNext v + 3 \<and> vNext w \<le> vMax w)"
proof -
  have G: "gD G \<le> 0" using assms(2) by (simp add: floorFree_def)
  obtain p name okName ch sv b where c: "c = SelectCase p name okName ch sv b" by (cases c)
  have f: "fitsExpr ch" "\<And>x. sv = Some x \<Longrightarrow> fitsExpr x" using assms(1) by (auto simp: c)
  show ?thesis unfolding loadSelectCase_def c SelectCase.case
    by (rule triple_start, intro vc expr f) (use G in \<open>auto simp: pre_defs post_defs\<close>)
qed

lemma loadCases:
  assumes "list_all (\<lambda>b. b) (map fitsCase cs)" "floorFree G"
    "\<And>w. grown v w \<Longrightarrow> sameScope v w \<Longrightarrow> vNext w = vNext v + 3 * int (length cs) \<Longrightarrow> vNext w \<le> vMax w \<Longrightarrow> Q () w"
  shows "triple G v (forEachC (loadSelectCase R) cs) Q"
proof (rule triple_grown, rule triple_start,
    rule triple_forEach_nth [where I = "\<lambda>k w. sameScope v w \<and> vNext w = vNext v + 3 * int k \<and> vNext w \<le> vMax w"])
  fix k w assume k: "k < length cs" and w: "sameScope v w \<and> vNext w = vNext v + 3 * int k \<and> vNext w \<le> vMax w"
  have "fitsCase (cs ! k)" using assms(1) k by (auto simp: list_all_iff)
  then show "triple G w (loadSelectCase R (cs ! k)) (\<lambda>_ u. sameScope v u \<and> vNext u = vNext v + 3 * int (Suc k) \<and> vNext u \<le> vMax u)"
    by (intro triple_weaken [OF loadCase [OF _ assms(2)]]) (use w in \<open>auto simp: sameScope_def\<close>)
qed (use assms(3) in \<open>auto simp: sameScope_def\<close>)

lemma selectedCases:
  "list_all (\<lambda>b. b) (map fitsCase cs) \<Longrightarrow> floorFree G \<Longrightarrow> 0 \<le> s \<Longrightarrow> s < vMax v \<Longrightarrow> 0 \<le> r \<Longrightarrow> r < vMax v \<Longrightarrow> 0 \<le> k \<Longrightarrow> k < vMax v \<Longrightarrow>
    triple G v (selectedCases R line s r k i cs) (jumpsDone v)"
proof (induction cs arbitrary: v i)
  case Nil
  show ?case by (auto intro: triple_return simp: jumpsDone_def)
next
  case (Cons c cs)
  obtain p name okName ch sv b where c: "c = SelectCase p name okName ch sv b" by (cases c)
  have f: "fitsBlock b" "list_all (\<lambda>b. b) (map fitsCase cs)" using Cons.prems(1) by (simp_all add: c)
  show ?case unfolding c selectedCases.simps
    by (rule triple_start, intro vc caseBody f Cons.prems(2) triple_weaken [OF Cons.IH [OF f(2) Cons.prems(2)]])
      (use Cons.prems(2-) in \<open>auto simp: floorFree_def jumpsDone_def post_defs dest!: grown_len\<close>)
qed

lemma blockingSelect:
  assumes "list_all (\<lambda>b. b) (map fitsCase cs)" "floorFree G"
  shows "triple G v (compileBlockingSelectStmt R line cs) (\<lambda>_. afterStmt v)"
  unfolding compileBlockingSelectStmt_def
  by (rule triple_start, intro vc loadCases assms triple_weaken [OF selectedCases [OF assms]] afterStmt_same)
    (use assms(2) in \<open>auto simp: floorFree_def jumpsDone_def post_defs dest!: grown_len\<close>)

lemma selectStmt:
  assumes "list_all (\<lambda>b. b) (map fitsCase cs)" "pred_option (\<lambda>b. b) (map_option fitsBlock d)" "floorFree G"
  shows "triple G v (compileSelectStmt R line cs d) (\<lambda>_. afterStmt v)"
  unfolding compileSelectStmt_def using assms by (cases d) (auto intro: blockingSelect nonblockingSelect)

subsection \<open>Conditionals\<close>

lemma elseIfs:
  "list_all (\<lambda>b. b) (map fitsElseIf es) \<Longrightarrow> floorFree G \<Longrightarrow> triple G v (compileElseIfs R es) (jumpsDone v)"
proof (induction es arbitrary: v)
  case Nil
  show ?case by (auto intro: triple_return simp: jumpsDone_def)
next
  case (Cons e es)
  obtain p c b where e: "e = ElseIfClause p c b" by (cases e)
  have f: "fitsExpr c" "fitsBlock b" "list_all (\<lambda>b. b) (map fitsElseIf es)" using Cons.prems(1) by (simp_all add: e)
  show ?case unfolding e compileElseIfs.simps
    by (rule triple_start, intro vc cond bodyBlock f Cons.prems(2) triple_weaken [OF Cons.IH [OF f(3) Cons.prems(2)]])
      (use Cons.prems(2) in \<open>auto simp: floorFree_def jumpsDone_def post_defs dest!: grown_len\<close>)
qed

lemma ifStmt:
  assumes "fitsExpr c" "fitsBlock b" "list_all (\<lambda>b. b) (map fitsElseIf es)" "pred_option (\<lambda>b. b) (map_option fitsBlock e)" "floorFree G"
  shows "triple G v (compileIfStmt R line c b es e) (\<lambda>_. afterStmt v)"
proof -
  have f: "fitsBlock d" if "e = Some d" for d using assms(4) that by simp
  show ?thesis unfolding compileIfStmt_def
    by (rule triple_start, intro triple_branch vc cond bodyBlock assms f triple_weaken [OF elseIfs [OF assms(3,5)]] afterStmt_same)
      (use assms(5) in \<open>auto simp: floorFree_def jumpsDone_def post_defs dest!: grown_len\<close>)
qed

end

end
