(* ===== verification/Compiler.thy ===== *)
theory Compiler
  imports Compiler_Stmt Desugar Label_Control
begin

section \<open>The compiler (internal/vm/compiler.go)\<close>

text \<open>
  \<open>compileAt n\<close> closes the recursion of the methods with \<open>n\<close> levels; a tree of weight \<open>n\<close> needs no
  more than \<open>n\<close>, which \<open>Compiler_Total\<close> proves, and \<open>Compile\<close> allows the weight of the
  program.
\<close>

primrec compileAt :: "nat \<Rightarrow> compilers" where
  "compileAt 0 =
     \<lparr>rExprTo = (\<lambda>e dest. failC EFuel), rCallMulti = (\<lambda>e dest n. failC EFuel),
      rCondJump = (\<lambda>inverted e line. failC EFuel), rStmt = (\<lambda>s. failC EFuel)\<rparr>"
| "compileAt (Suc n) =
     \<lparr>rExprTo = compileExprTo (compileAt n), rCallMulti = compileAnyCallMulti (compileAt n),
      rCondJump = compileCondJump (compileAt n), rStmt = compileStmt (compileAt n)\<rparr>"

text \<open>The entry points at a level, which keep evaluation from unfolding the levels below.\<close>

definition exprToAt :: "nat \<Rightarrow> Expr \<Rightarrow> int \<Rightarrow> unit cm" where
  "exprToAt n = rExprTo (compileAt n)"

definition callMultiAt :: "nat \<Rightarrow> Expr \<Rightarrow> int \<Rightarrow> int \<Rightarrow> unit cm" where
  "callMultiAt n = rCallMulti (compileAt n)"

definition condJumpAt :: "nat \<Rightarrow> bool \<Rightarrow> Expr \<Rightarrow> nat \<Rightarrow> nat cm" where
  "condJumpAt n = rCondJump (compileAt n)"

definition stmtAt :: "nat \<Rightarrow> Stmt \<Rightarrow> unit cm" where
  "stmtAt n = rStmt (compileAt n)"

lemma compileAt_entries:
  "compileAt n = \<lparr>rExprTo = exprToAt n, rCallMulti = callMultiAt n, rCondJump = condJumpAt n, rStmt = stmtAt n\<rparr>"
  by (simp add: exprToAt_def callMultiAt_def condJumpAt_def stmtAt_def)

lemma entries_code:
  "exprToAt 0 e dest c = CErr EFuel" "exprToAt (Suc n) e dest c = compileExprTo (compileAt n) e dest c"
  "callMultiAt 0 e dest k c = CErr EFuel" "callMultiAt (Suc n) e dest k c = compileAnyCallMulti (compileAt n) e dest k c"
  "condJumpAt 0 inverted e line c = CErr EFuel"
  "condJumpAt (Suc n) inverted e line c = compileCondJump (compileAt n) inverted e line c"
  "stmtAt 0 st c = CErr EFuel" "stmtAt (Suc n) st c = compileStmt (compileAt n) st c"
  by (simp_all add: exprToAt_def callMultiAt_def condJumpAt_def stmtAt_def failC_def)

declare compileAt.simps [code del] compileAt_entries [code] entries_code [code]

definition declareGlobals :: "bytes list \<Rightarrow> unit cm" where
  "declareGlobals globals = forEachC (\<lambda>name. whenC (name \<noteq> []) (declareGlobal name)) globals"

text \<open>The statements of the main function.\<close>

definition compileMain :: "compilers \<Rightarrow> bytes list \<Rightarrow> Stmt list \<Rightarrow> unit cm" where
  "compileMain R globals stmts = seqC [
     declareGlobals globals,
     collectFunctionArities stmts,
     collectFunctionResults stmts,
     collectLabelDepths stmts,
     forEachC (rStmt R) stmts,
     patchGotos,
     emitReturn 0 1]"

definition mainProto :: "unit cres \<Rightarrow> cerror + FuncProto" where
  "mainProto r = (case r of COk u c \<Rightarrow> Inr (finish (fName (cFn c)) 0 (cFn c)) | CErr e \<Rightarrow> Inl e)"

definition CompileWithGlobals :: "Program \<Rightarrow> bytes list \<Rightarrow> cerror + FuncProto" where
  "CompileWithGlobals prog0 globals =
     (let prog = DesugarSyntax prog0; stmts = prStmts prog in
      case ValidateLabelControl prog of
        Some e \<Rightarrow> Inl ELabelControl
      | None \<Rightarrow>
          mainProto (compileMain (compileAt (sum_list (map stmtWeight stmts))) globals stmts
            (newCompiler ''<main>'' 0 False)))"

definition Compile :: "Program \<Rightarrow> cerror + FuncProto" where
  "Compile prog = CompileWithGlobals prog []"

end
