(* ===== verification/Compiler_Valid_Loop.thy ===== *)
theory Compiler_Valid_Loop
  imports Compiler_Valid_Control Compiler
begin

section \<open>Compiled loops and functions are valid bytecode\<close>

text \<open>
  Loops, jumps, returns and function declarations; then the recursion of the compiler is closed: every
  level satisfies \<open>valid_entries\<close>.
\<close>

subsection \<open>Loops\<close>

lemma step_loopJump [vc]:
  assumes "op \<in> {OP_FORPREP, OP_FORLOOP, OP_TFORLOOP}" "0 \<le> a" "a + 3 < vLimit G v" "gD G \<le> a"
    "- int (vLen v) - 1 \<le> sbx" "sbx \<le> 0"
    "\<And>w. grown v w \<Longrightarrow> sameScope v w \<Longrightarrow> vNext w = vNext v \<Longrightarrow> vLen v < vLen w \<Longrightarrow> Q (vLen v) w"
  shows "triple G v (emitAsBx op a sbx line) Q"
proof (rule triple_emitAsBx)
  show "asbxOK (dimsOf G (v\<lparr>vLen := Suc (vLen v)\<rparr>)) (vLen v) op a sbx"
    using assms(1-6) by (auto simp: asbxOK_def asbx_ops vLimit_def)
qed (use assms in \<open>auto simp: sameScope_def\<close>)

lemma step_loopPatch [vc]:
  assumes "op \<in> {OP_FORPREP, OP_FORLOOP, OP_TFORLOOP}" "0 \<le> a" "a + 3 < vLimit G v" "gD G \<le> a" "pos < vLen v"
    "0 \<le> int pos + 1 + sbx" "int pos + 1 + sbx \<le> int (vLen v)" "Q () v"
  shows "triple G v (patchCode pos (EncodeAsBx op a sbx)) Q"
  by (rule triple_patchAsBx) (use assms in \<open>auto simp: asbxOK_def asbx_ops\<close>)

lemma afterStmt_more: "afterStmt u v \<Longrightarrow> sameScope v w \<Longrightarrow> vNext v \<le> vNext w \<Longrightarrow> afterStmt u w"
  by (blast intro: afterStmt_trans afterStmt_same)

lemma afterStmt_loop:
  assumes "afterStmt a w" "sameScope w x" "vNext x = vNext w" "sameScope x y" "vNext w \<le> vNext y" "afterStmt y z"
    "sameScope z u" "vNext u = vNext z"
  shows "afterStmt a u"
proof -
  have "afterStmt a y" using assms(1-5) by (auto intro: afterStmt_more simp: sameScope_def)
  then have "afterStmt a z" by (rule afterStmt_trans) (rule assms(6))
  then show ?thesis using assms(7,8) by (auto intro: afterStmt_more)
qed

lemma afterStmt_two: "vLocals w = (r, vDepth v) # (s, vDepth v) # vLocals v \<Longrightarrow> vMax v \<le> vMax w \<Longrightarrow> vDepth w = vDepth v \<Longrightarrow>
    vNext v + 2 \<le> vNext w \<Longrightarrow> afterStmt v w"
  by (auto simp: afterStmt_def intro!: exI [of _ "[(r, vDepth v), (s, vDepth v)]"])

lemma allocUpTo_ok:
  "limit - vNext v \<le> int k \<Longrightarrow>
     (\<And>w. grown v w \<Longrightarrow> sameScope v w \<Longrightarrow> vNext w = max (vNext v) limit \<Longrightarrow> Q () w) \<Longrightarrow> triple G v (allocUpTo k limit) Q"
proof (induction k arbitrary: v)
  case 0
  then show ?case by (auto intro!: triple_return)
next
  case (Suc k)
  have rest: "triple G w (allocUpTo k limit) Q" if "grown v w" "sameScope v w" "vNext w = vNext v + 1" "vNext v < limit" for w
  proof (rule Suc.IH)
    fix u assume "grown w u" "sameScope w u" "vNext u = max (vNext w) limit"
    then show "Q () u" using that by (intro Suc.prems(2)) (auto simp: sameScope_def intro: grown_trans [OF that(1)])
  qed (use that Suc.prems in auto)
  show ?case unfolding allocUpTo.simps
    by (intro vc rest) (use Suc.prems(2) in auto)
qed

context valid_entries
begin

lemma loopCondition:
  assumes "pred_option (\<lambda>b. b) (map_option fitsExpr c)" "floorFree G"
    "\<And>w. grown v w \<Longrightarrow> sameScope v w \<Longrightarrow> vNext w = vNext v \<Longrightarrow> Q () w"
  shows "triple G v (loopCond R c line) Q"
proof -
  have f: "fitsExpr e" if "c = Some e" for e using assms(1) that by simp
  show ?thesis unfolding loopCond_def
    by (rule triple_grown, rule triple_start, intro impI vc cond f assms(3))
      (use assms(2) in \<open>auto simp: floorFree_def post_defs\<close>)
qed

lemma forStmt:
  assumes "pred_option (\<lambda>b. b) (map_option fitsExpr c)" "fitsBlock b" "floorFree G"
  shows "triple G v (compileForStmt R line c b) (\<lambda>_. afterStmt v)"
  unfolding compileForStmt_def
  by (rule triple_start, intro vc loopCondition bodyBlock assms afterStmt_same)
    (auto simp: jumpsBelow_def post_defs dest!: grown_len)

lemma generalForNum:
  assumes "fitsStmt i" "fitsExpr c" "fitsStmt q" "fitsBlock b" "floorFree G"
  shows "triple G v (compileGeneralForNum R line i c q b) (\<lambda>_. afterStmt v)"
proof (rule triple_ok)
  assume ok: "okView v"
  show ?thesis unfolding compileGeneralForNum_def
    by (intro vc stmt loopCondition bodyBlock step_leave [OF _ ok])
      (use assms in \<open>auto simp: jumpsBelow_def dest!: grown_len intro: afterStmt_loop afterStmt_same\<close>)
qed

lemma simpleStep_fits: "simpleStep n q = Some (Some e) \<Longrightarrow> fitsStmt q \<Longrightarrow> fitsExpr e"
  by (auto simp: simpleStep_def split: Stmt.splits Expr.splits list.splits if_splits)

lemma numericFor_fits:
  assumes "detectSimpleNumericFor i c q = Some (name, start, op, limit, step)" "fitsStmt i" "fitsExpr c" "fitsStmt q"
  shows "fitsExpr start \<and> fitsExpr limit \<and> (\<forall>e. step = Some e \<longrightarrow> fitsExpr e)"
proof -
  obtain p ns vs ro where i: "i = DeclareStmt p ns vs ro"
    using assms(1) by (cases i) (simp_all add: detectSimpleNumericFor_def)
  obtain x s where l: "ns = [x]" "vs = [s]"
    using assms(1) by (auto simp: detectSimpleNumericFor_def i split: list.splits)
  obtain k b o' lim where c: "c = BinaryExpr k b o' lim"
    using assms(1) by (cases c) (simp_all add: detectSimpleNumericFor_def i l)
  show ?thesis
    using assms by (cases b) (auto simp: detectSimpleNumericFor_def i l c dest: simpleStep_fits split: if_splits)
qed

lemma optimizedForNum:
  assumes "fitsExpr start" "fitsExpr limit" "\<And>e. step = Some e \<Longrightarrow> fitsExpr e" "fitsBlock b" "floorFree G"
  shows "triple G v (compileOptimizedForNum R line name start op limit step b) (\<lambda>_. afterStmt v)"
proof (rule triple_ok)
  assume ok: "okView v"
  have v: "0 \<le> vTop v" "vTop v \<le> vNext v" "vNext v \<le> vMax v" using okView_next [OF ok] by auto
  have G: "gD G \<le> 0" using assms(5) by (simp add: floorFree_def)
  have leave: "triple G w leaveScope Q"
    if "vLocals w = (vNext v + 3, vDepth v + 1) # vLocals v" "vDepth w = vDepth v + 1" "vMax v \<le> vMax w" "vNext v + 1 \<le> vNext w"
      "\<And>u. afterStmt v u \<Longrightarrow> Q () u" for w Q
    by (rule step_leave [OF _ ok]) (use that in \<open>auto intro: afterStmt_one afterStmt_same\<close>)
  have limits: "triple G w (if op = ''<'' then bindC allocReg (\<lambda>limitTmp. thenC (rExprTo R limit limitTmp)
      (bindC allocReg (\<lambda>oneReg. seqC [emitInt oneReg 1 line, emitABC OP_SUB (r + 1) limitTmp oneReg line, freeRegs 2])))
      else rExprTo R limit (r + 1)) Q"
    if "r = vNext v" "sameScope (entered v) w" "vNext w = vNext v + 4" "\<And>u. grown w u \<Longrightarrow> sameScope w u \<Longrightarrow> vNext u = vNext w \<Longrightarrow> Q () u" for w Q r
    by (rule triple_grown, rule triple_start, intro impI triple_branch vc expr assms(2) that(4))
      (use v G that(1-3) in \<open>auto simp: pre_defs post_defs\<close>)
  have steps: "triple G w (case step of None \<Rightarrow> emitInt (r + 2) 1 line | Some x \<Rightarrow> rExprTo R x (r + 2)) Q"
    if "r = vNext v" "sameScope (entered v) w" "vNext w = vNext v + 4" "\<And>u. grown w u \<Longrightarrow> sameScope w u \<Longrightarrow> vNext u = vNext w \<Longrightarrow> Q () u" for w Q r
    by (rule triple_grown, rule triple_start, intro impI vc expr assms(3) that(4))
      (use v G that(1-3) in \<open>auto simp: pre_defs post_defs\<close>)
  have body: "triple G w (thenC pushLoop (bindC (emitAsBx OP_FORPREP r 0 line) (\<lambda>forprepPos.
     bindC currentPC (\<lambda>loopBodyStart. thenC (compileBody R b) (bindC currentPC (\<lambda>continueTarget.
     bindC (emitAsBx OP_FORLOOP r (int loopBodyStart - int continueTarget - 1) line) (\<lambda>_.
     thenC (patchCode forprepPos (EncodeAsBx OP_FORPREP r (int continueTarget - int forprepPos - 1)))
    (bindC popLoop (\<lambda>info. seqC [patchBreaks info, patchContinues info continueTarget, leaveScope])))))))))
      (\<lambda>_. afterStmt v)"
    if "r = vNext v" "vLocals w = (vNext v + 3, vDepth v + 1) # vLocals v" "vDepth w = vDepth v + 1" "vMax v \<le> vMax w" "vNext w = vNext v + 4" for w r
    by (rule triple_start, intro vc bodyBlock leave assms(4,5))
      (use v G that in \<open>auto simp: post_defs jumpsBelow_def dest!: grown_len\<close>)
  show ?thesis unfolding compileOptimizedForNum_def
    by (rule triple_then, rule step_enter, rule triple_bind, rule step_alloc(2), simp, rule triple_then, rule expr [OF assms(1)],
        insert v G, simp add: pre_defs post_defs, intro triple_then limits steps step_push_local body) (auto simp: post_defs)
qed

lemma forRange:
  assumes "fitsExpr iter" "fitsBlock b" "floorFree G"
  shows "triple G v (compileForRangeStmt R line key val iter b) (\<lambda>_. afterStmt v)"
proof (rule triple_ok)
  assume ok: "okView v"
  have v: "0 \<le> vTop v" "vTop v \<le> vNext v" "vNext v \<le> vMax v" using okView_next [OF ok] by auto
  have G: "gD G \<le> 0" using assms(3) by (simp add: floorFree_def)
  define captures where "captures = forRangeBodyCapturesVars key val b"
  define nVars :: int where "nVars = (if val = [] then 1 else 2)"
  have n: "nVars = 1 \<or> nVars = 2" "val \<noteq> [] \<Longrightarrow> nVars = 2" by (simp_all add: nVars_def)
  let ?ready = "\<lambda>w. vMax v \<le> vMax w \<and> vDepth w = vDepth v + 1 \<and> vNext w = vNext v + 3 + nVars \<and> vNext w \<le> vMax w"
  have iterator: "triple G w (if isAnyCall iter then rCallMulti R iter r 3
      else thenC (rExprTo R iter r) (emitABC OP_LOADNIL (r + 1) 1 0 line)) Q"
    if "r = vNext v" "sameScope (entered v) w" "vNext w = vNext v + 3" "vNext w \<le> vMax w"
      "\<And>u. grown w u \<Longrightarrow> sameScope w u \<Longrightarrow> vNext u = vNext w \<Longrightarrow> Q () u" for w Q r
    by (rule triple_grown, rule triple_start, intro impI triple_branch vc expr call assms(1) that(5))
      (use v G that(1-4) in \<open>auto simp: pre_defs post_defs\<close>)
  have names: "triple G w (whenC (\<not> captures) (seqC [pushLocal key (r + 3), whenC (val \<noteq> []) (pushLocal val (r + 4))])) Q"
    if "r = vNext v" "sameScope (entered v) w" "vNext w = vNext v + 3 + nVars" "\<And>u. grown w u \<Longrightarrow> afterStmt (entered v) u \<Longrightarrow> ?ready u \<Longrightarrow> Q () u" for w Q r
    unfolding pushLocal_def
    by (rule triple_grown, rule triple_start, intro impI vc step_push_local that(4))
      (use v n that(1-3) in \<open>auto simp: post_defs intro: afterStmt_same afterStmt_one afterStmt_two\<close>)
  have inner: "triple G w (seqC [whenC captures (seqC [
          bindC (addLocal key) (\<lambda>keyReg. emitABC OP_MOVE keyReg (r + 3) 0 line),
          whenC (val \<noteq> []) (bindC (addLocal val) (\<lambda>valueReg. emitABC OP_MOVE valueReg (r + 4) 0 line))]),
        forEachC (rStmt R) (blockStmts b)]) (\<lambda>_. afterStmt w)"
    if "r = vNext v" "r + 3 + nVars \<le> vMax w" for w r
  proof -
    have add: "triple G u (bindC (addLocal x) (\<lambda>l. emitABC OP_MOVE l m 0 line)) (\<lambda>_. afterStmt u)"
      if "0 \<le> m" "m < vMax u" for u x m
      by (rule triple_start, intro vc) (use that G in \<open>auto simp: post_defs intro: afterStmt_one\<close>)
    have both: "triple G w (whenC captures (seqC [
          bindC (addLocal key) (\<lambda>keyReg. emitABC OP_MOVE keyReg (r + 3) 0 line),
          whenC (val \<noteq> []) (bindC (addLocal val) (\<lambda>valueReg. emitABC OP_MOVE valueReg (r + 4) 0 line))])) (\<lambda>_. afterStmt w)"
      by (intro triple_when triple_seq_Cons triple_seq_Nil triple_weaken [OF add])
        (use that n v in \<open>auto intro: afterStmt_trans afterStmt_same simp: afterStmt_def\<close>)
    show ?thesis
      by (intro triple_seq_Cons triple_seq_Nil triple_weaken [OF both] stmts body_stmts assms(2,3)) (auto intro: afterStmt_trans)
  qed
  have tail: "triple G w (thenC pushLoop (bindC currentPC (\<lambda>loopTop.
     thenC (emitABC OP_TFORCALL r 0 nVars line)
    (bindC (emitAsBx OP_TFORLOOP (r + 2) 0 line) (\<lambda>tforloopPos.
     bindC (emitJump line) (\<lambda>exitJump.
     bindC currentPC (\<lambda>bodyStart.
     thenC (scoped (seqC [whenC captures (seqC [
          bindC (addLocal key) (\<lambda>keyReg. emitABC OP_MOVE keyReg (r + 3) 0 line),
          whenC (val \<noteq> []) (bindC (addLocal val) (\<lambda>valueReg. emitABC OP_MOVE valueReg (r + 4) 0 line))]),
        forEachC (rStmt R) (blockStmts b)]))
    (bindC currentPC (\<lambda>continueTarget.
     bindC (emitJump line) (\<lambda>loopBack.
     thenC (patchJumpTo loopBack loopTop)
    (thenC (patchCode tforloopPos (EncodeAsBx OP_TFORLOOP (r + 2) (int bodyStart - int tforloopPos - 1)))
    (thenC (patchJump exitJump)
    (bindC popLoop (\<lambda>info. seqC [patchBreaks info, patchContinues info continueTarget, leaveScope,
       whenC captures (setNextReg r)])))))))))))))) (\<lambda>_. afterStmt v)"
    if "r = vNext v" "afterStmt (entered v) w" "?ready w" for w r
  proof -
    have nn: "1 \<le> nVars" "nVars \<le> 2" using n(1) by auto
    have leave: "triple G u leaveScope Q"
      if "sameScope w u" "vNext w \<le> vNext u" "\<And>x. sameScope v x \<Longrightarrow> vNext v \<le> vNext x \<Longrightarrow> Q () x" for u Q
      by (rule step_leave [OF _ ok]) (use \<open>afterStmt (entered v) w\<close> that in \<open>auto intro: afterStmt_more\<close>)
    show ?thesis
      by (rule triple_start, intro vc step_scoped inner leave afterStmt_same)
        (use v nn G that(1,3) in \<open>auto simp: post_defs jumpsBelow_def dest!: grown_len\<close>)
  qed
  show ?thesis unfolding compileForRangeStmt_def Let_def captures_def [symmetric] nVars_def [symmetric]
    by (rule triple_then, rule step_enter, rule triple_bind, rule step_alloc(2), simp, intro triple_then iterator allocUpTo_ok names tail)
      (use n in \<open>auto simp: post_defs\<close>)
qed

subsection \<open>Jumps, returns and functions\<close>

lemma enumerate0_nth: "k < length xs \<Longrightarrow> enumerate0 xs ! k = (int k, xs ! k)" "length (enumerate0 xs) = length xs"
  by (simp_all add: enumerate0_def)

lemma grown_counts: "grown v w \<Longrightarrow> int (vK v) \<le> int (vK w) \<and> int (vU v) \<le> int (vU w) \<and> vP v \<le> vP w"
  by (simp add: grown_def)

lemma returnStmt:
  assumes "list_all (\<lambda>b. b) (map fitsExpr vals)" "floorFree G"
  shows "triple G v (compileReturnStmt R line vals) (\<lambda>_. afterStmt v)"
proof (cases "vals = []")
  case True
  show ?thesis unfolding compileReturnStmt_def True
    by (simp, rule triple_start, intro vc) (auto simp: post_defs intro: afterStmt_same)
next
  case False
  have G: "gD G \<le> 0" using assms(2) by (simp add: floorFree_def)
  have one: "triple G w (bindC allocReg (\<lambda>reg. case (if last then (if single then None else finalArg R line False (List.last vals) reg) else None) of
        Some m \<Rightarrow> m | None \<Rightarrow> rExprTo R (vals ! k) reg)) (\<lambda>_ u. sameScope w u \<and> vNext u = vNext w + 1 \<and> vNext u \<le> vMax u)"
    if "k < length vals" "last \<longrightarrow> k = length vals - 1" for w last single k
  proof -
    have fit: "fitsExpr (vals ! k)" "fitsExpr (List.last vals)" using assms(1) that(1) False by (auto simp: list_all_iff)
    have fin: "triple G u m Q" if "(if last then (if single then None else finalArg R line False (List.last vals) r) else None) = Some m"
      "exprPre G u r" "\<And>x. afterExpr u r x \<Longrightarrow> Q () x" for u m r Q
      by (rule triple_weaken [OF final [OF _ fit(2) that(2), where b = True and jit = False and line = line]])
        (use that(1,3) in \<open>auto split: if_splits\<close>)
    show ?thesis
      by (rule triple_start, intro triple_bind step_alloc(1) triple_option fin expr fit)
        (use G in \<open>auto simp: pre_defs post_defs\<close>)
  qed
  have all: "triple G w (forEachC (\<lambda>(i, x). bindC allocReg (\<lambda>reg.
        case (if i = int (length vals) - 1 then (if single then None else finalArg R line False (List.last vals) reg) else None) of
          Some m \<Rightarrow> m | None \<Rightarrow> rExprTo R x reg)) (enumerate0 vals)) Q"
    if "\<And>u. grown w u \<Longrightarrow> sameScope w u \<Longrightarrow> vNext u = vNext w + int (length vals) \<Longrightarrow> vNext u \<le> vMax u \<Longrightarrow> Q () u" for w Q single
  proof (rule triple_grown, rule triple_start,
      rule triple_forEach_nth [where I = "\<lambda>k u. sameScope w u \<and> vNext u = vNext w + int k \<and> vNext u \<le> vMax u"])
    fix k u assume k: "k < length (enumerate0 vals)" and u: "sameScope w u \<and> vNext u = vNext w + int k \<and> vNext u \<le> vMax u"
    have k': "k < length vals" using k by (simp add: enumerate0_nth)
    show "triple G u (case enumerate0 vals ! k of (i, x) \<Rightarrow> bindC allocReg (\<lambda>reg.
        case (if i = int (length vals) - 1 then (if single then None else finalArg R line False (List.last vals) reg) else None) of
          Some m \<Rightarrow> m | None \<Rightarrow> rExprTo R x reg)) (\<lambda>_ y. sameScope w y \<and> vNext y = vNext w + int (Suc k) \<and> vNext y \<le> vMax y)"
      unfolding enumerate0_nth(1) [OF k'] prod.case
      by (rule triple_weaken [OF one [OF k']]) (use u in \<open>auto simp: sameScope_def\<close>)
  qed (use that in \<open>auto simp: sameScope_def enumerate0_nth\<close>)
  show ?thesis unfolding compileReturnStmt_def Let_def using False
    by (simp only: if_False) (rule triple_start, intro triple_bind triple_askC vc all,
      auto simp: post_defs intro: afterStmt_same)
qed

lemma jumpStmts:
  "triple G v (compileBreakStmt line) (\<lambda>_. afterStmt v)" "triple G v (compileContinueStmt line) (\<lambda>_. afterStmt v)"
  unfolding compileBreakStmt_def compileContinueStmt_def
  by (intro triple_bind triple_askF vc; auto simp: post_defs intro: afterStmt_same)+

lemma funcDecl:
  assumes "fitsBlock b" "floorFree G"
  shows "triple G v (compileFuncDeclStmt R line name ps b) (\<lambda>_. afterStmt v)"
proof -
  have G: "gD G \<le> 0" using assms(2) by (simp add: floorFree_def)
  have store: "triple G w (bindC (askF (resolveLocal name)) (\<lambda>reg.
       if 0 \<le> reg then emitABx OP_CLOSURE reg (int k) line
       else bindC (resolveUpvalue name) (\<lambda>upIdx.
         if 0 \<le> upIdx then bindC allocReg (\<lambda>tmpReg. seqC [
             emitABx OP_CLOSURE tmpReg (int k) line, emitABC OP_SETUPVAL tmpReg upIdx 0 line, freeReg])
         else bindC allocReg (\<lambda>tmpReg. thenC (emitABx OP_CLOSURE tmpReg (int k) line)
          (bindC (stringConst name) (\<lambda>nameK. seqC [emitABx OP_SETGLOBAL tmpReg nameK line, freeReg])))))) (\<lambda>_. afterStmt w)"
    if "k < vP w" for w k
    by (rule triple_start, intro vc; use G that in \<open>auto simp: post_defs dest!: grown_counts intro: afterStmt_same\<close>)
  have decl: "triple G v (whenC m (declareGlobal name)) Q" if "Q () v" for m Q
    by (intro vc) (simp_all add: that)
  show ?thesis unfolding compileFuncDeclStmt_def
    by (rule triple_bind, rule triple_askC, rule triple_then, rule decl, rule triple_bind, rule compiledFunction [OF assms(1)],
        rule triple_weaken [OF store]) (auto intro: afterStmt_trans [OF afterStmt_same])
qed

lemma stmtStep:
  assumes "fitsStmt s" "floorFree G"
  shows "triple G v (compileStmt R s) (\<lambda>_. afterStmt v)"
proof -
  have block: "triple G v (compileBlockStmt R b) (\<lambda>_. afterStmt v)" if "fitsBlock b" for b
    by (rule block [OF that assms(2)]) (auto intro: afterStmt_same)
  have num: "triple G v (compileForNumStmt R line i c q b) (\<lambda>_. afterStmt v)"
    if "fitsStmt i" "fitsExpr c" "fitsStmt q" "fitsBlock b" for line i c q b
    unfolding compileForNumStmt_def using that numericFor_fits [of i c q]
    by (auto split: option.split intro!: generalForNum optimizedForNum assms(2))
  have goto: "triple G v (compileGotoStmt line name) (\<lambda>_. afterStmt v)" "triple G v (compileLabelStmt line name) (\<lambda>_. afterStmt v)" for line name
    by (intro vc; auto intro: afterStmt_same)+
  have list: "list_all (\<lambda>b. b) (map f xs) = list_all f xs" for f and xs :: "'z list" by (simp add: list.pred_map comp_def)
  show ?thesis unfolding compileStmt_def using assms
    by (cases s; simp only: Stmt.case)
      (auto simp: list intro!: declareStmt assignStmt compoundAssign incDec callStmt ifStmt num forStmt forRange returnStmt jumpStmts
        goto funcDecl block goStmt sendStmt selectStmt triple_return afterStmt_same)
qed

end

subsection \<open>Every level of the compiler\<close>

lemma compileAt_valid: "valid_entries (compileAt n)"
proof (induction n)
  case 0
  show ?case by unfold_locales (simp_all add: triple_fail)
next
  case (Suc n)
  show ?case
  proof unfold_locales
    fix e dest Q and G :: ghost and v
    assume "fitsExpr e" "exprPre G v dest" and Q: "\<And>w. grown v w \<Longrightarrow> afterExpr v dest w \<Longrightarrow> Q () w"
    then show "triple G v (rExprTo (compileAt (Suc n)) e dest) Q"
      by simp (rule triple_weaken [OF valid_entries.exprTo [OF Suc]], auto intro: Q)
  next
    fix e dest k Q and G :: ghost and v
    assume "fitsExpr e" "callPre G v e dest k" and Q: "\<And>w. grown v w \<Longrightarrow> afterCall v e dest k w \<Longrightarrow> Q () w"
    then show "triple G v (rCallMulti (compileAt (Suc n)) e dest k) Q"
      by simp (rule triple_weaken [OF valid_entries.anyCall [OF Suc]], auto intro: Q)
  next
    fix e P inverted line and G :: ghost and v
    assume "fitsExpr e" "gD G \<le> vTop v" and
      P: "\<And>w j. grown v w \<Longrightarrow> sameScope v w \<Longrightarrow> vNext w = vNext v \<Longrightarrow> vLen v \<le> j \<Longrightarrow> j < vLen w \<Longrightarrow> P j w"
    then show "triple G v (rCondJump (compileAt (Suc n)) inverted e line) P"
      by simp (rule valid_entries.condJump [OF Suc], auto intro: P)
  next
    fix s Q and G :: ghost and v
    assume "fitsStmt s" "floorFree G" and Q: "\<And>w. grown v w \<Longrightarrow> afterStmt v w \<Longrightarrow> Q () w"
    then show "triple G v (rStmt (compileAt (Suc n)) s) Q"
      by simp (rule triple_weaken [OF valid_entries.stmtStep [OF Suc]], auto intro: Q)
  qed
qed

interpretation level: valid_entries "compileAt n" for n
  by (rule compileAt_valid)

end
