(* ===== verification/Compiler_Total.thy ===== *)
theory Compiler_Total
  imports Compiler Desugar_Correct
begin

section \<open>The compiler always answers\<close>

text \<open>
  \<open>answers m\<close> says that a step of the compiler never runs out of recursion depth. The locale
  \<open>enough_depth\<close> assumes it of the four entry points on trees of weight up to \<open>n\<close> and proves it of
  every method on trees of weight \<open>n + 1\<close>; it is interpreted on \<open>compileAt n\<close>.
\<close>

named_theorems answers_intros \<open>introduction rules: a step of the compiler answers\<close>

definition answers :: "'a cm \<Rightarrow> bool" where
  "answers m \<longleftrightarrow> (\<forall>c. m c \<noteq> CErr EFuel)"

lemma answers_return [answers_intros]: "answers (returnC a)"
  by (simp add: answers_def returnC_def)

lemma answers_fail [answers_intros]: "e \<noteq> EFuel \<Longrightarrow> answers (failC e)"
  by (simp add: answers_def failC_def)

lemma answers_bind [answers_intros]: "answers m \<Longrightarrow> (\<And>a. answers (f a)) \<Longrightarrow> answers (bindC m f)"
  by (auto simp: answers_def bindC_def split: cres.splits)

lemma answers_then [answers_intros]: "answers m \<Longrightarrow> answers k \<Longrightarrow> answers (thenC m k)"
  by (simp add: thenC_def answers_bind)

lemma answers_ask [answers_intros]: "answers (askC f)" "answers (askF g)"
  by (simp_all add: answers_def askC_def askF_def)

lemma answers_upd [answers_intros]: "answers (updC f)" "answers (updF g)"
  by (simp_all add: answers_def updC_def updF_def)

lemma answers_when [answers_intros]: "(b \<Longrightarrow> answers m) \<Longrightarrow> answers (whenC b m)"
  by (simp add: whenC_def answers_return)

lemma answers_if [answers_intros]: "(b \<Longrightarrow> answers m) \<Longrightarrow> (\<not> b \<Longrightarrow> answers k) \<Longrightarrow> answers (if b then m else k)"
  by simp

lemma answers_forEach [answers_intros]: "(\<And>x. x \<in> set xs \<Longrightarrow> answers (f x)) \<Longrightarrow> answers (forEachC f xs)"
  by (induction xs) (auto intro!: answers_intros)

lemma answers_seq_Nil [answers_intros]: "answers (seqC [])"
  and answers_seq_Cons [answers_intros]: "answers m \<Longrightarrow> answers (seqC ms) \<Longrightarrow> answers (seqC (m # ms))"
  by (auto simp: seqC_def intro!: answers_intros)

lemma answers_pairs [answers_intros]:
  "(\<And>a b. answers (f a b)) \<Longrightarrow> answers (case p of (a, b) \<Rightarrow> f a b)"
  by (cases p) simp

lemma answers_option [answers_intros]:
  "(x = None \<Longrightarrow> answers m) \<Longrightarrow> (\<And>y. x = Some y \<Longrightarrow> answers (f y)) \<Longrightarrow> answers (case x of None \<Rightarrow> m | Some y \<Rightarrow> f y)"
  by (cases x) simp_all

text \<open>The steps that call nothing.\<close>

lemmas primitive_defs = allocRegs_def allocReg_def freeRegs_def freeReg_def setNextReg_def raiseNextReg_def
  emit_def emitABC_def emitABx_def emitAsBx_def emitInt_def emitJump_def emitReturn_def disableJIT_def
  emitSpreadOp_def currentPC_def patchCode_def patchJumpTo_def patchJump_def addConst_def stringConst_def
  intConst_def floatConst_def addLocalWithReadOnly_def addLocal_def resolveUpvalue_def enterScope_def
  dropScopeLocals_def popScopes_def leaveScope_def declareGlobal_def setFunctionArity_def
  setFunctionResult_def pushLoop_def updateLoop_def addBreakJump_def addContinueJump_def
  patchBreaks_def patchContinues_def emitCloseForJump_def emitCloseCapturedAboveDepth_def pushFunction_def
  patchGotos_def freeIf_def Let_def

lemma answers_upvalue [answers_intros]: "answers (resolveUpvalueInfo name)"
  by (auto simp: answers_def resolveUpvalueInfo_def split: prod.splits)

lemma answers_popLoop [answers_intros]: "answers popLoop"
  unfolding popLoop_def by (auto intro!: answers_intros split: list.splits)

lemma answers_popFunction [answers_intros]: "answers popFunction"
  by (auto simp: answers_def popFunction_def split: list.splits)

lemma answers_primitives [answers_intros]:
  "answers allocReg" "answers (allocRegs k)" "answers (freeRegs k)" "answers freeReg" "answers (setNextReg r)"
  "answers (raiseNextReg r)" "answers (emit i l)" "answers (emitABC op a b cc l)" "answers (emitABx op a bx l)"
  "answers (emitAsBx op a sbx l)" "answers (emitInt r j l)" "answers (emitJump l)" "answers (emitReturn a b)"
  "answers disableJIT" "answers (emitSpreadOp op a b cc l)" "answers currentPC" "answers (patchCode pos i)"
  "answers (patchJumpTo pos t)" "answers (patchJump pos)" "answers (stringConst s)" "answers (intConst j)"
  "answers (floatConst x)" "answers (addLocalWithReadOnly name ro)" "answers (addLocal name)"
  "answers (resolveUpvalue name)" "answers enterScope" "answers leaveScope" "answers (declareGlobal name)"
  "answers (setFunctionArity name ar)" "answers (setFunctionResult name res)" "answers pushLoop"
  "answers (addBreakJump pos)" "answers (addContinueJump pos)" "answers (patchBreaks info)"
  "answers (patchContinues info t)" "answers emitCloseForJump" "answers (emitCloseCapturedAboveDepth d)"
  "answers (pushFunction name l va)" "answers patchGotos" "answers (freeIf flag)"
  unfolding primitive_defs
  by (auto intro!: answers_intros split: option.splits list.splits)

lemma answers_fields [answers_intros]:
  "answers (emitGetField dest t k l)" "answers (emitSetField t k v l)" "answers (emitMethodLookup sr ob k l)"
  "answers (compileNumberLit l txt dest)" "answers (compileIdentExpr l name dest)" "answers (keepResults dest k)"
  "answers (compileAppendSingle t i v l)" "answers (emitArgCount t i l)" "answers (addTableCtor2 k1 k2 s1 s2)"
  "answers (addTableCtorN sfs)" "answers (flushArrayBatch dest l batch)"
  unfolding emitGetField_def emitSetField_def emitMethodLookup_def compileNumberLit_def compileIdentExpr_def
    keepResults_def compileAppendSingle_def emitArgCount_def addTableCtor2_def addTableCtorN_def flushArrayBatch_def
  by (auto intro!: answers_intros split: option.splits)

lemma answers_twoFields [answers_intros]: "answers (twoFields acc fs)"
  by (induction acc fs rule: twoFields.induct)
    (auto intro!: answers_intros simp: Let_def split: option.splits)

lemma answers_smallFixedFields [answers_intros]: "answers (smallFixedFields acc fs)"
  by (induction acc fs rule: smallFixedFields.induct)
    (auto intro!: answers_intros simp: Let_def split: option.splits)

lemma answers_declareParams [answers_intros]: "answers (declareParams l ps)"
  by (induction l ps rule: declareParams.induct) (auto intro!: answers_intros)

lemma answers_resultsPass [answers_intros]: "answers (resultsPass fs)"
  by (induction fs rule: resultsPass.induct) (auto intro!: answers_intros)

lemma answers_resultsPasses [answers_intros]: "answers (resultsPasses k fs)"
  by (induction k fs rule: resultsPasses.induct) (auto intro!: answers_intros)

lemma answers_collect [answers_intros]:
  "answers (collectFunctionArities stmts)" "answers (collectFunctionResults stmts)" "answers (collectLabelDepths stmts)"
  unfolding collectFunctionArities_def collectFunctionResults_def collectLabelDepths_def Let_def
  by (auto intro!: answers_intros)

lemma answers_allocUpTo [answers_intros]: "answers (allocUpTo k limit)"
  by (induction k limit rule: allocUpTo.induct) (auto intro!: answers_intros)

subsection \<open>Subtrees\<close>

lemma weight_member: "x \<in> set xs \<Longrightarrow> sum_list (map w xs) \<le> (n :: nat) \<Longrightarrow> w x \<le> n"
  using sum_list_member_le [of x xs w] by simp

lemma weight_members:
  "x \<in> set xs \<Longrightarrow> a + sum_list (map w xs) \<le> (n :: nat) \<Longrightarrow> w x \<le> n"
  "x \<in> set xs \<Longrightarrow> sum_list (map w xs) + a \<le> n \<Longrightarrow> w x \<le> n"
  using sum_list_member_le [of x xs w] by simp_all

lemma weight_field: "TableField k v \<in> set fs \<Longrightarrow> sum_list (map fieldWeight fs) \<le> n \<Longrightarrow>
    exprWeight v \<le> n \<and> (\<forall>e. k = Some e \<longrightarrow> exprWeight e \<le> n)"
  using sum_list_member_le [of "TableField k v" fs fieldWeight] by (auto simp: optWeight_def)

lemma weight_unwrap: "exprWeight (unwrapParenExpr e) \<le> exprWeight e"
  by (induction e rule: unwrapParenExpr.induct) simp_all

lemma weight_typeCall: "typeNumberCallArg e = Some a \<Longrightarrow> exprWeight a \<le> exprWeight e"
  using weight_unwrap [of e] by (auto simp: typeNumberCallArg_def split: Expr.splits list.splits if_splits)

lemma weight_typeComparison:
  "typeNumberComparisonArg l r = Some a \<Longrightarrow> exprWeight a \<le> exprWeight l + exprWeight r"
  by (auto simp: typeNumberComparisonArg_def split: option.splits if_splits dest: weight_typeCall)

lemma weight_concat: "x \<in> set (flattenConcat e) \<Longrightarrow> exprWeight x \<le> exprWeight e"
  by (induction e rule: flattenConcat.induct) (auto split: if_splits)

lemma weight_globalSpread: "globalSpreadExpr call = Some e \<Longrightarrow> exprWeight e < exprWeight call"
  by (auto simp: globalSpreadExpr_def split: Expr.splits list.splits if_splits)

lemma weight_spread: "explicitSpreadExpr e = Some x \<Longrightarrow> exprWeight x \<le> exprWeight e"
  using weight_globalSpread [of e x] by (auto simp: explicitSpreadExpr_def split: option.splits if_splits)

lemma weight_block: "sum_list (map stmtWeight (blockStmts b)) < blockWeight b"
  by (cases b) simp

lemma weight_soleRecv: "soleRecv names vals = Some (l, ch) \<Longrightarrow> exprWeight ch \<le> sum_list (map exprWeight vals)"
  by (auto simp: soleRecv_def split: list.splits Expr.splits if_splits)

lemma weight_soleCall:
  "soleCall names vals = Some call \<Longrightarrow> exprWeight call \<le> sum_list (map exprWeight vals) \<and> isAnyCall call"
  by (auto simp: soleCall_def split: list.splits if_splits)

lemma weight_last: "vals \<noteq> [] \<Longrightarrow> exprWeight (last vals) \<le> sum_list (map exprWeight vals)"
  using sum_list_member_le [of "last vals" vals exprWeight] by simp

lemma enumerate0_member: "(i, x) \<in> set (enumerate0 xs) \<Longrightarrow> x \<in> set xs"
  unfolding enumerate0_def by (rule set_zip_rightD)

lemma answers_bind_result:
  "answers m \<Longrightarrow> (\<And>a c c'. m c = COk a c' \<Longrightarrow> answers (f a)) \<Longrightarrow> answers (bindC m f)"
  by (auto simp: answers_def bindC_def split: cres.splits)

text \<open>The values a static constructor collects are values of the literal.\<close>

definition fieldFits :: "nat \<Rightarrow> TableField \<Rightarrow> bool" where
  "fieldFits n f = (case f of TableField k v \<Rightarrow> optWeight id (map_option exprWeight k) + exprWeight v \<le> n)"

lemma fieldFits_simps [simp]:
  "fieldFits n (TableField None v) \<longleftrightarrow> exprWeight v \<le> n"
  "fieldFits n (TableField (Some k) v) \<longleftrightarrow> exprWeight k + exprWeight v \<le> n"
  by (simp_all add: fieldFits_def optWeight_def)

lemma fieldFits_sum: "sum_list (map fieldWeight fs) \<le> n \<Longrightarrow> list_all (fieldFits n) fs"
proof (induction fs)
  case (Cons f fs)
  then show ?case by (cases f) (auto simp: fieldFits_def)
qed simp

lemma twoFields_weight:
  "twoFields acc fs c = COk (Some vals) c' \<Longrightarrow> list_all (fieldFits n) fs \<Longrightarrow> x \<in> set vals \<Longrightarrow>
    x \<in> set acc \<or> exprWeight (sfValue x) \<le> n"
proof (induction acc fs arbitrary: c rule: twoFields.induct)
  case (2 acc key v rest)
  then show ?case
    by (fastforce simp: bindC_def returnC_def Let_def split: option.splits if_splits cres.splits)
qed (simp add: returnC_def)

lemma smallFixedFields_weight:
  "smallFixedFields acc fs c = COk (Some vals) c' \<Longrightarrow> list_all (fieldFits n) fs \<Longrightarrow> x \<in> set vals \<Longrightarrow>
    x \<in> set acc \<or> exprWeight (sfValue x) \<le> n"
proof (induction acc fs arbitrary: c rule: smallFixedFields.induct)
  case (2 acc key v rest)
  then show ?case
    by (fastforce simp: bindC_def askF_def askC_def returnC_def Let_def split: option.splits if_splits cres.splits)
qed (simp add: returnC_def)

subsection \<open>One level of the recursion\<close>

locale enough_depth =
  fixes R :: compilers and n :: nat
  assumes expr: "exprWeight e \<le> n \<Longrightarrow> answers (rExprTo R e dest)"
    and call: "exprWeight e \<le> n \<Longrightarrow> isAnyCall e \<Longrightarrow> answers (rCallMulti R e dest k)"
    and cond: "exprWeight e \<le> n \<Longrightarrow> answers (rCondJump R inverted e line)"
    and stmt: "stmtWeight s \<le> n \<Longrightarrow> answers (rStmt R s)"
begin

lemma exprReg: "exprWeight e \<le> n \<Longrightarrow> answers (compileExprReg R e)"
  unfolding compileExprReg_def by (auto intro!: answers_intros expr)

lemma operands:
  "exprWeight l + exprWeight r \<le> n \<Longrightarrow> (\<And>a b. answers (body a b)) \<Longrightarrow> answers (withOperands R l r body)"
  unfolding withOperands_def by (auto intro!: answers_intros exprReg)

lemma isNumber: "exprWeight a \<le> n \<Longrightarrow> answers (compileIsNumberComparison R a dest neg line)"
  unfolding compileIsNumberComparison_def by (auto intro!: answers_intros exprReg)

lemma comparison: "exprWeight l + exprWeight r \<le> n \<Longrightarrow> answers (compileComparison R line l r dest op a swap)"
  unfolding compileComparison_def by (auto intro!: answers_intros operands)

lemma binary:
  assumes "e = BinaryExpr p l op r" "exprWeight e \<le> Suc n"
  shows "answers (compileBinaryExpr R line l op r e dest)"
proof -
  have w: "exprWeight l + exprWeight r \<le> n" using assms by simp
  then have l: "exprWeight l \<le> n" and r: "exprWeight r \<le> n" by simp_all
  have parts: "op = ''..'' \<Longrightarrow> x \<in> set (flattenConcat e) \<Longrightarrow> exprWeight x \<le> n" for x
    using assms(1) w weight_concat [of x l] weight_concat [of x r] by auto
  have arg: "typeNumberComparisonArg l r = Some a \<Longrightarrow> exprWeight a \<le> n" for a
    using w weight_typeComparison by fastforce
  have both: "answers (compileAnd R line l r dest)" "answers (compileOr R line l r dest)"
    unfolding compileAnd_def compileOr_def compileShortCircuit_def by (intro answers_intros expr l r)+
  have cat: "answers (compileConcat R line e dest)" if "op = ''..''"
    unfolding compileConcat_def Let_def by (intro answers_intros expr parts that)
  show ?thesis unfolding compileBinaryExpr_def
    by (intro answers_intros isNumber comparison operands both cat w arg) simp_all
qed

lemma unary: "exprWeight e \<le> n \<Longrightarrow> answers (compileUnaryExpr R line op e dest)"
  unfolding compileUnaryExpr_def by (intro answers_intros expr) auto

lemma index: "exprWeight t + exprWeight i \<le> n \<Longrightarrow> answers (compileIndexExpr R line t i dest)"
  unfolding compileIndexExpr_def by (intro answers_intros exprReg expr) auto

lemma field: "exprWeight t \<le> n \<Longrightarrow> answers (compileFieldExpr R line t f dest)"
  unfolding compileFieldExpr_def by (intro answers_intros exprReg) auto

lemma final:
  "(if b then finalArg R line jit e reg else None) = Some m \<Longrightarrow> exprWeight e \<le> n \<Longrightarrow> answers m"
  by (auto simp: finalArg_def isAnyCall_def split: Expr.splits if_splits intro!: answers_intros call)

lemma callArgs: "sum_list (map exprWeight rest) \<le> n \<Longrightarrow> answers (callArgs R fn args line rest)"
  by (induction rest) (auto intro!: answers_intros expr simp: Let_def split: option.splits dest: final)

lemma plainArgs: "sum_list (map exprWeight rest) \<le> n \<Longrightarrow> answers (plainArgs R jit line rest)"
  by (induction rest) (auto intro!: answers_intros expr split: option.splits dest: final)

lemma statementArgs: "sum_list (map exprWeight rest) \<le> n \<Longrightarrow> answers (statementArgs R known line rest)"
  by (induction rest) (auto intro!: answers_intros expr simp: Let_def split: option.splits dest: final)

lemma coroutineCall: "sum_list (map exprWeight args) \<le> n \<Longrightarrow> answers (compileCoroutineBuiltinCall R args dest k line op)"
  unfolding compileCoroutineBuiltinCall_def by (intro answers_intros plainArgs)

lemma appendSpread: "exprWeight e \<le> n \<Longrightarrow> answers (compileAppendSpread R t i e line)"
  unfolding compileAppendSpread_def
  by (cases e) (auto simp: isAnyCall_def intro!: answers_intros call expr)

lemma appendValue: "exprWeight e \<le> n \<Longrightarrow> answers (compileAppendValue R t i e line)"
  unfolding compileAppendValue_def
  by (auto intro!: answers_intros expr appendSpread dest: weight_spread)

lemma spreadArgs: "sum_list (map exprWeight args) \<le> n \<Longrightarrow> answers (compileExplicitSpreadArgList R t i args line)"
  unfolding compileExplicitSpreadArgList_def by (auto intro!: answers_intros appendValue dest: weight_member)

lemma spreadCall:
  "exprWeight fn + sum_list (map exprWeight args) \<le> n \<Longrightarrow>
    answers (compileCallExprWithExplicitSpread R line fn args dest k)"
  unfolding compileCallExprWithExplicitSpread_def by (intro answers_intros expr spreadArgs) auto

lemma spreadMulti: "exprWeight e \<le> n \<Longrightarrow> answers (compileExplicitSpreadExprMulti R e dest k line)"
  unfolding compileExplicitSpreadExprMulti_def
  by (cases e) (auto simp: isAnyCall_def intro!: answers_intros call expr)

lemma plainCall:
  assumes "c = CallExpr p fn args" "exprWeight c \<le> Suc n"
  shows "answers (compileCallExprMulti R c line fn args dest k)"
proof -
  have w: "exprWeight fn + sum_list (map exprWeight args) \<le> n" using assms by simp
  show ?thesis unfolding compileCallExprMulti_def using w weight_globalSpread [of c] assms(2)
    by (auto intro!: answers_intros spreadMulti spreadCall coroutineCall expr callArgs split: option.splits)
qed

lemma methodCall:
  assumes "exprWeight ob + sum_list (map exprWeight args) \<le> n"
  shows "answers (compileMethodCallExprMulti R line ob m args dest k)"
  unfolding compileMethodCallExprMulti_def compileMethodCallExprWithExplicitSpread_def using assms
  by (intro answers_intros expr spreadArgs plainArgs) auto

lemma anyCall: "exprWeight e \<le> Suc n \<Longrightarrow> isAnyCall e \<Longrightarrow> answers (compileAnyCallMulti R e dest k)"
  unfolding compileAnyCallMulti_def isAnyCall_def by (cases e) (auto intro!: plainCall methodCall)

subsection \<open>Tables and functions\<close>

lemma twoFieldTable:
  assumes "list_all (fieldFits n) fs"
  shows "answers (compileTwoFieldTableLitExpr R fs dest line)"
  unfolding compileTwoFieldTableLitExpr_def
proof (rule answers_bind_result)
  fix result c c'
  assume "twoFields [] fs c = COk result c'"
  then have "exprWeight (sfValue x) \<le> n" if "result = Some vals" "x \<in> set vals" for x vals
    using twoFields_weight [of "[]" fs c vals c' n x] that assms by auto
  then show "answers (case result of Some [f1, f2] \<Rightarrow>
      if sfKey f1 = sfKey f2 then returnC False
      else bindC (addTableCtor2 (sfKeyConst f1) (sfKeyConst f2) (sfKey f1) (sfKey f2)) (\<lambda>ctor.
        if ctor < 0 \<or> 255 < ctor then returnC False
        else bindC (askF fNextReg) (\<lambda>valueBase. bindC allocReg (\<lambda>val1. bindC allocReg (\<lambda>val2.
          thenC (seqC [rExprTo R (sfValue f1) val1, rExprTo R (sfValue f2) val2,
            emitABC OP_NEWOBJECT2 dest ctor valueBase line, setNextReg valueBase]) (returnC True)))))
    | _ \<Rightarrow> returnC False)"
    by (auto intro!: answers_intros expr split: option.splits list.splits)
qed (rule answers_intros)

lemma smallFixedTable:
  assumes "list_all (fieldFits n) fs"
  shows "answers (compileSmallFixedTableLitExpr R fs dest line)"
  unfolding compileSmallFixedTableLitExpr_def
proof (rule answers_bind_result)
  fix result c c'
  assume "smallFixedFields [] fs c = COk result c'"
  then have "exprWeight (sfValue x) \<le> n" if "result = Some vals" "x \<in> set vals" for x vals
    using smallFixedFields_weight [of "[]" fs c vals c' n x] that assms by auto
  then show "answers (case result of None \<Rightarrow> returnC False
    | Some vals \<Rightarrow>
        if length vals \<le> 2 then returnC False
        else bindC (addTableCtorN vals) (\<lambda>ctor.
          if ctor < 0 \<or> 255 < ctor then returnC False
          else bindC (askF fNextReg) (\<lambda>valueBase.
            thenC (seqC [forEachC (\<lambda>_. bindC allocReg (\<lambda>_. returnC ())) vals,
              forEachC (\<lambda>(i, v). rExprTo R (sfValue v) (valueBase + i)) (zip [0..int (length vals) - 1] vals),
              emitABC OP_NEWOBJECTN dest ctor valueBase line, setNextReg valueBase]) (returnC True))))"
    by (auto intro!: answers_intros expr split: option.splits dest!: set_zip_rightD)
qed (rule answers_intros)

lemma arrayField: "exprWeight e \<le> n \<Longrightarrow> answers (compileArrayField R dest line lastField e b)"
  unfolding compileArrayField_def Let_def by (auto intro!: answers_intros expr dest: final split: option.splits)

lemma keyedField: "exprWeight k + exprWeight v \<le> n \<Longrightarrow> answers (compileKeyedField R dest line k v)"
  unfolding compileKeyedField_def compileStringField_def
  by (auto intro!: answers_intros expr split: option.splits)

lemma tableFields: "list_all (fieldFits n) fs \<Longrightarrow> answers (compileTableFields R dest line b fs)"
proof (induction fs arbitrary: b)
  case (Cons f fs)
  obtain k v where f: "f = TableField k v" by (cases f)
  with Cons show ?case
    by (cases k) (auto intro!: answers_intros arrayField keyedField)
qed (simp add: answers_return)

lemma spreadField:
  "fieldFits n f \<Longrightarrow> answers (case f of TableField key value \<Rightarrow> (case key of None \<Rightarrow> compileAppendValue R dest r value line
      | Some k \<Rightarrow> compileKeyedField R dest line k value))"
  by (auto intro!: appendValue keyedField split: TableField.splits option.splits)

lemma table: "list_all (fieldFits n) fs \<Longrightarrow> answers (compileTableLitExpr R fs dest line)"
  unfolding compileTableLitExpr_def compileTableLitExprWithExplicitSpread_def compileGeneralTableLit_def
  by (intro answers_intros twoFieldTable smallFixedTable tableFields) (auto simp: list_all_iff intro: spreadField)

lemma listLit: "sum_list (map exprWeight vals) \<le> n \<Longrightarrow> answers (compileListLitExpr R vals dest line)"
  unfolding compileListLitExpr_def by (intro table) (auto simp: list_all_iff dest: weight_member)

lemma dense: "sum_list (map exprWeight vals) \<le> n \<Longrightarrow> answers (compileDenseLitExpr R line dtype len vals dest)"
  unfolding compileDenseLitExpr_def
  by (auto intro!: answers_intros expr split: option.splits dest: weight_member)

lemma recv: "exprWeight ch \<le> n \<Longrightarrow> answers (compileRecvExpr R line ch dest)"
  unfolding compileRecvExpr_def by (intro answers_intros expr)

lemma recvOK: "exprWeight ch \<le> n \<Longrightarrow> answers (compileRecvOKExpr R line ch dest okDest)"
  unfolding compileRecvOKExpr_def by (intro answers_intros expr)

lemma makeChan: "optWeight id (map_option exprWeight sz) \<le> n \<Longrightarrow> answers (compileMakeChanExpr R line sz dest)"
  unfolding compileMakeChanExpr_def by (auto intro!: answers_intros expr simp: optWeight_def split: option.splits)

lemma stmts: "sum_list (map stmtWeight ss) \<le> n \<Longrightarrow> answers (forEachC (rStmt R) ss)"
  by (intro answers_intros stmt) (auto dest: weight_member)

lemma funcBody: "blockWeight body \<le> Suc n \<Longrightarrow> answers (compileFunction R name ps body line)"
  unfolding compileFunction_def using weight_block [of body]
  by (auto intro!: answers_intros stmts split: prod.splits)

lemma funcLit: "blockWeight body \<le> Suc n \<Longrightarrow> answers (compileFuncLitExpr R line ps body dest)"
  unfolding compileFuncLitExpr_def by (intro answers_intros funcBody)

lemma exprTo: "exprWeight e \<le> Suc n \<Longrightarrow> answers (compileExprTo R e dest)"
  unfolding compileExprTo_def
  by (cases e)
    (auto intro!: answers_intros expr binary unary plainCall methodCall index field table listLit dense funcLit
      recv makeChan fieldFits_sum)

subsection \<open>Statements\<close>

lemma scopedStep: "answers m \<Longrightarrow> answers (scoped m)"
  unfolding scoped_def by (intro answers_intros)

lemma body: "blockWeight b \<le> Suc n \<Longrightarrow> answers (compileBody R b)"
  unfolding compileBody_def using weight_block [of b] by (intro scopedStep stmts) simp

lemma truthJump: "exprWeight e \<le> Suc n \<Longrightarrow> answers (compileTruthJump R inverted e line)"
  unfolding compileTruthJump_def by (intro answers_intros exprTo)

lemma isNumberJump: "exprWeight a \<le> n \<Longrightarrow> answers (compileIsNumberCondJump R a negated jump line)"
  unfolding compileIsNumberCondJump_def by (intro answers_intros expr)

lemma condCmp: "exprWeight l + exprWeight r \<le> n \<Longrightarrow> answers (compileCondCmp R line l r op a swap)"
  unfolding compileCondCmp_def by (auto intro!: answers_intros operands)

lemma condJump: "exprWeight e \<le> Suc n \<Longrightarrow> answers (compileCondJump R inverted e line)"
  unfolding compileCondJump_def
  using weight_typeComparison
  by (cases e) (fastforce intro!: truthJump isNumberJump condCmp cond split: option.splits prod.splits if_splits)+

lemma adjusted: "sum_list (map exprWeight vals) \<le> n \<Longrightarrow> answers (adjustedExprs R line k vals)"
proof (induction k arbitrary: vals)
  case (Suc k)
  show ?case
  proof (cases vals)
    case Nil
    then show ?thesis using Suc.IH [of "[]"] by (auto intro!: answers_intros)
  next
    case (Cons v rest)
    then have v: "exprWeight v \<le> n" and rest: "sum_list (map exprWeight rest) \<le> n" using Suc.prems by auto
    have multi: "answers (rCallMulti R v reg k)" if "isAnyCall v" for reg k using call v that by blast
    have ch: "answers (compileRecvOKExpr R line ch r q)" if "v = RecvExpr p ch" for line p ch r q
      using recvOK v that by simp
    show ?thesis unfolding Cons using Suc.IH [OF rest] expr [OF v] multi ch
      by (cases v) (auto intro!: answers_intros simp: isAnyCall_def Let_def)
  qed
qed (simp add: answers_return)

lemma declareStmt:
  "sum_list (map exprWeight vals) \<le> n \<Longrightarrow> answers (compileDeclareStmt R line names vals ro)"
  unfolding compileDeclareStmt_def compileDeclareGlobals_def compileDeclareRecvOK_def compileDeclareMultiCall_def
    setGlobals_def declareLocals_def compileAdjustedExprList_def
  by (auto intro!: answers_intros adjusted recvOK call split: option.splits dest: weight_soleRecv weight_soleCall)

lemma assignTarget: "exprWeight t \<le> Suc n \<Longrightarrow> answers (compileAssignTarget R t valueReg line)"
  unfolding compileAssignTarget_def checkConst_def
  by (cases t) (auto intro!: answers_intros exprReg expr)

lemma assignTargetList: "sum_list (map exprWeight ts) \<le> Suc n \<Longrightarrow> answers (assignTargets R tempBase ts line)"
  unfolding assignTargets_def
  by (auto intro!: answers_intros assignTarget dest!: enumerate0_member dest: weight_member)

lemma assignStmt:
  "sum_list (map exprWeight ts) + sum_list (map exprWeight vals) \<le> n \<Longrightarrow> answers (compileAssignStmt R line ts vals)"
  unfolding compileAssignStmt_def compileAssignRecvOK_def compileAssignMultiCall_def compileAdjustedExprList_def
  by (auto intro!: answers_intros adjusted recvOK call assignTargetList split: option.splits
      dest: weight_soleRecv weight_soleCall)

lemma compoundOp: "exprWeight v \<le> n \<Longrightarrow> answers (emitCompoundOp R op t v line)"
  unfolding emitCompoundOp_def by (intro answers_intros expr)

lemma compound:
  "exprWeight t + exprWeight v \<le> n \<Longrightarrow> answers (compileCompoundAssignStmt R line t op v)"
  unfolding compileCompoundAssignStmt_def checkConst_def
  by (cases t) (auto intro!: answers_intros compoundOp exprReg expr split: option.splits)

lemma incDec: "exprWeight t \<le> n \<Longrightarrow> answers (compileIncDecStmt R line t op)"
  unfolding compileIncDecStmt_def checkConst_def Let_def
  by (cases t) (auto intro!: answers_intros expr)

lemma statementCall:
  "exprWeight fn + sum_list (map exprWeight args) \<le> n \<Longrightarrow> answers (compileStatementCall R op k single line fn args)"
  unfolding compileStatementCall_def by (intro answers_intros expr statementArgs) auto

lemma methodStatement:
  "exprWeight ob + sum_list (map exprWeight args) \<le> n \<Longrightarrow> answers (compileMethodStatement R op freeObject line ob m args)"
  unfolding compileMethodStatement_def by (auto intro!: answers_intros expr dest: weight_members)

lemma callStmt: "exprWeight e \<le> n \<Longrightarrow> answers (compileCallStmt R line e)"
  unfolding compileCallStmt_def compilePlainCallExprDiscard_def
  by (cases e) (auto intro!: answers_intros call coroutineCall statementCall simp: isAnyCall_def split: option.splits)

lemma goStmt: "exprWeight e \<le> n \<Longrightarrow> answers (compileGoStmt R line e)"
  unfolding compileGoStmt_def compileGoCallExpr_def compileGoMethodCallExpr_def
  by (cases e) (auto intro!: answers_intros statementCall methodStatement)

lemma deferStmt: "exprWeight e \<le> n \<Longrightarrow> answers (compileDeferStmt R line e)"
  unfolding compileDeferStmt_def compileDeferCallExpr_def compileDeferMethodCallExpr_def
  by (cases e) (auto intro!: answers_intros statementCall methodStatement)

lemma sendStmt: "exprWeight ch + optWeight id (map_option exprWeight v) \<le> n \<Longrightarrow> answers (compileSendStmt R line ch v)"
  unfolding compileSendStmt_def
  by (cases v; cases ch) (auto intro!: answers_intros expr simp: optWeight_def)

lemma caseBody:
  "blockWeight b \<le> Suc n \<Longrightarrow> answers (compileCaseBody R line x y isRecv r q b)"
  unfolding compileCaseBody_def using weight_block [of b] by (intro scopedStep answers_intros stmts) auto

lemma tryCase: "caseWeight cls \<le> Suc n \<Longrightarrow> answers (compileTryCase R cls r)"
  unfolding compileTryCase_def
  by (cases cls) (auto intro!: answers_intros expr simp: optWeight_def split: option.splits)

lemma tryCaseList: "sum_list (map caseWeight cs) \<le> n \<Longrightarrow> answers (tryCases R line base cs)"
proof (induction cs)
  case (Cons x xs)
  then show ?case by (cases x) (auto intro!: answers_intros tryCase caseBody)
qed (simp add: answers_return)

lemma loadCase: "caseWeight cls \<le> Suc n \<Longrightarrow> answers (loadSelectCase R cls)"
  unfolding loadSelectCase_def
  by (cases cls) (auto intro!: answers_intros expr simp: optWeight_def split: option.splits)

lemma selectedCaseList: "sum_list (map caseWeight cs) \<le> n \<Longrightarrow> answers (selectedCases R line s r q i cs)"
proof (induction cs arbitrary: i)
  case (Cons x xs)
  then show ?case by (cases x) (auto intro!: answers_intros caseBody)
qed (simp add: answers_return)

lemma selectStmt:
  "sum_list (map caseWeight cs) + optWeight id (map_option blockWeight d) \<le> n \<Longrightarrow> answers (compileSelectStmt R line cs d)"
  unfolding compileSelectStmt_def compileBlockingSelectStmt_def compileNonblockingSelectStmt_def
  by (cases d) (auto intro!: answers_intros tryCaseList selectedCaseList loadCase body simp: optWeight_def
      dest: weight_member)

lemma elseIfs: "sum_list (map elseIfWeight es) \<le> n \<Longrightarrow> answers (compileElseIfs R es)"
proof (induction es)
  case (Cons x xs)
  then show ?case by (cases x) (auto intro!: answers_intros cond body)
qed (simp add: answers_return)

lemma ifStmt: "stmtWeight (IfStmt p e b es el) \<le> Suc n \<Longrightarrow> answers (compileIfStmt R line e b es el)"
  unfolding compileIfStmt_def
  by (cases el) (auto intro!: answers_intros cond body elseIfs simp: optWeight_def)

lemma simpleStep_weight: "simpleStep name q = Some (Some e) \<Longrightarrow> exprWeight e \<le> stmtWeight q"
  by (auto simp: simpleStep_def split: Stmt.splits Expr.splits list.splits if_splits)

lemma detect_shape:
  assumes "detectSimpleNumericFor i c q = Some (name, start, op, limit, step)"
  shows "\<exists>p r s n ro. i = DeclareStmt p [name] [start] ro \<and> c = BinaryExpr r (IdentExpr s n) op limit \<and> simpleStep name q = Some step"
proof -
  obtain p ns vs ro where i: "i = DeclareStmt p ns vs ro"
    using assms by (cases i) (simp_all add: detectSimpleNumericFor_def)
  obtain x e where l: "ns = [x]" "vs = [e]"
    using assms by (auto simp: detectSimpleNumericFor_def i split: list.splits)
  obtain k b o' lim where c: "c = BinaryExpr k b o' lim"
    using assms by (cases c) (simp_all add: detectSimpleNumericFor_def i l)
  show ?thesis
    using assms by (cases b) (auto simp: detectSimpleNumericFor_def i l c split: if_splits)
qed

lemma detect_weight:
  "detectSimpleNumericFor init e post = Some (v, start, op, limit, step) \<Longrightarrow>
    exprWeight start \<le> stmtWeight init \<and> exprWeight limit \<le> exprWeight e \<and>
    (\<forall>x. step = Some x \<longrightarrow> exprWeight x \<le> stmtWeight post)"
  by (drule detect_shape) (auto dest: simpleStep_weight)

lemma forNumStmt:
  assumes "stmtWeight (ForNumStmt p i e q b) \<le> Suc n"
  shows "answers (compileForNumStmt R line i e q b)"
  unfolding compileForNumStmt_def compileGeneralForNum_def compileOptimizedForNum_def loopCond_def
  using assms
  by (auto intro!: answers_intros cond body stmt expr split: option.splits dest!: detect_weight)

lemma forStmt:
  "optWeight id (map_option exprWeight e) + blockWeight b \<le> n \<Longrightarrow> answers (compileForStmt R line e b)"
  unfolding compileForStmt_def loopCond_def
  by (cases e) (auto intro!: answers_intros cond body simp: optWeight_def)

lemma forRangeStmt: "exprWeight it + blockWeight b \<le> n \<Longrightarrow> answers (compileForRangeStmt R line k v it b)"
  unfolding compileForRangeStmt_def pushLocal_def Let_def using weight_block [of b]
  by (auto intro!: answers_intros scopedStep call expr stmts)

lemma finalLast:
  "finalArg R line jit (last vals) reg = Some m \<Longrightarrow> vals \<noteq> [] \<Longrightarrow> sum_list (map exprWeight vals) \<le> n \<Longrightarrow> answers m"
  using final [of True line jit "last vals" reg m] weight_last [of vals] by simp

lemma returnStmt: "sum_list (map exprWeight vals) \<le> n \<Longrightarrow> answers (compileReturnStmt R line vals)"
  unfolding compileReturnStmt_def Let_def
  by (auto intro!: answers_intros expr dest!: enumerate0_member dest: weight_member finalLast
      split: option.splits if_splits)

lemma jumps:
  "answers (compileBreakStmt line)" "answers (compileContinueStmt line)" "answers (compileLabelStmt line name)"
  "answers (compileGotoStmt line name)"
  unfolding compileBreakStmt_def compileContinueStmt_def compileLabelStmt_def compileGotoStmt_def
  by (auto intro!: answers_intros)

lemma funcDecl: "blockWeight b \<le> Suc n \<Longrightarrow> answers (compileFuncDeclStmt R line name ps b)"
  unfolding compileFuncDeclStmt_def by (intro answers_intros funcBody) auto

lemma blockStmt: "blockWeight b \<le> Suc n \<Longrightarrow> answers (compileBlockStmt R b)"
  unfolding compileBlockStmt_def using weight_block [of b] by (intro scopedStep answers_intros stmts) auto

lemma stmtStep: "stmtWeight s \<le> Suc n \<Longrightarrow> answers (compileStmt R s)"
  unfolding compileStmt_def
  by (cases s)
    (auto intro!: answers_intros declareStmt assignStmt compound incDec callStmt goStmt deferStmt sendStmt selectStmt
      ifStmt forNumStmt forStmt forRangeStmt returnStmt jumps funcDecl blockStmt)

end

lemma exprWeight_nonzero: "\<not> exprWeight e \<le> 0" "\<not> stmtWeight s \<le> 0"
  using exprWeight_pos [of e] stmtWeight_pos [of s] by auto

lemma compileAt_enough: "enough_depth (compileAt n) n"
proof (induction n)
  case 0
  show ?case by unfold_locales (simp_all add: exprWeight_nonzero)
next
  case (Suc n)
  show ?case
    by unfold_locales (simp_all add: enough_depth.exprTo [OF Suc] enough_depth.anyCall [OF Suc]
        enough_depth.condJump [OF Suc] enough_depth.stmtStep [OF Suc])
qed

interpretation depth: enough_depth "compileAt n" n for n
  by (rule compileAt_enough)

lemma compileMain_answers:
  "sum_list (map stmtWeight stmts) \<le> n \<Longrightarrow> answers (compileMain (compileAt n) globals stmts)"
  unfolding compileMain_def declareGlobals_def
  by (intro answers_intros depth.stmts) auto

lemma CompileWithGlobals_answers: "CompileWithGlobals prog globals \<noteq> Inl EFuel"
  using compileMain_answers [of "prStmts (DesugarSyntax prog)" _ globals, OF order_refl]
  by (auto simp: CompileWithGlobals_def Let_def mainProto_def answers_def split: option.splits cres.splits)

end
