(* ===== verification/Compiler_Samples.thy ===== *)
theory Compiler_Samples
  imports Compiler_Total Pipeline
begin

section \<open>Small programs and their code\<close>

text \<open>Each program is given as source text and as its tree; the code lemmas run the compiler on the
tree inside the logic.\<close>

definition codeOf :: "Program \<Rightarrow> 32 word list" where
  "codeOf prog = (case Compile prog of Inr p \<Rightarrow> poCode p | Inl e \<Rightarrow> [])"

text \<open>The code of the first function of a program.\<close>

definition firstCode :: "Program \<Rightarrow> 32 word list" where
  "firstCode prog = (case Compile prog of Inr p \<Rightarrow> (case poProtos p of q # qs \<Rightarrow> poCode q | [] \<Rightarrow> []) | Inl e \<Rightarrow> [])"

definition errorOf :: "Program \<Rightarrow> cerror option" where
  "errorOf prog = (case Compile prog of Inr p \<Rightarrow> None | Inl e \<Rightarrow> Some e)"

definition mixedLiteral :: Program where
  "mixedLiteral = \<lparr>prStmts =
     [DeclareStmt (mkPos 1 1) [''t'']
        [TableLitExpr (mkPos 1 6)
           [TableField None (NumberLit (mkPos 1 7) ''10''),
            TableField (Some (StringLit (mkPos 1 11) ''x'')) (NumberLit (mkPos 1 14) ''1''),
            TableField None (NumberLit (mkPos 1 17) ''20'')]] False],
     prFileDirectives = []\<rparr>"

lemma mixedLiteral_parse: "parseSource ''t := {10, x: 1, 20}'' = Inr mixedLiteral"
  by code_simp

lemma mixedLiteral_code:
  "codeOf mixedLiteral =
     [EncodeABC OP_NEWTABLE 0 2 1, EncodeAsBx OP_LOADINT 1 10, EncodeABC OP_SETLIST 0 1 1,
      EncodeAsBx OP_LOADINT 2 1, EncodeABC OP_SETFIELD 0 0 2, EncodeAsBx OP_LOADINT 2 20,
      EncodeABC OP_MOVE 1 2 0, EncodeABC OP_SETLIST 0 1 1, EncodeABx OP_SETGLOBAL 0 1, EncodeABC OP_RETURN 0 1 0]"
  by code_simp

definition assignFields :: Program where
  "assignFields = \<lparr>prStmts =
     [DeclareStmt (mkPos 1 1) [''o''] [TableLitExpr (mkPos 1 6) []] False,
      AssignStmt (mkPos 1 10)
        [FieldExpr (mkPos 1 10) (IdentExpr (mkPos 1 10) ''o'') ''x'',
         FieldExpr (mkPos 1 15) (IdentExpr (mkPos 1 15) ''o'') ''y'']
        [CallExpr (mkPos 1 21) (IdentExpr (mkPos 1 21) ''g'') []]],
     prFileDirectives = []\<rparr>"

lemma assignFields_parse: "parseSource ''o := {}; o.x, o.y = g()'' = Inr assignFields"
  by code_simp

lemma assignFields_code:
  "codeOf assignFields =
     [EncodeABC OP_NEWTABLE 0 0 0, EncodeABx OP_SETGLOBAL 0 0, EncodeABx OP_GETGLOBAL 0 1, EncodeABC OP_CALL 0 1 3,
      EncodeABx OP_GETGLOBAL 0 0, EncodeABC OP_SETFIELD 0 2 0, EncodeABx OP_GETGLOBAL 0 0, EncodeABC OP_SETFIELD 0 3 1,
      EncodeABC OP_RETURN 0 1 0]"
  by code_simp

definition spreadDeclare :: Program where
  "spreadDeclare = \<lparr>prStmts =
     [FuncDeclStmt (mkPos 1 1) ''f'' [\<lparr>fpName = ''p'', fpIsVarArg = False\<rparr>]
        (BlockStmt (mkPos 1 11)
           [DeclareStmt (mkPos 1 13) [''a'', ''b'', ''c'']
              [NumberLit (mkPos 1 24) ''1'',
               CallExpr (mkPos 1 27) (IdentExpr (mkPos 1 27) ''spread'') [IdentExpr (mkPos 1 34) ''p'']] False,
            ReturnStmt (mkPos 1 38) [IdentExpr (mkPos 1 45) ''p'']])],
     prFileDirectives = []\<rparr>"

lemma spreadDeclare_parse: "parseSource ''func f(p) { a, b, c := 1, spread(p); return p }'' = Inr spreadDeclare"
  by code_simp

lemma spreadDeclare_code:
  "firstCode spreadDeclare =
     [EncodeAsBx OP_LOADINT 1 1, EncodeABC OP_MOVE 2 0 0, EncodeABC OP_LOADNIL 3 0 0, EncodeABC OP_MOVE 0 1 0,
      EncodeABC OP_MOVE 1 2 0, EncodeABC OP_MOVE 2 3 0, EncodeABC OP_MOVE 3 0 0, EncodeABC OP_RETURN 3 2 0]"
  by code_simp

definition goMethod :: Program where
  "goMethod = \<lparr>prStmts =
     [GoStmt (mkPos 1 1) (MethodCallExpr (mkPos 1 4) (IdentExpr (mkPos 1 4) ''o'') ''m'' [NumberLit (mkPos 1 8) ''1''])],
     prFileDirectives = []\<rparr>"

lemma goMethod_parse: "parseSource ''go o:m(1)'' = Inr goMethod"
  by code_simp

lemma goMethod_code:
  "codeOf goMethod =
     [EncodeABx OP_GETGLOBAL 2 0, EncodeABC OP_MOVE 1 2 0, EncodeABC OP_GETFIELD 0 2 1, EncodeAsBx OP_LOADINT 3 1,
      EncodeABC OP_GO 0 3 0, EncodeABC OP_RETURN 0 1 0]"
  by code_simp

definition assignUndeclared :: Program where
  "assignUndeclared = \<lparr>prStmts = [AssignStmt (mkPos 1 1) [IdentExpr (mkPos 1 1) ''n''] [NumberLit (mkPos 1 5) ''1'']],
     prFileDirectives = []\<rparr>"

definition compoundUndeclared :: Program where
  "compoundUndeclared = \<lparr>prStmts =
     [CompoundAssignStmt (mkPos 1 1) (IdentExpr (mkPos 1 1) ''n'') ''+='' (NumberLit (mkPos 1 6) ''1'')],
     prFileDirectives = []\<rparr>"

lemma undeclared_parse:
  "parseSource ''n = 1'' = Inr assignUndeclared" "parseSource ''n += 1'' = Inr compoundUndeclared"
  by code_simp+

lemma undeclared_compile:
  "errorOf assignUndeclared = Some (EUndefinedVariable 1 ''n'')"
  "errorOf compoundUndeclared = None"
  "codeOf compoundUndeclared =
     [EncodeABx OP_GETGLOBAL 0 0, EncodeAsBx OP_LOADINT 1 1, EncodeABC OP_ADD 0 0 1, EncodeABx OP_SETGLOBAL 0 0,
      EncodeABC OP_RETURN 0 1 0]"
  by code_simp+

definition fillTable :: Program where
  "fillTable = \<lparr>prStmts =
     [FuncDeclStmt (mkPos 1 1) ''f'' [\<lparr>fpName = ''n'', fpIsVarArg = False\<rparr>]
        (BlockStmt (mkPos 1 11)
           [DeclareStmt (mkPos 1 13) [''t'']
              [TableLitExpr (mkPos 1 18)
                 [TableField None (NumberLit (mkPos 1 19) ''1''),
                  TableField (Some (StringLit (mkPos 1 22) ''x'')) (IdentExpr (mkPos 1 25) ''n'')]] False,
            ForNumStmt (mkPos 1 29)
              (DeclareStmt (mkPos 1 33) [''i''] [NumberLit (mkPos 1 38) ''0''] False)
              (BinaryExpr (mkPos 1 43) (IdentExpr (mkPos 1 41) ''i'') ''<'' (IdentExpr (mkPos 1 45) ''n''))
              (IncDecStmt (mkPos 1 48) (IdentExpr (mkPos 1 48) ''i'') ''++'')
              (BlockStmt (mkPos 1 52)
                 [AssignStmt (mkPos 1 54)
                    [IndexExpr (mkPos 1 54) (IdentExpr (mkPos 1 54) ''t'') (IdentExpr (mkPos 1 56) ''i'')]
                    [IdentExpr (mkPos 1 61) ''n'']]),
            ReturnStmt (mkPos 1 66) [IdentExpr (mkPos 1 73) ''t'']])],
     prFileDirectives = []\<rparr>"

lemma fillTable_parse:
  "parseSource ''func f(n) { t := {1, x: n}; for i := 0; i < n; i++ { t[i] = n }; return t }'' = Inr fillTable"
  by code_simp

lemma fillTable_compiles: "errorOf fillTable = None" "length (firstCode fillTable) = 17"
  by code_simp+

end
