(* ===== verification/Compiler_Safety.thy ===== *)
theory Compiler_Safety
  imports Compiler_Valid_Loop Compiler_Samples
begin

section \<open>Compiled programs are valid prototypes\<close>

text \<open>
  The main function, the entry point of the compiler and the discipline of registers, over the
  recursion closed in \<open>Compiler_Valid_Loop\<close>.
\<close>

definition fitsProgram :: "Program \<Rightarrow> bool" where
  "fitsProgram prog \<longleftrightarrow> list_all fitsStmt (prStmts (DesugarSyntax prog))"

lemma compileMain_triple:
  assumes "list_all fitsStmt stmts"
  shows "triple freshGhost freshView (compileMain (compileAt n) globals stmts) (\<lambda>_ _. True)"
proof -
  have G: "floorFree freshGhost" by (simp add: floorFree_def freshGhost_def)
  have globals: "triple freshGhost v (declareGlobals globals) Q" if "Q () v" for v Q
    unfolding declareGlobals_def by (rule triple_forEach [where I = "\<lambda>w. w = v"]) (use that in \<open>auto intro!: vc\<close>)
  have stmts: "triple freshGhost v (forEachC (rStmt (compileAt n)) stmts) (\<lambda>_ _. True)" for v
    by (rule level.stmts) (use assms G in \<open>simp_all add: list.pred_map comp_def\<close>)
  show ?thesis unfolding compileMain_def
    by (intro globals triple_collect triple_seq_Cons triple_seq_Nil triple_weaken [OF stmts] triple_patchGotos triple_start [OF step_emit(5)])
      (auto simp: vLimit_def)
qed

lemma return_ends: "emitReturn a b c = COk u c' \<Longrightarrow> endsWithReturn (fCode (cFn c'))"
  by (auto simp: returnC_def emitReturn_def emitABC_def emit_def thenC_def bindC_def updF_def updC_def askF_def askC_def
      endsWithReturn_def)

lemma newCompiler_ok: "okC freshGhost (newCompiler name line va)" "viewOf (cFn (newCompiler name line va)) = freshView"
  using newFunction_ok by (auto simp: okC_def newCompiler_def) (simp add: newFunction_def)

lemma compiled_proto:
  assumes "fitsProgram prog" "CompileWithGlobals prog globals = Inr p"
  shows "validProto p"
proof -
  let ?main = "compileMain (compileAt (sum_list (map stmtWeight (prStmts (DesugarSyntax prog))))) globals (prStmts (DesugarSyntax prog))"
  obtain u c where run: "?main (newCompiler ''<main>'' 0 False) = COk u c" and p: "p = finish (fName (cFn c)) 0 (cFn c)"
    using assms(2) by (auto simp: CompileWithGlobals_def mainProto_def Let_def split: option.splits cres.splits)
  have "okC freshGhost c"
    using tripleD [OF compileMain_triple run newCompiler_ok] assms(1) by (simp add: fitsProgram_def)
  moreover have "endsWithReturn (fCode (cFn c))"
    using run unfolding compileMain_def by (auto dest!: seqC_last intro: return_ends)
  ultimately show ?thesis unfolding p by (intro finish_valid) (simp_all add: okC_def)
qed

subsection \<open>Well-formed compilers\<close>

definition wellFormed :: "compiler \<Rightarrow> bool" where
  "wellFormed c \<longleftrightarrow> okC freshGhost c"

lemma keepsBelow_nonneg: "d \<le> 0 \<Longrightarrow> keepsBelow d inst"
  using decode_bounds [of inst]
  by (auto simp: keepsBelow_def writtenFrom_def lowestWritten_def Let_def split: option.split)

text \<open>Between well-formedness and the ghost that watches the code emitted from here on.\<close>

definition watch :: "compiler \<Rightarrow> int \<Rightarrow> ghost" where
  "watch c d = \<lparr>gX = 0, gS = length (fCode (cFn c)), gD = d\<rparr>"

lemma watch_sel [simp]: "gX (watch c d) = 0" "gS (watch c d) = length (fCode (cFn c))" "gD (watch c d) = d"
  by (simp_all add: watch_def)

lemma ghost_limits: "gX G = gX H \<Longrightarrow> vLimit G v = vLimit H v \<and> dimsOf G v = dimsOf H v"
  by (simp add: vLimit_def dimsOf_def)

lemma okC_ghost:
  assumes "okC G c" "gX G = gX H"
    "\<And>i. gS H \<le> i \<Longrightarrow> i < length (fCode (cFn c)) \<Longrightarrow> vLimit H (viewOf (cFn c)) \<le> 256 \<Longrightarrow>
      okInst G (viewOf (cFn c)) i (fCode (cFn c) ! i) \<Longrightarrow> keepsBelow (gD H) (fCode (cFn c) ! i)"
  shows "okC H c"
proof -
  note same = ghost_limits [OF assms(2), of "viewOf (cFn c)"]
  have "okCode H (viewOf (cFn c)) (fCode (cFn c))"
    using assms(1,3) same by (auto simp: okC_def okF_def okCode_def okInst_def)
  with assms(1) show ?thesis by (simp add: okC_def okF_def)
qed

lemma wellFormed_watch: "wellFormed c \<Longrightarrow> okC (watch c d) c"
  unfolding wellFormed_def by (rule okC_ghost) (auto simp: freshGhost_def)

lemma watch_wellFormed: "okC (watch c d) c' \<Longrightarrow> wellFormed c'"
  unfolding wellFormed_def by (rule okC_ghost) (auto simp: freshGhost_def intro: keepsBelow_nonneg)

lemma expression_result:
  assumes "wellFormed c" "fitsExpr e" "vTop (viewOf (cFn c)) \<le> dest" "dest \<le> fNextReg (cFn c)" "rExprTo (compileAt n) e dest c = COk u c'"
  shows "wellFormed c' \<and> afterExpr (viewOf (cFn c)) dest (viewOf (cFn c')) \<and>
    (fMaxReg (cFn c') + 2 \<le> 256 \<longrightarrow>
      (\<forall>i. length (fCode (cFn c)) \<le> i \<longrightarrow> i < length (fCode (cFn c')) \<longrightarrow> keepsBelow dest (fCode (cFn c') ! i)))"
proof -
  have "triple (watch c dest) (viewOf (cFn c)) (rExprTo (compileAt n) e dest) (\<lambda>_. afterExpr (viewOf (cFn c)) dest)"
    by (rule level.expr [OF assms(2)]) (use assms(3,4) in \<open>simp_all add: exprPre_def\<close>)
  from tripleD [OF this assms(5) wellFormed_watch [OF assms(1)] refl]
  have ok: "okC (watch c dest) c'" and after: "afterExpr (viewOf (cFn c)) dest (viewOf (cFn c'))" by auto
  have "okView (viewOf (cFn c'))" using ok by (simp add: okC_def okF_def)
  then have "vLimit (watch c dest) (viewOf (cFn c')) = fMaxReg (cFn c') + 2" using okView_next by (fastforce simp: vLimit_def)
  then have "keepsBelow dest (fCode (cFn c') ! i)"
    if "fMaxReg (cFn c') + 2 \<le> 256" "length (fCode (cFn c)) \<le> i" "i < length (fCode (cFn c'))" for i
    using ok that by (auto simp: okC_def okF_def okCode_def okInst_def)
  with after watch_wellFormed [OF ok] show ?thesis by blast
qed

lemma statement_result:
  assumes "wellFormed c" "fitsStmt s" "rStmt (compileAt n) s c = COk u c'"
  shows "wellFormed c' \<and> afterStmt (viewOf (cFn c)) (viewOf (cFn c'))"
proof -
  have "triple freshGhost (viewOf (cFn c)) (rStmt (compileAt n) s) (\<lambda>_. afterStmt (viewOf (cFn c)))"
    by (rule level.stmt [OF assms(2)]) (simp_all add: floorFree_def freshGhost_def)
  from tripleD [OF this assms(3)] assms(1) show ?thesis by (simp add: wellFormed_def)
qed

subsection \<open>Samples\<close>

lemma fillTable_fits: "fitsProgram fillTable"
  by (code_simp, simp add: fillsNames_def)

text \<open>The main function with one register allocated, and with a scope entered.\<close>

definition oneRegister :: compiler where
  "oneRegister = (case allocReg (newCompiler ''<main>'' 0 False) of COk r c \<Rightarrow> c | CErr e \<Rightarrow> newCompiler ''<main>'' 0 False)"

definition inScopeOfMain :: compiler where
  "inScopeOfMain = (case enterScope (newCompiler ''<main>'' 0 False) of COk r c \<Rightarrow> c | CErr e \<Rightarrow> newCompiler ''<main>'' 0 False)"

lemma samples_wellFormed: "wellFormed oneRegister" "wellFormed inScopeOfMain"
proof -
  have alloc: "triple freshGhost freshView allocReg (\<lambda>_ _. True)" and enter: "triple freshGhost freshView enterScope (\<lambda>_ _. True)"
    by (intro vc; simp)+
  from tripleD [OF alloc _ newCompiler_ok] newCompiler_ok(1) show "wellFormed oneRegister"
    by (auto simp: oneRegister_def wellFormed_def split: cres.split)
  from tripleD [OF enter _ newCompiler_ok] newCompiler_ok(1) show "wellFormed inScopeOfMain"
    by (auto simp: inScopeOfMain_def wellFormed_def split: cres.split)
qed

lemma oneRegister_registers: "fLocals (cFn oneRegister) = []" "fNextReg (cFn oneRegister) = 1" "fCode (cFn oneRegister) = []"
  by (simp_all add: oneRegister_def newCompiler_def newFunction_def allocReg_def bindC_def thenC_def askF_def askC_def updF_def
      updC_def returnC_def growMax_def)

definition sampleSum :: Expr where
  "sampleSum = BinaryExpr (mkPos 1 1) (NumberLit (mkPos 1 1) ''1'') ''+'' (NumberLit (mkPos 1 5) ''2'')"

lemma sampleSum_run:
  "case rExprTo (compileAt 2) sampleSum 1 oneRegister of
     COk u c \<Rightarrow> fCode (cFn c) = [EncodeAsBx OP_LOADINT 1 1, EncodeAsBx OP_LOADINT 2 2, EncodeABC OP_ADD 1 1 2] \<and> fMaxReg (cFn c) = 3
   | CErr e \<Rightarrow> False"
  by code_simp

definition sampleDeclare :: Stmt where
  "sampleDeclare = DeclareStmt (mkPos 1 1) [''x''] [NumberLit (mkPos 1 6) ''1''] False"

lemma sampleDeclare_run:
  "case rStmt (compileAt 2) sampleDeclare inScopeOfMain of
     COk u c \<Rightarrow> fCode (cFn c) = [EncodeAsBx OP_LOADINT 0 1] \<and> map lvKey (fLocals (cFn c)) = [(0, 1)]
   | CErr e \<Rightarrow> False"
  by code_simp

end
