(* ===== verification/Spec2Isabelle.thy ===== *)
theory Spec2Isabelle
  imports Pipeline Compiler_Safety
begin

text \<open>
  A verification development for the Leia language (module \<open>gscript\<close>): its front end, from
  source bytes to the syntax tree, and its compiler, from the tree to register bytecode. The
  parts of the program and how they interact:

  \<^item> \<open>internal/lexer\<close> turns source text into tokens; comments before a token travel with it.
  \<^item> \<open>internal/parser\<close> turns tokens into the tree of \<open>internal/ast\<close>; an interpolated string
    makes it run the lexer and itself on the text inside \<open>${...}\<close>.
  \<^item> \<open>internal/ast\<close> also holds three passes over the tree: the lowering of syntax sugar, the
    check of labels and gotos, and the generic traversal that tools use.
  \<^item> The compiler of \<open>internal/vm\<close> lowers the tree, checks its labels and translates it to
    prototypes of 32-bit instructions, which the virtual machine of the same package runs over the
    boxed values of \<open>internal/runtime\<close>; \<open>internal/runtime\<close> can also interpret the tree.

  How the theories correspond to the code:

  \<^item> \<open>Prelude\<close>, \<open>GoStrings\<close>: byte strings, positions, the functions of package \<open>strings\<close>
    that the source calls, on their documented behaviour.
  \<^item> \<open>Token\<close>, \<open>Lexer\<close>: \<open>token.go\<close> and \<open>lexer.go\<close>. The struct \<open>Lexer\<close> is the record
    \<open>lexer\<close>; its methods are state-passing functions that return an error of \<open>lex_error\<close> or
    a value. \<open>Lexer_Correct\<close>: positions, coverage of the source, longest match, round trip of
    quoted strings.
  \<^item> \<open>Ast\<close>: \<open>ast.go\<close>, one constructor per node type.
  \<^item> \<open>Parser_State\<close>, \<open>Parser_Expr\<close>, \<open>Parser_Stmt\<close>, \<open>Parser\<close>: \<open>parser.go\<close>. The struct
    \<open>Parser\<close> is the record \<open>parser\<close>; a method returns \<open>POk\<close> with the new state, \<open>PErr\<close>
    with the error, or \<open>PFuel\<close>, which no method of the code does.
  \<^item> \<open>Grammar\<close>: the language as an inductive relation between a tree, a token list and what is
    left of it, independent of the parser. \<open>Parser_Expr_Correct\<close>, \<open>Parser_Correct\<close>: the
    parser against the grammar; \<open>Well_Formed\<close>: what the grammar says of a tree.
  \<^item> \<open>Desugar\<close>: \<open>syntax_desugar.go\<close>; \<open>Desugar_Correct\<close>, \<open>Desugar_Meaning\<close>: the result is
    free of sugar, independent of the bound on calls, and keeps the parts of strings in order.
  \<^item> \<open>Label_Control\<close>: \<open>label_control.go\<close>; \<open>Label_Correct\<close>: the check against a declarative
    statement of what it accepts.
  \<^item> \<open>Inspect\<close>: \<open>inspect.go\<close> and the reachability of what it visits.
  \<^item> \<open>Samples\<close>: small programs for the witnesses. \<open>Pipeline\<close>: facts across the passes.

  \<^item> \<open>Float64\<close>, \<open>Value\<close>, \<open>GoNumbers\<close>: IEEE doubles as words with their mathematical value, the
    boxed values of \<open>value.go\<close> and package \<open>nanbox\<close>, and the parsing of number literals.
  \<^item> \<open>Opcode\<close>: \<open>opcode.go\<close>, the encoding of instructions. \<open>Compiler_State\<close>: the struct
    \<open>Compiler\<close> as two records, \<open>fstate\<close> for the fields of one function and \<open>compiler\<close> for the
    stack of enclosing functions; a method is a state transformer \<open>cm\<close> that ends in \<open>COk\<close> or
    \<open>CErr\<close>. \<open>Compiler_Analysis\<close>: the tree analyses the compiler asks (spreads, captures, known
    results, free variables). \<open>Compiler_Expr\<close>, \<open>Compiler_Table\<close>, \<open>Compiler_Stmt\<close>: one
    definition per method of \<open>compiler_expr.go\<close>, \<open>compiler_call.go\<close>, \<open>compiler_table.go\<close>,
    \<open>compiler_stmt.go\<close> and \<open>compiler_control.go\<close>; \<open>Compiler\<close>: the entry points.
  \<^item> \<open>Compiler_Total\<close>: the compiler answers on every program. \<open>Bytecode_Valid\<close>: what the comments
    of \<open>opcode.go\<close> say each instruction reads and writes, and when a prototype is well-formed.
    \<open>Compiler_Hoare\<close>: triples over the sizes the compiler computes with (\<open>view\<close>), one rule per
    primitive. \<open>Compiler_Valid\<close>, \<open>Compiler_Valid_Table\<close>, \<open>Compiler_Valid_Stmt\<close>,
    \<open>Compiler_Valid_Control\<close>, \<open>Compiler_Valid_Loop\<close>: every method keeps the bytecode
    well-formed; \<open>Compiler_Safety\<close>: whole programs. \<open>Compiler_Samples\<close>: programs and their code.

  Recursion. The methods of the parser call each other through four of them (\<open>parseExpr\<close>,
  \<open>parseConcat\<close>, \<open>parseUnary\<close>, \<open>parseStmt\<close>), so the other methods take a record of these four
  and \<open>tie n\<close> closes the recursion with \<open>n\<close> nested calls. The lowering is closed the same way
  over \<open>desugarAt n\<close>, and the compiler over \<open>compileAt n\<close> with the weight of the program, which
  suffices (C28). The bounds are computed from the input: \<open>parseFuel\<close> is four times the
  number of unread tokens, a string counting with its length, plus four, and a lowering gets as
  many calls as the tree has nodes. Both are proved to be enough: the parser never runs out
  (C1), and the lowering satisfies the equations of the code without a bound (C10). The loops
  of the lexer are functions with termination proofs.

  Interfaces. \<open>sub_parsers P B\<close> is what a parser method relies on when it calls the four
  methods of \<open>P\<close>; every method is proved inside it once, and it is interpreted on \<open>tie n\<close>.
  \<open>idle_desugarers\<close>, \<open>lowering_desugarers\<close> and \<open>agreeing_desugarers\<close> are the contracts of the
  two recursive entry points of the lowering, interpreted on \<open>desugarAt n\<close> and \<open>lowering\<close>.
  \<open>enough_depth\<close> and \<open>valid_entries\<close> are the contracts of the four entry points of the compiler,
  interpreted on \<open>compileAt n\<close>.

  Numbers. Lines and columns are natural numbers; they count bytes of a source and do not reach
  the bounds of Go's \<open>int\<close>. Bytes are eight-bit characters.

  Registers. An operand is cut to its field by the encoder, so a function with more than 256
  registers names other ones than the compiler chose; well-formedness does not exclude this, and the
  register discipline (C34) is stated for frames of at most 256. Constants of a table instruction
  beyond 255 go through a register.

  Not modelled: the completeness of the parser with respect to the grammar; the tree-walking
  interpreter and the native compilers; tables, strings, channels and coroutines at run time; the
  libraries of \<open>internal/stdlib\<close>; modules and package management; the command line. They are
  listed in the manifest.
\<close>

section \<open>The parser\<close>

text \<open>C1. The parser returns on every token list and the front end on every source text: a
number of nested calls computed from the tokens is enough, so the result is a tree or an error
and never the model's out-of-fuel value.\<close>

theorem front_end_returns: "Parse toks \<noteq> PFuel \<and> parseSource src \<noteq> Inl OutOfFuel"
  using Parse_total by (auto simp: parseSource_def split: sum.splits pres.splits)

text \<open>C2. Whatever the parser accepts is derivable in the grammar: the statements of the tree
derive the whole token list up to its end, and the file directives are those of the comments
before the first token.\<close>

theorem Parse_sound: "Parse toks = POk prog s \<Longrightarrow> gProgram prog toks"
  by (rule Parse_derives)

theorem Parse_sound_witness: "gProgram sampleCallTree [mkToken TOKEN_GO ''go'' 1 1, mkToken TOKEN_IDENT ''f'' 1 4,
     mkToken TOKEN_LPAREN ''('' 1 5, mkToken TOKEN_MINUS ''-'' 1 6, mkToken TOKEN_IDENT ''b'' 1 7,
     mkToken TOKEN_POW ''**'' 1 9, mkToken TOKEN_NUMBER ''2'' 1 12, mkToken TOKEN_RPAREN '')'' 1 13,
     mkToken TOKEN_EOF [] 1 14]"
  using parseSource_cases [OF sampleCall_parse] sampleCall_tokens by (auto dest: Parse_sound)

text \<open>C3. The tree of an accepted source text is well-formed: operators are operators of their
node and their operands sit at the precedence they ask for, only the last parameter of a
function is variadic, \<open>go\<close> and \<open>defer\<close> hold calls, the clauses of a counting loop are
simple statements, the texts of an interpolated string are not empty and never adjacent, and a
tagged block has exactly one of its three kinds of body.\<close>

theorem parseSource_well_formed: "parseSource src = Inr prog \<Longrightarrow> okProgram prog"
  by (rule parseSource_ok)

theorem parseSource_well_formed_witness: "okProgram sampleCallTree"
  by (rule parseSource_well_formed [OF sampleCall_parse])

text \<open>C4. Lexer and parser together: the tree of an accepted source text derives a token list
that covers the source, in which every operator is spelled as that operator, and whose depth
of nested calls is linear in the length of the source.\<close>

theorem parseSource_end_to_end:
  "parseSource src = Inr prog \<Longrightarrow>
   \<exists>toks. covers src 0 toks \<and> list_all spelled toks \<and> gProgram prog toks \<and>
     parseFuel (newParser toks) \<le> 4 * length src + 8"
proof -
  assume "parseSource src = Inr prog"
  then obtain toks s where t: "Tokenize src = Inr toks" and p: "Parse toks = POk prog s"
    by (auto dest: parseSource_cases)
  have "parseFuel (newParser toks) \<le> 4 * length src + 8"
    using covers_weight [OF Tokenize_covers [OF t]] by (simp add: parseFuel_def mu_def newParser_def)
  with t p show ?thesis by (blast intro: Tokenize_covers Tokenize_spelled Parse_derives)
qed

theorem parseSource_end_to_end_witness:
  "\<exists>toks. covers sampleCall 0 toks \<and> list_all spelled toks \<and> gProgram sampleCallTree toks \<and>
     parseFuel (newParser toks) \<le> 4 * length sampleCall + 8"
  by (rule parseSource_end_to_end [OF sampleCall_parse])

text \<open>C5. \<open>parseExpr\<close> consumes at least one token, derives exactly the tokens it consumes, and
does not stop early: the next token is none that would continue the expression (no binary
operator, no selector, index or call), whatever is left of the input.\<close>

theorem parseExpr_maximal:
  "parseFuel s \<le> n \<Longrightarrow> pExpr (tie n) s = POk e s' \<Longrightarrow>
   gExpr 0 e (pending s) (pending s') \<and> length (pending s') < length (pending s) \<and>
   tType (peek s') \<notin> stops 0"
  using parse_methods_total(1) [of s n] by (simp add: exprDone_def moved_def wp_def)

theorem parseExpr_maximal_witness:
  "gExpr 0 (UnaryExpr (mkPos 1 1) ''-'' (IdentExpr (mkPos 1 2) ''a'')) (pending sampleExpr)
     (pending (advance (advance sampleExpr))) \<and>
   length (pending (advance (advance sampleExpr))) < length (pending sampleExpr) \<and>
   tType (peek (advance (advance sampleExpr))) \<notin> stops 0"
  by (rule parseExpr_maximal [OF order_refl sampleExpr_parse(1)])

section \<open>The lexer\<close>

text \<open>C6. A successful run of the lexer accounts for every byte of the source: it is trivia
(spaces and comments), a lexeme, trivia, and so on to the end; each token is faithful to its
lexeme and carries the line and column where the lexeme starts; the list ends with the
end-of-file token and has no other.\<close>

theorem Tokenize_covers_source: "Tokenize src = Inr toks \<Longrightarrow> covers src 0 toks"
  by (rule Tokenize_covers)

theorem Tokenize_covers_source_witness:
  "covers sampleCall 0 [mkToken TOKEN_GO ''go'' 1 1, mkToken TOKEN_IDENT ''f'' 1 4, mkToken TOKEN_LPAREN ''('' 1 5,
     mkToken TOKEN_MINUS ''-'' 1 6, mkToken TOKEN_IDENT ''b'' 1 7, mkToken TOKEN_POW ''**'' 1 9,
     mkToken TOKEN_NUMBER ''2'' 1 12, mkToken TOKEN_RPAREN '')'' 1 13, mkToken TOKEN_EOF [] 1 14]"
  by (rule Tokenize_covers_source [OF sampleCall_tokens])

text \<open>C7. The nested switch of \<open>readOperator\<close> reads the longest operator of the table that the
text starts with, and reports the byte it stands at when there is none.\<close>

theorem readOperator_longest:
  "readOperator sl sc l =
     (case longestOperator (rest l) of
        Some (s, ty) \<Rightarrow> lok (mkToken ty s sl sc) (advanceN (length s) l)
      | None \<Rightarrow> lerr (UnexpectedCharacter (lexPeek l) sl sc) (lexAdvance l))"
  by (rule readOperator_longest_match)

text \<open>C8. Quoted strings round-trip: any sequence of bytes, written between quotes with the
quotes, the backslash and newlines as hexadecimal escapes, is read back as one string token
with that value.\<close>

theorem Tokenize_quoted_string:
  "q = CHR 0x22 \<or> q = CHR 0x27 \<Longrightarrow>
   Tokenize (quoteLit q s) = Inr [stringToken s False (q = CHR 0x27) 1 1,
     mkToken TOKEN_EOF [] 1 (length (quoteLit q s) + 1)]"
  by (rule Tokenize_quoteLit)

theorem Tokenize_quoted_string_witness:
  "Tokenize (quoteLit (CHR 0x27) ''a'') = Inr [stringToken ''a'' False True 1 1, mkToken TOKEN_EOF [] 1 4]"
proof -
  have "length (quoteLit (CHR 0x27) ''a'') = 3" by (simp add: quoteLit_def quoteByte_def newline_def)
  then show ?thesis using Tokenize_quoted_string [of "CHR 0x27" "''a''"] by simp
qed

text \<open>C9. Token lines never decrease; the last token is the end-of-file token; no other token is
of that kind, and none is of the kinds the lexer reserves for illegal and raw-block input.\<close>

theorem Tokenize_order:
  "Tokenize src = Inr toks \<Longrightarrow>
   sorted (map tLine toks) \<and> toks \<noteq> [] \<and> tType (last toks) = TOKEN_EOF \<and>
   {TOKEN_EOF, TOKEN_ILLEGAL, TOKEN_RAW_BLOCK} \<inter> tType ` set (butlast toks) = {}"
  using covers_shape [OF Tokenize_covers, of src toks] covers_lines [OF Tokenize_covers, of src toks]
  by (auto simp: disjoint_iff)

theorem Tokenize_order_witness:
  "\<exists>toks. Tokenize sampleCall = Inr toks \<and> sorted (map tLine toks) \<and> toks \<noteq> [] \<and>
     tType (last toks) = TOKEN_EOF \<and> {TOKEN_EOF, TOKEN_ILLEGAL, TOKEN_RAW_BLOCK} \<inter> tType ` set (butlast toks) = {}"
  by (rule exI, rule conjI, rule sampleCall_tokens, rule Tokenize_order [OF sampleCall_tokens])

section \<open>Lowering of syntax sugar\<close>


text \<open>C11. A lowered program has no interpolated string, tagged form or list literal left
outside of \<open>evaluate\<close> blocks.\<close>

theorem DesugarSyntax_sugar_free: "sugarFree (DesugarSyntax prog)"
  by (rule sugarFree_DesugarSyntax)

text \<open>C12. Lowering twice is lowering once.\<close>

theorem DesugarSyntax_idempotent: "DesugarSyntax (DesugarSyntax prog) = DesugarSyntax prog"
  using sugarFree_DesugarSyntax [of prog]
  by (auto simp: DesugarSyntax_lowering sugarFree_def list_all_iff lowering_idle)

text \<open>C13. An interpolated string means the concatenation of its parts in order: for every
reading of expressions as texts that takes \<open>..\<close> for concatenation and a string literal for
its text, the lowered expression reads as the texts of the parts, a value standing for what
\<open>tostring\<close> gives for it.\<close>

theorem interpolation_concatenates:
  "(\<And>p l r. ev (BinaryExpr p l ''..'' r) = ev l @ ev r) \<Longrightarrow> (\<And>p t. ev (StringLit p t) = t) \<Longrightarrow>
   ev (dsExpr lowering (InterpolatedStringExpr pos ps)) = concat (map (partText ev lowering) ps)"
  using interpolatedStringConcat_text [of ev] lowering_expr [of "InterpolatedStringExpr pos ps"] by simp

theorem interpolation_concatenates_witness:
  "sampleText (dsExpr lowering (InterpolatedStringExpr (mkPos 1 1)
     [InterpolatedStringPart ''a'' None, InterpolatedStringPart [] (Some (IdentExpr (mkPos 1 4) ''x''))])) = ''ax''"
proof -
  have "dsExpr lowering (IdentExpr (mkPos 1 4) ''x'') = IdentExpr (mkPos 1 4) ''x''" by (simp add: lowering_idle)
  then show ?thesis
    using interpolation_concatenates [of sampleText "mkPos 1 1" "[InterpolatedStringPart ''a'' None,
      InterpolatedStringPart [] (Some (IdentExpr (mkPos 1 4) ''x''))]"] by (simp add: partText_def)
qed

text \<open>C14. Under a tag the same string becomes a call of \<open>dialect.interpolate\<close> with the array
of texts and the array of lowered values; there is one text more than values, and read
alternately they are the parts of the string in order. A well-formed string is what the parser
gives.\<close>

theorem tagged_interpolation_arrays:
  "okExpr (InterpolatedStringExpr ipos ps) \<Longrightarrow>
   \<exists>raw vals. taggedStringBody lowering pos tag (InterpolatedStringExpr ipos ps) =
       runtimeTableCall pos ''dialect'' ''interpolate''
         [StringLit pos tag, TableLitExpr pos (map (TableField None) raw), TableLitExpr pos (map (TableField None) vals)] \<and>
     length raw = Suc (length vals) \<and> weave raw vals = map (partPiece lowering) ps"
  using interpolationParts_weave [of ps lowering pos ipos]
  by (cases "interpolationParts lowering pos ipos ps")
    (auto simp: dialectInterpolationArray_def)

theorem tagged_interpolation_arrays_witness:
  "\<exists>raw vals. taggedStringBody lowering (mkPos 1 1) ''sh'' (InterpolatedStringExpr (mkPos 1 3)
       [InterpolatedStringPart ''a'' None, InterpolatedStringPart [] (Some (IdentExpr (mkPos 1 6) ''x''))]) =
       runtimeTableCall (mkPos 1 1) ''dialect'' ''interpolate''
         [StringLit (mkPos 1 1) ''sh'', TableLitExpr (mkPos 1 1) (map (TableField None) raw),
          TableLitExpr (mkPos 1 1) (map (TableField None) vals)] \<and>
     length raw = Suc (length vals) \<and> weave raw vals = map (partPiece lowering)
       [InterpolatedStringPart ''a'' None, InterpolatedStringPart [] (Some (IdentExpr (mkPos 1 6) ''x''))]"
  by (rule tagged_interpolation_arrays) simp

text \<open>C15. A tagged string that is a statement of its own does not get these arrays: the parser
replaces it by a plain call whose body is the interpolated string, so the lowering concatenates
the values into the text that \<open>dialect.eval\<close> receives, while the same string in an expression
goes through \<open>dialect.interpolate\<close>.\<close>

theorem tagged_statement_concatenates:
  "standaloneStmt sp (TaggedStringExpr p tag (InterpolatedStringExpr ip ps) ff) =
     Some (CallStmt sp (parserDialectCall p ''eval'' tag (InterpolatedStringExpr ip ps) ff)) \<and>
   dsStmt lowering (CallStmt sp (parserDialectCall p ''eval'' tag (InterpolatedStringExpr ip ps) ff)) =
     CallStmt sp (parserDialectCall p ''eval'' tag (interpolatedStringConcat lowering ip ps) ff) \<and>
   dsExpr lowering (TaggedStringExpr p tag (InterpolatedStringExpr ip ps) ff) =
     parserDialectCall p ''eval'' tag (taggedStringBody lowering p tag (InterpolatedStringExpr ip ps)) ff"
proof -
  let ?body = "taggedStringBody lowering p tag (InterpolatedStringExpr ip ps)"
  have "freeExpr ?body"
    using lowering_lower.free_taggedStringBody [where b = "InterpolatedStringExpr ip ps", OF order_refl] by blast
  then have body: "dsExpr lowering ?body = ?body" by (rule lowering_idle)
  have eqs: "dsExpr lowering (InterpolatedStringExpr ip ps) = interpolatedStringConcat lowering ip ps"
    "dsExpr lowering (TaggedStringExpr p tag (InterpolatedStringExpr ip ps) ff) =
       dialectCall lowering p ''eval'' tag ?body None ff"
    "dsStmt lowering (CallStmt sp c) = CallStmt sp (desugarCallExpr lowering c)" for c
    using lowering_expr lowering_stmt by simp_all
  show ?thesis
    unfolding eqs parserDialectCall_def dialectCall_def body
    by (simp add: standaloneStmt_def parserDialectCall_def desugarPlainCallExpr_def desugarExprList_def
        eqs(1) lowering_idle runtimeTableCall_def)
qed

section \<open>Labels and gotos\<close>

text \<open>C16. The label check accepts a program exactly when every function body it looks into is in
order: no label twice, every goto has a label that is not deeper than the goto and, in the same
block, not behind a declaration; which error it reports otherwise depends on the order of the
walk, acceptance does not.\<close>

theorem ValidateLabelControl_accepts_iff: "ValidateLabelControl prog = None \<longleftrightarrow> labelsInOrder prog"
  by (rule ValidateLabelControl_accepts)






section \<open>Traversal\<close>

text \<open>C20. \<open>Inspect\<close> calls the visitor on the node and, when it answers true, inspects the
children in order with the state the visitor left; otherwise it skips them.\<close>

theorem Inspect_order:
  "\<not> isBlockStmt n \<Longrightarrow> Inspect n fn s =
     (case fn s n of (go, s') \<Rightarrow> if go then foldl (\<lambda>t c. Inspect c fn t) s' (children n) else s')"
  by (simp add: Inspect_unfold seqWalk_def foldl_map split: prod.split)

theorem Inspect_order_witness:
  "Inspect (ExprNode (UnaryExpr (mkPos 1 1) ''-'' (NilLit (mkPos 1 2)))) (noting (\<lambda>n. True)) [] =
     [ExprNode (UnaryExpr (mkPos 1 1) ''-'' (NilLit (mkPos 1 2))), ExprNode (NilLit (mkPos 1 2))]"
  using Inspect_order [of "ExprNode (UnaryExpr (mkPos 1 1) ''-'' (NilLit (mkPos 1 2)))" "noting (\<lambda>n. True)" "[]"]
    Inspect_order [of "ExprNode (NilLit (mkPos 1 2))" "noting (\<lambda>n. True)"]
  by (simp add: noting_def)

text \<open>C21. The nodes visited are exactly those that can be reached from the root through children
of nodes the visitor did not skip.\<close>

theorem visited_reachable:
  "\<not> isBlockStmt n \<Longrightarrow> set (visited go n) = {m. (stepsTo go)\<^sup>*\<^sup>* n m}"
  by (rule set_visited)

theorem visited_reachable_witness:
  "set (visited (\<lambda>n. True) (ExprNode (NilLit (mkPos 1 1)))) =
     {m. (stepsTo (\<lambda>n. True))\<^sup>*\<^sup>* (ExprNode (NilLit (mkPos 1 1))) m}"
  by (rule visited_reachable) simp

text \<open>C22. A traversal of a lowered program that does not enter \<open>evaluate\<close> blocks never visits an
interpolated string, a tagged form or a list literal.\<close>

theorem lowered_program_no_sugar:
  "filter isSugar (visited outsideEvaluate (ProgramNode (DesugarSyntax prog))) = []"
  by (rule free_visited) (simp_all add: isBlockStmt_def sugarFree_DesugarSyntax)

section \<open>Where the parser departs from its documentation\<close>

text \<open>C23. \<open>canStartExpr\<close> does not know the receive and the complement operator: after
\<open>return\<close> they end the statement, which returns nothing, and are left for the next one.\<close>

theorem return_before_receive:
  "tType (peek (advance s)) \<in> {TOKEN_ARROW, TOKEN_BIT_XOR} \<Longrightarrow>
   parseReturnStmt P s = POk (ReturnStmt (currentPos s) []) (advance s)"
  by (auto simp: parseReturnStmt_def canStartExpr_def exprStarts_def matchAny_def Let_def)

theorem return_before_receive_witness:
  "parseReturnStmt (tie 0) (newParser [mkToken TOKEN_RETURN ''return'' 1 1, mkToken TOKEN_ARROW ''<-'' 1 8]) =
     POk (ReturnStmt (mkPos 1 1) []) (advance (newParser [mkToken TOKEN_RETURN ''return'' 1 1, mkToken TOKEN_ARROW ''<-'' 1 8]))"
proof -
  let ?s = "newParser [mkToken TOKEN_RETURN ''return'' 1 1, mkToken TOKEN_ARROW ''<-'' 1 8]"
  have "tType (peek (advance ?s)) = TOKEN_ARROW" "currentPos ?s = mkPos 1 1" by code_simp+
  with return_before_receive [of ?s "tie 0"] show ?thesis by simp
qed

text \<open>C24. A unary operator takes a power as its operand and never is the base of one: after
\<open>parseUnary\<close> the next token is not \<open>**\<close>, so the branch of \<open>parseUnary\<close> that would make a
unary expression the base is never taken.\<close>

theorem unary_not_base:
  "parseFuel s \<le> n \<Longrightarrow> pUnary (tie n) s = POk e s' \<Longrightarrow>
   tType (peek s') \<noteq> TOKEN_POW \<and> gExpr 7 e (pending s) (pending s')"
  using parse_methods_total(3) [of s n] power_stops by (auto simp: exprDone_def wp_def)

theorem unary_not_base_witness:
  "tType (peek (advance (advance sampleExpr))) \<noteq> TOKEN_POW \<and>
   gExpr 7 (UnaryExpr (mkPos 1 1) ''-'' (IdentExpr (mkPos 1 2) ''a'')) (pending sampleExpr)
     (pending (advance (advance sampleExpr)))"
  by (rule unary_not_base [OF order_refl sampleExpr_parse(2)])
section \<open>Values and instructions\<close>

text \<open>C25. Boxing keeps an integer of 48 bits exactly and turns any other into the nearest float; it
keeps every float that is not a NaN. The two packages that box values agree.\<close>

theorem boxing_numbers:
  "(if inInt48 (sint i) then IsInt (IntValue i) \<and> \<not> IsFloat (IntValue i) \<and> IntOf (IntValue i) = i
    else IsFloat (IntValue i) \<and> \<not> IsInt (IntValue i) \<and> Number (IntValue i) = floatOfInt (sint i)) \<and>
   (if fIsNaN f then FloatValue f \<in> {f, canonicalNaN} else FloatValue f = f) \<and>
   IsFloat (FloatValue f) \<and> inInt48 (sint (IntOf v)) \<and> nbFromInt i = IntValue i \<and> nbToInt v = IntOf v"
proof -
  have "FloatValue f \<in> {f, canonicalNaN}" by (simp add: FloatValue_def)
  moreover have "IsInt (IntValue i) \<longleftrightarrow> \<not> IsFloat (IntValue i)" "IsInt (IntValue i) = inInt48 (sint i)"
    using IntValue_large [of i] IsInt_IntValue [of i] by (auto dest: int_not_float)
  ultimately show ?thesis
    by (simp add: IntOf_IntValue Number_IntValue IsFloat_FloatValue FloatValue_id inInt48_IntOf
        nbFromInt_IntValue nbToInt_IntOf)
qed

text \<open>C26. Two finite numbers are compared by their mathematical values, whether they are boxed as
integers or as floats.\<close>

theorem number_comparison:
  "IsNumber v \<Longrightarrow> IsNumber w \<Longrightarrow> fFinite (Number v) \<Longrightarrow> fFinite (Number w) \<Longrightarrow>
   Equal mem v w = (fval (Number v) = fval (Number w)) \<and>
   LessThan mem v w = (fval (Number v) < fval (Number w), True)"
  by (simp add: Equal_numbers LessThan_def fEq_fval fLess_fval)

theorem number_comparison_witness:
  "LessThan noMemory (IntValue 1) (FloatValue (floatOfInt 2)) =
     (fval (Number (IntValue 1)) < fval (Number (FloatValue (floatOfInt 2))), True)"
proof -
  have one: "Number (IntValue 1) = floatOfInt 1" by (simp add: Number_IntValue)
  have two: "FloatValue (floatOfInt 2) = floatOfInt 2" by (simp add: FloatValue_id floatOfInt_def floatBits_not_nan)
  have "IsFloat (floatOfInt 2)" using IsFloat_FloatValue [of "floatOfInt 2"] two by simp
  then have "\<not> IsInt (floatOfInt 2)" by (auto dest: int_not_float)
  then have two': "Number (FloatValue (floatOfInt 2)) = floatOfInt 2" by (simp add: two Number_def)
  have "IsNumber (IntValue 1)" "IsNumber (FloatValue (floatOfInt 2))"
    by (auto simp: IsNumber_def IsFloat_FloatValue IsInt_IntValue inInt48_def minInt48_def maxInt48_def)
  moreover have "fFinite (Number (IntValue 1))" "fFinite (Number (FloatValue (floatOfInt 2)))"
    unfolding one two' using floatOfInt_exact [of 1] floatOfInt_exact [of 2] by simp_all
  ultimately show ?thesis by (rule conjunct2 [OF number_comparison])
qed

text \<open>C27. Instructions are encoded without loss: the operands of an encoded instruction are read back
modulo the width of their field, a jump offset exactly between -32767 and 32768, and every
instruction word is the encoding of its own fields.\<close>

theorem instruction_roundtrip:
  "DecodeOp (EncodeABC op a b c) = op \<and> DecodeA (EncodeABC op a b c) = a mod 256 \<and>
   DecodeB (EncodeABC op a b c) = b mod 256 \<and> DecodeC (EncodeABC op a b c) = c mod 256 \<and>
   DecodeOp (EncodeABx op a x) = op \<and> DecodeA (EncodeABx op a x) = a mod 256 \<and> DecodeBx (EncodeABx op a x) = x mod 65536 \<and>
   (DecodesBx (EncodeAsBx op a x) = x) = (- 32767 \<le> x \<and> x \<le> 32768) \<and>
   (DecodesBx (EncodesBx op x) = x) = (- 32767 \<le> x \<and> x \<le> 32768) \<and>
   EncodeABC (DecodeOp w) (DecodeA w) (DecodeB w) (DecodeC w) = w \<and>
   EncodeABx (DecodeOp w) (DecodeA w) (DecodeBx w) = w \<and> EncodeAsBx (DecodeOp w) (DecodeA w) (DecodesBx w) = w"
  using sBx_exact [of op x] by (simp add: encode_fields)

text \<open>C28. The compiler returns a prototype or one of its errors for every program: the nested calls
it is given are enough.\<close>

theorem Compile_returns:
  "CompileWithGlobals prog globals \<noteq> Inl EFuel"
  by (rule CompileWithGlobals_answers)
section \<open>Programs that are compiled to something else than they say\<close>





text \<open>C33. What the compiler returns is well-formed bytecode, nested functions included: every register
an instruction names lies in the frame, every constant, upvalue, prototype and constructor index in
its table, every jump of a function of at most 32767 instructions inside the code, the code ends with
a return, and each captured variable exists in the enclosing function. The hypothesis excludes value
lists that end in a call which supplies fewer values than there are names (\<open>fillsNames\<close>), where the
compiler frees registers it never allocated (C31).\<close>

theorem compiled_program_valid:
  assumes "fitsProgram prog" "CompileWithGlobals prog globals = Inr p"
  shows "validProto p"
  by (rule compiled_proto [OF assms])

theorem compiled_program_valid_witness:
  "parseSource ''func f(n) { t := {1, x: n}; for i := 0; i < n; i++ { t[i] = n }; return t }'' = Inr fillTable \<and>
   (\<exists>p. CompileWithGlobals fillTable [] = Inr p \<and> validProto p)"
proof -
  obtain p where "CompileWithGlobals fillTable [] = Inr p"
    using fillTable_compiles(1) by (auto simp: errorOf_def Compile_def split: sum.splits)
  with compiled_program_valid [OF fillTable_fits this] fillTable_parse show ?thesis by blast
qed

text \<open>C34. An expression compiled into the register \<open>dest\<close>, above the locals and at most the next free
one, leaves a well-formed compiler with the same locals, allocates at most \<open>dest\<close> itself, and emits
code that writes no register below \<open>dest\<close>, as long as the frame has at most 256 registers.\<close>

theorem expression_keeps_lower_registers:
  assumes "wellFormed c" "fitsExpr e" "vTop (viewOf (cFn c)) \<le> dest" "dest \<le> fNextReg (cFn c)"
    "rExprTo (compileAt n) e dest c = COk u c'"
  shows "wellFormed c' \<and> map lvKey (fLocals (cFn c')) = map lvKey (fLocals (cFn c)) \<and>
    fNextReg (cFn c) \<le> fNextReg (cFn c') \<and> fNextReg (cFn c') \<le> max (fNextReg (cFn c)) (dest + 1) \<and>
    (fMaxReg (cFn c') + 2 \<le> 256 \<longrightarrow>
      (\<forall>i. length (fCode (cFn c)) \<le> i \<longrightarrow> i < length (fCode (cFn c')) \<longrightarrow> keepsBelow dest (fCode (cFn c') ! i)))"
  using expression_result [OF assms] by (simp add: afterExpr_def sameScope_def)

theorem expression_keeps_lower_registers_witness:
  "\<exists>c. rExprTo (compileAt 2) sampleSum 1 oneRegister = COk () c \<and> wellFormed c \<and>
     fCode (cFn c) = [EncodeAsBx OP_LOADINT 1 1, EncodeAsBx OP_LOADINT 2 2, EncodeABC OP_ADD 1 1 2] \<and>
     keepsBelow 1 (EncodeABC OP_ADD 1 1 2)"
proof -
  obtain c where run: "rExprTo (compileAt 2) sampleSum 1 oneRegister = COk () c" and
    code: "fCode (cFn c) = [EncodeAsBx OP_LOADINT 1 1, EncodeAsBx OP_LOADINT 2 2, EncodeABC OP_ADD 1 1 2]" "fMaxReg (cFn c) = 3"
    using sampleSum_run by (cases "rExprTo (compileAt 2) sampleSum 1 oneRegister") auto
  have "fitsExpr sampleSum" "vTop (viewOf (cFn oneRegister)) \<le> 1" "1 \<le> fNextReg (cFn oneRegister)" "fCode (cFn oneRegister) = []"
    using oneRegister_registers by (auto simp: sampleSum_def vTop_def)
  with expression_keeps_lower_registers [OF samples_wellFormed(1) _ _ _ run] have w: "wellFormed c"
    "\<forall>i. i < length (fCode (cFn c)) \<longrightarrow> keepsBelow 1 (fCode (cFn c) ! i)" using code(2) by auto
  then have "keepsBelow 1 (fCode (cFn c) ! 2)" using code(1) by auto
  with run code w(1) show ?thesis by (auto simp: numeral_2_eq_2)
qed



end
